(* ===== verification/Prelude.thy ===== *)
theory Prelude
  imports Main "HOL-Library.Word" "HOL-Library.List_Lexorder" "HOL-Library.Char_ord"
begin

text \<open>
  Shared base of the development: the exceptions of the library, computations that
  thread a state and may throw, the weakest-precondition calculus the component proofs
  run on, and the named collections of simplification and preservation rules.

  A C++ member function that mutates its object and may throw becomes a computation
  \<open>'s \<Rightarrow> (exn + 'a) \<times> 's\<close>. The state is returned on the exceptional path too: a C++
  exception does not roll back the assignments made before the throw, and several
  handlers of this library catch exceptions and go on with the half-updated object.
\<close>

section \<open>Collections\<close>

named_theorems wp_simps "weakest-precondition equations of the computation combinators"
named_theorems run_simps "execution equations of the computation combinators"

section \<open>Exceptions\<close>

text \<open>
  The exception classes of \<^verbatim>\<open>exception.h\<close> that the modelled code throws. Further
  values stand for outcomes outside that hierarchy: \<open>StdOutOfRange\<close> is
  \<^verbatim>\<open>std::out_of_range\<close> (thrown by \<^verbatim>\<open>std::map::at\<close>), \<open>StdBadVariantAccess\<close> and \<open>StdIosFailure\<close> are
  \<^verbatim>\<open>std::bad_variant_access\<close> and \<^verbatim>\<open>std::ios_base::failure\<close>, \<open>MqttException\<close> is \<^verbatim>\<open>mqtt::exception\<close>, and \<open>UndefinedBehaviour\<close> marks
  the points where the C++ program has no defined behaviour (dereferencing a null pointer,
  an end iterator or an empty optional, a wrong static cast) or is terminated because an exception
  leaves a function declared \<^verbatim>\<open>noexcept\<close>.
\<close>

datatype exn =
    VDA5050PPInvalidEventData
  | VDA5050PPInvalidArgument
  | VDA5050PPCallbackNotSet
  | VDA5050PPSynchronizedEventNotAcquired
  | VDA5050PPNullPointer
  | VDA5050PPSynchronizedEventTimedOut
  | VDA5050PPInvalidActionParameterType
  | VDA5050PPInvalidActionParameterKey
  | VDA5050PPInvalidConfiguration
  | VDA5050PPInvalidState
  | VDA5050PPTOMLError
  | VDA5050PPBadCast
  | VDA5050PPNotInitialized
  | VDA5050PPMqttError
  | StdOutOfRange
  | StdBadVariantAccess
  | StdIosFailure
  | MqttException
  | UndefinedBehaviour

text \<open>What a \<^verbatim>\<open>catch (const VDA5050PPError &)\<close> clause catches.\<close>

definition is_VDA5050PPError :: "exn \<Rightarrow> bool" where
  "is_VDA5050PPError e \<longleftrightarrow>
     e \<noteq> StdOutOfRange \<and> e \<noteq> StdBadVariantAccess \<and> e \<noteq> StdIosFailure \<and>
     e \<noteq> MqttException \<and> e \<noteq> UndefinedBehaviour"

section \<open>Computations\<close>

type_synonym ('s, 'a) comp = "'s \<Rightarrow> (exn + 'a) \<times> 's"

definition ret :: "'a \<Rightarrow> ('s, 'a) comp" where
  "ret x s = (Inr x, s)"

definition throw :: "exn \<Rightarrow> ('s, 'a) comp" where
  "throw e s = (Inl e, s)"

definition bindM :: "('s, 'a) comp \<Rightarrow> ('a \<Rightarrow> ('s, 'b) comp) \<Rightarrow> ('s, 'b) comp" where
  "bindM m f s = (case m s of (Inl e, t) \<Rightarrow> (Inl e, t) | (Inr x, t) \<Rightarrow> f x t)"

definition seqM :: "('s, 'a) comp \<Rightarrow> ('s, 'b) comp \<Rightarrow> ('s, 'b) comp" where
  "seqM m n = bindM m (\<lambda>_. n)"

definition gets :: "('s \<Rightarrow> 'a) \<Rightarrow> ('s, 'a) comp" where
  "gets f s = (Inr (f s), s)"

definition modify :: "('s \<Rightarrow> 's) \<Rightarrow> ('s, unit) comp" where
  "modify f s = (Inr (), f s)"

definition whenM :: "bool \<Rightarrow> ('s, unit) comp \<Rightarrow> ('s, unit) comp" where
  "whenM b m = (if b then m else ret ())"

text \<open>A sum as a computation: the value is passed on, an error is thrown.\<close>

definition liftE :: "exn + 'a \<Rightarrow> ('s, 'a) comp" where
  "liftE r s = (r, s)"

text \<open>A range-based for loop whose body may throw.\<close>

fun forM :: "'a list \<Rightarrow> ('a \<Rightarrow> ('s, unit) comp) \<Rightarrow> ('s, unit) comp" where
  "forM [] f = ret ()"
| "forM (x # xs) f = seqM (f x) (forM xs f)"

text \<open>\<^verbatim>\<open>try { m } catch (const VDA5050PPError &) { log }\<close>.\<close>

definition try_log :: "('s, unit) comp \<Rightarrow> ('s, unit) comp" where
  "try_log m s =
     (case m s of
        (Inl e, t) \<Rightarrow> (if is_VDA5050PPError e then (Inr (), t) else (Inl e, t))
      | (Inr x, t) \<Rightarrow> (Inr x, t))"

lemma run_ret [run_simps]: "ret x s = (Inr x, s)"
  by (simp add: ret_def)

lemma run_throw [run_simps]: "throw e s = (Inl e, s)"
  by (simp add: throw_def)

lemma run_bindM [run_simps]:
  "bindM m f s = (case m s of (Inl e, t) \<Rightarrow> (Inl e, t) | (Inr x, t) \<Rightarrow> f x t)"
  by (simp add: bindM_def)

lemma run_seqM [run_simps]:
  "seqM m n s = (case m s of (Inl e, t) \<Rightarrow> (Inl e, t) | (Inr x, t) \<Rightarrow> n t)"
  by (simp add: seqM_def bindM_def)

lemma run_gets [run_simps]: "gets f s = (Inr (f s), s)"
  by (simp add: gets_def)

lemma run_modify [run_simps]: "modify f s = (Inr (), f s)"
  by (simp add: modify_def)

lemma run_whenM [run_simps]: "whenM b m s = (if b then m s else (Inr (), s))"
  by (simp add: whenM_def ret_def)

lemma run_liftE [run_simps]: "liftE r s = (r, s)"
  by (simp add: liftE_def)

section \<open>Weakest preconditions\<close>

text \<open>
  \<open>wp m Q s\<close>: running \<open>m\<close> from \<open>s\<close> ends in a result and a state that satisfy \<open>Q\<close>.
  Computations are total, so this is total correctness; the result given to \<open>Q\<close> may be
  an exception.
\<close>

definition wp :: "('s, 'a) comp \<Rightarrow> (exn + 'a \<Rightarrow> 's \<Rightarrow> bool) \<Rightarrow> 's \<Rightarrow> bool" where
  "wp m Q s = (case m s of (r, t) \<Rightarrow> Q r t)"

lemma wp_ret [wp_simps]: "wp (ret x) Q s = Q (Inr x) s"
  by (simp add: wp_def ret_def)

lemma wp_throw [wp_simps]: "wp (throw e) Q s = Q (Inl e) s"
  by (simp add: wp_def throw_def)

lemma wp_bindM [wp_simps]:
  "wp (bindM m f) Q s = wp m (\<lambda>r t. case r of Inl e \<Rightarrow> Q (Inl e) t | Inr x \<Rightarrow> wp (f x) Q t) s"
  by (simp add: wp_def bindM_def split: prod.splits sum.splits)

lemma wp_seqM [wp_simps]:
  "wp (seqM m n) Q s = wp m (\<lambda>r t. case r of Inl e \<Rightarrow> Q (Inl e) t | Inr x \<Rightarrow> wp n Q t) s"
  by (simp add: seqM_def wp_bindM)

lemma wp_gets [wp_simps]: "wp (gets f) Q s = Q (Inr (f s)) s"
  by (simp add: wp_def gets_def)

lemma wp_modify [wp_simps]: "wp (modify f) Q s = Q (Inr ()) (f s)"
  by (simp add: wp_def modify_def)

lemma wp_whenM [wp_simps]: "wp (whenM b m) Q s = (if b then wp m Q s else Q (Inr ()) s)"
  by (simp add: wp_def whenM_def ret_def)

lemma wp_liftE [wp_simps]: "wp (liftE r) Q s = Q r s"
  by (simp add: wp_def liftE_def)

lemma wp_if [wp_simps]: "wp (if b then m else n) Q s = (if b then wp m Q s else wp n Q s)"
  by simp

lemma wp_mono: "wp m Q s \<Longrightarrow> (\<And>r t. Q r t \<Longrightarrow> R r t) \<Longrightarrow> wp m R s"
  by (auto simp: wp_def split: prod.splits)

lemma wp_conj: "wp m Q s \<Longrightarrow> wp m R s \<Longrightarrow> wp m (\<lambda>r t. Q r t \<and> R r t) s"
  by (auto simp: wp_def split: prod.splits)

text \<open>A loop keeps what every iteration keeps, whether or not it is left by a throw.\<close>

lemma wp_forM:
  assumes "I s" and "\<And>x t. x \<in> set xs \<Longrightarrow> I t \<Longrightarrow> wp (f x) (\<lambda>r u. I u) t"
  shows "wp (forM xs f) (\<lambda>r u. I u) s"
  using assms
proof (induction xs arbitrary: s)
  case Nil
  then show ?case by (simp add: wp_ret)
next
  case (Cons x xs)
  have "wp (f x) (\<lambda>r u. I u) s" using Cons.prems by simp
  then show ?case
    unfolding forM.simps wp_seqM
    by (rule wp_mono) (use Cons.IH Cons.prems(2) in \<open>auto split: sum.splits\<close>)
qed

section \<open>Preservation of an invariant\<close>

text \<open>
  \<open>preserves I m\<close>: the computation keeps \<open>I\<close> on every path, the exceptional ones
  included. The rules below follow the shape of the computation.
\<close>

definition preserves :: "('s \<Rightarrow> bool) \<Rightarrow> ('s, 'a) comp \<Rightarrow> bool" where
  "preserves I m \<longleftrightarrow> (\<forall>s. I s \<longrightarrow> I (snd (m s)))"

named_theorems preserves_intros "preservation rules of the computation combinators"

lemma preservesI: "(\<And>s. I s \<Longrightarrow> I (snd (m s))) \<Longrightarrow> preserves I m"
  by (simp add: preserves_def)

lemma preservesD: "preserves I m \<Longrightarrow> I s \<Longrightarrow> I (snd (m s))"
  by (simp add: preserves_def)

lemma preserves_wp: "preserves I m \<longleftrightarrow> (\<forall>s. I s \<longrightarrow> wp m (\<lambda>r. I) s)"
  by (simp add: preserves_def wp_def split_beta)

lemma preserves_ret [preserves_intros]: "preserves I (ret x)"
  by (simp add: preserves_def ret_def)

lemma preserves_throw [preserves_intros]: "preserves I (throw e)"
  by (simp add: preserves_def throw_def)

lemma preserves_gets [preserves_intros]: "preserves I (gets f)"
  by (simp add: preserves_def gets_def)

lemma preserves_liftE [preserves_intros]: "preserves I (liftE r)"
  by (simp add: preserves_def liftE_def)

lemma preserves_modify: "(\<And>s. I s \<Longrightarrow> I (f s)) \<Longrightarrow> preserves I (modify f)"
  by (simp add: preserves_def modify_def)

lemma preserves_bindM [preserves_intros]:
  "preserves I m \<Longrightarrow> (\<And>x. preserves I (f x)) \<Longrightarrow> preserves I (bindM m f)"
  by (fastforce simp: preserves_def bindM_def split: prod.splits sum.splits)

lemma preserves_seqM [preserves_intros]:
  "preserves I m \<Longrightarrow> preserves I n \<Longrightarrow> preserves I (seqM m n)"
  by (simp add: seqM_def preserves_bindM)

lemma preserves_whenM [preserves_intros]: "(b \<Longrightarrow> preserves I m) \<Longrightarrow> preserves I (whenM b m)"
  by (simp add: whenM_def preserves_ret)

lemma preserves_if [preserves_intros]:
  "(b \<Longrightarrow> preserves I m) \<Longrightarrow> (\<not> b \<Longrightarrow> preserves I n) \<Longrightarrow> preserves I (if b then m else n)"
  by simp

lemma preserves_forM [preserves_intros]:
  "(\<And>x. x \<in> set xs \<Longrightarrow> preserves I (f x)) \<Longrightarrow> preserves I (forM xs f)"
  by (induction xs) (auto intro!: preserves_ret preserves_seqM)

lemma preserves_try_log [preserves_intros]: "preserves I m \<Longrightarrow> preserves I (try_log m)"
  by (fastforce simp: preserves_def try_log_def split: prod.splits sum.splits)

section \<open>Guarded systems\<close>

text \<open>
  A component whose operations keep an invariant when their caller respects a guard. The
  callers catch exceptions and go on, so a run applies every operation to the state the
  previous one left.
\<close>

fun run_ops :: "('op \<Rightarrow> 's \<Rightarrow> 's) \<Rightarrow> 'op list \<Rightarrow> 's \<Rightarrow> 's" where
  "run_ops exec [] s = s"
| "run_ops exec (p # ps) s = run_ops exec ps (exec p s)"

fun ops_ok :: "('op \<Rightarrow> 's \<Rightarrow> bool) \<Rightarrow> ('op \<Rightarrow> 's \<Rightarrow> 's) \<Rightarrow> 'op list \<Rightarrow> 's \<Rightarrow> bool" where
  "ops_ok guard exec [] s = True"
| "ops_ok guard exec (p # ps) s \<longleftrightarrow> guard p s \<and> ops_ok guard exec ps (exec p s)"

locale guarded_system =
  fixes exec :: "'op \<Rightarrow> 's \<Rightarrow> 's"
    and guard :: "'op \<Rightarrow> 's \<Rightarrow> bool"
    and inv :: "'s \<Rightarrow> bool"
  assumes inv_exec: "inv s \<Longrightarrow> guard p s \<Longrightarrow> inv (exec p s)"
begin

lemma run_inv: "inv s \<Longrightarrow> ops_ok guard exec ps s \<Longrightarrow> inv (run_ops exec ps s)"
  by (induction ps arbitrary: s) (auto intro: inv_exec)

lemma run_inv_prefix:
  "inv s \<Longrightarrow> ops_ok guard exec (ps @ qs) s \<Longrightarrow> inv (run_ops exec ps s)"
  by (induction ps arbitrary: s) (auto intro: inv_exec)

end

section \<open>Lists and finite ranges of machine words\<close>

type_synonym seq_id = "32 word"
type_synonym uint32 = "32 word"

lemma filter_empty_iff: "filter P xs = [] \<longleftrightarrow> (\<forall>x \<in> set xs. \<not> P x)"
  by (induction xs) auto

lemma find_append:
  "List.find P (xs @ ys) =
     (case List.find P xs of None \<Rightarrow> List.find P ys | Some x \<Rightarrow> Some x)"
  by (induction xs) auto

lemma find_eq_filter: "List.find P xs = (case filter P xs of [] \<Rightarrow> None | y # ys \<Rightarrow> Some y)"
  by (induction xs) auto

end
