(* ===== verification/StdMap.thy ===== *)
theory StdMap
  imports Prelude
begin

text \<open>
  \<^verbatim>\<open>std::map\<close> as an association list in strictly ascending key order, with the member
  functions the library calls. Iteration over the map is iteration over the list, so the
  order in which the C++ loops visit (and mutate) the entries is part of the model.
  String keys are compared byte-wise, as \<^verbatim>\<open>std::less<>\<close> does.

  The locale \<open>map_ops\<close> is the interface the components rely on; its laws are discharged
  once, for these functions.
\<close>

section \<open>Operations\<close>

type_synonym ('k, 'v) std_map = "('k \<times> 'v) list"

definition wf_map :: "('k::linorder, 'v) std_map \<Rightarrow> bool" where
  "wf_map m \<longleftrightarrow> sorted_wrt (<) (map fst m)"

text \<open>\<^verbatim>\<open>insert_or_assign\<close> (and \<^verbatim>\<open>operator[]\<close> on the left of an assignment).\<close>

fun insert_or_assign :: "'k::linorder \<Rightarrow> 'v \<Rightarrow> ('k, 'v) std_map \<Rightarrow> ('k, 'v) std_map" where
  "insert_or_assign k v [] = [(k, v)]"
| "insert_or_assign k v ((a, b) # m) =
     (if k < a then (k, v) # (a, b) # m
      else if k = a then (k, v) # m
      else (a, b) # insert_or_assign k v m)"

text \<open>\<^verbatim>\<open>insert\<close> / \<^verbatim>\<open>try_emplace\<close>: an existing entry is kept.\<close>

definition try_emplace :: "'k::linorder \<Rightarrow> 'v \<Rightarrow> ('k, 'v) std_map \<Rightarrow> ('k, 'v) std_map" where
  "try_emplace k v m = (case map_of m k of None \<Rightarrow> insert_or_assign k v m | Some _ \<Rightarrow> m)"

text \<open>\<^verbatim>\<open>erase(key)\<close>.\<close>

definition map_erase :: "'k \<Rightarrow> ('k, 'v) std_map \<Rightarrow> ('k, 'v) std_map" where
  "map_erase k m = filter (\<lambda>p. fst p \<noteq> k) m"

text \<open>\<^verbatim>\<open>upper_bound(key)\<close>, and the entry before it (\<^verbatim>\<open>--it\<close>), \<open>None\<close> for \<^verbatim>\<open>end()\<close>.\<close>

definition upper_bound :: "'k::linorder \<Rightarrow> ('k, 'v) std_map \<Rightarrow> ('k \<times> 'v) option" where
  "upper_bound k m = List.find (\<lambda>p. k < fst p) m"

definition before_upper_bound :: "'k::linorder \<Rightarrow> ('k, 'v) std_map \<Rightarrow> ('k \<times> 'v) option" where
  "before_upper_bound k m =
     (case filter (\<lambda>p. fst p \<le> k) m of [] \<Rightarrow> None | p # ps \<Rightarrow> Some (last (p # ps)))"

text \<open>
  \<^verbatim>\<open>erase(find(k), end())\<close> and \<^verbatim>\<open>erase(begin(), find(k))\<close>. When the key is absent,
  \<^verbatim>\<open>find\<close> is \<^verbatim>\<open>end()\<close>: the first erases nothing, the second everything.
\<close>

definition erase_from :: "'k \<Rightarrow> ('k, 'v) std_map \<Rightarrow> ('k, 'v) std_map" where
  "erase_from k m = takeWhile (\<lambda>p. fst p \<noteq> k) m"

definition erase_until :: "'k \<Rightarrow> ('k, 'v) std_map \<Rightarrow> ('k, 'v) std_map" where
  "erase_until k m = dropWhile (\<lambda>p. fst p \<noteq> k) m"

text \<open>Inserting a sequence of entries, existing ones kept: \<^verbatim>\<open>merge\<close> and insert loops.\<close>

definition emplace_all :: "('k::linorder \<times> 'v) list \<Rightarrow> ('k, 'v) std_map \<Rightarrow> ('k, 'v) std_map" where
  "emplace_all xs m = fold (\<lambda>(k, v). try_emplace k v) xs m"

section \<open>The interface\<close>

locale map_ops =
  fixes lookup :: "'m \<Rightarrow> 'k \<Rightarrow> 'v option"
    and assign :: "'k \<Rightarrow> 'v \<Rightarrow> 'm \<Rightarrow> 'm"
    and emplace :: "'k \<Rightarrow> 'v \<Rightarrow> 'm \<Rightarrow> 'm"
    and ok :: "'m \<Rightarrow> bool"
  assumes lookup_assign: "ok m \<Longrightarrow> lookup (assign k v m) = (lookup m)(k := Some v)"
    and emplace_eq: "ok m \<Longrightarrow> emplace k v m = (if lookup m k = None then assign k v m else m)"
    and ok_assign: "ok m \<Longrightarrow> ok (assign k v m)"
begin

lemma ok_emplace: "ok m \<Longrightarrow> ok (emplace k v m)"
  by (simp add: emplace_eq ok_assign)

lemma lookup_emplace:
  "ok m \<Longrightarrow> lookup (emplace k v m) j =
     (case lookup m j of Some w \<Rightarrow> Some w | None \<Rightarrow> if j = k then Some v else None)"
  by (simp add: emplace_eq lookup_assign split: option.splits)

lemma lookup_assign_same: "ok m \<Longrightarrow> lookup (assign k v m) k = Some v"
  by (simp add: lookup_assign)

lemma lookup_assign_other: "ok m \<Longrightarrow> j \<noteq> k \<Longrightarrow> lookup (assign k v m) j = lookup m j"
  by (simp add: lookup_assign)

lemma ok_fold_emplace: "ok m \<Longrightarrow> ok (fold (\<lambda>(k, v). emplace k v) xs m)"
  by (induction xs arbitrary: m) (auto simp: ok_emplace)

lemma lookup_fold_emplace:
  "ok m \<Longrightarrow> lookup (fold (\<lambda>(k, v). emplace k v) xs m) j =
     (case lookup m j of Some w \<Rightarrow> Some w | None \<Rightarrow> map_of xs j)"
proof (induction xs arbitrary: m)
  case Nil
  then show ?case by (simp split: option.splits)
next
  case (Cons x xs)
  obtain k v where [simp]: "x = (k, v)" by force
  show ?case using Cons.IH [of "emplace k v m"] Cons.prems
    by (simp add: ok_emplace lookup_emplace split: option.splits)
qed

end

section \<open>The laws for sorted association lists\<close>

lemma wf_map_Nil [simp]: "wf_map []"
  by (simp add: wf_map_def)

lemma wf_map_Cons: "wf_map (p # m) \<longleftrightarrow> (\<forall>q \<in> set m. fst p < fst q) \<and> wf_map m"
  by (auto simp: wf_map_def)

lemma set_insert_or_assign:
  "fst ` set (insert_or_assign k v m) = insert k (fst ` set m)"
  by (induction k v m rule: insert_or_assign.induct) auto

lemma set_insert_or_assign_subset: "set (insert_or_assign k v m) \<subseteq> insert (k, v) (set m)"
  by (induction k v m rule: insert_or_assign.induct) auto

lemma wf_insert_or_assign: "wf_map m \<Longrightarrow> wf_map (insert_or_assign k v m)"
proof (induction m)
  case Nil
  then show ?case by (simp add: wf_map_def)
next
  case (Cons p m)
  obtain a b where [simp]: "p = (a, b)" by force
  have "\<forall>q \<in> set (insert_or_assign k v m). a < fst q" if "a < k"
    using that Cons.prems set_insert_or_assign_subset [of k v m]
    by (auto simp: wf_map_Cons)
  then show ?case using Cons by (fastforce simp: wf_map_Cons)
qed

lemma map_of_insert_or_assign:
  "wf_map m \<Longrightarrow> map_of (insert_or_assign k v m) = (map_of m)(k := Some v)"
  by (induction m) (auto simp: wf_map_Cons fun_eq_iff)

interpretation sm: map_ops map_of insert_or_assign try_emplace wf_map
  by unfold_locales
    (auto simp: map_of_insert_or_assign wf_insert_or_assign try_emplace_def split: option.splits)

lemma wf_map_distinct: "wf_map m \<Longrightarrow> distinct (map fst m)"
  by (simp add: wf_map_def strict_sorted_iff)

lemma map_of_eq_Some_iff_wf: "wf_map m \<Longrightarrow> map_of m k = Some v \<longleftrightarrow> (k, v) \<in> set m"
  by (rule map_of_eq_Some_iff) (rule wf_map_distinct)

lemma wf_map_filter: "wf_map m \<Longrightarrow> wf_map (filter P m)"
  by (induction m) (auto simp: wf_map_Cons)

lemma wf_map_erase: "wf_map m \<Longrightarrow> wf_map (map_erase k m)"
  by (simp add: map_erase_def wf_map_filter)

lemma wf_emplace_all: "wf_map m \<Longrightarrow> wf_map (emplace_all xs m)"
  by (simp add: emplace_all_def sm.ok_fold_emplace)

lemma map_of_emplace_all:
  "wf_map m \<Longrightarrow> map_of (emplace_all xs m) j =
     (case map_of m j of Some w \<Rightarrow> Some w | None \<Rightarrow> map_of xs j)"
  by (simp add: emplace_all_def sm.lookup_fold_emplace)

lemma keys_eq_dom: "fst ` set m = dom (map_of m)"
  by (rule dom_map_of_conv_image_fst [symmetric])

lemma set_emplace_all:
  assumes "wf_map m"
  shows "set (emplace_all xs m) \<subseteq> set m \<union> set xs"
proof
  fix p assume "p \<in> set (emplace_all xs m)"
  then have "map_of (emplace_all xs m) (fst p) = Some (snd p)"
    using assms by (simp add: map_of_eq_Some_iff_wf wf_emplace_all)
  then show "p \<in> set m \<union> set xs"
    using assms by (auto simp: map_of_emplace_all split: option.splits dest!: map_of_SomeD)
qed

lemma wf_map_append:
  "wf_map (xs @ ys) \<longleftrightarrow> wf_map xs \<and> wf_map ys \<and> (\<forall>p \<in> set xs. \<forall>q \<in> set ys. fst p < fst q)"
  by (auto simp: wf_map_def sorted_wrt_append)

lemma wf_map_takeWhile: "wf_map m \<Longrightarrow> wf_map (takeWhile P m)"
  by (metis takeWhile_dropWhile_id wf_map_append)

lemma wf_map_dropWhile: "wf_map m \<Longrightarrow> wf_map (dropWhile P m)"
  by (metis takeWhile_dropWhile_id wf_map_append)

lemma wf_map_split:
  assumes "wf_map m" and "map_of m k = Some v"
  shows "m = takeWhile (\<lambda>p. fst p \<noteq> k) m @ (k, v) # tl (dropWhile (\<lambda>p. fst p \<noteq> k) m)"
  using assms by (induction m) (auto simp: wf_map_Cons split: if_splits)

lemma dropWhile_present:
  assumes "wf_map m" and "map_of m k = Some v"
  shows "dropWhile (\<lambda>p. fst p \<noteq> k) m = filter (\<lambda>p. k \<le> fst p) m"
  using assms
proof (induction m)
  case Nil
  then show ?case by simp
next
  case (Cons p m)
  show ?case
  proof (cases "fst p = k")
    case True
    with Cons.prems(1) have "\<forall>q \<in> set m. k \<le> fst q" by (auto simp: wf_map_Cons)
    with True show ?thesis by simp
  next
    case False
    with Cons.prems have m: "map_of m k = Some v" by auto
    then have "(k, v) \<in> set m" by (rule map_of_SomeD)
    with Cons.prems(1) have "fst p < k" by (auto simp: wf_map_Cons)
    with False m Cons show ?thesis by (simp add: wf_map_Cons)
  qed
qed

lemma takeWhile_present:
  assumes "wf_map m" and "map_of m k = Some v"
  shows "takeWhile (\<lambda>p. fst p \<noteq> k) m = filter (\<lambda>p. fst p < k) m"
  using assms
proof (induction m)
  case Nil
  then show ?case by simp
next
  case (Cons p m)
  show ?case
  proof (cases "fst p = k")
    case True
    with Cons.prems(1) have "\<forall>q \<in> set m. \<not> fst q < k" by (auto simp: wf_map_Cons)
    with True show ?thesis by (simp add: filter_empty_iff)
  next
    case False
    with Cons.prems have m: "map_of m k = Some v" by auto
    then have "(k, v) \<in> set m" by (rule map_of_SomeD)
    with Cons.prems(1) have "fst p < k" by (auto simp: wf_map_Cons)
    with False m Cons show ?thesis by (simp add: wf_map_Cons)
  qed
qed

lemma takeWhile_absent:
  "map_of m k = None \<Longrightarrow> takeWhile (\<lambda>p. fst p \<noteq> k) m = m"
  by (auto simp: map_of_eq_None_iff takeWhile_eq_all_conv)

lemma map_of_filter_key:
  "map_of (filter (\<lambda>p. Q (fst p)) m) k = (if Q k then map_of m k else None)"
  by (induction m) auto

lemma map_of_filter_value:
  assumes "wf_map m"
  shows "map_of (filter (\<lambda>p. P (snd p)) m) k =
     (case map_of m k of Some v \<Rightarrow> if P v then Some v else None | None \<Rightarrow> None)"
  using assms
proof (induction m)
  case (Cons p m)
  have "map_of m (fst p) = None"
    using wf_map_distinct [OF Cons.prems] by (simp add: map_of_eq_None_iff)
  then show ?case using Cons by (auto simp: wf_map_Cons split: option.split)
qed simp

end
