(* ===== verification/Types.thy ===== *)
theory Types
  imports StdMap
begin

text \<open>
  The VDA5050 message structures as far as the code reads or writes them, the library's
  \<^verbatim>\<open>OrderStatus\<close>, and the events the components exchange.

  The structures themselves (\<^verbatim>\<open>vda5050::Node\<close> and its companions) come from a header-only package
  that is not part of the repository. Only the fields the sources access are listed. Two
  of them have their width fixed by the sources: sequence ids and order update ids are
  stored in and compared with \<^verbatim>\<open>uint32_t\<close> (\<^verbatim>\<open>OrderManager::setAGVLastNode\<close>,
  \<^verbatim>\<open>YieldGraphExtension::order_update_id\<close>, the \<^verbatim>\<open>std::set<uint32_t>\<close> of
  \<^verbatim>\<open>checkOrderGraphConsistency\<close>), so they are 32-bit words here. Floating point members that
  are only copied are kept as their bit pattern.
\<close>

section \<open>Actions\<close>

datatype BlockingType = NONE | SOFT | HARD

text \<open>
  The code compares blocking types with \<^verbatim>\<open><\<close> and \<^verbatim>\<open>std::max\<close>, relying on the order of the
  enumerators.
\<close>

fun blocking_rank :: "BlockingType \<Rightarrow> nat" where
  "blocking_rank NONE = 0"
| "blocking_rank SOFT = 1"
| "blocking_rank HARD = 2"

lemma blocking_rank_inject [simp]: "blocking_rank a = blocking_rank b \<longleftrightarrow> a = b"
  by (cases a; cases b) auto

instantiation BlockingType :: linorder
begin

definition less_eq_BlockingType :: "BlockingType \<Rightarrow> BlockingType \<Rightarrow> bool" where
  "less_eq_BlockingType a b \<longleftrightarrow> blocking_rank a \<le> blocking_rank b"

definition less_BlockingType :: "BlockingType \<Rightarrow> BlockingType \<Rightarrow> bool" where
  "less_BlockingType a b \<longleftrightarrow> blocking_rank a < blocking_rank b"

instance
  by standard (auto simp: less_eq_BlockingType_def less_BlockingType_def)

end

lemma blocking_order [simp]:
  "NONE \<le> b" "b \<le> HARD" "NONE < SOFT" "SOFT < HARD" "NONE < HARD" "\<not> SOFT \<le> NONE"
  "\<not> HARD \<le> SOFT" "\<not> HARD \<le> NONE"
  by (cases b; simp add: less_eq_BlockingType_def less_BlockingType_def)+

record Action =
  actionId :: string
  actionType :: string
  actionDescription :: "string option"
  blockingType :: BlockingType
  actionParameters :: "(string \<times> string) list"

datatype ActionStatus = WAITING | INITIALIZING | RUNNING | PAUSED | FINISHED | FAILED

record ActionStateMsg =
  as_actionId :: string
  as_actionType :: string
  as_actionDescription :: "string option"
  as_actionStatus :: ActionStatus
  as_resultDescription :: "string option"

section \<open>Nodes, edges, orders\<close>

type_synonym double = "64 word"

record NodePosition =
  np_x :: double
  np_y :: double
  np_theta :: "double option"
  np_allowedDeviationXY :: "double option"
  np_allowedDeviationTheta :: "double option"
  np_mapId :: string

text \<open>A trajectory is only ever copied; its content is opaque.\<close>

datatype Trajectory = Trajectory (trajectory_payload: string)

record Node =
  n_nodeId :: string
  n_sequenceId :: seq_id
  n_nodeDescription :: "string option"
  n_released :: bool
  n_nodePosition :: "NodePosition option"
  n_actions :: "Action list"

record Edge =
  e_edgeId :: string
  e_sequenceId :: seq_id
  e_edgeDescription :: "string option"
  e_released :: bool
  e_trajectory :: "Trajectory option"
  e_actions :: "Action list"

record NodeState =
  ns_nodeId :: string
  ns_sequenceId :: seq_id
  ns_nodeDescription :: "string option"
  ns_nodePosition :: "NodePosition option"
  ns_released :: bool

record EdgeState =
  es_edgeId :: string
  es_sequenceId :: seq_id
  es_edgeDescription :: "string option"
  es_released :: bool
  es_trajectory :: "Trajectory option"

record HeaderVDA5050 =
  headerId :: uint32
  version :: string
  manufacturer :: string
  serialNumber :: string

record Order =
  o_header :: HeaderVDA5050
  o_orderId :: string
  o_orderUpdateId :: uint32
  o_zoneSetId :: "string option"
  o_nodes :: "Node list"
  o_edges :: "Edge list"

section \<open>Order status\<close>

text \<open>\<^verbatim>\<open>vda5050pp::misc::OrderStatus\<close>.\<close>

datatype OrderStatus =
    k_order_active
  | k_order_idle
  | k_order_idle_paused
  | k_order_canceling
  | k_order_pausing
  | k_order_resuming
  | k_order_paused
  | k_order_failed
  | k_order_interrupting

section \<open>Events\<close>

text \<open>\<^verbatim>\<open>core/events/order_event.h\<close>.\<close>

datatype OrderEvent =
    OrderActionStatusChanged string ActionStatus "string option"
  | OrderNewLastNodeId string seq_id
  | OrderStatusEvent OrderStatus
  | OrderClearAfterCancel Action

text \<open>\<^verbatim>\<open>events/action_event.h\<close>: what the library asks of an action's handler.\<close>

datatype ActionEvent =
    ActionPrepare Action
  | ActionStart string
  | ActionPause string
  | ActionResume string
  | ActionCancel string
  | ActionForget string

text \<open>\<^verbatim>\<open>events/navigation_event.h\<close>.\<close>

datatype NavigationControlType = nk_pause | nk_resume | nk_cancel

datatype NavigationEvent =
    NavigationHorizonUpdate "Node list" "Edge list"
  | NavigationBaseIncreased "Node list" "Edge list"
  | NavigationNextNode Node "Edge option"
  | NavigationUpcomingSegment seq_id seq_id
  | NavigationControl NavigationControlType

text \<open>
  What a component hands to the event managers, in program order. \<open>SyncOrderEvt\<close> is a
  \<^verbatim>\<open>synchronousDispatch\<close>: the subscribers run before the call returns, in the caller's thread.
\<close>

datatype Emitted =
    OrderEvt OrderEvent
  | SyncOrderEvt OrderEvent
  | ActionEvt ActionEvent
  | NavEvt NavigationEvent

text \<open>
  The subscribers of a synchronous dispatch, as seen by the dispatching code: they return,
  or one of them throws.
\<close>

type_synonym order_subscribers = "OrderEvent \<Rightarrow> exn option"

end
