(* ===== verification/TaskMachine.thy ===== *)
theory TaskMachine
  imports Types
begin

text \<open>
  The contract that the two task state machines (\<^verbatim>\<open>ActionTask\<close>, \<^verbatim>\<open>NavigationTask\<close>) share and the
  scheduler relies on: a transition yields a result, the new task and the events its effect
  emits; terminal tasks reject everything and never change again; a rejected transition has
  no effect.
\<close>

type_synonym 't transition_result = "(exn + unit) \<times> 't \<times> Emitted list"

text \<open>
  Sending a sequence of requests to a task; rejected ones leave it to the next request, as
  the callers of the library do. The events are those of all effects, in order.
\<close>

fun run_trans :: "('tr \<Rightarrow> 't \<Rightarrow> 't transition_result) \<Rightarrow> 'tr list \<Rightarrow> 't \<Rightarrow> 't \<times> Emitted list" where
  "run_trans exec [] t = (t, [])"
| "run_trans exec (tr # trs) t =
     (case exec tr t of (r, u, es) \<Rightarrow>
        (case run_trans exec trs u of (v, fs) \<Rightarrow> (v, es @ fs)))"

locale task_machine =
  fixes exec :: "'tr \<Rightarrow> 't \<Rightarrow> 't transition_result"
    and terminal :: "'t \<Rightarrow> bool"
    and paused :: "'t \<Rightarrow> bool"
    and key :: "'t \<Rightarrow> 'k"
  assumes terminal_rejects: "terminal t \<Longrightarrow> exec tr t = (Inl VDA5050PPInvalidState, t, [])"
    and terminal_not_paused: "terminal t \<Longrightarrow> \<not> paused t"
    and exec_key: "exec tr t = (r, u, es) \<Longrightarrow> key u = key t"
begin

lemma run_terminal: "terminal t \<Longrightarrow> run_trans exec trs t = (t, [])"
  by (induction trs) (simp_all add: terminal_rejects)

lemma run_key: "key (fst (run_trans exec trs t)) = key t"
proof (induction trs arbitrary: t)
  case (Cons tr trs)
  obtain r u es where u: "exec tr t = (r, u, es)" by (cases "exec tr t")
  then show ?case using Cons.IH [of u] exec_key [OF u] by (simp add: split_beta)
qed simp

lemma run_append:
  "run_trans exec (trs @ urs) t = (case run_trans exec trs t of (u, es) \<Rightarrow> (case run_trans exec urs u of (v, fs) \<Rightarrow> (v, es @ fs)))"
  by (induction trs arbitrary: t) (auto split: prod.splits)

lemma run_terminal_absorbing:
  assumes "terminal (fst (run_trans exec trs t))"
  shows "run_trans exec (trs @ urs) t = run_trans exec trs t"
  using assms by (simp add: run_append run_terminal split_beta)


end

end
