(* ===== verification/ActionTask.thy ===== *)
theory ActionTask
  imports TaskMachine
begin

text \<open>
  \<^verbatim>\<open>core/order/action_task\<close>: the state machine of one action. Every state class of the source
  is a constructor, its \<^verbatim>\<open>transition\<close> a case of a definition of its own, its \<^verbatim>\<open>effect\<close> the list
  of events it dispatches. The task's action pointer is non-null (the interpreter builds it
  with \<^verbatim>\<open>make_shared\<close>), so the action is a value.
\<close>

section \<open>Transitions and states\<close>

datatype ActionTransitionType =
    k_do_start
  | k_is_initializing
  | k_is_running
  | k_do_pause
  | k_is_paused
  | k_do_resume
  | k_is_failed
  | k_is_finished
  | k_do_cancel

record ActionTransition =
  at_type :: ActionTransitionType
  at_result :: "string option"

definition ActionTransition_doStart :: ActionTransition where
  "ActionTransition_doStart = \<lparr>at_type = k_do_start, at_result = None\<rparr>"

definition ActionTransition_isInitializing :: ActionTransition where
  "ActionTransition_isInitializing = \<lparr>at_type = k_is_initializing, at_result = None\<rparr>"

definition ActionTransition_isRunning :: ActionTransition where
  "ActionTransition_isRunning = \<lparr>at_type = k_is_running, at_result = None\<rparr>"

definition ActionTransition_doPause :: ActionTransition where
  "ActionTransition_doPause = \<lparr>at_type = k_do_pause, at_result = None\<rparr>"

definition ActionTransition_isPaused :: ActionTransition where
  "ActionTransition_isPaused = \<lparr>at_type = k_is_paused, at_result = None\<rparr>"

definition ActionTransition_doResume :: ActionTransition where
  "ActionTransition_doResume = \<lparr>at_type = k_do_resume, at_result = None\<rparr>"

definition ActionTransition_isFailed :: ActionTransition where
  "ActionTransition_isFailed = \<lparr>at_type = k_is_failed, at_result = None\<rparr>"

definition ActionTransition_isFinished :: "string option \<Rightarrow> ActionTransition" where
  "ActionTransition_isFinished result = \<lparr>at_type = k_is_finished, at_result = result\<rparr>"

definition ActionTransition_doCancel :: ActionTransition where
  "ActionTransition_doCancel = \<lparr>at_type = k_do_cancel, at_result = None\<rparr>"

lemmas action_transition_defs =
  ActionTransition_doStart_def ActionTransition_isInitializing_def ActionTransition_isRunning_def
  ActionTransition_doPause_def ActionTransition_isPaused_def ActionTransition_doResume_def
  ActionTransition_isFailed_def ActionTransition_isFinished_def ActionTransition_doCancel_def

datatype ActionState =
    ActionWaiting
  | ActionInitializing
  | ActionInitializingNoEffect
  | ActionRunning
  | ActionPausing
  | ActionResuming
  | ActionPaused
  | ActionCanceling
  | ActionFailed
  | ActionFinished "string option"

text \<open>The template flags \<^verbatim>\<open>ActionStateT<terminal, paused>\<close> of the state classes.\<close>

fun ActionState_isTerminal :: "ActionState \<Rightarrow> bool" where
  "ActionState_isTerminal ActionFailed = True"
| "ActionState_isTerminal (ActionFinished r) = True"
| "ActionState_isTerminal s = False"

fun ActionState_isPaused :: "ActionState \<Rightarrow> bool" where
  "ActionState_isPaused ActionResuming = True"
| "ActionState_isPaused ActionPaused = True"
| "ActionState_isPaused s = False"

section \<open>One transition function per state\<close>

definition ActionWaiting_transition :: "ActionTransition \<Rightarrow> exn + ActionState" where
  "ActionWaiting_transition t =
     (case at_type t of
        k_do_start \<Rightarrow> Inr ActionInitializing
      | k_do_cancel \<Rightarrow> Inr ActionCanceling
      | _ \<Rightarrow> Inl VDA5050PPInvalidState)"

definition ActionInitializing_transition :: "ActionTransition \<Rightarrow> exn + ActionState" where
  "ActionInitializing_transition t =
     (case at_type t of
        k_is_failed \<Rightarrow> Inr ActionFailed
      | k_is_finished \<Rightarrow> Inr (ActionFinished (at_result t))
      | k_is_running \<Rightarrow> Inr ActionRunning
      | k_do_cancel \<Rightarrow> Inr ActionCanceling
      | k_is_initializing \<Rightarrow> Inr ActionInitializingNoEffect
      | k_do_pause \<Rightarrow> Inr ActionPausing
      | k_is_paused \<Rightarrow> Inr ActionPaused
      | _ \<Rightarrow> Inl VDA5050PPInvalidState)"

definition ActionInitializingNoEffect_transition :: "ActionTransition \<Rightarrow> exn + ActionState" where
  "ActionInitializingNoEffect_transition t =
     (case at_type t of
        k_is_failed \<Rightarrow> Inr ActionFailed
      | k_is_finished \<Rightarrow> Inr (ActionFinished (at_result t))
      | k_is_running \<Rightarrow> Inr ActionRunning
      | k_do_cancel \<Rightarrow> Inr ActionCanceling
      | k_is_initializing \<Rightarrow> Inr ActionInitializingNoEffect
      | k_is_paused \<Rightarrow> Inr ActionPaused
      | k_do_pause \<Rightarrow> Inr ActionPausing
      | _ \<Rightarrow> Inl VDA5050PPInvalidState)"

definition ActionRunning_transition :: "ActionTransition \<Rightarrow> exn + ActionState" where
  "ActionRunning_transition t =
     (case at_type t of
        k_is_failed \<Rightarrow> Inr ActionFailed
      | k_is_finished \<Rightarrow> Inr (ActionFinished (at_result t))
      | k_do_pause \<Rightarrow> Inr ActionPausing
      | k_do_cancel \<Rightarrow> Inr ActionCanceling
      | _ \<Rightarrow> Inl VDA5050PPInvalidState)"

definition ActionPausing_transition :: "ActionTransition \<Rightarrow> exn + ActionState" where
  "ActionPausing_transition t =
     (case at_type t of
        k_is_failed \<Rightarrow> Inr ActionFailed
      | k_is_paused \<Rightarrow> Inr ActionPaused
      | k_do_cancel \<Rightarrow> Inr ActionCanceling
      | _ \<Rightarrow> Inl VDA5050PPInvalidState)"

definition ActionResuming_transition :: "ActionTransition \<Rightarrow> exn + ActionState" where
  "ActionResuming_transition t =
     (case at_type t of
        k_is_failed \<Rightarrow> Inr ActionFailed
      | k_is_running \<Rightarrow> Inr ActionRunning
      | k_do_cancel \<Rightarrow> Inr ActionCanceling
      | k_is_initializing \<Rightarrow> Inr ActionInitializingNoEffect
      | _ \<Rightarrow> Inl VDA5050PPInvalidState)"

definition ActionPaused_transition :: "ActionTransition \<Rightarrow> exn + ActionState" where
  "ActionPaused_transition t =
     (case at_type t of
        k_is_failed \<Rightarrow> Inr ActionFailed
      | k_do_resume \<Rightarrow> Inr ActionResuming
      | k_do_cancel \<Rightarrow> Inr ActionCanceling
      | k_is_initializing \<Rightarrow> Inr ActionInitializingNoEffect
      | k_is_running \<Rightarrow> Inr ActionRunning
      | _ \<Rightarrow> Inl VDA5050PPInvalidState)"

definition ActionCanceling_transition :: "ActionTransition \<Rightarrow> exn + ActionState" where
  "ActionCanceling_transition t =
     (case at_type t of
        k_is_failed \<Rightarrow> Inr ActionFailed
      | k_is_finished \<Rightarrow> Inr (ActionFinished (at_result t))
      | _ \<Rightarrow> Inl VDA5050PPInvalidState)"

definition ActionFailed_transition :: "ActionTransition \<Rightarrow> exn + ActionState" where
  "ActionFailed_transition t = Inl VDA5050PPInvalidState"

definition ActionFinished_transition :: "ActionTransition \<Rightarrow> exn + ActionState" where
  "ActionFinished_transition t = Inl VDA5050PPInvalidState"

fun ActionState_transition :: "ActionState \<Rightarrow> ActionTransition \<Rightarrow> exn + ActionState" where
  "ActionState_transition ActionWaiting t = ActionWaiting_transition t"
| "ActionState_transition ActionInitializing t = ActionInitializing_transition t"
| "ActionState_transition ActionInitializingNoEffect t = ActionInitializingNoEffect_transition t"
| "ActionState_transition ActionRunning t = ActionRunning_transition t"
| "ActionState_transition ActionPausing t = ActionPausing_transition t"
| "ActionState_transition ActionResuming t = ActionResuming_transition t"
| "ActionState_transition ActionPaused t = ActionPaused_transition t"
| "ActionState_transition ActionCanceling t = ActionCanceling_transition t"
| "ActionState_transition ActionFailed t = ActionFailed_transition t"
| "ActionState_transition (ActionFinished r) t = ActionFinished_transition t"

lemmas action_state_transition_defs =
  ActionWaiting_transition_def ActionInitializing_transition_def
  ActionInitializingNoEffect_transition_def ActionRunning_transition_def
  ActionPausing_transition_def ActionResuming_transition_def ActionPaused_transition_def
  ActionCanceling_transition_def ActionFailed_transition_def ActionFinished_transition_def

section \<open>One effect per state\<close>

definition ActionWaiting_effect :: "string \<Rightarrow> Emitted list" where
  "ActionWaiting_effect aid = []"

definition ActionInitializing_effect :: "string \<Rightarrow> Emitted list" where
  "ActionInitializing_effect aid =
     [OrderEvt (OrderActionStatusChanged aid INITIALIZING None), ActionEvt (ActionStart aid)]"

definition ActionInitializingNoEffect_effect :: "string \<Rightarrow> Emitted list" where
  "ActionInitializingNoEffect_effect aid = []"

definition ActionRunning_effect :: "string \<Rightarrow> Emitted list" where
  "ActionRunning_effect aid = [OrderEvt (OrderActionStatusChanged aid RUNNING None)]"

definition ActionPausing_effect :: "string \<Rightarrow> Emitted list" where
  "ActionPausing_effect aid = [ActionEvt (ActionPause aid)]"

definition ActionResuming_effect :: "string \<Rightarrow> Emitted list" where
  "ActionResuming_effect aid = [ActionEvt (ActionResume aid)]"

definition ActionPaused_effect :: "string \<Rightarrow> Emitted list" where
  "ActionPaused_effect aid = [OrderEvt (OrderActionStatusChanged aid PAUSED None)]"

definition ActionCanceling_effect :: "string \<Rightarrow> Emitted list" where
  "ActionCanceling_effect aid = [ActionEvt (ActionCancel aid)]"

definition ActionFailed_effect :: "string \<Rightarrow> Emitted list" where
  "ActionFailed_effect aid =
     [OrderEvt (OrderActionStatusChanged aid FAILED None), ActionEvt (ActionForget aid)]"

definition ActionFinished_effect :: "string option \<Rightarrow> string \<Rightarrow> Emitted list" where
  "ActionFinished_effect result aid =
     [OrderEvt (OrderActionStatusChanged aid FINISHED result), ActionEvt (ActionForget aid)]"

fun ActionState_effect :: "ActionState \<Rightarrow> string \<Rightarrow> Emitted list" where
  "ActionState_effect ActionWaiting aid = ActionWaiting_effect aid"
| "ActionState_effect ActionInitializing aid = ActionInitializing_effect aid"
| "ActionState_effect ActionInitializingNoEffect aid = ActionInitializingNoEffect_effect aid"
| "ActionState_effect ActionRunning aid = ActionRunning_effect aid"
| "ActionState_effect ActionPausing aid = ActionPausing_effect aid"
| "ActionState_effect ActionResuming aid = ActionResuming_effect aid"
| "ActionState_effect ActionPaused aid = ActionPaused_effect aid"
| "ActionState_effect ActionCanceling aid = ActionCanceling_effect aid"
| "ActionState_effect ActionFailed aid = ActionFailed_effect aid"
| "ActionState_effect (ActionFinished r) aid = ActionFinished_effect r aid"

lemmas action_state_effect_defs =
  ActionWaiting_effect_def ActionInitializing_effect_def ActionInitializingNoEffect_effect_def
  ActionRunning_effect_def ActionPausing_effect_def ActionResuming_effect_def
  ActionPaused_effect_def ActionCanceling_effect_def ActionFailed_effect_def
  ActionFinished_effect_def

section \<open>The task\<close>

record ActionTask =
  at_state :: ActionState
  at_action :: Action

definition ActionTask_new :: "Action \<Rightarrow> ActionTask" where
  "ActionTask_new a = \<lparr>at_state = ActionWaiting, at_action = a\<rparr>"

text \<open>
  \<^verbatim>\<open>ActionTask::transition\<close>: the state object is replaced only when the state's own
  \<^verbatim>\<open>transition\<close> returns; then the new state's effect runs.
\<close>

definition ActionTask_transition :: "ActionTransition \<Rightarrow> ActionTask \<Rightarrow> ActionTask transition_result" where
  "ActionTask_transition tr t =
     (case ActionState_transition (at_state t) tr of
        Inl e \<Rightarrow> (Inl e, t, [])
      | Inr s \<Rightarrow> (Inr (), t\<lparr>at_state := s\<rparr>, ActionState_effect s (actionId (at_action t))))"

definition ActionTask_isTerminal :: "ActionTask \<Rightarrow> bool" where
  "ActionTask_isTerminal t = ActionState_isTerminal (at_state t)"

definition ActionTask_isPaused :: "ActionTask \<Rightarrow> bool" where
  "ActionTask_isPaused t = ActionState_isPaused (at_state t)"

lemma ActionTask_transition_error:
  "ActionTask_transition tr t = (Inl e, u, es) \<Longrightarrow> e = VDA5050PPInvalidState \<and> u = t \<and> es = []"
  by (cases "at_state t"; cases "at_type tr")
    (auto simp: ActionTask_transition_def action_state_transition_defs)

interpretation action_task: task_machine ActionTask_transition ActionTask_isTerminal
  ActionTask_isPaused at_action
proof
  fix t tr
  assume "ActionTask_isTerminal t"
  then show "ActionTask_transition tr t = (Inl VDA5050PPInvalidState, t, [])"
    by (cases "at_state t")
      (auto simp: ActionTask_isTerminal_def ActionTask_transition_def action_state_transition_defs)
next
  fix t
  assume "ActionTask_isTerminal t"
  then show "\<not> ActionTask_isPaused t"
    by (cases "at_state t") (auto simp: ActionTask_isTerminal_def ActionTask_isPaused_def)
next
  fix tr t r u es
  assume "ActionTask_transition tr t = (r, u, es)"
  then show "at_action u = at_action t"
    by (auto simp: ActionTask_transition_def split: sum.splits)
qed

section \<open>What the order manager sees: the reported statuses\<close>

text \<open>The status reports among the emitted events, for one action id.\<close>

fun reported :: "string \<Rightarrow> Emitted list \<Rightarrow> ActionStatus list" where
  "reported aid [] = []"
| "reported aid (OrderEvt (OrderActionStatusChanged i st r) # es) =
     (if i = aid then st # reported aid es else reported aid es)"
| "reported aid (e # es) = reported aid es"

lemma reported_append: "reported aid (es @ fs) = reported aid es @ reported aid fs"
  by (induction aid es rule: reported.induct) auto

text \<open>
  The action status protocol: an action that was reported with the first status may next be
  reported with the second one. \<open>PAUSED\<close> may be repeated (a resume that ends in a new
  pause); nothing follows \<open>FINISHED\<close> and \<open>FAILED\<close>.
\<close>

inductive status_step :: "ActionStatus \<Rightarrow> ActionStatus \<Rightarrow> bool" where
  start: "status_step WAITING INITIALIZING"
| canceled: "st \<in> {FINISHED, FAILED} \<Longrightarrow> status_step WAITING st"
| begun: "st \<in> {RUNNING, PAUSED, FINISHED, FAILED} \<Longrightarrow> status_step INITIALIZING st"
| working: "st \<in> {PAUSED, FINISHED, FAILED} \<Longrightarrow> status_step RUNNING st"
| resting: "st \<in> {RUNNING, PAUSED, FINISHED, FAILED} \<Longrightarrow> status_step PAUSED st"

code_pred status_step .

inductive_simps status_step_simps [simp]:
  "status_step WAITING st" "status_step INITIALIZING st" "status_step RUNNING st"
  "status_step PAUSED st" "status_step FINISHED st" "status_step FAILED st"

fun status_path :: "ActionStatus \<Rightarrow> ActionStatus list \<Rightarrow> bool" where
  "status_path st [] = True"
| "status_path st (u # us) \<longleftrightarrow> status_step st u \<and> status_path u us"

text \<open>The statuses that can have been reported last when a task is in a state.\<close>

fun last_reported :: "ActionState \<Rightarrow> ActionStatus set" where
  "last_reported ActionWaiting = {WAITING}"
| "last_reported ActionInitializing = {INITIALIZING}"
| "last_reported ActionInitializingNoEffect = {INITIALIZING, PAUSED}"
| "last_reported ActionRunning = {RUNNING}"
| "last_reported ActionPausing = {INITIALIZING, RUNNING, PAUSED}"
| "last_reported ActionResuming = {PAUSED}"
| "last_reported ActionPaused = {PAUSED}"
| "last_reported ActionCanceling = {WAITING, INITIALIZING, RUNNING, PAUSED}"
| "last_reported ActionFailed = {FAILED}"
| "last_reported (ActionFinished r) = {FINISHED}"

text \<open>The status the reports end with, starting from a known one.\<close>

definition status_after :: "ActionStatus \<Rightarrow> ActionStatus list \<Rightarrow> ActionStatus" where
  "status_after st us = (if us = [] then st else last us)"

lemma status_path_append:
  "status_path st (us @ vs) \<longleftrightarrow> status_path st us \<and> status_path (status_after st us) vs"
  by (induction us arbitrary: st) (auto simp: status_after_def)

lemma status_after_append:
  "status_after st (us @ vs) = status_after (status_after st us) vs"
  by (simp add: status_after_def)

lemma ActionTask_step_reported:
  assumes "ActionTask_transition tr t = (r, u, es)" and "st \<in> last_reported (at_state t)"
    and "aid = actionId (at_action t)"
  shows "status_path st (reported aid es) \<and>
         status_after st (reported aid es) \<in> last_reported (at_state u)"
  using assms
  by (cases "at_state t"; cases "at_type tr")
    (auto simp: ActionTask_transition_def action_state_transition_defs action_state_effect_defs
      status_after_def)

lemma ActionTask_run_reported:
  assumes "run_trans ActionTask_transition trs t = (u, es)"
    and "st \<in> last_reported (at_state t)" and "aid = actionId (at_action t)"
  shows "status_path st (reported aid es) \<and>
         status_after st (reported aid es) \<in> last_reported (at_state u)"
  using assms
proof (induction trs arbitrary: t st es)
  case Nil
  then show ?case by (simp add: status_after_def)
next
  case (Cons tr trs)
  obtain r v es1 where v: "ActionTask_transition tr t = (r, v, es1)"
    by (cases "ActionTask_transition tr t")
  obtain es2 where es2: "run_trans ActionTask_transition trs v = (u, es2)" "es = es1 @ es2"
    using Cons.prems(1) v by (auto split: prod.splits)
  show ?case
    using ActionTask_step_reported [OF v Cons.prems(2,3)] Cons.IH [OF es2(1)]
      action_task.exec_key [OF v] Cons.prems(3)
    by (simp add: es2(2) reported_append status_path_append status_after_append)
qed

section \<open>What the action's handler sees\<close>

datatype handler_phase = Fresh | Started | Cancelling | Forgotten

text \<open>
  The protocol a handler of the action may rely on: it is started once, before any pause or
  resume; a cancel is the last request; then it is forgotten, once, and nothing follows.
\<close>

fun handler_step :: "string \<Rightarrow> handler_phase \<Rightarrow> ActionEvent \<Rightarrow> handler_phase option" where
  "handler_step aid Fresh (ActionStart i) = (if i = aid then Some Started else None)"
| "handler_step aid Fresh (ActionCancel i) = (if i = aid then Some Cancelling else None)"
| "handler_step aid Started (ActionPause i) = (if i = aid then Some Started else None)"
| "handler_step aid Started (ActionResume i) = (if i = aid then Some Started else None)"
| "handler_step aid Started (ActionCancel i) = (if i = aid then Some Cancelling else None)"
| "handler_step aid Started (ActionForget i) = (if i = aid then Some Forgotten else None)"
| "handler_step aid Cancelling (ActionForget i) = (if i = aid then Some Forgotten else None)"
| "handler_step aid p e = None"

fun handler_run :: "string \<Rightarrow> handler_phase \<Rightarrow> Emitted list \<Rightarrow> handler_phase option" where
  "handler_run aid p [] = Some p"
| "handler_run aid p (ActionEvt e # es) =
     (case handler_step aid p e of None \<Rightarrow> None | Some q \<Rightarrow> handler_run aid q es)"
| "handler_run aid p (e # es) = handler_run aid p es"

lemma handler_run_append:
  "handler_run aid p (es @ fs) =
     (case handler_run aid p es of None \<Rightarrow> None | Some q \<Rightarrow> handler_run aid q fs)"
  by (induction aid p es rule: handler_run.induct) (auto split: option.splits)

fun phase_of :: "ActionState \<Rightarrow> handler_phase" where
  "phase_of ActionWaiting = Fresh"
| "phase_of ActionCanceling = Cancelling"
| "phase_of ActionFailed = Forgotten"
| "phase_of (ActionFinished r) = Forgotten"
| "phase_of s = Started"

lemma ActionTask_step_handler:
  assumes "ActionTask_transition tr t = (r, u, es)" and "aid = actionId (at_action t)"
  shows "handler_run aid (phase_of (at_state t)) es = Some (phase_of (at_state u))"
  using assms
  by (cases "at_state t"; cases "at_type tr")
    (auto simp: ActionTask_transition_def action_state_transition_defs action_state_effect_defs)

lemma ActionTask_run_handler:
  assumes "run_trans ActionTask_transition trs t = (u, es)" and "aid = actionId (at_action t)"
  shows "handler_run aid (phase_of (at_state t)) es = Some (phase_of (at_state u))"
  using assms
proof (induction trs arbitrary: t es)
  case Nil
  then show ?case by simp
next
  case (Cons tr trs)
  obtain r v es1 where v: "ActionTask_transition tr t = (r, v, es1)"
    by (cases "ActionTask_transition tr t")
  obtain es2 where es2: "run_trans ActionTask_transition trs v = (u, es2)" "es = es1 @ es2"
    using Cons.prems(1) v by (auto split: prod.splits)
  show ?case
    using ActionTask_step_handler [OF v Cons.prems(2)] Cons.IH [OF es2(1)]
      action_task.exec_key [OF v] Cons.prems(2)
    by (simp add: es2(2) handler_run_append)
qed

end
