(* ===== verification/NavigationTask.thy ===== *)
theory NavigationTask
  imports TaskMachine
begin

text \<open>
  \<^verbatim>\<open>core/order/navigation_task\<close>: the state machine of driving to one node. Its only effect that
  can fail is that of \<^verbatim>\<open>NavigationDone\<close>, which dispatches the new last node synchronously: the
  subscribers are a parameter. The goal pointer is non-null (the interpreter passes node
  pointers); the edge may be null (a segment that begins with its first node).
\<close>

section \<open>Transitions and states\<close>

datatype NavigationTransition =
    nk_do_start
  | nk_is_resumed
  | nk_do_pause
  | nk_is_paused
  | nk_do_resume
  | nk_to_seq_id seq_id
  | nk_do_cancel
  | nk_is_failed

datatype NavigationState =
    NavigationWaiting
  | NavigationFirstInProgress
  | NavigationInProgress
  | NavigationPausing
  | NavigationPaused
  | NavigationResuming
  | NavigationCanceling
  | NavigationFailed
  | NavigationDone

text \<open>The template flags \<^verbatim>\<open>NavigationStateT<terminal, failed, paused>\<close>.\<close>

fun NavigationState_isTerminal :: "NavigationState \<Rightarrow> bool" where
  "NavigationState_isTerminal NavigationFailed = True"
| "NavigationState_isTerminal NavigationDone = True"
| "NavigationState_isTerminal s = False"

fun NavigationState_isFailed :: "NavigationState \<Rightarrow> bool" where
  "NavigationState_isFailed NavigationFailed = True"
| "NavigationState_isFailed s = False"

fun NavigationState_isPaused :: "NavigationState \<Rightarrow> bool" where
  "NavigationState_isPaused NavigationPaused = True"
| "NavigationState_isPaused NavigationResuming = True"
| "NavigationState_isPaused s = False"

section \<open>One transfer function per state\<close>

text \<open>The states that react to \<^verbatim>\<open>toSeqId\<close> get the sequence id of the task's goal.\<close>

definition NavigationWaiting_transfer :: "NavigationTransition \<Rightarrow> exn + NavigationState" where
  "NavigationWaiting_transfer t =
     (case t of
        nk_do_cancel \<Rightarrow> Inr NavigationCanceling
      | nk_do_start \<Rightarrow> Inr NavigationFirstInProgress
      | nk_is_failed \<Rightarrow> Inr NavigationFailed
      | _ \<Rightarrow> Inl VDA5050PPInvalidState)"

definition NavigationFirstInProgress_transfer ::
  "seq_id \<Rightarrow> NavigationTransition \<Rightarrow> exn + NavigationState" where
  "NavigationFirstInProgress_transfer goal_seq t =
     (case t of
        nk_do_cancel \<Rightarrow> Inr NavigationCanceling
      | nk_do_pause \<Rightarrow> Inr NavigationPausing
      | nk_is_failed \<Rightarrow> Inr NavigationFailed
      | nk_is_paused \<Rightarrow> Inr NavigationPaused
      | nk_to_seq_id s \<Rightarrow> (if s = goal_seq then Inr NavigationDone else Inl VDA5050PPInvalidState)
      | _ \<Rightarrow> Inl VDA5050PPInvalidState)"

definition NavigationInProgress_transfer ::
  "seq_id \<Rightarrow> NavigationTransition \<Rightarrow> exn + NavigationState" where
  "NavigationInProgress_transfer goal_seq t =
     (case t of
        nk_do_cancel \<Rightarrow> Inr NavigationCanceling
      | nk_do_pause \<Rightarrow> Inr NavigationPausing
      | nk_is_failed \<Rightarrow> Inr NavigationFailed
      | nk_is_paused \<Rightarrow> Inr NavigationPaused
      | nk_to_seq_id s \<Rightarrow> (if s = goal_seq then Inr NavigationDone else Inl VDA5050PPInvalidState)
      | _ \<Rightarrow> Inl VDA5050PPInvalidState)"

definition NavigationPausing_transfer ::
  "seq_id \<Rightarrow> NavigationTransition \<Rightarrow> exn + NavigationState" where
  "NavigationPausing_transfer goal_seq t =
     (case t of
        nk_do_cancel \<Rightarrow> Inr NavigationCanceling
      | nk_is_paused \<Rightarrow> Inr NavigationPaused
      | nk_is_failed \<Rightarrow> Inr NavigationFailed
      | nk_to_seq_id s \<Rightarrow> (if s = goal_seq then Inr NavigationDone else Inl VDA5050PPInvalidState)
      | _ \<Rightarrow> Inl VDA5050PPInvalidState)"

definition NavigationPaused_transfer :: "NavigationTransition \<Rightarrow> exn + NavigationState" where
  "NavigationPaused_transfer t =
     (case t of
        nk_do_cancel \<Rightarrow> Inr NavigationCanceling
      | nk_do_resume \<Rightarrow> Inr NavigationResuming
      | nk_is_resumed \<Rightarrow> Inr NavigationInProgress
      | nk_is_failed \<Rightarrow> Inr NavigationFailed
      | _ \<Rightarrow> Inl VDA5050PPInvalidState)"

definition NavigationResuming_transfer :: "NavigationTransition \<Rightarrow> exn + NavigationState" where
  "NavigationResuming_transfer t =
     (case t of
        nk_do_cancel \<Rightarrow> Inr NavigationCanceling
      | nk_is_resumed \<Rightarrow> Inr NavigationInProgress
      | nk_is_failed \<Rightarrow> Inr NavigationFailed
      | nk_is_paused \<Rightarrow> Inr NavigationPaused
      | _ \<Rightarrow> Inl VDA5050PPInvalidState)"

definition NavigationCanceling_transfer ::
  "seq_id \<Rightarrow> NavigationTransition \<Rightarrow> exn + NavigationState" where
  "NavigationCanceling_transfer goal_seq t =
     (case t of
        nk_is_failed \<Rightarrow> Inr NavigationFailed
      | nk_to_seq_id s \<Rightarrow> (if s = goal_seq then Inr NavigationDone else Inl VDA5050PPInvalidState)
      | _ \<Rightarrow> Inl VDA5050PPInvalidState)"

definition NavigationFailed_transfer :: "NavigationTransition \<Rightarrow> exn + NavigationState" where
  "NavigationFailed_transfer t = Inl VDA5050PPInvalidState"

definition NavigationDone_transfer :: "NavigationTransition \<Rightarrow> exn + NavigationState" where
  "NavigationDone_transfer t = Inl VDA5050PPInvalidState"

fun NavigationState_transfer ::
  "NavigationState \<Rightarrow> seq_id \<Rightarrow> NavigationTransition \<Rightarrow> exn + NavigationState" where
  "NavigationState_transfer NavigationWaiting g t = NavigationWaiting_transfer t"
| "NavigationState_transfer NavigationFirstInProgress g t = NavigationFirstInProgress_transfer g t"
| "NavigationState_transfer NavigationInProgress g t = NavigationInProgress_transfer g t"
| "NavigationState_transfer NavigationPausing g t = NavigationPausing_transfer g t"
| "NavigationState_transfer NavigationPaused g t = NavigationPaused_transfer t"
| "NavigationState_transfer NavigationResuming g t = NavigationResuming_transfer t"
| "NavigationState_transfer NavigationCanceling g t = NavigationCanceling_transfer g t"
| "NavigationState_transfer NavigationFailed g t = NavigationFailed_transfer t"
| "NavigationState_transfer NavigationDone g t = NavigationDone_transfer t"

lemmas navigation_state_transfer_defs =
  NavigationWaiting_transfer_def NavigationFirstInProgress_transfer_def
  NavigationInProgress_transfer_def NavigationPausing_transfer_def NavigationPaused_transfer_def
  NavigationResuming_transfer_def NavigationCanceling_transfer_def NavigationFailed_transfer_def
  NavigationDone_transfer_def

section \<open>The task and its effects\<close>

record NavigationTask =
  nt_state :: NavigationState
  nt_segment :: "(seq_id \<times> seq_id) option"
  nt_goal :: Node
  nt_via_edge :: "Edge option"

definition NavigationTask_new :: "Node \<Rightarrow> Edge option \<Rightarrow> NavigationTask" where
  "NavigationTask_new goal via_edge =
     \<lparr>nt_state = NavigationWaiting, nt_segment = None, nt_goal = goal, nt_via_edge = via_edge\<rparr>"

definition setSegment :: "seq_id \<times> seq_id \<Rightarrow> NavigationTask \<Rightarrow> NavigationTask" where
  "setSegment seg t = t\<lparr>nt_segment := Some seg\<rparr>"

text \<open>
  An effect yields its result (an exception of a synchronous subscriber, if any) and the
  events it dispatches.
\<close>

definition NavigationFirstInProgress_effect :: "NavigationTask \<Rightarrow> Emitted list" where
  "NavigationFirstInProgress_effect t =
     NavEvt (NavigationNextNode (nt_goal t) (nt_via_edge t)) #
     (case nt_segment t of
        None \<Rightarrow> []
      | Some (b, e) \<Rightarrow> [NavEvt (NavigationUpcomingSegment b e)])"

definition NavigationPausing_effect :: "Emitted list" where
  "NavigationPausing_effect = [NavEvt (NavigationControl nk_pause)]"

definition NavigationResuming_effect :: "Emitted list" where
  "NavigationResuming_effect = [NavEvt (NavigationControl nk_resume)]"

definition NavigationCanceling_effect :: "Emitted list" where
  "NavigationCanceling_effect = [NavEvt (NavigationControl nk_cancel)]"

definition NavigationDone_effect :: "NavigationTask \<Rightarrow> OrderEvent" where
  "NavigationDone_effect t = OrderNewLastNodeId (n_nodeId (nt_goal t)) (n_sequenceId (nt_goal t))"

definition NavigationState_effect ::
  "order_subscribers \<Rightarrow> NavigationTask \<Rightarrow> (exn + unit) \<times> Emitted list" where
  "NavigationState_effect subs t =
     (case nt_state t of
        NavigationFirstInProgress \<Rightarrow> (Inr (), NavigationFirstInProgress_effect t)
      | NavigationPausing \<Rightarrow> (Inr (), NavigationPausing_effect)
      | NavigationResuming \<Rightarrow> (Inr (), NavigationResuming_effect)
      | NavigationCanceling \<Rightarrow> (Inr (), NavigationCanceling_effect)
      | NavigationDone \<Rightarrow>
          (case subs (NavigationDone_effect t) of None \<Rightarrow> Inr () | Some e \<Rightarrow> Inl e,
           [SyncOrderEvt (NavigationDone_effect t)])
      | _ \<Rightarrow> (Inr (), []))"

text \<open>
  \<^verbatim>\<open>NavigationTask::transition\<close>. The state is replaced before the effect runs: when the
  synchronous dispatch throws, the task is already done.
\<close>

definition NavigationTask_transition ::
  "order_subscribers \<Rightarrow> NavigationTransition \<Rightarrow> NavigationTask \<Rightarrow> NavigationTask transition_result"
where
  "NavigationTask_transition subs tr t =
     (case NavigationState_transfer (nt_state t) (n_sequenceId (nt_goal t)) tr of
        Inl e \<Rightarrow> (Inl e, t, [])
      | Inr s \<Rightarrow>
          let t' = t\<lparr>nt_state := s\<rparr>; (r, es) = NavigationState_effect subs t'
          in (r, t', es))"

definition NavigationTask_isTerminal :: "NavigationTask \<Rightarrow> bool" where
  "NavigationTask_isTerminal t = NavigationState_isTerminal (nt_state t)"

definition NavigationTask_isFailed :: "NavigationTask \<Rightarrow> bool" where
  "NavigationTask_isFailed t = NavigationState_isFailed (nt_state t)"

definition NavigationTask_isPaused :: "NavigationTask \<Rightarrow> bool" where
  "NavigationTask_isPaused t = NavigationState_isPaused (nt_state t)"

lemmas navigation_effect_defs =
  NavigationFirstInProgress_effect_def NavigationPausing_effect_def NavigationResuming_effect_def
  NavigationCanceling_effect_def NavigationDone_effect_def NavigationState_effect_def

section \<open>The task contract\<close>

lemma NavigationTask_terminal_cases:
  "NavigationTask_isTerminal t \<longleftrightarrow> nt_state t = NavigationFailed \<or> nt_state t = NavigationDone"
  by (cases "nt_state t") (auto simp: NavigationTask_isTerminal_def)

interpretation navigation_task: task_machine "NavigationTask_transition subs"
  NavigationTask_isTerminal NavigationTask_isPaused "\<lambda>t. (nt_goal t, nt_via_edge t)"
  for subs
proof
  fix t tr
  assume "NavigationTask_isTerminal t"
  then show "NavigationTask_transition subs tr t = (Inl VDA5050PPInvalidState, t, [])"
    by (auto simp: NavigationTask_terminal_cases NavigationTask_transition_def
        navigation_state_transfer_defs)
next
  fix t
  assume "NavigationTask_isTerminal t"
  then show "\<not> NavigationTask_isPaused t"
    by (auto simp: NavigationTask_terminal_cases NavigationTask_isPaused_def)
next
  fix tr t r u es
  assume "NavigationTask_transition subs tr t = (r, u, es)"
  then show "(nt_goal u, nt_via_edge u) = (nt_goal t, nt_via_edge t)"
    by (auto simp: NavigationTask_transition_def Let_def split: sum.splits prod.splits)
qed

section \<open>Reaching the goal\<close>

text \<open>
  The new last node is reported by the \<open>toSeqId\<close> request that names the goal, and by
  nothing else.
\<close>

fun last_node_reports :: "Emitted list \<Rightarrow> (string \<times> seq_id) list" where
  "last_node_reports [] = []"
| "last_node_reports (SyncOrderEvt (OrderNewLastNodeId i s) # es) = (i, s) # last_node_reports es"
| "last_node_reports (e # es) = last_node_reports es"

lemma last_node_reports_append:
  "last_node_reports (es @ fs) = last_node_reports es @ last_node_reports fs"
  by (induction es rule: last_node_reports.induct) auto

lemma NavigationTask_step_reports:
  assumes "NavigationTask_transition subs tr t = (r, u, es)"
  shows "last_node_reports es =
     (if nt_state t \<noteq> NavigationDone \<and> nt_state u = NavigationDone
      then [(n_nodeId (nt_goal t), n_sequenceId (nt_goal t))] else [])"
  using assms
  by (cases "nt_state t"; cases tr)
    (auto simp: NavigationTask_transition_def navigation_state_transfer_defs
      navigation_effect_defs split: option.splits if_splits)

lemma NavigationTask_run_reports:
  assumes "run_trans (NavigationTask_transition subs) trs t = (u, es)"
  shows "last_node_reports es =
     (if nt_state t \<noteq> NavigationDone \<and> nt_state u = NavigationDone
      then [(n_nodeId (nt_goal t), n_sequenceId (nt_goal t))] else [])"
  using assms
proof (induction trs arbitrary: t es)
  case Nil
  then show ?case by simp
next
  case (Cons tr trs)
  obtain r v es1 where v: "NavigationTask_transition subs tr t = (r, v, es1)"
    by (cases "NavigationTask_transition subs tr t")
  obtain es2 where es2: "run_trans (NavigationTask_transition subs) trs v = (u, es2)" "es = es1 @ es2"
    using Cons.prems v by (auto split: prod.splits)
  have goal: "nt_goal v = nt_goal t" using navigation_task.exec_key [OF v] by simp
  have stay: "u = v" if "nt_state v = NavigationDone"
    using navigation_task.run_terminal [of v subs trs] that es2(1)
    by (simp add: NavigationTask_terminal_cases)
  have already: "nt_state v = NavigationDone" if "nt_state t = NavigationDone"
    using navigation_task.terminal_rejects [of t subs tr] that v
    by (simp add: NavigationTask_terminal_cases)
  show ?case
    using NavigationTask_step_reports [OF v] Cons.IH [OF es2(1)] goal stay already
    by (auto simp: es2(2) last_node_reports_append)
qed

end
