(* ===== verification/Samples.thy ===== *)
theory Samples
  imports Types
begin

text \<open>
  Small concrete messages that the witnesses of the properties evaluate the model on.
\<close>

definition sample_action :: Action where
  "sample_action = \<lparr>actionId = ''a'', actionType = ''pick'', actionDescription = None,
     blockingType = HARD, actionParameters = []\<rparr>"

definition sample_node :: "seq_id \<Rightarrow> bool \<Rightarrow> Node" where
  "sample_node k rel = \<lparr>n_nodeId = ''n'', n_sequenceId = k, n_nodeDescription = None,
     n_released = rel, n_nodePosition = None, n_actions = []\<rparr>"

definition sample_edge :: "seq_id \<Rightarrow> bool \<Rightarrow> Edge" where
  "sample_edge k rel = \<lparr>e_edgeId = ''e'', e_sequenceId = k, e_edgeDescription = None,
     e_released = rel, e_trajectory = None, e_actions = []\<rparr>"

lemmas sample_defs = sample_action_def sample_node_def sample_edge_def

end
