(* ===== verification/TaskProps.thy ===== *)
theory TaskProps
  imports ActionTask NavigationTask Samples
begin

text \<open>
  The properties of the two task state machines. A task is driven by requests of the
  scheduler (start, pause, resume, cancel) and reports of the handlers (running, paused,
  finished, failed, a sequence id reached), in any order; rejected ones leave it as it is.
\<close>

section \<open>Action tasks\<close>

text \<open>C15: Whatever requests and reports a new action task gets, the statuses it reports to the
  order manager form a path of the VDA5050 action status protocol that begins at WAITING, and
  the status reported last is one that belongs to the state the task is in.\<close>

theorem action_reports_follow_protocol:
  "let run = run_trans ActionTask_transition trs (ActionTask_new a);
       sts = reported (actionId a) (snd run)
   in status_path WAITING sts \<and> status_after WAITING sts \<in> last_reported (at_state (fst run))"
  unfolding Let_def
  by (rule ActionTask_run_reported [where t = "ActionTask_new a" and trs = trs])
    (simp_all add: ActionTask_new_def)

text \<open>C16: Whatever requests and reports a new action task gets, the requests its handler sees keep
  the handler protocol: one start before any pause or resume, a cancel is the last request,
  then the action is forgotten once and nothing follows. The phase the handler is in is the one
  of the task's state.\<close>

theorem action_handler_protocol:
  "handler_run (actionId a) Fresh (snd (run_trans ActionTask_transition trs (ActionTask_new a))) =
   Some (phase_of (at_state (fst (run_trans ActionTask_transition trs (ActionTask_new a)))))"
  using ActionTask_run_handler [of trs "ActionTask_new a" _ _ "actionId a"]
  by (cases "run_trans ActionTask_transition trs (ActionTask_new a)") (simp add: ActionTask_new_def)

text \<open>No action task gets stuck: from every state that is not terminal, a cancel request followed
  by the handler's report that it is finished ends the task as finished with the reported
  result, and FINISHED is what the order manager is told last.\<close>

theorem action_cancel_completes:
  assumes "\<not> ActionTask_isTerminal t"
  shows "let run = run_trans ActionTask_transition
             [ActionTransition_doCancel, ActionTransition_isFinished r] t
         in at_state (fst run) = ActionFinished r \<and>
            reported (actionId (at_action t)) (snd run) = [FINISHED]"
  using assms
  by (cases "at_state t")
    (simp_all add: ActionTask_isTerminal_def ActionTask_transition_def action_transition_defs
      action_state_transition_defs action_state_effect_defs)

theorem action_cancel_completes_witness:
  "at_state (fst (run_trans ActionTask_transition
     [ActionTransition_doCancel, ActionTransition_isFinished (Some ''ok'')]
     (ActionTask_new sample_action))) = ActionFinished (Some ''ok'')"
proof -
  have "\<not> ActionTask_isTerminal (ActionTask_new sample_action)"
    by (simp add: ActionTask_isTerminal_def ActionTask_new_def)
  from action_cancel_completes [OF this, of "Some ''ok''"]
  show ?thesis unfolding Let_def by blast
qed

text \<open>Which reports of a handler are accepted: a failure from every started task that has not
  ended, a finish only while initializing, running or canceling, a pause only while
  initializing or pausing. A paused task does not accept a finish and a running one not a
  spontaneous pause, although the API documentation lets handlers report these at any time.\<close>

theorem action_handler_reports_accepted:
  "(fst (ActionTask_transition ActionTransition_isFailed t) = Inr () \<longleftrightarrow>
      \<not> ActionTask_isTerminal t \<and> at_state t \<noteq> ActionWaiting) \<and>
   (fst (ActionTask_transition (ActionTransition_isFinished r) t) = Inr () \<longleftrightarrow>
      at_state t \<in> {ActionInitializing, ActionInitializingNoEffect, ActionRunning, ActionCanceling}) \<and>
   (fst (ActionTask_transition ActionTransition_isPaused t) = Inr () \<longleftrightarrow>
      at_state t \<in> {ActionInitializing, ActionInitializingNoEffect, ActionPausing})"
  by (cases "at_state t")
    (simp_all add: ActionTask_isTerminal_def ActionTask_transition_def action_transition_defs
      action_state_transition_defs)

text \<open>Once an action task is finished or failed it never changes again and emits nothing more.\<close>

theorem action_terminal_absorbing:
  assumes "ActionTask_isTerminal (fst (run_trans ActionTask_transition trs t))"
  shows "run_trans ActionTask_transition (trs @ urs) t = run_trans ActionTask_transition trs t"
  using assms by (rule action_task.run_terminal_absorbing)

theorem action_terminal_absorbing_witness:
  "at_state (fst (run_trans ActionTask_transition
     ([ActionTransition_doStart, ActionTransition_isFailed] @ [ActionTransition_isRunning])
     (ActionTask_new sample_action))) = ActionFailed"
  by (subst action_terminal_absorbing)
    (simp_all add: ActionTask_new_def ActionTask_isTerminal_def ActionTask_transition_def
      action_transition_defs action_state_transition_defs)

section \<open>Navigation tasks\<close>

text \<open>A navigation task reports its goal as the new last node exactly once when it ends as done,
  and never otherwise; no other node is ever reported.\<close>

theorem navigation_reports_goal_once:
  "last_node_reports (snd (run_trans (NavigationTask_transition subs) trs (NavigationTask_new n e))) =
   (if nt_state (fst (run_trans (NavigationTask_transition subs) trs (NavigationTask_new n e)))
       = NavigationDone
    then [(n_nodeId n, n_sequenceId n)] else [])"
  using NavigationTask_run_reports [of subs trs "NavigationTask_new n e"]
  by (cases "run_trans (NavigationTask_transition subs) trs (NavigationTask_new n e)")
    (simp add: NavigationTask_new_def)

text \<open>A navigation request fails in two ways only: it is invalid in the current state, and then the
  task is unchanged and nothing was emitted; or a synchronous subscriber of the last-node
  event threw, and then the task is done all the same and the event was sent.\<close>

theorem navigation_errors:
  assumes "NavigationTask_transition subs tr t = (Inl x, u, es)"
  shows "(x = VDA5050PPInvalidState \<and> u = t \<and> es = []) \<or>
    (let evt = OrderNewLastNodeId (n_nodeId (nt_goal t)) (n_sequenceId (nt_goal t)) in
       tr = nk_to_seq_id (n_sequenceId (nt_goal t)) \<and> subs evt = Some x \<and>
       u = t\<lparr>nt_state := NavigationDone\<rparr> \<and> es = [SyncOrderEvt evt])"
  using assms
  by (cases "nt_state t"; cases tr)
    (auto simp: NavigationTask_transition_def navigation_state_transfer_defs
      navigation_effect_defs split: option.splits if_splits)

theorem navigation_errors_witness:
  "fst (NavigationTask_transition (\<lambda>_. None) nk_do_resume (NavigationTask_new (sample_node 2 True) None))
     = Inl VDA5050PPInvalidState \<and>
   snd (NavigationTask_transition (\<lambda>_. None) nk_do_resume (NavigationTask_new (sample_node 2 True) None))
     = (NavigationTask_new (sample_node 2 True) None, [])"
proof -
  let ?t = "NavigationTask_new (sample_node 2 True) None"
  have run: "NavigationTask_transition (\<lambda>_. None) nk_do_resume ?t = (Inl VDA5050PPInvalidState, ?t, [])"
    by (simp add: NavigationTask_transition_def NavigationTask_new_def NavigationWaiting_transfer_def)
  show ?thesis using navigation_errors [OF run] run by (simp add: Let_def)
qed

text \<open>A driving vehicle can always be stopped: from every state of a navigation task that is not
  terminal a cancel request ends in canceling, and the vehicle is told to cancel unless it
  already was; the vehicle's failure report then ends the task as failed.\<close>

theorem navigation_cancel_completes:
  assumes "\<not> NavigationTask_isTerminal t"
  shows "NavigationTask_transition subs nk_do_cancel t =
     (if nt_state t = NavigationCanceling then (Inl VDA5050PPInvalidState, t, [])
      else (Inr (), t\<lparr>nt_state := NavigationCanceling\<rparr>, [NavEvt (NavigationControl nk_cancel)])) \<and>
   nt_state (fst (run_trans (NavigationTask_transition subs) [nk_do_cancel, nk_is_failed] t)) =
     NavigationFailed"
  using assms
  by (cases "nt_state t")
    (simp_all add: NavigationTask_isTerminal_def NavigationTask_transition_def
      navigation_state_transfer_defs navigation_effect_defs)

theorem navigation_cancel_completes_witness:
  "nt_state (fst (run_trans (NavigationTask_transition (\<lambda>_. None)) [nk_do_cancel, nk_is_failed]
     (NavigationTask_new (sample_node 2 True) None))) = NavigationFailed"
proof -
  have "\<not> NavigationTask_isTerminal (NavigationTask_new (sample_node 2 True) None)"
    by (simp add: NavigationTask_isTerminal_def NavigationTask_new_def)
  from navigation_cancel_completes [OF this] show ?thesis by blast
qed

end
