(* ===== verification/Graph.thy ===== *)
theory Graph
  imports Types
begin

text \<open>
  \<^verbatim>\<open>core/state/graph\<close>: the graph of nodes and edges the vehicle is driving on, keyed by
  sequence id. Elements are shared pointers that no code of the library writes through, so
  they are values here. An operation that throws does so before its first assignment: it
  returns \<open>Inl\<close> and the caller keeps the old graph. \<^verbatim>\<open>begin()\<close> and \<^verbatim>\<open>rbegin()\<close> of an empty map are
  \<open>UndefinedBehaviour\<close>.
\<close>

section \<open>Elements\<close>

datatype GraphElement = NodeElement Node | EdgeElement Edge

fun getSequenceId :: "GraphElement \<Rightarrow> seq_id" where
  "getSequenceId (NodeElement n) = n_sequenceId n"
| "getSequenceId (EdgeElement e) = e_sequenceId e"

fun getId :: "GraphElement \<Rightarrow> string" where
  "getId (NodeElement n) = n_nodeId n"
| "getId (EdgeElement e) = e_edgeId e"

fun isNode :: "GraphElement \<Rightarrow> bool" where
  "isNode (NodeElement n) = True"
| "isNode (EdgeElement e) = False"

fun isEdge :: "GraphElement \<Rightarrow> bool" where
  "isEdge (NodeElement n) = False"
| "isEdge (EdgeElement e) = True"

fun isHorizon :: "GraphElement \<Rightarrow> bool" where
  "isHorizon (NodeElement n) = (\<not> n_released n)"
| "isHorizon (EdgeElement e) = (\<not> e_released e)"

definition isBase :: "GraphElement \<Rightarrow> bool" where
  "isBase g = (\<not> isHorizon g)"

fun getNode :: "GraphElement \<Rightarrow> exn + Node" where
  "getNode (NodeElement n) = Inr n"
| "getNode (EdgeElement e) = Inl VDA5050PPInvalidArgument"

fun getEdge :: "GraphElement \<Rightarrow> exn + Edge" where
  "getEdge (EdgeElement e) = Inr e"
| "getEdge (NodeElement n) = Inl VDA5050PPInvalidArgument"

section \<open>The graph\<close>

record Graph =
  agv_pos :: "seq_id option"
  graph_map :: "(seq_id, GraphElement) std_map"

definition Graph_update :: "GraphElement \<Rightarrow> Graph \<Rightarrow> exn + Graph" where
  "Graph_update element g =
     (let m = graph_map g; k = getSequenceId element in
      if m \<noteq> [] \<and>
         ((isBase element \<and>
           (case before_upper_bound k m of None \<Rightarrow> False | Some b \<Rightarrow> isHorizon (snd b))) \<or>
          (isHorizon element \<and>
           (case upper_bound k m of None \<Rightarrow> False | Some a \<Rightarrow> isBase (snd a))))
      then Inl VDA5050PPInvalidArgument
      else Inr (g\<lparr>graph_map := insert_or_assign k element m\<rparr>))"

text \<open>The constructors from an initializer list and from a \<^verbatim>\<open>std::list\<close>.\<close>

fun Graph_update_all :: "GraphElement list \<Rightarrow> Graph \<Rightarrow> exn + Graph" where
  "Graph_update_all [] g = Inr g"
| "Graph_update_all (e # es) g =
     (case Graph_update e g of Inl x \<Rightarrow> Inl x | Inr g' \<Rightarrow> Graph_update_all es g')"

definition Graph_new :: "GraphElement list \<Rightarrow> exn + Graph" where
  "Graph_new elements =
     (if elements = [] then Inl VDA5050PPInvalidArgument
      else Graph_update_all elements \<lparr>agv_pos = None, graph_map = []\<rparr>)"

definition hasBase :: "Graph \<Rightarrow> exn + bool" where
  "hasBase g = (case graph_map g of [] \<Rightarrow> Inl UndefinedBehaviour | p # _ \<Rightarrow> Inr (isBase (snd p)))"

definition hasHorizon :: "Graph \<Rightarrow> exn + bool" where
  "hasHorizon g =
     (if graph_map g = [] then Inl UndefinedBehaviour else Inr (isHorizon (snd (last (graph_map g)))))"

definition bounds :: "Graph \<Rightarrow> exn + seq_id \<times> seq_id" where
  "bounds g =
     (if graph_map g = [] then Inl UndefinedBehaviour
      else Inr (fst (hd (graph_map g)), fst (last (graph_map g))))"

definition baseBounds :: "Graph \<Rightarrow> exn + seq_id \<times> seq_id" where
  "baseBounds g =
     (if graph_map g = [] then Inl UndefinedBehaviour
      else case List.find (\<lambda>p. isBase (snd p)) (rev (graph_map g)) of
             None \<Rightarrow> Inl VDA5050PPInvalidArgument
           | Some p \<Rightarrow> Inr (fst (hd (graph_map g)), fst p))"

definition horizonBounds :: "Graph \<Rightarrow> exn + seq_id \<times> seq_id" where
  "horizonBounds g =
     (case bounds g of
        Inl e \<Rightarrow> Inl e
      | Inr (_, l) \<Rightarrow>
          (case baseBounds g of
             Inl e \<Rightarrow> Inl e
           | Inr (_, base_last) \<Rightarrow>
               if base_last = l then Inl VDA5050PPInvalidArgument else Inr (base_last + 1, l)))"

definition cleanHorizon :: "Graph \<Rightarrow> exn + Graph" where
  "cleanHorizon g =
     (case hasHorizon g of
        Inl e \<Rightarrow> Inl e
      | Inr False \<Rightarrow> Inr g
      | Inr True \<Rightarrow>
          (case horizonBounds g of
             Inl e \<Rightarrow> Inl e
           | Inr (f, _) \<Rightarrow> Inr (g\<lparr>graph_map := erase_from f (graph_map g)\<rparr>)))"

definition extend :: "Graph \<Rightarrow> Graph \<Rightarrow> exn + (seq_id \<times> seq_id) \<times> Graph" where
  "extend other g =
     (if agv_pos g \<noteq> None \<and> agv_pos other \<noteq> None \<and> agv_pos g \<noteq> agv_pos other
      then Inl VDA5050PPInvalidArgument
      else case baseBounds g of
        Inl e \<Rightarrow> Inl e
      | Inr (_, bl) \<Rightarrow>
          (case bounds other of
             Inl e \<Rightarrow> Inl e
           | Inr (f, l) \<Rightarrow>
               if bl + 1 \<noteq> f \<and> bl \<noteq> f then Inl VDA5050PPInvalidArgument
               else
                 let g1 = (if agv_pos g = None then g\<lparr>agv_pos := agv_pos other\<rparr> else g) in
                 (case cleanHorizon g1 of
                    Inl e \<Rightarrow> Inl e
                  | Inr g2 \<Rightarrow>
                      Inr ((max (bl + 1) f, l),
                           g2\<lparr>graph_map := emplace_all (graph_map g2) (graph_map other)\<rparr>))))"

definition Graph_at :: "seq_id \<Rightarrow> Graph \<Rightarrow> exn + GraphElement" where
  "Graph_at seq g =
     (case bounds g of
        Inl e \<Rightarrow> Inl e
      | Inr (f, l) \<Rightarrow>
          if l < seq \<or> seq < f then Inl VDA5050PPInvalidArgument
          else (case map_of (graph_map g) seq of None \<Rightarrow> Inl StdOutOfRange | Some e \<Rightarrow> Inr e))"

definition subgraph :: "seq_id \<Rightarrow> seq_id \<Rightarrow> Graph \<Rightarrow> exn + Graph" where
  "subgraph f l g =
     (let m = graph_map g in
      if l < f then Inl VDA5050PPInvalidArgument
      else if map_of m f = None then Inl VDA5050PPInvalidArgument
      else case map_of m l of
             None \<Rightarrow> Inl VDA5050PPInvalidArgument
           | Some v \<Rightarrow>
               Inr \<lparr>agv_pos = (case agv_pos g of
                                  None \<Rightarrow> None
                                | Some p \<Rightarrow> if f \<le> p \<and> p \<le> l then Some p else None),
                    graph_map = erase_from l (erase_until f m) @ [(l, v)]\<rparr>)"

definition agvHere :: "Graph \<Rightarrow> bool" where
  "agvHere g \<longleftrightarrow> agv_pos g \<noteq> None"

definition agvPosition :: "Graph \<Rightarrow> exn + seq_id" where
  "agvPosition g =
     (case agv_pos g of None \<Rightarrow> Inl VDA5050PPInvalidArgument | Some p \<Rightarrow> Inr p)"

definition currentGoalSequenceId :: "Graph \<Rightarrow> exn + seq_id" where
  "currentGoalSequenceId g =
     (case agvPosition g of
        Inl e \<Rightarrow> Inl e
      | Inr p \<Rightarrow>
          (case Graph_at p g of
             Inl e \<Rightarrow> Inl e
           | Inr el \<Rightarrow> Inr (if isNode el then p + 2 else p + 1)))"

definition currentGoal :: "Graph \<Rightarrow> exn + GraphElement option" where
  "currentGoal g =
     (case currentGoalSequenceId g of
        Inl e \<Rightarrow> Inl e
      | Inr p \<Rightarrow>
          Inr (case map_of (graph_map g) p of
                 Some (NodeElement n) \<Rightarrow> if n_released n then Some (NodeElement n) else None
               | _ \<Rightarrow> None))"

definition currentMap :: "Graph \<Rightarrow> exn + string option" where
  "currentMap g =
     (case (case agv_pos g of
              Some p \<Rightarrow> Graph_at p g
            | None \<Rightarrow> (case bounds g of Inl e \<Rightarrow> Inl e | Inr (f, _) \<Rightarrow> Graph_at f g)) of
        Inl e \<Rightarrow> Inl e
      | Inr ge \<Rightarrow>
          (case (if isEdge ge then Graph_at (getSequenceId ge + 1) g else Inr ge) of
             Inl e \<Rightarrow> Inl e
           | Inr ge' \<Rightarrow>
               (case getNode ge' of
                  Inl e \<Rightarrow> Inl e
                | Inr n \<Rightarrow> Inr (map_option np_mapId (n_nodePosition n)))))"

definition setAgvLastNodeSequenceId :: "seq_id \<Rightarrow> Graph \<Rightarrow> exn + Graph" where
  "setAgvLastNodeSequenceId seq g =
     (case map_of (graph_map g) seq of
        None \<Rightarrow> Inl VDA5050PPInvalidArgument
      | Some el \<Rightarrow>
          if \<not> isNode el then Inl VDA5050PPInvalidArgument
          else if isHorizon el then Inl VDA5050PPInvalidArgument
          else Inr (g\<lparr>agv_pos := Some seq\<rparr>))"

text \<open>
  \<^verbatim>\<open>trim\<close>: the branch for a missing position has no \<^verbatim>\<open>return\<close>, so the empty optional is
  dereferenced.
\<close>

definition trim :: "Graph \<Rightarrow> exn + Graph" where
  "trim g =
     (case agv_pos g of
        None \<Rightarrow> Inl UndefinedBehaviour
      | Some p \<Rightarrow> Inr (g\<lparr>graph_map := erase_until p (graph_map g)\<rparr>))"

definition getNodes :: "Graph \<Rightarrow> Node list" where
  "getNodes g = List.map_filter (\<lambda>(_, el). case el of NodeElement n \<Rightarrow> Some n | _ \<Rightarrow> None) (graph_map g)"

definition getEdges :: "Graph \<Rightarrow> Edge list" where
  "getEdges g = List.map_filter (\<lambda>(_, el). case el of EdgeElement e \<Rightarrow> Some e | _ \<Rightarrow> None) (graph_map g)"

definition node_state_of :: "Node \<Rightarrow> NodeState" where
  "node_state_of n =
     \<lparr>ns_nodeId = n_nodeId n, ns_sequenceId = n_sequenceId n,
      ns_nodeDescription = n_nodeDescription n, ns_nodePosition = n_nodePosition n,
      ns_released = n_released n\<rparr>"

definition edge_state_of :: "Edge \<Rightarrow> EdgeState" where
  "edge_state_of e =
     \<lparr>es_edgeId = e_edgeId e, es_sequenceId = e_sequenceId e,
      es_edgeDescription = e_edgeDescription e, es_released = e_released e,
      es_trajectory = e_trajectory e\<rparr>"

fun dump_elements ::
  "seq_id option \<Rightarrow> (seq_id, GraphElement) std_map \<Rightarrow> NodeState list \<times> EdgeState list \<Rightarrow>
   NodeState list \<times> EdgeState list" where
  "dump_elements skip [] (ns, es) = (ns, es)"
| "dump_elements skip ((k, el) # m) (ns, es) =
     (if skip = Some k then dump_elements skip m (ns, es)
      else case el of
        NodeElement n \<Rightarrow> dump_elements skip m (ns @ [node_state_of n], es)
      | EdgeElement e \<Rightarrow> dump_elements skip m (ns, es @ [edge_state_of e]))"

definition Graph_dumpTo ::
  "Graph \<Rightarrow> bool \<Rightarrow> NodeState list \<times> EdgeState list \<Rightarrow> NodeState list \<times> EdgeState list" where
  "Graph_dumpTo g skip_agv_elem out =
     dump_elements (if skip_agv_elem then agv_pos g else None) (graph_map g) out"

section \<open>The class invariant\<close>

text \<open>
  The header states: not empty, no base element after a horizon element. The representation
  adds that the map is ordered and that every key is the sequence id of its element.
\<close>

definition base_before_horizon :: "(seq_id, GraphElement) std_map \<Rightarrow> bool" where
  "base_before_horizon m \<longleftrightarrow>
     (\<forall>p \<in> set m. \<forall>q \<in> set m. fst p < fst q \<longrightarrow> isHorizon (snd p) \<longrightarrow> isHorizon (snd q))"

definition keys_ok :: "(seq_id, GraphElement) std_map \<Rightarrow> bool" where
  "keys_ok m \<longleftrightarrow> (\<forall>p \<in> set m. fst p = getSequenceId (snd p))"

definition graph_inv :: "Graph \<Rightarrow> bool" where
  "graph_inv g \<longleftrightarrow>
     wf_map (graph_map g) \<and> graph_map g \<noteq> [] \<and> keys_ok (graph_map g) \<and> base_before_horizon (graph_map g)"

text \<open>The third invariant of the header: the vehicle is on a base element of the graph.\<close>

definition agv_on_base :: "Graph \<Rightarrow> bool" where
  "agv_on_base g \<longleftrightarrow>
     (case agv_pos g of
        None \<Rightarrow> True
      | Some p \<Rightarrow> (case map_of (graph_map g) p of None \<Rightarrow> False | Some el \<Rightarrow> isBase el))"


section \<open>The invariant is kept\<close>

lemma isBase_iff [simp]: "isBase e \<longleftrightarrow> \<not> isHorizon e"
  by (simp add: isBase_def)

lemma upper_bound_Some:
  assumes "upper_bound k m = Some p"
  shows "p \<in> set m" and "k < fst p"
  using assms by (auto simp: upper_bound_def find_Some_iff)

lemma upper_bound_least:
  assumes "wf_map m" and "upper_bound k m = Some p" and "q \<in> set m" and "k < fst q"
  shows "fst p \<le> fst q"
  using assms by (induction m) (auto simp: upper_bound_def wf_map_Cons split: if_splits)

lemma upper_bound_None: "upper_bound k m = None \<longleftrightarrow> (\<forall>p \<in> set m. \<not> k < fst p)"
  by (auto simp: upper_bound_def find_None_iff)

lemma before_upper_bound_eq:
  "before_upper_bound k m =
     (if filter (\<lambda>p. fst p \<le> k) m = [] then None else Some (last (filter (\<lambda>p. fst p \<le> k) m)))"
  by (simp add: before_upper_bound_def split: list.split)

lemma before_upper_bound_Some:
  assumes "before_upper_bound k m = Some p"
  shows "p \<in> set m" and "fst p \<le> k"
proof -
  have "p \<in> set (filter (\<lambda>p. fst p \<le> k) m)"
    using assms by (metis before_upper_bound_eq last_in_set option.distinct(1) option.inject)
  then show "p \<in> set m" and "fst p \<le> k" by auto
qed

lemma wf_map_last_greatest: "wf_map m \<Longrightarrow> p \<in> set m \<Longrightarrow> fst p \<le> fst (last m)"
  by (induction m) (auto simp: wf_map_Cons intro: less_imp_le)

lemma wf_map_hd_least: "wf_map m \<Longrightarrow> p \<in> set m \<Longrightarrow> fst (hd m) \<le> fst p"
  by (cases m) (auto simp: wf_map_Cons intro: less_imp_le)

lemma before_upper_bound_greatest:
  assumes "wf_map m" and "before_upper_bound k m = Some p" and "q \<in> set m" and "fst q \<le> k"
  shows "fst q \<le> fst p"
proof -
  let ?f = "filter (\<lambda>p. fst p \<le> k) m"
  have "q \<in> set ?f" "p = last ?f"
    using assms by (auto simp: before_upper_bound_eq split: if_splits)
  then show ?thesis using wf_map_last_greatest [OF wf_map_filter [OF assms(1)]] by simp
qed

lemma before_upper_bound_None: "before_upper_bound k m = None \<longleftrightarrow> (\<forall>p \<in> set m. \<not> fst p \<le> k)"
  by (simp add: before_upper_bound_eq filter_empty_iff)

text \<open>What the neighbour test of \<^verbatim>\<open>update\<close> amounts to on a graph that satisfies the invariant.\<close>

definition update_allowed :: "GraphElement \<Rightarrow> (seq_id, GraphElement) std_map \<Rightarrow> bool" where
  "update_allowed e m \<longleftrightarrow>
     (if isHorizon e then \<forall>p \<in> set m. getSequenceId e < fst p \<longrightarrow> isHorizon (snd p)
      else \<forall>p \<in> set m. fst p \<le> getSequenceId e \<longrightarrow> \<not> isHorizon (snd p))"

lemma base_before_horizonD:
  "base_before_horizon m \<Longrightarrow> p \<in> set m \<Longrightarrow> q \<in> set m \<Longrightarrow> fst p < fst q \<Longrightarrow>
   isHorizon (snd p) \<Longrightarrow> isHorizon (snd q)"
  by (auto simp: base_before_horizon_def)

lemma base_before_horizon_subset:
  "base_before_horizon m \<Longrightarrow> set m' \<subseteq> set m \<Longrightarrow> base_before_horizon m'"
  unfolding base_before_horizon_def by blast

lemma wf_map_key_unique: "wf_map m \<Longrightarrow> p \<in> set m \<Longrightarrow> q \<in> set m \<Longrightarrow> fst p = fst q \<Longrightarrow> p = q"
  by (metis map_of_eq_Some_iff_wf option.inject prod.collapse)

lemma before_test:
  assumes "wf_map m" and "base_before_horizon m"
  shows "(case before_upper_bound k m of None \<Rightarrow> False | Some b \<Rightarrow> isHorizon (snd b)) \<longleftrightarrow>
         (\<exists>p \<in> set m. fst p \<le> k \<and> isHorizon (snd p))"
proof (cases "before_upper_bound k m")
  case None
  then show ?thesis using before_upper_bound_None [of k m] by auto
next
  case (Some b)
  note b = before_upper_bound_Some [OF Some]
  have "isHorizon (snd b)" if "p \<in> set m" "fst p \<le> k" "isHorizon (snd p)" for p
  proof (cases "fst p = fst b")
    case True
    then show ?thesis using wf_map_key_unique [OF assms(1) that(1) b(1)] that(3) by simp
  next
    case False
    then have "fst p < fst b"
      using before_upper_bound_greatest [OF assms(1) Some that(1,2)] by simp
    then show ?thesis by (rule base_before_horizonD [OF assms(2) that(1) b(1) _ that(3)])
  qed
  then show ?thesis using Some b by auto
qed

lemma after_test:
  assumes "wf_map m" and "base_before_horizon m"
  shows "(case upper_bound k m of None \<Rightarrow> False | Some a \<Rightarrow> isBase (snd a)) \<longleftrightarrow>
         (\<exists>p \<in> set m. k < fst p \<and> \<not> isHorizon (snd p))"
proof (cases "upper_bound k m")
  case None
  then show ?thesis using upper_bound_None [of k m] by auto
next
  case (Some a)
  note a = upper_bound_Some [OF Some]
  have "\<not> isHorizon (snd a)" if "p \<in> set m" "k < fst p" "\<not> isHorizon (snd p)" for p
  proof (cases "fst p = fst a")
    case True
    then show ?thesis using wf_map_key_unique [OF assms(1) that(1) a(1)] that(3) by simp
  next
    case False
    then have "fst a < fst p"
      using upper_bound_least [OF assms(1) Some that(1,2)] by simp
    then show ?thesis using base_before_horizonD [OF assms(2) a(1) that(1)] that(3) by auto
  qed
  then show ?thesis using Some a by auto
qed

lemma Graph_update_eq:
  assumes "wf_map (graph_map g)" and "base_before_horizon (graph_map g)"
  shows "Graph_update e g =
     (if update_allowed e (graph_map g)
      then Inr (g\<lparr>graph_map := insert_or_assign (getSequenceId e) e (graph_map g)\<rparr>)
      else Inl VDA5050PPInvalidArgument)"
  using before_test [OF assms, of "getSequenceId e"] after_test [OF assms, of "getSequenceId e"]
  by (cases "graph_map g = []"; cases "isHorizon e")
    (auto simp: Graph_update_def update_allowed_def Let_def simp del: isBase_iff
      simp add: isBase_iff [of e])

lemma set_insert_or_assign_wf:
  assumes "wf_map m"
  shows "set (insert_or_assign k v m) = insert (k, v) {p \<in> set m. fst p \<noteq> k}"
proof -
  have "p \<in> set (insert_or_assign k v m) \<longleftrightarrow> p = (k, v) \<or> (p \<in> set m \<and> fst p \<noteq> k)" for p
    using map_of_eq_Some_iff_wf [OF wf_insert_or_assign [OF assms], of k v "fst p" "snd p"]
      map_of_eq_Some_iff_wf [OF assms, of "fst p" "snd p"]
    by (cases p) (auto simp: map_of_insert_or_assign [OF assms] split: if_splits)
  then show ?thesis by blast
qed

lemma insert_or_assign_not_Nil [simp]: "insert_or_assign k v m \<noteq> []"
  by (induction k v m rule: insert_or_assign.induct) auto

text \<open>The test of \<^verbatim>\<open>update\<close> is sufficient for the invariant.\<close>

lemma update_keeps_separation:
  assumes "wf_map m" and "base_before_horizon m" and "update_allowed e m"
  shows "base_before_horizon (insert_or_assign (getSequenceId e) e m)"
proof -
  let ?k = "getSequenceId e"
  have "isHorizon (snd q)"
    if p: "p = (?k, e) \<or> p \<in> set m" and q: "q = (?k, e) \<or> q \<in> set m" and "fst p < fst q"
      and "isHorizon (snd p)" for p q
    using p q that(3,4) assms(3) base_before_horizonD [OF assms(2), of p q]
    by (auto simp: update_allowed_def split: if_splits)
  then show ?thesis
    unfolding base_before_horizon_def set_insert_or_assign_wf [OF assms(1)] by blast
qed

lemma Graph_update_inv:
  assumes "Graph_update e g = Inr g'" and "wf_map (graph_map g)" and "keys_ok (graph_map g)"
    and "base_before_horizon (graph_map g)"
  shows "graph_inv g' \<and> agv_pos g' = agv_pos g"
  using assms update_keeps_separation [of "graph_map g" e]
  by (auto simp: Graph_update_eq graph_inv_def wf_insert_or_assign keys_ok_def
      set_insert_or_assign_wf split: if_splits)

lemma Graph_update_all_inv:
  "Graph_update_all es g = Inr g' \<Longrightarrow> graph_inv g \<Longrightarrow> graph_inv g' \<and> agv_pos g' = agv_pos g"
proof (induction es arbitrary: g)
  case Nil
  then show ?case by simp
next
  case (Cons e es)
  then obtain h where h: "Graph_update e g = Inr h" "Graph_update_all es h = Inr g'"
    by (auto split: sum.splits)
  have "graph_inv h \<and> agv_pos h = agv_pos g"
    using Graph_update_inv [OF h(1)] Cons.prems(2) by (simp add: graph_inv_def)
  then show ?case using Cons.IH [OF h(2)] by simp
qed

lemma Graph_new_inv:
  assumes "Graph_new es = Inr g"
  shows "graph_inv g \<and> agv_pos g = None"
proof -
  obtain e es' where es: "es = e # es'" using assms by (cases es) (auto simp: Graph_new_def)
  let ?g = "\<lparr>agv_pos = None, graph_map = []\<rparr>"
  obtain h where h: "Graph_update e ?g = Inr h" "Graph_update_all es' h = Inr g"
    using assms by (auto simp: Graph_new_def es split: sum.splits)
  have "graph_inv h \<and> agv_pos h = agv_pos ?g"
    by (rule Graph_update_inv [OF h(1)]) (simp_all add: keys_ok_def base_before_horizon_def)
  then show ?thesis using Graph_update_all_inv [OF h(2)] by simp
qed

section \<open>Base and horizon\<close>

abbreviation base_part :: "(seq_id, GraphElement) std_map \<Rightarrow> (seq_id, GraphElement) std_map" where
  "base_part m \<equiv> filter (\<lambda>p. isBase (snd p)) m"

abbreviation horizon_part :: "(seq_id, GraphElement) std_map \<Rightarrow> (seq_id, GraphElement) std_map" where
  "horizon_part m \<equiv> filter (\<lambda>p. isHorizon (snd p)) m"

lemma base_before_horizon_Cons:
  assumes "wf_map (p # m)"
  shows "base_before_horizon (p # m) \<longleftrightarrow>
     (isHorizon (snd p) \<longrightarrow> (\<forall>q \<in> set m. isHorizon (snd q))) \<and> base_before_horizon m"
proof -
  have lt: "fst p < fst q" "\<not> fst q < fst p" if "q \<in> set m" for q
    using assms that by (auto simp: wf_map_Cons)
  have "\<not> fst p < fst p" by simp
  then show ?thesis
    unfolding base_before_horizon_def using lt by (simp add: ball_simps)
qed

lemma base_horizon_split:
  "wf_map m \<Longrightarrow> base_before_horizon m \<Longrightarrow> m = base_part m @ horizon_part m"
proof (induction m)
  case Nil
  then show ?case by simp
next
  case (Cons p m)
  have wf: "wf_map m" using Cons.prems(1) by (simp add: wf_map_Cons)
  have "base_before_horizon m" using Cons.prems(2) by (simp add: base_before_horizon_def)
  note m = Cons.IH [OF wf this, symmetric]
  show ?case
  proof (cases "isHorizon (snd p)")
    case True
    then have "\<forall>q \<in> set m. isHorizon (snd q)"
      using Cons.prems(2) base_before_horizon_Cons [OF Cons.prems(1)] by blast
    then show ?thesis using True by (simp add: filter_empty_iff)
  next
    case False
    then show ?thesis using m by simp
  qed
qed

lemma find_rev_eq_last:
  "List.find P (rev xs) = (if filter P xs = [] then None else Some (last (filter P xs)))"
proof (induction xs rule: rev_induct)
  case (snoc x xs)
  then show ?case by simp
qed simp

lemma baseBounds_eq:
  assumes "graph_map g \<noteq> []"
  shows "baseBounds g =
     (if base_part (graph_map g) = [] then Inl VDA5050PPInvalidArgument
      else Inr (fst (hd (graph_map g)), fst (last (base_part (graph_map g)))))"
  using assms by (simp add: baseBounds_def find_rev_eq_last del: isBase_iff)

text \<open>The last base key bounds the base from above and the horizon from below.\<close>

lemma last_base_bounds:
  assumes "wf_map m" and "base_before_horizon m" and "base_part m \<noteq> []" and "p \<in> set m"
  shows "isHorizon (snd p) \<longleftrightarrow> fst (last (base_part m)) < fst p"
proof -
  let ?b = "last (base_part m)"
  have b: "?b \<in> set m" "\<not> isHorizon (snd ?b)"
    using last_in_set [OF assms(3)] by auto
  have "fst p \<le> fst ?b" if "\<not> isHorizon (snd p)"
    by (rule wf_map_last_greatest) (use assms that in \<open>auto intro: wf_map_filter\<close>)
  moreover have "\<not> fst p < fst ?b" if "isHorizon (snd p)"
    using base_before_horizonD [OF assms(2) assms(4) b(1)] that b(2) by blast
  moreover have "fst p \<noteq> fst ?b" if "isHorizon (snd p)"
    using wf_map_key_unique [OF assms(1) assms(4) b(1)] that b(2) by auto
  ultimately show ?thesis by force
qed

text \<open>
  No sequence id is skipped: every key but the last has its successor. Orders that pass
  \<^verbatim>\<open>checkOrderGraphConsistency\<close> have this property. \<^verbatim>\<open>cleanHorizon\<close> relies on it: it looks up the
  key after the last base key.
\<close>

definition contiguous :: "('k::{linorder, plus, one} \<times> 'v) list \<Rightarrow> bool" where
  "contiguous m \<longleftrightarrow> (\<forall>p \<in> set m. fst p = fst (last m) \<or> fst p + 1 \<in> fst ` set m)"

lemma unat_succ_word:
  assumes "k < (j :: 32 word)"
  shows "unat (k + 1) = Suc (unat k)"
proof -
  have "1 + k \<noteq> 0"
  proof
    assume "1 + k = 0"
    then have "k = - 1" by (simp add: eq_neg_iff_add_eq_0 add.commute)
    then show False using assms word_order.extremum_strict by blast
  qed
  then show ?thesis using unatSuc [of k] by (simp add: add.commute)
qed

lemma less_succ_word: "k < (j :: 32 word) \<Longrightarrow> i \<le> k \<longleftrightarrow> i < k + 1"
  by (simp add: unat_succ_word word_less_nat_alt word_le_nat_alt less_Suc_eq_le)

lemma cleanHorizon_eq:
  assumes "graph_inv g" and "contiguous (graph_map g)" and "base_part (graph_map g) \<noteq> []"
  shows "cleanHorizon g = Inr (g\<lparr>graph_map := base_part (graph_map g)\<rparr>)"
proof -
  let ?m = "graph_map g" and ?b = "fst (last (base_part (graph_map g)))"
  have inv: "wf_map ?m" "?m \<noteq> []" "base_before_horizon ?m"
    using assms(1) by (auto simp: graph_inv_def)
  note hz = last_base_bounds [OF inv(1,3) assms(3)]
  show ?thesis
  proof (cases "isHorizon (snd (last ?m))")
    case False
    have "\<not> isHorizon (snd p)" if "p \<in> set ?m" for p
      using hz [OF that] hz [of "last ?m"] wf_map_last_greatest [OF inv(1) that] False inv(2)
      by auto
    then have "base_part ?m = ?m" by (simp add: filter_id_conv)
    then show ?thesis using False inv(2) by (simp add: cleanHorizon_def hasHorizon_def)
  next
    case True
    have lt: "?b < fst (last ?m)" using hz [of "last ?m"] True inv(2) by simp
    have "last (base_part ?m) \<in> set ?m" using last_in_set [OF assms(3)] by auto
    then obtain p where p: "p \<in> set ?m" "fst p = ?b + 1"
      using assms(2) lt unfolding contiguous_def by force
    then obtain v where v: "map_of ?m (?b + 1) = Some v"
      using map_of_eq_Some_iff_wf [OF inv(1)] by (metis prod.collapse)
    have "fst q < ?b + 1 \<longleftrightarrow> \<not> isHorizon (snd q)" if "q \<in> set ?m" for q
      using hz [OF that] less_succ_word [OF lt, of "fst q"] by auto
    then have "erase_from (?b + 1) ?m = base_part ?m"
      unfolding erase_from_def takeWhile_present [OF inv(1) v] by (intro filter_cong) auto
    then show ?thesis
      using True inv(2) lt assms(3)
      by (simp add: cleanHorizon_def hasHorizon_def horizonBounds_def bounds_def baseBounds_eq
          del: isBase_iff)
  qed
qed

section \<open>Extending the graph\<close>

text \<open>
  What \<^verbatim>\<open>extend\<close> computes: all base elements stay, the old horizon is dropped, the elements of
  the other graph are added and win where keys coincide.
\<close>

definition extended :: "Graph \<Rightarrow> Graph \<Rightarrow> Graph" where
  "extended other g =
     g\<lparr>agv_pos := (if agv_pos g = None then agv_pos other else agv_pos g),
       graph_map := emplace_all (base_part (graph_map g)) (graph_map other)\<rparr>"

lemma extend_eq:
  assumes "graph_inv g" and "contiguous (graph_map g)" and "graph_map other \<noteq> []"
    and "base_part (graph_map g) \<noteq> []"
  defines "bl \<equiv> fst (last (base_part (graph_map g)))"
    and "f \<equiv> fst (hd (graph_map other))" and "l \<equiv> fst (last (graph_map other))"
  shows "extend other g =
     (if agv_pos g \<noteq> None \<and> agv_pos other \<noteq> None \<and> agv_pos g \<noteq> agv_pos other
        \<or> f \<noteq> bl \<and> f \<noteq> bl + 1
      then Inl VDA5050PPInvalidArgument
      else Inr ((max (bl + 1) f, l), extended other g))"
proof -
  have "graph_inv (g\<lparr>agv_pos := p\<rparr>)" for p using assms(1) by (simp add: graph_inv_def)
  then have clean: "cleanHorizon (g\<lparr>agv_pos := p\<rparr>) =
      Inr (g\<lparr>agv_pos := p, graph_map := base_part (graph_map g)\<rparr>)" for p
    using cleanHorizon_eq [of "g\<lparr>agv_pos := p\<rparr>"] assms(2,4) by simp
  have "graph_map g \<noteq> []" using assms(1) by (simp add: graph_inv_def)
  then show ?thesis
    using clean [of "agv_pos other"] cleanHorizon_eq [OF assms(1,2,4)] assms(3,4)
    by (auto simp: extend_def baseBounds_eq bounds_def bl_def f_def l_def extended_def Let_def
        simp del: isBase_iff)
qed

lemma extended_lookup:
  assumes "graph_inv g" and "graph_inv other"
  shows "map_of (graph_map (extended other g)) k =
     (case map_of (graph_map other) k of
        Some el \<Rightarrow> Some el
      | None \<Rightarrow> (case map_of (graph_map g) k of
          Some el \<Rightarrow> if isBase el then Some el else None
        | None \<Rightarrow> None))"
proof -
  have wf: "wf_map (graph_map other)" "wf_map (graph_map g)"
    using assms by (auto simp: graph_inv_def)
  have "map_of (base_part (graph_map g)) k = (case map_of (graph_map g) k of
      Some el \<Rightarrow> if isBase el then Some el else None | None \<Rightarrow> None)"
    by (rule map_of_filter_value [OF wf(2)])
  then show ?thesis
    by (simp add: extended_def map_of_emplace_all [OF wf(1)] split: option.split)
qed

lemma extended_elements:
  assumes "graph_inv g" and "graph_inv other"
  shows "p \<in> set (graph_map (extended other g)) \<longleftrightarrow>
     p \<in> set (graph_map other) \<or>
     (p \<in> set (graph_map g) \<and> isBase (snd p) \<and> fst p \<notin> fst ` set (graph_map other))"
proof -
  have wf: "wf_map (graph_map other)" "wf_map (graph_map g)"
    "wf_map (graph_map (extended other g))"
    using assms by (auto simp: graph_inv_def extended_def wf_emplace_all)
  show ?thesis
    using extended_lookup [OF assms, of "fst p"] map_of_eq_Some_iff_wf [OF wf(1), of "fst p" "snd p"]
      map_of_eq_Some_iff_wf [OF wf(2), of "fst p" "snd p"]
      map_of_eq_Some_iff_wf [OF wf(3), of "fst p" "snd p"]
      map_of_eq_None_iff [of "graph_map other" "fst p"]
    by (auto split: option.splits if_splits)
qed

text \<open>The sequence ids must not wrap around: with \<open>bl + 1 = 0\<close> the test of \<^verbatim>\<open>extend\<close> is useless.\<close>

lemma extended_inv:
  assumes "graph_inv g" and "graph_inv other" and "base_part (graph_map g) \<noteq> []"
  defines "bl \<equiv> fst (last (base_part (graph_map g)))"
  assumes "bl \<le> fst (hd (graph_map other))"
  shows "graph_inv (extended other g)"
proof -
  let ?x = "graph_map (extended other g)"
  have inv: "wf_map (graph_map g)" "base_before_horizon (graph_map g)" "keys_ok (graph_map g)"
    "wf_map (graph_map other)" "base_before_horizon (graph_map other)" "keys_ok (graph_map other)"
    "graph_map other \<noteq> []"
    using assms(1,2) by (auto simp: graph_inv_def)
  note el = extended_elements [OF assms(1,2)]
  have old: "fst p < fst q"
    if "p \<in> set (graph_map g)" "isBase (snd p)" "fst p \<notin> fst ` set (graph_map other)"
      "q \<in> set (graph_map other)" for p q
  proof -
    have "fst p \<le> bl"
      using last_base_bounds [OF inv(1,2) assms(3) that(1)] that(2) by (simp add: bl_def)
    also have "bl \<le> fst (hd (graph_map other))" by (rule assms(5))
    also have "\<dots> \<le> fst q" by (rule wf_map_hd_least [OF inv(4) that(4)])
    finally show ?thesis using that(3,4) by force
  qed
  have "base_before_horizon ?x"
    unfolding base_before_horizon_def
  proof (intro ballI impI)
    fix p q
    assume p: "p \<in> set ?x" and q: "q \<in> set ?x" and lt: "fst p < fst q" and h: "isHorizon (snd p)"
    have p': "p \<in> set (graph_map other)" using p h by (simp add: el)
    then have "q \<in> set (graph_map other)" using q old [of q p] lt less_asym by (auto simp: el)
    then show "isHorizon (snd q)" using base_before_horizonD [OF inv(5) p' _ lt h] by blast
  qed
  moreover have "?x \<noteq> []"
    using el [of "hd (graph_map other)"] inv(7) by auto
  moreover have "keys_ok ?x" using inv(3,6) el by (auto simp: keys_ok_def)
  moreover have "wf_map ?x" by (simp add: extended_def wf_emplace_all inv(4))
  ultimately show ?thesis by (simp add: graph_inv_def)
qed

section \<open>Moving the vehicle\<close>

lemma setAgv_spec:
  "setAgvLastNodeSequenceId k g = Inr g' \<longleftrightarrow>
     (\<exists>n. map_of (graph_map g) k = Some (NodeElement n) \<and> n_released n) \<and> g' = g\<lparr>agv_pos := Some k\<rparr>"
proof (cases "map_of (graph_map g) k")
  case (Some el)
  then show ?thesis by (cases el) (auto simp: setAgvLastNodeSequenceId_def)
qed (simp add: setAgvLastNodeSequenceId_def)

lemma setAgv_error:
  "setAgvLastNodeSequenceId k g = Inl e \<Longrightarrow> e = VDA5050PPInvalidArgument"
  by (auto simp: setAgvLastNodeSequenceId_def split: option.splits if_splits)

lemma agv_on_base_Some:
  "agv_pos g = Some p \<Longrightarrow>
   agv_on_base g \<longleftrightarrow> (\<exists>el. map_of (graph_map g) p = Some el \<and> isBase el)"
  by (auto simp: agv_on_base_def split: option.splits)

lemma trim_eq:
  assumes "graph_inv g" and "agv_on_base g" and "agv_pos g = Some p"
  shows "trim g = Inr (g\<lparr>graph_map := filter (\<lambda>q. p \<le> fst q) (graph_map g)\<rparr>)"
proof -
  obtain el where "map_of (graph_map g) p = Some el"
    using assms(2,3) by (auto simp: agv_on_base_Some)
  then show ?thesis
    using assms(1,3) by (simp add: trim_def erase_until_def dropWhile_present graph_inv_def)
qed

lemma filtered_inv:
  assumes "graph_inv g" and "filter P (graph_map g) \<noteq> []"
  shows "graph_inv (g\<lparr>graph_map := filter P (graph_map g)\<rparr>)"
proof -
  have "base_before_horizon (filter P (graph_map g))"
    using assms(1) by (auto simp: graph_inv_def elim: base_before_horizon_subset)
  then show ?thesis using assms by (auto simp: graph_inv_def wf_map_filter keys_ok_def)
qed

lemma trim_inv:
  assumes "graph_inv g" and "agv_on_base g" and "trim g = Inr g'"
  shows "graph_inv g'" and "agv_on_base g'" and "agv_pos g' = agv_pos g"
    and "\<exists>p. agv_pos g' = Some p \<and> fst (hd (graph_map g')) = p"
proof -
  obtain p where p: "agv_pos g = Some p" using assms(3) by (cases "agv_pos g") (auto simp: trim_def)
  obtain el where el: "map_of (graph_map g) p = Some el" "isBase el"
    using assms(2) p by (auto simp: agv_on_base_Some)
  let ?f = "filter (\<lambda>q. p \<le> fst q) (graph_map g)"
  have g': "g' = g\<lparr>graph_map := ?f\<rparr>" using trim_eq [OF assms(1,2) p] assms(3) by simp
  have in_f: "(p, el) \<in> set ?f" using map_of_SomeD [OF el(1)] by simp
  then have ne: "?f \<noteq> []" by (metis empty_iff list.set(1))
  then show inv: "graph_inv g'" unfolding g' by (rule filtered_inv [OF assms(1)])
  show "agv_on_base g'" and pos: "agv_pos g' = agv_pos g"
    using el p by (auto simp: g' agv_on_base_def map_of_filter_key)
  have "hd ?f \<in> set ?f" using ne by (rule hd_in_set)
  then have "p \<le> fst (hd ?f)" by auto
  moreover have "fst (hd ?f) \<le> p"
    using wf_map_hd_least [OF _ in_f] inv by (simp add: g' graph_inv_def)
  ultimately show "\<exists>p. agv_pos g' = Some p \<and> fst (hd (graph_map g')) = p"
    using p by (simp add: g')
qed

lemma extended_agv_on_base:
  assumes "graph_inv g" and "graph_inv other" and "agv_on_base g"
    and "agv_pos g = None \<Longrightarrow> agv_on_base other"
    and "\<And>p el. agv_pos g = Some p \<Longrightarrow> map_of (graph_map other) p = Some el \<Longrightarrow> isBase el"
  shows "agv_on_base (extended other g)"
proof (cases "agv_pos g")
  case None
  have "agv_pos (extended other g) = agv_pos other" using None by (simp add: extended_def)
  then show ?thesis
    using assms(4) [OF None] extended_lookup [OF assms(1,2)]
    by (auto simp: agv_on_base_def split: option.splits)
next
  case (Some p)
  then have "agv_pos (extended other g) = Some p" by (simp add: extended_def)
  then show ?thesis
    using assms(3,5) Some extended_lookup [OF assms(1,2), of p]
    by (auto simp: agv_on_base_def split: option.splits)
qed

lemma contiguousD:
  "contiguous m \<Longrightarrow> p \<in> set m \<Longrightarrow> fst p \<noteq> fst (last m) \<Longrightarrow> fst p + 1 \<in> fst ` set m"
  by (auto simp: contiguous_def)

lemma contiguousI:
  "(\<And>p. p \<in> set m \<Longrightarrow> fst p \<noteq> fst (last m) \<Longrightarrow> fst p + 1 \<in> fst ` set m) \<Longrightarrow> contiguous m"
  by (auto simp: contiguous_def)

text \<open>Contiguous graphs stay contiguous, so \<^verbatim>\<open>cleanHorizon\<close> keeps working.\<close>

lemma contiguous_extended:
  assumes "graph_inv g" and "graph_inv other" and "contiguous (graph_map g)"
    and "contiguous (graph_map other)" and "base_part (graph_map g) \<noteq> []"
  defines "bl \<equiv> fst (last (base_part (graph_map g)))"
  assumes "fst (hd (graph_map other)) \<in> {bl, bl + 1}" and "bl < bl + 1"
  shows "contiguous (graph_map (extended other g))"
proof (rule contiguousI)
  let ?x = "graph_map (extended other g)" and ?o = "graph_map other"
  fix p assume p: "p \<in> set ?x" and notlast: "fst p \<noteq> fst (last ?x)"
  have inv: "wf_map (graph_map g)" "base_before_horizon (graph_map g)" "wf_map ?o" "?o \<noteq> []"
    using assms(1,2) by (auto simp: graph_inv_def)
  have wfx: "wf_map ?x" by (simp add: extended_def wf_emplace_all inv(3))
  note el = extended_elements [OF assms(1,2)]
  have ge: "bl \<le> fst (hd ?o)" using assms(7,8) by auto
  have keys: "fst ` set ?o \<subseteq> fst ` set ?x" using el by auto
  show "fst p + 1 \<in> fst ` set ?x"
  proof (cases "p \<in> set ?o")
    case True
    have "last ?o \<in> set ?x" using el inv(4) by simp
    then have "fst p \<noteq> fst (last ?o) \<or> fst (last ?o) < fst (last ?x)"
      using notlast wf_map_last_greatest [OF wfx] by fastforce
    moreover have "fst (last ?x) \<le> fst (last ?o)"
    proof -
      have ne: "?x \<noteq> []" using p by auto
      have "fst (last ?x) \<le> bl" if "last ?x \<in> set (graph_map g)" "isBase (snd (last ?x))"
        using last_base_bounds [OF inv(1,2) assms(5) that(1)] that(2) by (simp add: bl_def)
      moreover have "bl \<le> fst (last ?o)"
        using ge wf_map_hd_least [OF inv(3) last_in_set [OF inv(4)]] by simp
      ultimately show ?thesis
        using el [of "last ?x"] last_in_set [OF ne] wf_map_last_greatest [OF inv(3), of "last ?x"]
        by (meson order_trans)
    qed
    ultimately have "fst p \<noteq> fst (last ?o)" by auto
    then show ?thesis using contiguousD [OF assms(4) True] keys by blast
  next
    case False
    then have g: "p \<in> set (graph_map g)" "isBase (snd p)" "fst p \<notin> fst ` set ?o"
      using p el by auto
    have le: "fst p \<le> bl"
      using last_base_bounds [OF inv(1,2) assms(5) g(1)] g(2) by (simp add: bl_def)
    have lb: "last (base_part (graph_map g)) \<in> set (graph_map g)"
      "isBase (snd (last (base_part (graph_map g))))"
      using last_in_set [OF assms(5)] by auto
    show ?thesis
    proof (cases "fst p = bl")
      case True
      have "fst (hd ?o) \<noteq> fst p" using g(3) hd_in_set [OF inv(4)] by (metis image_eqI)
      then have "fst (hd ?o) = fst p + 1" using assms(7) True by simp
      then show ?thesis using keys hd_in_set [OF inv(4)] by force
    next
      case False
      then have lt: "fst p < bl" using le by simp
      then have "fst p < fst (last (graph_map g))"
        using wf_map_last_greatest [OF inv(1) lb(1)] by (simp add: bl_def)
      then obtain q where q: "q \<in> set (graph_map g)" "fst q = fst p + 1"
        using contiguousD [OF assms(3) g(1)] by force
      have "fst q \<le> bl" using q(2) lt by (simp add: inc_le)
      then have "isBase (snd q)"
        using last_base_bounds [OF inv(1,2) assms(5) q(1)] by (simp add: bl_def)
      then have "q \<in> set ?x \<or> fst q \<in> fst ` set ?o" using q(1) el by auto
      then show ?thesis using q(2) keys by force
    qed
  qed
qed

section \<open>Cutting a graph\<close>

lemma filter_le_split:
  assumes "wf_map m" and "map_of m l = Some v"
  shows "filter (\<lambda>q. fst q \<le> l) m = filter (\<lambda>q. fst q < l) m @ [(l, v)]"
  using assms
proof (induction m)
  case (Cons p m)
  show ?case
  proof (cases "fst p = l")
    case True
    then have "\<forall>q \<in> set m. \<not> fst q \<le> l" using Cons.prems(1) by (auto simp: wf_map_Cons)
    then have "filter (\<lambda>q. fst q \<le> l) m = [] \<and> filter (\<lambda>q. fst q < l) m = []"
      by (auto simp: filter_empty_iff)
    then show ?thesis using True Cons.prems(2) by (cases p) simp
  next
    case False
    then have m: "map_of m l = Some v" using Cons.prems(2) by (cases p) (simp split: if_splits)
    then have "fst p < l" using map_of_SomeD [OF m] Cons.prems(1) by (auto simp: wf_map_Cons)
    then show ?thesis using Cons.IH m Cons.prems(1) by (simp add: wf_map_Cons)
  qed
qed simp

lemma subgraph_eq:
  assumes "graph_inv g"
  shows "subgraph f l g =
     (if f \<le> l \<and> map_of (graph_map g) f \<noteq> None \<and> map_of (graph_map g) l \<noteq> None
      then Inr \<lparr>agv_pos = (case agv_pos g of
                    None \<Rightarrow> None | Some p \<Rightarrow> if f \<le> p \<and> p \<le> l then Some p else None),
                graph_map = filter (\<lambda>p. f \<le> fst p \<and> fst p \<le> l) (graph_map g)\<rparr>
      else Inl VDA5050PPInvalidArgument)"
proof -
  let ?m = "graph_map g" and ?in = "\<lambda>p :: seq_id \<times> GraphElement. f \<le> fst p \<and> fst p \<le> l"
  have wf: "wf_map ?m" using assms by (simp add: graph_inv_def)
  have cut: "erase_from l (erase_until f ?m) @ [(l, v)] = filter ?in ?m"
    if "f \<le> l" "map_of ?m f = Some u" "map_of ?m l = Some v" for u v
  proof -
    let ?n = "filter (\<lambda>p. f \<le> fst p) ?m"
    have n: "wf_map ?n" "map_of ?n l = Some v"
      using wf that by (simp_all add: wf_map_filter map_of_filter_key)
    have "erase_until f ?m = ?n"
      unfolding erase_until_def by (rule dropWhile_present [OF wf that(2)])
    moreover have "erase_from l ?n @ [(l, v)] = filter (\<lambda>q. fst q \<le> l) ?n"
      unfolding erase_from_def takeWhile_present [OF n] filter_le_split [OF n] ..
    ultimately show ?thesis by (simp add: conj_commute)
  qed
  show ?thesis
    using cut by (auto simp: subgraph_def Let_def not_less)
qed

end
