(* ===== verification/InterpreterEvents.thy ===== *)
theory InterpreterEvents
  imports Graph
begin

text \<open>
  \<^verbatim>\<open>core/events/interpreter_event.h\<close>: what the interpreter yields. A group of instant actions
  is a type of its own, because the scheduler keeps those in a queue of their own.
\<close>

record InstantActionGroup =
  iag_actions :: "Action list"
  iag_ceiling :: BlockingType

datatype ControlStatus = ctl_pause | ctl_resume | ctl_cancel

datatype InterpreterEvent =
    YieldNavigationStepEvent (goal_node: Node) (via_edge: "Edge option") (has_stop_at_goal_hint: bool)
  | YieldActionGroupEvent (group_actions: "Action list") (blocking_type_ceiling: BlockingType)
  | YieldInstantActionGroup InstantActionGroup
  | YieldGraphExtension uint32 Graph
  | YieldGraphReplacement string Graph
  | YieldNewAction Action
  | YieldClearActions
  | InterpreterDone
  | InterpreterOrderControl Action ControlStatus

end
