(* ===== verification/Scheduler.thy ===== *)
theory Scheduler
  imports ActionTask NavigationTask InterpreterEvents
begin

text \<open>
  \<^verbatim>\<open>core/order/scheduler\<close>: the scheduler of navigation and action tasks and its nine states.

  The four \<^verbatim>\<open>map<string, shared_ptr<ActionTask>>\<close> members share their tasks: a task that is
  active is at the same time in the running or the paused map, and in the
  nav-interrupting map when it is an instant action. The tasks therefore live in a heap
  (\<open>task_heap\<close>, new tasks are appended) and the maps hold references into it. Events that are
  dispatched go to \<open>outbox\<close>, in program order. Every public operation holds the scheduler's
  mutex while it runs, so it is one atomic step.

  An exception leaves the state as it is at the throw: the loops over the maps transition
  the tasks one by one, and nothing is rolled back.
\<close>

section \<open>State\<close>

datatype SchedulerStateType =
    k_idle
  | k_idle_paused
  | k_active
  | k_canceling
  | k_resuming
  | k_pausing
  | k_paused
  | k_failed
  | k_interrupting

type_synonym task_ref = nat
type_synonym task_map = "(string, task_ref) std_map"

record Scheduler =
  sc_state :: SchedulerStateType
  rcv_evt_queue :: "InterpreterEvent list"
  rcv_evt_queue_staging :: "InterpreterEvent list"
  rcv_interrupt_queue :: "InstantActionGroup list"
  current_action_blocking_type :: BlockingType
  current_segment :: "(seq_id \<times> seq_id) option"
  active_tasks :: task_map
  running_tasks :: task_map
  paused_tasks :: task_map
  nav_interrupting_tasks :: task_map
  navigation_task :: "NavigationTask option"
  task_heap :: "ActionTask list"
  outbox :: "Emitted list"

type_synonym 'a sched = "(Scheduler, 'a) comp"

definition emit :: "Emitted list \<Rightarrow> unit sched" where
  "emit es = modify (\<lambda>s. s\<lparr>outbox := outbox s @ es\<rparr>)"

definition notify_status :: "OrderStatus \<Rightarrow> unit sched" where
  "notify_status st = emit [OrderEvt (OrderStatusEvent st)]"

text \<open>\<^verbatim>\<open>task->transition(tr)\<close> through a reference.\<close>

definition task_transition :: "ActionTransition \<Rightarrow> task_ref \<Rightarrow> unit sched" where
  "task_transition tr r s =
     (if r < length (task_heap s) then
        (case ActionTask_transition tr (task_heap s ! r) of
           (res, t, es) \<Rightarrow>
             (res, s\<lparr>task_heap := (task_heap s)[r := t], outbox := outbox s @ es\<rparr>))
      else (Inl UndefinedBehaviour, s))"

text \<open>\<^verbatim>\<open>navigation_task_->transition(tr)\<close>.\<close>

definition nav_transition :: "order_subscribers \<Rightarrow> NavigationTransition \<Rightarrow> unit sched" where
  "nav_transition subs tr s =
     (case navigation_task s of
        None \<Rightarrow> (Inl UndefinedBehaviour, s)
      | Some nt \<Rightarrow>
          (case NavigationTask_transition subs tr nt of
             (res, t, es) \<Rightarrow> (res, s\<lparr>navigation_task := Some t, outbox := outbox s @ es\<rparr>)))"

definition ref_terminal :: "Scheduler \<Rightarrow> task_ref \<Rightarrow> bool" where
  "ref_terminal s r \<longleftrightarrow> r < length (task_heap s) \<and> ActionTask_isTerminal (task_heap s ! r)"

definition ref_paused :: "Scheduler \<Rightarrow> task_ref \<Rightarrow> bool" where
  "ref_paused s r \<longleftrightarrow> r < length (task_heap s) \<and> ActionTask_isPaused (task_heap s ! r)"

text \<open>\<^verbatim>\<open>for (auto &[id, task] : map) task->transition(tr)\<close>; transitions do not change the maps.\<close>

definition transition_all :: "ActionTransition \<Rightarrow> (Scheduler \<Rightarrow> task_map) \<Rightarrow> unit sched" where
  "transition_all tr mp = bindM (gets mp) (\<lambda>m. forM (map snd m) (task_transition tr))"

section \<open>Helper operations\<close>

subsection \<open>\<^verbatim>\<open>clearQueues\<close>\<close>

text \<open>
  The loop over the event queue: the ids to forget and the kept events. With \<open>keep_nav\<close>, an
  event that is not an action group is cast to a navigation step; for any other event the
  cast is undefined behaviour.
\<close>

fun clear_scan ::
  "bool \<Rightarrow> bool \<Rightarrow> InterpreterEvent list \<Rightarrow> exn + string list \<times> InterpreterEvent list" where
  "clear_scan keep_nav reached_blocking [] = Inr ([], [])"
| "clear_scan keep_nav reached_blocking (e # q) =
     (case e of
        YieldActionGroupEvent as c \<Rightarrow>
          (case clear_scan keep_nav reached_blocking q of
             Inl x \<Rightarrow> Inl x
           | Inr (ids, kept) \<Rightarrow> Inr (map actionId as @ ids, kept))
      | YieldNavigationStepEvent g v stop \<Rightarrow>
          (if keep_nav \<and> \<not> reached_blocking then
             (case clear_scan keep_nav stop q of
                Inl x \<Rightarrow> Inl x
              | Inr (ids, kept) \<Rightarrow> Inr (ids, e # kept))
           else clear_scan keep_nav reached_blocking q)
      | _ \<Rightarrow>
          (if keep_nav \<and> \<not> reached_blocking then Inl UndefinedBehaviour
           else clear_scan keep_nav reached_blocking q))"

definition clearQueues :: "bool \<Rightarrow> unit sched" where
  "clearQueues keep_nav =
     bindM (gets rcv_evt_queue) (\<lambda>q.
     bindM (liftE (clear_scan keep_nav False q)) (\<lambda>(ids, kept).
     bindM (gets rcv_interrupt_queue) (\<lambda>iq.
     seqM (modify (\<lambda>s. s\<lparr>rcv_evt_queue := kept, rcv_interrupt_queue := []\<rparr>))
       (emit (map (\<lambda>i. ActionEvt (ActionForget i))
         (ids @ map actionId (concat (map iag_actions iq))))))))"

subsection \<open>\<^verbatim>\<open>updateTasks\<close>\<close>

text \<open>
  The first three loops. Their bodies read only the tasks, which the loops do not change, so
  each loop is one pass over its map; \<^verbatim>\<open>insert\<close> keeps an existing entry.
\<close>

definition sort_tasks :: "Scheduler \<Rightarrow> Scheduler" where
  "sort_tasks s0 =
     (let s1 = s0\<lparr>
            paused_tasks := emplace_all
              (filter (\<lambda>(k, r). ref_paused s0 r \<and> \<not> ref_terminal s0 r) (running_tasks s0))
              (paused_tasks s0),
            running_tasks := filter (\<lambda>(k, r). \<not> (ref_paused s0 r \<or> ref_terminal s0 r))
              (running_tasks s0)\<rparr>;
          s2 = s1\<lparr>
            running_tasks := emplace_all
              (filter (\<lambda>(k, r). \<not> ref_paused s0 r \<and> \<not> ref_terminal s0 r) (paused_tasks s1))
              (running_tasks s1),
            paused_tasks := filter (\<lambda>(k, r). \<not> (\<not> ref_paused s0 r \<or> ref_terminal s0 r))
              (paused_tasks s1)\<rparr>
      in s2\<lparr>active_tasks := filter (\<lambda>(k, r). \<not> ref_terminal s0 r) (active_tasks s2)\<rparr>)"

definition updateTasks :: "unit sched" where
  "updateTasks =
     seqM (modify sort_tasks)
      (bindM (gets navigation_task) (\<lambda>ont.
         case ont of
           None \<Rightarrow> ret ()
         | Some nt \<Rightarrow>
             whenM (NavigationTask_isTerminal nt)
               (seqM (whenM (NavigationTask_isFailed nt) (clearQueues False))
                  (modify (\<lambda>s. s\<lparr>navigation_task := None\<rparr>)))))"

definition updateTasksInterruptMapping :: "order_subscribers \<Rightarrow> unit sched" where
  "updateTasksInterruptMapping subs =
     bindM (gets (\<lambda>s. \<exists>(k, r) \<in> set (nav_interrupting_tasks s). ref_terminal s r))
      (\<lambda>dropped_from_nav.
        seqM (modify (\<lambda>s. s\<lparr>nav_interrupting_tasks :=
                filter (\<lambda>(k, r). \<not> ref_terminal s r) (nav_interrupting_tasks s)\<rparr>))
         (bindM (gets (\<lambda>s. nav_interrupting_tasks s = [] \<and> navigation_task s \<noteq> None)) (\<lambda>b.
            whenM (dropped_from_nav \<and> b) (nav_transition subs nk_do_resume))))"

subsection \<open>\<^verbatim>\<open>updateFetchNext\<close>\<close>

text \<open>Creating a task: \<^verbatim>\<open>make_shared\<close>, the map assignments of the caller, then \<^verbatim>\<open>doStart\<close>.\<close>

definition new_task :: "Action \<Rightarrow> (task_ref \<Rightarrow> Scheduler \<Rightarrow> Scheduler) \<Rightarrow> unit sched" where
  "new_task a register =
     bindM (gets (\<lambda>s. length (task_heap s))) (\<lambda>r.
     seqM (modify (\<lambda>s. register r (s\<lparr>task_heap := task_heap s @ [ActionTask_new a]\<rparr>)))
       (task_transition ActionTransition_doStart r))"

definition register_active :: "Action \<Rightarrow> task_ref \<Rightarrow> Scheduler \<Rightarrow> Scheduler" where
  "register_active a r s =
     s\<lparr>active_tasks := insert_or_assign (actionId a) r (active_tasks s),
       running_tasks := insert_or_assign (actionId a) r (running_tasks s)\<rparr>"

definition pop_evt :: "unit sched" where
  "pop_evt = modify (\<lambda>s. s\<lparr>rcv_evt_queue := tl (rcv_evt_queue s)\<rparr>)"

text \<open>
  The two overloads return whether they reached their trailing call of \<^verbatim>\<open>updateFetchNext()\<close>.
\<close>

definition fetch_action_group :: "Action list \<Rightarrow> BlockingType \<Rightarrow> bool sched" where
  "fetch_action_group actions ceiling =
     bindM (gets active_tasks) (\<lambda>active.
     if active \<noteq> [] then ret False
     else bindM (gets navigation_task) (\<lambda>nt.
     if nt \<noteq> None \<and> ceiling \<noteq> NONE then ret False
     else
       seqM (modify (\<lambda>s. s\<lparr>current_segment := None, current_action_blocking_type := ceiling\<rparr>))
       (seqM (forM actions (\<lambda>a. new_task a (register_active a)))
       (seqM pop_evt
       (ret True)))))"

text \<open>The look-ahead loop: the last node that can be reached without a stop.\<close>

fun prefetch :: "InterpreterEvent list \<Rightarrow> seq_id \<Rightarrow> seq_id" where
  "prefetch [] l = l"
| "prefetch (YieldNavigationStepEvent g v stop # q) l =
     (if stop then n_sequenceId g else prefetch q (n_sequenceId g))"
| "prefetch (e # q) l = prefetch q l"

definition doPatchSegment :: "unit sched" where
  "doPatchSegment s =
     (case (navigation_task s, current_segment s) of
        (Some nt, Some (b, l)) \<Rightarrow>
          (let l' = prefetch (rcv_evt_queue s) l; s' = s\<lparr>current_segment := Some (b, l')\<rparr> in
           if l' = l then (Inr (), s')
           else emit [NavEvt (NavigationUpcomingSegment (l + 1) l')] s')
      | _ \<Rightarrow> (Inr (), s))"

text \<open>The part of the navigation overload below the comment \<^verbatim>\<open>Update current segment\<close>.\<close>

definition start_segment :: "order_subscribers \<Rightarrow> Node \<Rightarrow> bool sched" where
  "start_segment subs goal =
     seqM (modify (\<lambda>s.
        let seg = (n_sequenceId goal, prefetch (rcv_evt_queue s) (n_sequenceId goal)) in
        s\<lparr>current_segment := Some seg,
          navigation_task := map_option (setSegment seg) (navigation_task s)\<rparr>))
     (seqM (nav_transition subs nk_do_start)
     (seqM pop_evt
     (ret True)))"

definition fetch_navigation_step :: "order_subscribers \<Rightarrow> Node \<Rightarrow> Edge option \<Rightarrow> bool sched" where
  "fetch_navigation_step subs goal via =
     bindM (gets id) (\<lambda>s0.
     if navigation_task s0 \<noteq> None then seqM doPatchSegment (ret False)
     else if nav_interrupting_tasks s0 \<noteq> [] then ret False
     else if active_tasks s0 \<noteq> [] \<and> current_action_blocking_type s0 \<noteq> NONE then ret False
     else
       seqM (modify (\<lambda>s. s\<lparr>navigation_task := Some (NavigationTask_new goal via)\<rparr>))
       (case current_segment s0 of
          Some (b, l) \<Rightarrow>
            if l \<ge> n_sequenceId goal
            then seqM pop_evt (seqM (nav_transition subs nk_do_start) (ret True))
            else start_segment subs goal
        | None \<Rightarrow> start_segment subs goal))"

text \<open>
  \<^verbatim>\<open>updateFetchNext()\<close>: the front of the queue decides; events of other kinds stay there. Each
  trailing call follows a \<^verbatim>\<open>pop_front\<close>, so the queue gets shorter.
\<close>

lemma length_queue_forM_new_task:
  assumes "\<And>x r s. rcv_evt_queue (f x r s) = rcv_evt_queue s"
  shows "rcv_evt_queue (snd (forM xs (\<lambda>x. new_task x (f x)) s)) = rcv_evt_queue s"
proof (induction xs arbitrary: s)
  case Nil
  then show ?case by (simp add: run_simps)
next
  case (Cons x xs)
  have "rcv_evt_queue (snd (new_task x (f x) s)) = rcv_evt_queue s"
    using assms
    by (auto simp: new_task_def run_simps task_transition_def split: prod.splits sum.splits)
  then show ?case using Cons.IH by (auto simp: run_simps split: prod.splits sum.splits)
qed

lemma fetch_action_group_shorter:
  assumes "fetch_action_group as c s = (Inr True, t)" and "rcv_evt_queue s \<noteq> []"
  shows "length (rcv_evt_queue t) < length (rcv_evt_queue s)"
proof -
  let ?reg = register_active
  let ?s = "s\<lparr>current_segment := None, current_action_blocking_type := c\<rparr>"
  have "rcv_evt_queue (snd (forM as (\<lambda>a. new_task a (?reg a)) ?s)) = rcv_evt_queue ?s"
    by (rule length_queue_forM_new_task) (simp add: register_active_def)
  then have "rcv_evt_queue t = tl (rcv_evt_queue s)"
    using assms(1)
    by (auto simp: fetch_action_group_def run_simps pop_evt_def
        split: prod.splits sum.splits if_splits)
  then show ?thesis using assms(2) by simp
qed

lemma nav_transition_queue [simp]:
  "rcv_evt_queue (snd (nav_transition subs tr s)) = rcv_evt_queue s"
  by (auto simp: nav_transition_def split: option.splits prod.splits)

lemma nav_transition_queueD:
  "nav_transition subs tr s = (r, t) \<Longrightarrow> rcv_evt_queue t = rcv_evt_queue s"
  by (metis nav_transition_queue snd_conv)

lemma fetch_navigation_step_shorter:
  assumes "fetch_navigation_step subs g v s = (Inr True, t)" and "rcv_evt_queue s \<noteq> []"
  shows "length (rcv_evt_queue t) < length (rcv_evt_queue s)"
proof -
  have "rcv_evt_queue t = tl (rcv_evt_queue s)"
    using assms(1)
    by (auto simp: fetch_navigation_step_def start_segment_def run_simps pop_evt_def Let_def
        dest!: nav_transition_queueD split: prod.splits sum.splits if_splits option.splits)
  then show ?thesis using assms(2) by simp
qed

function updateFetchNext :: "order_subscribers \<Rightarrow> unit sched" where
  "updateFetchNext subs s =
     (case rcv_evt_queue s of
        YieldActionGroupEvent as c # _ \<Rightarrow>
          (case fetch_action_group as c s of
             (Inl e, t) \<Rightarrow> (Inl e, t)
           | (Inr again, t) \<Rightarrow> if again then updateFetchNext subs t else (Inr (), t))
      | YieldNavigationStepEvent g v stop # _ \<Rightarrow>
          (case fetch_navigation_step subs g v s of
             (Inl e, t) \<Rightarrow> (Inl e, t)
           | (Inr again, t) \<Rightarrow> if again then updateFetchNext subs t else (Inr (), t))
      | _ \<Rightarrow> (Inr (), s))"
  by pat_completeness auto

termination updateFetchNext
proof (relation "measure (\<lambda>(subs, s). length (rcv_evt_queue s))")
  fix subs :: order_subscribers and s t p as c q r and again :: bool
  assume "rcv_evt_queue s = p # q" "p = YieldActionGroupEvent as c"
    "(r, t) = fetch_action_group as c s" "r = Inr again" again
  then show "((subs, t), subs, s) \<in> measure (\<lambda>(subs, s). length (rcv_evt_queue s))"
    using fetch_action_group_shorter [of as c s t] by simp
next
  fix subs :: order_subscribers and s t p g v stop q r and again :: bool
  assume "rcv_evt_queue s = p # q" "p = YieldNavigationStepEvent g v stop"
    "(r, t) = fetch_navigation_step subs g v s" "r = Inr again" again
  then show "((subs, t), subs, s) \<in> measure (\<lambda>(subs, s). length (rcv_evt_queue s))"
    using fetch_navigation_step_shorter [of subs g v s t] by simp
qed simp

declare updateFetchNext.simps [simp del]

subsection \<open>Instant actions\<close>

definition ref_hard :: "Scheduler \<Rightarrow> task_ref \<Rightarrow> bool" where
  "ref_hard s r \<longleftrightarrow>
     r < length (task_heap s) \<and> blockingType (at_action (task_heap s ! r)) = HARD"

definition doInterrupt :: "order_subscribers \<Rightarrow> unit sched" where
  "doInterrupt subs =
     bindM (gets id) (\<lambda>s0.
     case rcv_interrupt_queue s0 of
       [] \<Rightarrow> ret ()
     | evt # _ \<Rightarrow>
         seqM (whenM (iag_ceiling evt \<noteq> NONE \<and> navigation_task s0 \<noteq> None)
                (nav_transition subs nk_do_pause))
           (forM (map snd (active_tasks s0)) (\<lambda>r.
              bindM (gets (\<lambda>s. ref_hard s r)) (\<lambda>hard.
              whenM (iag_ceiling evt = HARD \<or> hard)
                (task_transition ActionTransition_doCancel r)))))"

definition register_instant :: "Action \<Rightarrow> task_ref \<Rightarrow> Scheduler \<Rightarrow> Scheduler" where
  "register_instant a r s =
     (let s1 = register_active a r s in
      if blockingType a \<noteq> NONE
      then s1\<lparr>nav_interrupting_tasks :=
             insert_or_assign (actionId a) r (nav_interrupting_tasks s1)\<rparr>
      else s1)"

definition updateFetchNextInterrupt :: "unit sched" where
  "updateFetchNextInterrupt =
     bindM (gets id) (\<lambda>s0.
     case rcv_interrupt_queue s0 of
       [] \<Rightarrow> ret ()
     | evt # _ \<Rightarrow>
         if iag_ceiling evt \<noteq> NONE \<and>
            (case navigation_task s0 of None \<Rightarrow> False | Some nt \<Rightarrow> \<not> NavigationTask_isPaused nt)
         then ret ()
         else if \<exists>(k, r) \<in> set (active_tasks s0). iag_ceiling evt = HARD \<or> ref_hard s0 r
         then ret ()
         else
           seqM (modify (\<lambda>s. s\<lparr>current_action_blocking_type := iag_ceiling evt\<rparr>))
           (seqM (forM (iag_actions evt) (\<lambda>a. new_task a (register_instant a)))
             (modify (\<lambda>s. s\<lparr>rcv_interrupt_queue := tl (rcv_interrupt_queue s)\<rparr>))))"

section \<open>The states\<close>

text \<open>
  A state object is its tag; its constructor notifies the order event manager when asked to,
  and \<^verbatim>\<open>SchedulerIdle\<close> closes the current segment. Each member function returns the next state
  and whether the scheduler has to update itself again.
\<close>

type_synonym state_result = "SchedulerStateType \<times> bool"

definition SchedulerIdle_new :: "bool \<Rightarrow> SchedulerStateType sched" where
  "SchedulerIdle_new notify =
     seqM (whenM notify (notify_status k_order_idle))
     (seqM (modify (\<lambda>s. s\<lparr>current_segment := None\<rparr>)) (ret k_idle))"

definition SchedulerIdlePaused_new :: "bool \<Rightarrow> SchedulerStateType sched" where
  "SchedulerIdlePaused_new notify = seqM (whenM notify (notify_status k_order_idle_paused)) (ret k_idle_paused)"

definition SchedulerActive_new :: "bool \<Rightarrow> SchedulerStateType sched" where
  "SchedulerActive_new notify = seqM (whenM notify (notify_status k_order_active)) (ret k_active)"

definition SchedulerCanceling_new :: "bool \<Rightarrow> SchedulerStateType sched" where
  "SchedulerCanceling_new notify = seqM (whenM notify (notify_status k_order_canceling)) (ret k_canceling)"

definition SchedulerResuming_new :: "bool \<Rightarrow> SchedulerStateType sched" where
  "SchedulerResuming_new notify = seqM (whenM notify (notify_status k_order_resuming)) (ret k_resuming)"

definition SchedulerPausing_new :: "bool \<Rightarrow> SchedulerStateType sched" where
  "SchedulerPausing_new notify = seqM (whenM notify (notify_status k_order_pausing)) (ret k_pausing)"

definition SchedulerPaused_new :: "bool \<Rightarrow> SchedulerStateType sched" where
  "SchedulerPaused_new notify = seqM (whenM notify (notify_status k_order_paused)) (ret k_paused)"

definition SchedulerFailed_new :: "bool \<Rightarrow> SchedulerStateType sched" where
  "SchedulerFailed_new notify = seqM (whenM notify (notify_status k_order_failed)) (ret k_failed)"

definition SchedulerInterrupting_new :: "bool \<Rightarrow> SchedulerStateType sched" where
  "SchedulerInterrupting_new notify = seqM (whenM notify (notify_status k_order_interrupting)) (ret k_interrupting)"

text \<open>\<^verbatim>\<open>return {std::make_unique<S>(scheduler, notify), update}\<close>.\<close>

definition go :: "(bool \<Rightarrow> SchedulerStateType sched) \<Rightarrow> bool \<Rightarrow> bool \<Rightarrow> state_result sched" where
  "go new notify update = bindM (new notify) (\<lambda>st. ret (st, update))"

subsection \<open>Idle\<close>

definition SchedulerIdle_cancel :: "state_result sched" where
  "SchedulerIdle_cancel = go SchedulerCanceling_new False True"

definition SchedulerIdle_pause :: "state_result sched" where
  "SchedulerIdle_pause = go SchedulerIdlePaused_new True False"

definition SchedulerIdle_resume :: "state_result sched" where
  "SchedulerIdle_resume = throw VDA5050PPInvalidState"

definition SchedulerIdle_interrupt :: "order_subscribers \<Rightarrow> state_result sched" where
  "SchedulerIdle_interrupt subs = 
     seqM (doInterrupt subs) (go SchedulerInterrupting_new True True)"

definition SchedulerIdle_update :: "order_subscribers \<Rightarrow> state_result sched" where
  "SchedulerIdle_update subs = 
     seqM (updateFetchNext subs)
     (bindM (gets (\<lambda>s. navigation_task s \<noteq> None \<or> active_tasks s \<noteq> [])) (\<lambda>b.
      if b then go SchedulerActive_new True False else go SchedulerIdle_new False False))"

subsection \<open>Idle paused\<close>

definition SchedulerIdlePaused_cancel :: "state_result sched" where
  "SchedulerIdlePaused_cancel = 
     seqM (clearQueues False) (go SchedulerIdlePaused_new False False)"

definition SchedulerIdlePaused_pause :: "state_result sched" where
  "SchedulerIdlePaused_pause = throw VDA5050PPInvalidState"

definition SchedulerIdlePaused_resume :: "state_result sched" where
  "SchedulerIdlePaused_resume = go SchedulerIdle_new True True"

definition SchedulerIdlePaused_interrupt :: "state_result sched" where
  "SchedulerIdlePaused_interrupt = throw VDA5050PPInvalidState"

definition SchedulerIdlePaused_update :: "state_result sched" where
  "SchedulerIdlePaused_update = go SchedulerIdlePaused_new False False"

subsection \<open>Active\<close>

definition SchedulerActive_cancel :: "order_subscribers \<Rightarrow> state_result sched" where
  "SchedulerActive_cancel subs = 
     seqM (transition_all ActionTransition_doCancel active_tasks)
     (seqM (bindM (gets navigation_task) (\<lambda>ont.
        case ont of
          None \<Rightarrow> ret ()
        | Some nt \<Rightarrow> whenM (\<not> NavigationTask_isPaused nt \<and> \<not> NavigationTask_isTerminal nt)
                      (nav_transition subs nk_do_cancel)))
     (seqM (clearQueues True)
     (go SchedulerCanceling_new True False)))"

definition SchedulerActive_pause :: "order_subscribers \<Rightarrow> state_result sched" where
  "SchedulerActive_pause subs = 
     seqM (transition_all ActionTransition_doPause running_tasks)
     (seqM (bindM (gets (\<lambda>s. navigation_task s \<noteq> None)) (\<lambda>b.
        whenM b (nav_transition subs nk_do_pause)))
     (go SchedulerPausing_new True False))"

definition SchedulerActive_resume :: "state_result sched" where
  "SchedulerActive_resume = throw VDA5050PPInvalidState"

definition SchedulerActive_interrupt :: "order_subscribers \<Rightarrow> state_result sched" where
  "SchedulerActive_interrupt subs = 
     seqM (doInterrupt subs) (go SchedulerInterrupting_new True True)"

definition SchedulerActive_update :: "order_subscribers \<Rightarrow> state_result sched" where
  "SchedulerActive_update subs = 
     seqM updateTasks
     (seqM (updateTasksInterruptMapping subs)
     (seqM (updateFetchNext subs)
     (bindM (gets (\<lambda>s. active_tasks s = [] \<and>
        (case navigation_task s of None \<Rightarrow> True | Some nt \<Rightarrow> NavigationTask_isTerminal nt))) (\<lambda>b.
      if b then go SchedulerIdle_new True False else go SchedulerActive_new False False))))"

subsection \<open>Canceling\<close>

definition SchedulerCanceling_cancel :: "state_result sched" where
  "SchedulerCanceling_cancel = throw VDA5050PPInvalidState"

definition SchedulerCanceling_pause :: "state_result sched" where
  "SchedulerCanceling_pause = throw VDA5050PPInvalidState"

definition SchedulerCanceling_resume :: "state_result sched" where
  "SchedulerCanceling_resume = throw VDA5050PPInvalidState"

definition SchedulerCanceling_interrupt :: "state_result sched" where
  "SchedulerCanceling_interrupt = throw VDA5050PPInvalidState"

definition SchedulerCanceling_update :: "order_subscribers \<Rightarrow> state_result sched" where
  "SchedulerCanceling_update subs = 
     seqM updateTasks
     (seqM (updateTasksInterruptMapping subs)
     (seqM (updateFetchNext subs)
     (bindM (gets (\<lambda>s. active_tasks s = [] \<and> navigation_task s = None)) (\<lambda>b.
      if b then go SchedulerIdle_new True False else go SchedulerCanceling_new False False))))"

subsection \<open>Resuming\<close>

definition SchedulerResuming_cancel :: "state_result sched" where
  "SchedulerResuming_cancel = throw VDA5050PPInvalidState"

definition SchedulerResuming_pause :: "state_result sched" where
  "SchedulerResuming_pause = throw VDA5050PPInvalidState"

definition SchedulerResuming_resume :: "state_result sched" where
  "SchedulerResuming_resume = throw VDA5050PPInvalidState"

definition SchedulerResuming_interrupt :: "state_result sched" where
  "SchedulerResuming_interrupt = throw VDA5050PPInvalidState"

definition SchedulerResuming_update :: "order_subscribers \<Rightarrow> state_result sched" where
  "SchedulerResuming_update subs = 
     seqM updateTasks
     (seqM (updateTasksInterruptMapping subs)
     (bindM (gets id) (\<lambda>s.
      if paused_tasks s \<noteq> [] then go SchedulerResuming_new False False
      else if (case navigation_task s of None \<Rightarrow> False | Some nt \<Rightarrow> NavigationTask_isPaused nt)
      then go SchedulerResuming_new False False
      else go SchedulerActive_new True True)))"

subsection \<open>Pausing\<close>

definition SchedulerPausing_cancel :: "state_result sched" where
  "SchedulerPausing_cancel = throw VDA5050PPInvalidState"

definition SchedulerPausing_pause :: "state_result sched" where
  "SchedulerPausing_pause = throw VDA5050PPInvalidState"

definition SchedulerPausing_resume :: "state_result sched" where
  "SchedulerPausing_resume = throw VDA5050PPInvalidState"

definition SchedulerPausing_interrupt :: "state_result sched" where
  "SchedulerPausing_interrupt = throw VDA5050PPInvalidState"

definition SchedulerPausing_update :: "order_subscribers \<Rightarrow> state_result sched" where
  "SchedulerPausing_update subs = 
     seqM updateTasks
     (seqM (updateTasksInterruptMapping subs)
     (bindM (gets id) (\<lambda>s.
      if running_tasks s \<noteq> [] then go SchedulerPausing_new False False
      else if (case navigation_task s of None \<Rightarrow> False | Some nt \<Rightarrow> \<not> NavigationTask_isPaused nt)
      then go SchedulerPausing_new False False
      else go SchedulerPaused_new True False)))"

subsection \<open>Paused\<close>

definition SchedulerPaused_cancel :: "order_subscribers \<Rightarrow> state_result sched" where
  "SchedulerPaused_cancel subs = 
     seqM (SchedulerActive_new False) (SchedulerActive_cancel subs)"

definition SchedulerPaused_pause :: "state_result sched" where
  "SchedulerPaused_pause = throw VDA5050PPInvalidState"

definition SchedulerPaused_resume :: "order_subscribers \<Rightarrow> state_result sched" where
  "SchedulerPaused_resume subs = 
     seqM (transition_all ActionTransition_doResume paused_tasks)
     (seqM (bindM (gets (\<lambda>s. navigation_task s \<noteq> None)) (\<lambda>b.
        whenM b (nav_transition subs nk_do_resume)))
     (go SchedulerResuming_new True True))"

definition SchedulerPaused_interrupt :: "state_result sched" where
  "SchedulerPaused_interrupt = throw VDA5050PPInvalidState"

definition SchedulerPaused_update :: "order_subscribers \<Rightarrow> state_result sched" where
  "SchedulerPaused_update subs = 
     seqM updateTasks
     (seqM (updateTasksInterruptMapping subs)
     (go SchedulerPaused_new False False))"

subsection \<open>Failed\<close>

definition SchedulerFailed_cancel :: "state_result sched" where
  "SchedulerFailed_cancel = throw VDA5050PPInvalidState"

definition SchedulerFailed_pause :: "state_result sched" where
  "SchedulerFailed_pause = throw VDA5050PPInvalidState"

definition SchedulerFailed_resume :: "state_result sched" where
  "SchedulerFailed_resume = throw VDA5050PPInvalidState"

definition SchedulerFailed_interrupt :: "state_result sched" where
  "SchedulerFailed_interrupt = throw VDA5050PPInvalidState"

definition SchedulerFailed_update :: "state_result sched" where
  "SchedulerFailed_update = go SchedulerFailed_new False False"

subsection \<open>Interrupting\<close>

definition SchedulerInterrupting_cancel :: "state_result sched" where
  "SchedulerInterrupting_cancel = throw VDA5050PPInvalidState"

definition SchedulerInterrupting_pause :: "state_result sched" where
  "SchedulerInterrupting_pause = throw VDA5050PPInvalidState"

definition SchedulerInterrupting_resume :: "state_result sched" where
  "SchedulerInterrupting_resume = throw VDA5050PPInvalidState"

definition SchedulerInterrupting_interrupt :: "state_result sched" where
  "SchedulerInterrupting_interrupt = throw VDA5050PPInvalidState"

definition SchedulerInterrupting_update :: "state_result sched" where
  "SchedulerInterrupting_update = 
     seqM updateTasks
     (seqM updateFetchNextInterrupt
     (bindM (gets rcv_interrupt_queue) (\<lambda>iq.
      if iq = [] then go SchedulerActive_new True False
      else go SchedulerInterrupting_new False False)))"

section \<open>The virtual calls\<close>

fun state_cancel :: "order_subscribers \<Rightarrow> SchedulerStateType \<Rightarrow> state_result sched" where
  "state_cancel subs k_idle = SchedulerIdle_cancel"
| "state_cancel subs k_idle_paused = SchedulerIdlePaused_cancel"
| "state_cancel subs k_active = SchedulerActive_cancel subs"
| "state_cancel subs k_canceling = SchedulerCanceling_cancel"
| "state_cancel subs k_resuming = SchedulerResuming_cancel"
| "state_cancel subs k_pausing = SchedulerPausing_cancel"
| "state_cancel subs k_paused = SchedulerPaused_cancel subs"
| "state_cancel subs k_failed = SchedulerFailed_cancel"
| "state_cancel subs k_interrupting = SchedulerInterrupting_cancel"

fun state_pause :: "order_subscribers \<Rightarrow> SchedulerStateType \<Rightarrow> state_result sched" where
  "state_pause subs k_idle = SchedulerIdle_pause"
| "state_pause subs k_idle_paused = SchedulerIdlePaused_pause"
| "state_pause subs k_active = SchedulerActive_pause subs"
| "state_pause subs k_canceling = SchedulerCanceling_pause"
| "state_pause subs k_resuming = SchedulerResuming_pause"
| "state_pause subs k_pausing = SchedulerPausing_pause"
| "state_pause subs k_paused = SchedulerPaused_pause"
| "state_pause subs k_failed = SchedulerFailed_pause"
| "state_pause subs k_interrupting = SchedulerInterrupting_pause"

fun state_resume :: "order_subscribers \<Rightarrow> SchedulerStateType \<Rightarrow> state_result sched" where
  "state_resume subs k_idle = SchedulerIdle_resume"
| "state_resume subs k_idle_paused = SchedulerIdlePaused_resume"
| "state_resume subs k_active = SchedulerActive_resume"
| "state_resume subs k_canceling = SchedulerCanceling_resume"
| "state_resume subs k_resuming = SchedulerResuming_resume"
| "state_resume subs k_pausing = SchedulerPausing_resume"
| "state_resume subs k_paused = SchedulerPaused_resume subs"
| "state_resume subs k_failed = SchedulerFailed_resume"
| "state_resume subs k_interrupting = SchedulerInterrupting_resume"

fun state_interrupt :: "order_subscribers \<Rightarrow> SchedulerStateType \<Rightarrow> state_result sched" where
  "state_interrupt subs k_idle = SchedulerIdle_interrupt subs"
| "state_interrupt subs k_idle_paused = SchedulerIdlePaused_interrupt"
| "state_interrupt subs k_active = SchedulerActive_interrupt subs"
| "state_interrupt subs k_canceling = SchedulerCanceling_interrupt"
| "state_interrupt subs k_resuming = SchedulerResuming_interrupt"
| "state_interrupt subs k_pausing = SchedulerPausing_interrupt"
| "state_interrupt subs k_paused = SchedulerPaused_interrupt"
| "state_interrupt subs k_failed = SchedulerFailed_interrupt"
| "state_interrupt subs k_interrupting = SchedulerInterrupting_interrupt"

fun state_update :: "order_subscribers \<Rightarrow> SchedulerStateType \<Rightarrow> state_result sched" where
  "state_update subs k_idle = SchedulerIdle_update subs"
| "state_update subs k_idle_paused = SchedulerIdlePaused_update"
| "state_update subs k_active = SchedulerActive_update subs"
| "state_update subs k_canceling = SchedulerCanceling_update subs"
| "state_update subs k_resuming = SchedulerResuming_update subs"
| "state_update subs k_pausing = SchedulerPausing_update subs"
| "state_update subs k_paused = SchedulerPaused_update subs"
| "state_update subs k_failed = SchedulerFailed_update"
| "state_update subs k_interrupting = SchedulerInterrupting_update"

lemmas scheduler_new_defs =
  SchedulerIdle_new_def SchedulerIdlePaused_new_def SchedulerActive_new_def
  SchedulerCanceling_new_def SchedulerResuming_new_def SchedulerPausing_new_def
  SchedulerPaused_new_def SchedulerFailed_new_def SchedulerInterrupting_new_def

lemmas state_cancel_defs =
  SchedulerIdle_cancel_def SchedulerIdlePaused_cancel_def SchedulerActive_cancel_def
  SchedulerCanceling_cancel_def SchedulerResuming_cancel_def SchedulerPausing_cancel_def
  SchedulerPaused_cancel_def SchedulerFailed_cancel_def SchedulerInterrupting_cancel_def

lemmas state_pause_defs =
  SchedulerIdle_pause_def SchedulerIdlePaused_pause_def SchedulerActive_pause_def
  SchedulerCanceling_pause_def SchedulerResuming_pause_def SchedulerPausing_pause_def
  SchedulerPaused_pause_def SchedulerFailed_pause_def SchedulerInterrupting_pause_def

lemmas state_resume_defs =
  SchedulerIdle_resume_def SchedulerIdlePaused_resume_def SchedulerActive_resume_def
  SchedulerCanceling_resume_def SchedulerResuming_resume_def SchedulerPausing_resume_def
  SchedulerPaused_resume_def SchedulerFailed_resume_def SchedulerInterrupting_resume_def

lemmas state_interrupt_defs =
  SchedulerIdle_interrupt_def SchedulerIdlePaused_interrupt_def SchedulerActive_interrupt_def
  SchedulerCanceling_interrupt_def SchedulerResuming_interrupt_def SchedulerPausing_interrupt_def
  SchedulerPaused_interrupt_def SchedulerFailed_interrupt_def SchedulerInterrupting_interrupt_def

lemmas state_update_defs =
  SchedulerIdle_update_def SchedulerIdlePaused_update_def SchedulerActive_update_def
  SchedulerCanceling_update_def SchedulerResuming_update_def SchedulerPausing_update_def
  SchedulerPaused_update_def SchedulerFailed_update_def SchedulerInterrupting_update_def

end
