(* ===== verification/SchedulerOps.thy ===== *)
theory SchedulerOps
  imports Scheduler
begin

text \<open>
  The public operations of \<^verbatim>\<open>core/order/scheduler\<close>. Each takes the lock, calls the current state
  object, installs the state it returns and updates again when asked to. When the state
  object throws, the state stays.
\<close>

section \<open>\<^verbatim>\<open>Scheduler::update\<close>\<close>

lemma go_again: "go new notify upd s = (Inr (st, u), t) \<Longrightarrow> u = upd"
  by (auto simp: go_def run_simps split: prod.splits sum.splits)

lemma go_result:
  "go new notify upd s = (r, t) \<Longrightarrow>
   (case new notify s of (Inl e, u) \<Rightarrow> r = Inl e \<and> t = u | (Inr st, u) \<Rightarrow> r = Inr (st, upd) \<and> t = u)"
  by (auto simp: go_def run_simps split: prod.splits sum.splits)

text \<open>Only \<^verbatim>\<open>SchedulerResuming::update\<close> asks for another update, and it has left to \<^verbatim>\<open>SchedulerActive\<close>.\<close>

lemma state_update_again:
  assumes "state_update subs st s = (Inr (st', True), t)"
  shows "st = k_resuming \<and> st' = k_active"
  using assms
  by (cases st)
    (auto simp: state_update_defs run_simps scheduler_new_defs go_def
      split: prod.splits sum.splits if_splits)

function Scheduler_update :: "order_subscribers \<Rightarrow> unit sched" where
  "Scheduler_update subs s =
     (case state_update subs (sc_state s) s of
        (Inl e, t) \<Rightarrow> (Inl e, t)
      | (Inr (st, again), t) \<Rightarrow>
          (if again then Scheduler_update subs (t\<lparr>sc_state := st\<rparr>)
           else (Inr (), t\<lparr>sc_state := st\<rparr>)))"
  by pat_completeness auto

termination Scheduler_update
proof (relation "measure (\<lambda>(subs, s). if sc_state s = k_resuming then 1 else 0)")
  fix subs s p t q st and again :: bool
  assume "(p, t) = state_update subs (sc_state s) s" "p = Inr q" "(st, again) = q" again
  then have "state_update subs (sc_state s) s = (Inr (st, True), t)" by (metis (full_types))
  then show "((subs, t\<lparr>sc_state := st\<rparr>), subs, s) \<in>
      measure (\<lambda>(subs, s). if sc_state s = k_resuming then 1 else 0)"
    using state_update_again by fastforce
qed simp

declare Scheduler_update.simps [simp del]

section \<open>The other operations\<close>

definition call_state ::
  "order_subscribers \<Rightarrow> (order_subscribers \<Rightarrow> SchedulerStateType \<Rightarrow> state_result sched) \<Rightarrow> unit sched"
where
  "call_state subs op =
     bindM (gets sc_state) (\<lambda>st.
     bindM (op subs st) (\<lambda>(st', upd).
     seqM (modify (\<lambda>s. s\<lparr>sc_state := st'\<rparr>)) (whenM upd (Scheduler_update subs))))"

definition Scheduler_new :: Scheduler where
  "Scheduler_new =
     \<lparr>sc_state = k_idle, rcv_evt_queue = [], rcv_evt_queue_staging = [], rcv_interrupt_queue = [],
      current_action_blocking_type = NONE, current_segment = None, active_tasks = [],
      running_tasks = [], paused_tasks = [], nav_interrupting_tasks = [], navigation_task = None,
      task_heap = [], outbox = []\<rparr>"

definition Scheduler_cancel :: "order_subscribers \<Rightarrow> unit sched" where
  "Scheduler_cancel subs = call_state subs state_cancel"

definition Scheduler_pause :: "order_subscribers \<Rightarrow> unit sched" where
  "Scheduler_pause subs = call_state subs state_pause"

definition Scheduler_resume :: "order_subscribers \<Rightarrow> unit sched" where
  "Scheduler_resume subs = call_state subs state_resume"

definition Scheduler_getState :: "SchedulerStateType sched" where
  "Scheduler_getState = gets sc_state"

definition actionTransition :: "order_subscribers \<Rightarrow> string \<Rightarrow> ActionTransition \<Rightarrow> unit sched" where
  "actionTransition subs action_id tr =
     bindM (gets (\<lambda>s. map_of (active_tasks s) action_id)) (\<lambda>it.
     case it of
       None \<Rightarrow> throw VDA5050PPInvalidArgument
     | Some r \<Rightarrow> seqM (task_transition tr r) (Scheduler_update subs))"

definition navigationTransition :: "order_subscribers \<Rightarrow> NavigationTransition \<Rightarrow> unit sched" where
  "navigationTransition subs tr =
     bindM (gets navigation_task) (\<lambda>ont.
     case ont of
       None \<Rightarrow> throw VDA5050PPNullPointer
     | Some _ \<Rightarrow> seqM (nav_transition subs tr) (Scheduler_update subs))"

definition enqueueInterruptActions :: "order_subscribers \<Rightarrow> InstantActionGroup \<Rightarrow> unit sched" where
  "enqueueInterruptActions subs evt =
     seqM (modify (\<lambda>s. s\<lparr>rcv_interrupt_queue := rcv_interrupt_queue s @ [evt]\<rparr>))
       (call_state subs state_interrupt)"

definition enqueue :: "InterpreterEvent \<Rightarrow> unit sched" where
  "enqueue evt = modify (\<lambda>s. s\<lparr>rcv_evt_queue_staging := rcv_evt_queue_staging s @ [evt]\<rparr>)"

definition commitQueue :: "order_subscribers \<Rightarrow> unit sched" where
  "commitQueue subs =
     seqM (modify (\<lambda>s. s\<lparr>rcv_evt_queue := rcv_evt_queue s @ rcv_evt_queue_staging s,
                         rcv_evt_queue_staging := []\<rparr>))
       (Scheduler_update subs)"

text \<open>The operations as one type, for statements about all of them and for execution traces.\<close>

datatype SchedulerOp =
    OpCancel
  | OpPause
  | OpResume
  | OpUpdate
  | OpAction string ActionTransition
  | OpNavigation NavigationTransition
  | OpInterrupt InstantActionGroup
  | OpEnqueue InterpreterEvent
  | OpCommit

fun exec_op :: "order_subscribers \<Rightarrow> SchedulerOp \<Rightarrow> unit sched" where
  "exec_op subs OpCancel = Scheduler_cancel subs"
| "exec_op subs OpPause = Scheduler_pause subs"
| "exec_op subs OpResume = Scheduler_resume subs"
| "exec_op subs OpUpdate = Scheduler_update subs"
| "exec_op subs (OpAction i tr) = actionTransition subs i tr"
| "exec_op subs (OpNavigation tr) = navigationTransition subs tr"
| "exec_op subs (OpInterrupt g) = enqueueInterruptActions subs g"
| "exec_op subs (OpEnqueue e) = enqueue e"
| "exec_op subs OpCommit = commitQueue subs"

text \<open>One operation by a caller that catches what it throws.\<close>

definition exec_state :: "order_subscribers \<Rightarrow> SchedulerOp \<Rightarrow> Scheduler \<Rightarrow> Scheduler" where
  "exec_state subs p s = snd (exec_op subs p s)"

end
