(* ===== verification/SchedulerInv.thy ===== *)
theory SchedulerInv
  imports SchedulerOps
begin

text \<open>
  The representation invariant of the scheduler. The four maps are views of one set of tasks:
  the running and the paused map are disjoint parts of the active map, they hold the very
  same task objects, and together they cover every active task that is not yet terminal.
  After \<^verbatim>\<open>updateTasks\<close> they are exactly the partition of the active tasks by their state.

  The invariant needs the ids of the instant actions that wait to be fresh (the validation
  rejects messages with a known action id): otherwise the assignment to the active map
  would replace a task the paused map still refers to.
\<close>

section \<open>The maps\<close>

definition maps_ok ::
  "task_map \<Rightarrow> task_map \<Rightarrow> task_map \<Rightarrow> task_map \<Rightarrow> ActionTask list \<Rightarrow> bool" where
  "maps_ok A R P N H \<longleftrightarrow>
     wf_map A \<and> wf_map R \<and> wf_map P \<and> wf_map N \<and>
     (\<forall>p \<in> set A \<union> set N. snd p < length H \<and> actionId (at_action (H ! snd p)) = fst p) \<and>
     set R \<subseteq> set A \<and> set P \<subseteq> set A \<and> set R \<inter> set P = {} \<and>
     (\<forall>p \<in> set A. ActionTask_isTerminal (H ! snd p) \<or> p \<in> set R \<union> set P)"

lemma set_emplace_all_consistent:
  assumes "wf_map A" and "set m \<subseteq> set A" and "set xs \<subseteq> set A" and "wf_map m"
  shows "set (emplace_all xs m) = set m \<union> set xs"
proof
  show "set (emplace_all xs m) \<subseteq> set m \<union> set xs" by (rule set_emplace_all [OF assms(4)])
  show "set m \<union> set xs \<subseteq> set (emplace_all xs m)"
  proof
    fix p assume p: "p \<in> set m \<union> set xs"
    have "map_of (emplace_all xs m) (fst p) \<noteq> None"
      using p by (auto simp: map_of_emplace_all [OF assms(4)] map_of_eq_None_iff
          split: option.splits)
    then obtain v where v: "map_of (emplace_all xs m) (fst p) = Some v" by blast
    then have "(fst p, v) \<in> set m \<union> set xs"
      using set_emplace_all [OF assms(4)] map_of_SomeD by fastforce
    then have "(fst p, v) = p"
      using p assms(2,3) wf_map_key_unique [OF assms(1), of "(fst p, v)" p] by auto
    then show "p \<in> set (emplace_all xs m)" using map_of_SomeD [OF v] by simp
  qed
qed

lemma maps_ok_heap_update:
  assumes "maps_ok A R P N H" and "ActionTask_transition tr (H ! r) = (res, t, es)"
  shows "maps_ok A R P N (H[r := t])"
proof -
  have key: "at_action t = at_action (H ! r)" by (rule action_task.exec_key [OF assms(2)])
  have stay: "t = H ! r" if "ActionTask_isTerminal (H ! r)"
    using action_task.terminal_rejects [OF that, of tr] assms(2) by simp
  have "actionId (at_action (H[r := t] ! i)) = actionId (at_action (H ! i))" for i
    using key by (cases "i = r"; cases "r < length H") (auto simp: list_update_beyond not_less)
  moreover have "ActionTask_isTerminal (H ! i) \<longrightarrow> ActionTask_isTerminal (H[r := t] ! i)" for i
    using stay by (cases "i = r"; cases "r < length H") (auto simp: list_update_beyond not_less)
  ultimately show ?thesis
    using assms(1) unfolding maps_ok_def by (metis length_list_update)
qed

lemma maps_ok_new_task:
  assumes "maps_ok A R P N H" and "at_action t = a" and "actionId a \<notin> fst ` set P"
  defines "k \<equiv> actionId a" and "r \<equiv> length H"
  shows "maps_ok (insert_or_assign k r A) (insert_or_assign k r R) P N (H @ [t])"
    and "maps_ok (insert_or_assign k r A) (insert_or_assign k r R) P (insert_or_assign k r N) (H @ [t])"
proof -
  have wf: "wf_map A" "wf_map R" "wf_map P" "wf_map N"
    using assms(1) by (auto simp: maps_ok_def)
  have new: "r < length (H @ [t])" "actionId (at_action ((H @ [t]) ! r)) = k"
    using assms(2) by (simp_all add: k_def r_def)
  have refs: "\<forall>p \<in> set A \<union> set N. snd p < length (H @ [t]) \<and>
      actionId (at_action ((H @ [t]) ! snd p)) = fst p"
  proof
    fix p assume "p \<in> set A \<union> set N"
    then have "snd p < length H \<and> actionId (at_action (H ! snd p)) = fst p"
      using assms(1) by (simp add: maps_ok_def)
    then show "snd p < length (H @ [t]) \<and> actionId (at_action ((H @ [t]) ! snd p)) = fst p"
      by (simp add: nth_append)
  qed
  have cover: "\<forall>a b. (a, b) \<in> set A \<longrightarrow>
      ActionTask_isTerminal ((H @ [t]) ! b) \<or> (a, b) \<in> set R \<or> (a, b) \<in> set P"
  proof (intro allI impI)
    fix x y assume p: "(x, y) \<in> set A"
    then have "y < length H" "ActionTask_isTerminal (H ! y) \<or> (x, y) \<in> set R \<union> set P"
      using assms(1) by (force simp: maps_ok_def)+
    then show "ActionTask_isTerminal ((H @ [t]) ! y) \<or> (x, y) \<in> set R \<or> (x, y) \<in> set P"
      by (simp add: nth_append)
  qed
  have key: "\<forall>p \<in> set P. fst p \<noteq> k" using assms(3) by (force simp: k_def)
  then have key2: "(k, r) \<notin> set P" by force
  have parts: "set R \<subseteq> set A" "set P \<subseteq> set A" "set R \<inter> set P = {}"
    using assms(1) by (auto simp: maps_ok_def)
  show "maps_ok (insert_or_assign k r A) (insert_or_assign k r R) P N (H @ [t])"
    unfolding maps_ok_def
    using wf new refs cover key key2 parts
    by (simp add: wf_insert_or_assign set_insert_or_assign_wf) (intro conjI; blast)
  show "maps_ok (insert_or_assign k r A) (insert_or_assign k r R) P (insert_or_assign k r N) (H @ [t])"
    unfolding maps_ok_def
    using wf new refs cover key key2 parts
    by (simp add: wf_insert_or_assign set_insert_or_assign_wf) (intro conjI; blast)
qed

lemma maps_ok_filter_nav:
  "maps_ok A R P N H \<Longrightarrow> maps_ok A R P (filter Q N) H"
  by (auto simp: maps_ok_def wf_map_filter)

abbreviation maps_inv :: "Scheduler \<Rightarrow> bool" where
  "maps_inv s \<equiv> maps_ok (active_tasks s) (running_tasks s) (paused_tasks s)
     (nav_interrupting_tasks s) (task_heap s)"

text \<open>What \<^verbatim>\<open>updateTasks\<close> makes of the maps: the partition by task state.\<close>

lemma sort_tasks_partition:
  assumes "maps_inv s"
  shows "set (active_tasks (sort_tasks s)) = {p \<in> set (active_tasks s). \<not> ref_terminal s (snd p)}"
    and "set (running_tasks (sort_tasks s)) =
           {p \<in> set (active_tasks s). \<not> ref_terminal s (snd p) \<and> \<not> ref_paused s (snd p)}"
    and "set (paused_tasks (sort_tasks s)) =
           {p \<in> set (active_tasks s). \<not> ref_terminal s (snd p) \<and> ref_paused s (snd p)}"
    and "wf_map (running_tasks (sort_tasks s))" "wf_map (paused_tasks (sort_tasks s))"
proof -
  let ?A = "active_tasks s" and ?R = "running_tasks s" and ?P = "paused_tasks s"
  let ?p = "ref_paused s" and ?t = "ref_terminal s"
  have m: "wf_map ?A" "wf_map ?R" "wf_map ?P" "set ?R \<subseteq> set ?A" "set ?P \<subseteq> set ?A"
    using assms by (auto simp: maps_ok_def)
  have cover: "p \<in> set ?R \<union> set ?P" if "p \<in> set ?A" "\<not> ?t (snd p)" for p
    using that assms by (auto simp: maps_ok_def ref_terminal_def)
  define P1 where "P1 = emplace_all (filter (\<lambda>(k, r). ?p r \<and> \<not> ?t r) ?R) ?P"
  have P1: "set P1 = set ?P \<union> {p \<in> set ?R. ?p (snd p) \<and> \<not> ?t (snd p)}"
    unfolding P1_def
    using set_emplace_all_consistent [OF m(1) m(5) _ m(3), of "filter (\<lambda>(k, r). ?p r \<and> \<not> ?t r) ?R"]
      m(4) by (auto simp: case_prod_beta)
  define R1 where "R1 = filter (\<lambda>(k, r). \<not> (?p r \<or> ?t r)) ?R"
  define R2 where "R2 = emplace_all (filter (\<lambda>(k, r). \<not> ?p r \<and> \<not> ?t r) P1) R1"
  have R1: "set R1 = {p \<in> set ?R. \<not> ?p (snd p) \<and> \<not> ?t (snd p)}" "wf_map R1"
    using m(2) by (auto simp: R1_def wf_map_filter)
  have R2: "set R2 = set R1 \<union> {p \<in> set P1. \<not> ?p (snd p) \<and> \<not> ?t (snd p)}"
    using set_emplace_all_consistent [OF m(1) _ _ R1(2),
        of "filter (\<lambda>(k, r). \<not> ?p r \<and> \<not> ?t r) P1"] m(4,5) P1 R1(1)
    by (auto simp: R2_def case_prod_beta)
  have eqs: "active_tasks (sort_tasks s) = filter (\<lambda>(k, r). \<not> ?t r) ?A"
    "running_tasks (sort_tasks s) = R2"
    "paused_tasks (sort_tasks s) = filter (\<lambda>(k, r). \<not> (\<not> ?p r \<or> ?t r)) P1"
    by (simp_all add: sort_tasks_def Let_def P1_def R1_def R2_def)
  show "set (active_tasks (sort_tasks s)) = {p \<in> set ?A. \<not> ?t (snd p)}"
    by (auto simp: eqs)
  show "set (running_tasks (sort_tasks s)) = {p \<in> set ?A. \<not> ?t (snd p) \<and> \<not> ?p (snd p)}"
    using cover m(4,5) by (auto simp: eqs R2 R1 P1)
  show "set (paused_tasks (sort_tasks s)) = {p \<in> set ?A. \<not> ?t (snd p) \<and> ?p (snd p)}"
    using cover m(4,5) by (auto simp: eqs P1)
  show "wf_map (running_tasks (sort_tasks s))" "wf_map (paused_tasks (sort_tasks s))"
    using m R1(2) by (simp_all add: eqs P1_def R2_def wf_emplace_all wf_map_filter)
qed

lemma sort_tasks_other [simp]:
  "task_heap (sort_tasks s) = task_heap s"
  "nav_interrupting_tasks (sort_tasks s) = nav_interrupting_tasks s"
  "rcv_evt_queue (sort_tasks s) = rcv_evt_queue s"
  "rcv_evt_queue_staging (sort_tasks s) = rcv_evt_queue_staging s"
  "rcv_interrupt_queue (sort_tasks s) = rcv_interrupt_queue s"
  "navigation_task (sort_tasks s) = navigation_task s"
  "sc_state (sort_tasks s) = sc_state s"
  "current_segment (sort_tasks s) = current_segment s"
  "current_action_blocking_type (sort_tasks s) = current_action_blocking_type s"
  "outbox (sort_tasks s) = outbox s"
  by (simp_all add: sort_tasks_def Let_def)

lemma maps_inv_sort_tasks:
  assumes "maps_inv s"
  shows "maps_inv (sort_tasks s)"
proof -
  have "wf_map (active_tasks (sort_tasks s))"
    using assms by (simp add: sort_tasks_def Let_def maps_ok_def wf_map_filter)
  then show ?thesis
    using assms sort_tasks_partition [OF assms] unfolding maps_ok_def by auto
qed

section \<open>The waiting instant actions\<close>

fun evt_ids :: "InterpreterEvent \<Rightarrow> string list" where
  "evt_ids (YieldActionGroupEvent as c) = map actionId as"
| "evt_ids e = []"

abbreviation queue_ids :: "InterpreterEvent list \<Rightarrow> string list" where
  "queue_ids q \<equiv> concat (map evt_ids q)"

abbreviation interrupt_ids :: "InstantActionGroup list \<Rightarrow> string list" where
  "interrupt_ids iq \<equiv> concat (map (\<lambda>g. map actionId (iag_actions g)) iq)"

definition pending_ok ::
  "string set \<Rightarrow> InterpreterEvent list \<Rightarrow> InterpreterEvent list \<Rightarrow> InstantActionGroup list \<Rightarrow> bool" where
  "pending_ok A q st iq \<longleftrightarrow>
     distinct (interrupt_ids iq) \<and>
     set (interrupt_ids iq) \<inter> (A \<union> set (queue_ids q) \<union> set (queue_ids st)) = {}"

definition sched_inv :: "Scheduler \<Rightarrow> bool" where
  "sched_inv s \<longleftrightarrow> maps_inv s \<and>
     pending_ok (fst ` set (active_tasks s)) (rcv_evt_queue s) (rcv_evt_queue_staging s)
       (rcv_interrupt_queue s)"

text \<open>What an operation adds must be fresh.\<close>

definition op_fresh :: "SchedulerOp \<Rightarrow> Scheduler \<Rightarrow> bool" where
  "op_fresh p s \<longleftrightarrow>
     (case p of
        OpInterrupt g \<Rightarrow>
          pending_ok (fst ` set (active_tasks s)) (rcv_evt_queue s) (rcv_evt_queue_staging s)
            (rcv_interrupt_queue s @ [g])
      | OpEnqueue e \<Rightarrow> set (evt_ids e) \<inter> set (interrupt_ids (rcv_interrupt_queue s)) = {}
      | _ \<Rightarrow> True)"

lemma pending_ok_mono:
  "pending_ok A q st iq \<Longrightarrow> B \<subseteq> A \<Longrightarrow> set (queue_ids q') \<subseteq> set (queue_ids q) \<Longrightarrow>
   pending_ok B q' st iq"
  unfolding pending_ok_def by blast

lemma pending_ok_enqueue:
  "pending_ok A q st iq \<Longrightarrow> set (evt_ids e) \<inter> set (interrupt_ids iq) = {} \<Longrightarrow>
   pending_ok A q (st @ [e]) iq"
  unfolding pending_ok_def map_append concat_append set_append by simp blast

lemma pending_ok_commit: "pending_ok A q st iq \<Longrightarrow> pending_ok A (q @ st) [] iq"
  unfolding pending_ok_def map_append concat_append set_append by simp blast

lemma pending_ok_pop:
  "pending_ok A q st (g # iq) \<Longrightarrow> pending_ok (actionId ` set (iag_actions g) \<union> A) q st iq"
  unfolding pending_ok_def list.map concat.simps distinct_append set_append set_map by blast

lemma pending_ok_Nil: "pending_ok A q st []"
  by (simp add: pending_ok_def)

section \<open>The operations keep the invariant\<close>

lemma sched_inv_cong:
  assumes "sched_inv s"
    and "active_tasks t = active_tasks s" "running_tasks t = running_tasks s"
    and "paused_tasks t = paused_tasks s" "nav_interrupting_tasks t = nav_interrupting_tasks s"
    and "task_heap t = task_heap s" "rcv_evt_queue t = rcv_evt_queue s"
    and "rcv_evt_queue_staging t = rcv_evt_queue_staging s"
    and "rcv_interrupt_queue t = rcv_interrupt_queue s"
  shows "sched_inv t"
  using assms by (simp add: sched_inv_def)

lemma preserves_emit [preserves_intros]: "preserves sched_inv (emit es)"
  unfolding emit_def by (intro preserves_modify) (erule sched_inv_cong; simp)

lemma preserves_notify [preserves_intros]: "preserves sched_inv (notify_status st)"
  unfolding notify_status_def by (rule preserves_emit)

lemma preserves_task_transition [preserves_intros]: "preserves sched_inv (task_transition tr r)"
proof (rule preservesI)
  fix s assume inv: "sched_inv s"
  show "sched_inv (snd (task_transition tr r s))"
  proof (cases "r < length (task_heap s)")
    case True
    obtain res t es where tr: "ActionTask_transition tr (task_heap s ! r) = (res, t, es)"
      by (cases "ActionTask_transition tr (task_heap s ! r)")
    then show ?thesis
      using True inv maps_ok_heap_update [OF _ tr]
      by (simp add: task_transition_def sched_inv_def)
  qed (simp add: task_transition_def inv)
qed

lemma preserves_nav_transition [preserves_intros]: "preserves sched_inv (nav_transition subs tr)"
proof (rule preservesI)
  fix s assume "sched_inv s"
  then show "sched_inv (snd (nav_transition subs tr s))"
    by (auto simp: nav_transition_def elim: sched_inv_cong split: option.splits prod.splits)
qed

lemma preserves_transition_all [preserves_intros]: "preserves sched_inv (transition_all tr mp)"
  unfolding transition_all_def by (intro preserves_intros)

lemma clear_scan_no_ids: "clear_scan keep reached q = Inr (ids, kept) \<Longrightarrow> queue_ids kept = []"
proof (induction keep reached q arbitrary: ids kept rule: clear_scan.induct)
  case (2 keep reached e q)
  then show ?case
    by (cases e) (auto split: if_splits sum.splits prod.splits)
qed simp

lemma preserves_clearQueues [preserves_intros]: "preserves sched_inv (clearQueues keep)"
proof (rule preservesI)
  fix s assume inv: "sched_inv s"
  then show "sched_inv (snd (clearQueues keep s))"
    by (auto simp: clearQueues_def run_simps emit_def sched_inv_def pending_ok_Nil
        split: sum.splits prod.splits)
qed

lemma sched_inv_sort_tasks: "sched_inv s \<Longrightarrow> sched_inv (sort_tasks s)"
  using maps_inv_sort_tasks [of s] sort_tasks_partition(1) [of s]
  by (auto simp: sched_inv_def elim!: pending_ok_mono)

lemma preserves_clear_nav [preserves_intros]:
  "preserves sched_inv (modify (\<lambda>s. s\<lparr>navigation_task := x s\<rparr>))"
  by (intro preserves_modify) (erule sched_inv_cong; simp)

lemma preserves_updateTasks [preserves_intros]: "preserves sched_inv updateTasks"
proof -
  have "preserves sched_inv (modify sort_tasks)"
    by (intro preserves_modify sched_inv_sort_tasks)
  then show ?thesis
    unfolding updateTasks_def by (intro preserves_intros) (auto intro!: preserves_intros split: option.split)
qed

lemma preserves_interrupt_mapping [preserves_intros]:
  "preserves sched_inv (updateTasksInterruptMapping subs)"
proof -
  have "preserves sched_inv (modify (\<lambda>s. s\<lparr>nav_interrupting_tasks :=
      filter (\<lambda>(k, r). \<not> ref_terminal s r) (nav_interrupting_tasks s)\<rparr>))"
    by (intro preserves_modify) (simp add: sched_inv_def maps_ok_filter_nav)
  then show ?thesis
    unfolding updateTasksInterruptMapping_def by (intro preserves_intros)
qed

subsection \<open>Starting a group of tasks\<close>

text \<open>
  Starting a group always succeeds: a fresh task accepts \<^verbatim>\<open>doStart\<close>. It adds the group's ids
  to the maps, announces the tasks in order, and touches nothing else.
\<close>

definition start_effects :: "Action list \<Rightarrow> Emitted list" where
  "start_effects as = concat (map (\<lambda>a. ActionInitializing_effect (actionId a)) as)"

definition same_frame :: "Scheduler \<Rightarrow> Scheduler \<Rightarrow> bool" where
  "same_frame s t \<longleftrightarrow>
     sc_state t = sc_state s \<and> rcv_evt_queue t = rcv_evt_queue s \<and>
     rcv_evt_queue_staging t = rcv_evt_queue_staging s \<and>
     rcv_interrupt_queue t = rcv_interrupt_queue s \<and>
     current_action_blocking_type t = current_action_blocking_type s \<and>
     current_segment t = current_segment s \<and> navigation_task t = navigation_task s"

lemma same_frame_refl: "same_frame s s"
  by (simp add: same_frame_def)

lemma same_frame_trans: "same_frame s t \<Longrightarrow> same_frame t u \<Longrightarrow> same_frame s u"
  by (simp add: same_frame_def)

definition started :: "Action list \<Rightarrow> Scheduler \<Rightarrow> Scheduler \<Rightarrow> bool" where
  "started as s t \<longleftrightarrow>
     maps_inv t \<and> paused_tasks t = paused_tasks s \<and>
     fst ` set (active_tasks t) = actionId ` set as \<union> fst ` set (active_tasks s) \<and>
     outbox t = outbox s @ start_effects as \<and> same_frame s t \<and>
     task_heap t = task_heap s @ map (\<lambda>a. \<lparr>at_state = ActionInitializing, at_action = a\<rparr>) as \<and>
     (\<forall>p \<in> set (active_tasks t). p \<in> set (active_tasks s) \<or> length (task_heap s) \<le> snd p)"

lemma started_Nil: "maps_inv s \<Longrightarrow> started [] s s"
  by (simp add: started_def start_effects_def same_frame_refl)

lemma started_append:
  assumes "started as s t" and "started bs t u"
  shows "started (as @ bs) s u"
proof -
  have "p \<in> set (active_tasks s) \<or> length (task_heap s) \<le> snd p" if "p \<in> set (active_tasks u)" for p
    using assms that by (fastforce simp: started_def)
  then show ?thesis
    using assms by (auto simp: started_def start_effects_def intro: same_frame_trans)
qed

lemma register_fields:
  assumes "reg = register_active \<or> reg = register_instant"
  shows "active_tasks (reg a r s) = insert_or_assign (actionId a) r (active_tasks s)"
    "running_tasks (reg a r s) = insert_or_assign (actionId a) r (running_tasks s)"
    "paused_tasks (reg a r s) = paused_tasks s" "task_heap (reg a r s) = task_heap s"
    "outbox (reg a r s) = outbox s" "same_frame s (reg a r s)"
    "nav_interrupting_tasks (reg a r s) \<in>
       {nav_interrupting_tasks s, insert_or_assign (actionId a) r (nav_interrupting_tasks s)}"
  using assms
  by (auto simp: register_active_def register_instant_def Let_def same_frame_def)

lemma same_frame_record [simp]:
  "same_frame s (t\<lparr>task_heap := h\<rparr>) = same_frame s t"
  "same_frame s (t\<lparr>outbox := es\<rparr>) = same_frame s t"
  "same_frame (s\<lparr>task_heap := h\<rparr>) t = same_frame s t"
  by (simp_all add: same_frame_def)

definition task_created ::
  "(Action \<Rightarrow> task_ref \<Rightarrow> Scheduler \<Rightarrow> Scheduler) \<Rightarrow> Action \<Rightarrow> Scheduler \<Rightarrow> Scheduler" where
  "task_created reg a s =
     (reg a (length (task_heap s)) s)
       \<lparr>task_heap := task_heap s @ [\<lparr>at_state = ActionInitializing, at_action = a\<rparr>],
         outbox := outbox s @ ActionInitializing_effect (actionId a)\<rparr>"

lemma new_task_run:
  assumes "reg = register_active \<or> reg = register_instant"
  shows "new_task a (reg a) s = (Inr (), task_created reg a s)"
  using assms
  by (auto simp: new_task_def run_simps task_transition_def ActionTask_transition_def
      ActionTask_new_def ActionTransition_doStart_def ActionWaiting_transition_def task_created_def
      register_active_def register_instant_def Let_def)

lemma new_task_start:
  assumes "maps_inv s" and "actionId a \<notin> fst ` set (paused_tasks s)"
    and "reg = register_active \<or> reg = register_instant"
  shows "started [a] s (task_created reg a s)"
proof -
  let ?t0 = "\<lparr>at_state = ActionInitializing, at_action = a\<rparr>"
  let ?r = "length (task_heap s)" and ?u = "task_created reg a s"
  note fields = register_fields [OF assms(3)]
  have "maps_inv ?u"
    using maps_ok_new_task [OF assms(1) _ assms(2), of ?t0] fields(7) [of a ?r s]
    by (auto simp: fields task_created_def)
  moreover have "same_frame s ?u" using fields(6) by (simp add: task_created_def)
  moreover have "set (active_tasks ?u) \<subseteq> insert (actionId a, ?r) (set (active_tasks s))"
    using set_insert_or_assign_subset by (simp add: task_created_def fields)
  then have "\<forall>p \<in> set (active_tasks ?u). p \<in> set (active_tasks s) \<or> ?r \<le> snd p" by auto
  ultimately show ?thesis
    by (simp add: started_def fields set_insert_or_assign start_effects_def task_created_def)
qed

lemma start_group:
  assumes "maps_inv s" and "actionId ` set as \<inter> fst ` set (paused_tasks s) = {}"
    and "reg = register_active \<or> reg = register_instant"
  shows "\<exists>t. forM as (\<lambda>a. new_task a (reg a)) s = (Inr (), t) \<and> started as s t"
  using assms
proof (induction as arbitrary: s)
  case Nil
  then show ?case using started_Nil by (simp add: run_simps)
next
  case (Cons a as)
  obtain u where u: "new_task a (reg a) s = (Inr (), u)" "started [a] s u"
    using new_task_run [OF Cons.prems(3), of a s] new_task_start [OF Cons.prems(1) _ Cons.prems(3), of a]
      Cons.prems(2) by auto
  have "maps_inv u" "paused_tasks u = paused_tasks s" using u(2) by (auto simp: started_def)
  moreover from this have "actionId ` set as \<inter> fst ` set (paused_tasks u) = {}"
    using Cons.prems(2) by auto
  ultimately obtain t where t: "forM as (\<lambda>a. new_task a (reg a)) u = (Inr (), t)" "started as u t"
    using Cons.IH [OF _ _ Cons.prems(3)] by blast
  show ?case using u(1) t(1) started_append [OF u(2) t(2)] by (simp add: run_simps)
qed

subsection \<open>\<^verbatim>\<open>updateFetchNext\<close>\<close>

lemma fetch_action_group_inv:
  assumes "sched_inv s" and "rcv_evt_queue s = YieldActionGroupEvent as c # q"
  shows "sched_inv (snd (fetch_action_group as c s))"
proof (cases "active_tasks s = [] \<and> (navigation_task s \<noteq> None \<longrightarrow> c = NONE)")
  case False
  then show ?thesis using assms(1) by (auto simp: fetch_action_group_def run_simps)
next
  case True
  let ?s = "s\<lparr>current_segment := None, current_action_blocking_type := c\<rparr>"
  have maps: "maps_inv ?s" using assms(1) by (simp add: sched_inv_def)
  then have "paused_tasks s = []" using True by (auto simp: maps_ok_def)
  then have "actionId ` set as \<inter> fst ` set (paused_tasks ?s) = {}" by simp
  then obtain t where run: "forM as (\<lambda>a. new_task a (register_active a)) ?s = (Inr (), t)"
    and "started as ?s t"
    using start_group [OF maps _ disjI1 [OF refl]] by blast
  then have t: "maps_inv t" "same_frame ?s t"
    "fst ` set (active_tasks t) = actionId ` set as \<union> fst ` set (active_tasks ?s)"
    by (auto simp: started_def)
  have "set (queue_ids q) \<subseteq> set (queue_ids (rcv_evt_queue s))"
    "fst ` set (active_tasks t) \<subseteq> fst ` set (active_tasks s) \<union> set (queue_ids (rcv_evt_queue s))"
    using t(3) assms(2) by auto
  then have "pending_ok (fst ` set (active_tasks t)) q (rcv_evt_queue_staging s) (rcv_interrupt_queue s)"
    using assms(1) unfolding sched_inv_def pending_ok_def by blast
  then show ?thesis
    using run t True assms(2)
    by (auto simp: fetch_action_group_def run_simps pop_evt_def sched_inv_def same_frame_def)
qed

lemma preserves_pop_evt [preserves_intros]: "preserves sched_inv pop_evt"
  unfolding pop_evt_def
proof (intro preserves_modify)
  fix s assume inv: "sched_inv s"
  have sub: "set (queue_ids (tl q)) \<subseteq> set (queue_ids q)" for q by (cases q) auto
  have "pending_ok (fst ` set (active_tasks s)) (tl (rcv_evt_queue s)) (rcv_evt_queue_staging s)
      (rcv_interrupt_queue s)"
    by (rule pending_ok_mono [OF _ order_refl sub]) (use inv in \<open>simp add: sched_inv_def\<close>)
  then show "sched_inv (s\<lparr>rcv_evt_queue := tl (rcv_evt_queue s)\<rparr>)"
    using inv by (simp add: sched_inv_def)
qed

lemma preserves_doPatchSegment [preserves_intros]: "preserves sched_inv doPatchSegment"
proof (rule preservesI)
  fix s assume "sched_inv s"
  then show "sched_inv (snd (doPatchSegment s))"
    by (auto simp: doPatchSegment_def Let_def emit_def run_simps elim: sched_inv_cong
        split: option.split prod.split)
qed

lemma preserves_set_segment [preserves_intros]:
  "preserves sched_inv (modify (\<lambda>s. let x = f s in s\<lparr>current_segment := g x, navigation_task := h x s\<rparr>))"
  unfolding Let_def by (intro preserves_modify) (erule sched_inv_cong; simp)

lemma preserves_start_segment [preserves_intros]: "preserves sched_inv (start_segment subs goal)"
  unfolding start_segment_def by (intro preserves_intros)

lemma preserves_fetch_navigation_step [preserves_intros]:
  "preserves sched_inv (fetch_navigation_step subs goal via)"
  unfolding fetch_navigation_step_def
  by (intro preserves_intros) (auto intro!: preserves_intros split: option.split prod.split)

lemma updateFetchNext_inv: "sched_inv s \<Longrightarrow> sched_inv (snd (updateFetchNext subs s))"
proof (induction subs s rule: updateFetchNext.induct)
  case (1 subs s)
  show ?case
  proof (cases "rcv_evt_queue s")
    case Nil
    then show ?thesis using 1(3) by (simp add: updateFetchNext.simps [of _ s])
  next
    case (Cons e q)
    show ?thesis
    proof (cases e)
      case (YieldActionGroupEvent as c)
      obtain r t where f: "fetch_action_group as c s = (r, t)" by force
      have "sched_inv t"
        using fetch_action_group_inv [OF 1(3), of as c q] Cons YieldActionGroupEvent f by simp
      then show ?thesis
        using 1(2) [OF Cons YieldActionGroupEvent f [symmetric]] Cons YieldActionGroupEvent f
        by (auto simp: updateFetchNext.simps [of _ s] split: sum.split)
    next
      case (YieldNavigationStepEvent g v stop)
      obtain r t where f: "fetch_navigation_step subs g v s = (r, t)" by force
      have "sched_inv t"
        using preservesD [OF preserves_fetch_navigation_step 1(3), of subs g v] f by simp
      then show ?thesis
        using 1(1) [OF Cons YieldNavigationStepEvent f [symmetric]] Cons YieldNavigationStepEvent f
        by (auto simp: updateFetchNext.simps [of _ s] split: sum.split)
    qed (use Cons 1(3) in \<open>simp_all add: updateFetchNext.simps [of _ s]\<close>)
  qed
qed

lemma preserves_updateFetchNext [preserves_intros]: "preserves sched_inv (updateFetchNext subs)"
  by (rule preservesI) (rule updateFetchNext_inv)

subsection \<open>Instant actions\<close>

lemma preserves_doInterrupt [preserves_intros]: "preserves sched_inv (doInterrupt subs)"
  unfolding doInterrupt_def
  by (intro preserves_intros) (auto intro!: preserves_intros split: list.split)

lemma updateFetchNextInterrupt_inv:
  assumes "sched_inv s"
  shows "sched_inv (snd (updateFetchNextInterrupt s))"
proof (cases "rcv_interrupt_queue s")
  case Nil
  then show ?thesis using assms by (simp add: updateFetchNextInterrupt_def run_simps)
next
  case (Cons g iq)
  let ?s = "s\<lparr>current_action_blocking_type := iag_ceiling g\<rparr>"
  have maps: "maps_inv ?s" using assms by (simp add: sched_inv_def)
  have pend: "pending_ok (fst ` set (active_tasks s)) (rcv_evt_queue s) (rcv_evt_queue_staging s) (g # iq)"
    using assms Cons by (simp add: sched_inv_def)
  have "set (paused_tasks s) \<subseteq> set (active_tasks s)" using maps by (simp add: maps_ok_def)
  then have "fst ` set (paused_tasks s) \<subseteq> fst ` set (active_tasks s)" by (rule image_mono)
  moreover have "set (interrupt_ids (g # iq)) \<inter> fst ` set (active_tasks s) = {}"
    using pend unfolding pending_ok_def by blast
  ultimately have "actionId ` set (iag_actions g) \<inter> fst ` set (paused_tasks ?s) = {}" by auto
  then obtain t where run: "forM (iag_actions g) (\<lambda>a. new_task a (register_instant a)) ?s = (Inr (), t)"
    and "started (iag_actions g) ?s t"
    using start_group [OF maps _ disjI2 [OF refl]] by blast
  then have t: "maps_inv t" "same_frame ?s t"
    "fst ` set (active_tasks t) = actionId ` set (iag_actions g) \<union> fst ` set (active_tasks ?s)"
    by (auto simp: started_def)
  have "pending_ok (fst ` set (active_tasks t)) (rcv_evt_queue s) (rcv_evt_queue_staging s) iq"
    using pending_ok_pop [OF pend] t(3) by simp
  then have "sched_inv (t\<lparr>rcv_interrupt_queue := tl (rcv_interrupt_queue t)\<rparr>)"
    using t Cons by (simp add: sched_inv_def same_frame_def)
  then show ?thesis
    using assms run Cons by (auto simp: updateFetchNextInterrupt_def run_simps)
qed

lemma preserves_updateFetchNextInterrupt [preserves_intros]:
  "preserves sched_inv updateFetchNextInterrupt"
  by (rule preservesI) (rule updateFetchNextInterrupt_inv)

subsection \<open>States and public operations\<close>

lemma preserves_modify_segment [preserves_intros]:
  "preserves sched_inv (modify (\<lambda>s. s\<lparr>current_segment := None\<rparr>))"
  by (intro preserves_modify) (erule sched_inv_cong; simp)

lemma preserves_modify_state [preserves_intros]:
  "preserves sched_inv (modify (\<lambda>s. s\<lparr>sc_state := st\<rparr>))"
  by (intro preserves_modify) (erule sched_inv_cong; simp)

lemma preserves_new_states [preserves_intros]:
  "preserves sched_inv (SchedulerIdle_new b)" "preserves sched_inv (SchedulerIdlePaused_new b)"
  "preserves sched_inv (SchedulerActive_new b)" "preserves sched_inv (SchedulerCanceling_new b)"
  "preserves sched_inv (SchedulerResuming_new b)" "preserves sched_inv (SchedulerPausing_new b)"
  "preserves sched_inv (SchedulerPaused_new b)" "preserves sched_inv (SchedulerFailed_new b)"
  "preserves sched_inv (SchedulerInterrupting_new b)"
  unfolding scheduler_new_defs by (intro preserves_intros)+

lemma preserves_go [preserves_intros]:
  "(\<And>b. preserves sched_inv (new b)) \<Longrightarrow> preserves sched_inv (go new notify upd)"
  unfolding go_def by (intro preserves_intros)

lemma preserves_option_case [preserves_intros]:
  "preserves I m \<Longrightarrow> (\<And>x. preserves I (f x)) \<Longrightarrow> preserves I (case y of None \<Rightarrow> m | Some x \<Rightarrow> f x)"
  by (cases y) auto

lemma preserves_state_cancel [preserves_intros]: "preserves sched_inv (state_cancel subs st)"
  by (cases st; simp only: state_cancel.simps state_cancel_defs; intro preserves_intros)

lemma preserves_state_pause [preserves_intros]: "preserves sched_inv (state_pause subs st)"
  by (cases st; simp only: state_pause.simps state_pause_defs; intro preserves_intros)

lemma preserves_state_resume [preserves_intros]: "preserves sched_inv (state_resume subs st)"
  by (cases st; simp only: state_resume.simps state_resume_defs; intro preserves_intros)

lemma preserves_state_interrupt [preserves_intros]: "preserves sched_inv (state_interrupt subs st)"
  by (cases st; simp only: state_interrupt.simps state_interrupt_defs; intro preserves_intros)

lemma preserves_state_update [preserves_intros]: "preserves sched_inv (state_update subs st)"
  by (cases st; simp only: state_update.simps state_update_defs; intro preserves_intros)

lemma Scheduler_update_inv: "sched_inv s \<Longrightarrow> sched_inv (snd (Scheduler_update subs s))"
proof (induction subs s rule: Scheduler_update.induct)
  case (1 subs s)
  obtain r t where f: "state_update subs (sc_state s) s = (r, t)" by force
  have "sched_inv t" using preservesD [OF preserves_state_update 1(2), of subs "sc_state s"] f by simp
  then have inv: "sched_inv (t\<lparr>sc_state := st\<rparr>)" for st by (rule sched_inv_cong) simp_all
  show ?case
    using 1(1) [OF f [symmetric]] inv \<open>sched_inv t\<close> f
    by (auto simp: Scheduler_update.simps [of _ s] split: sum.split prod.split)
qed

lemma preserves_Scheduler_update [preserves_intros]: "preserves sched_inv (Scheduler_update subs)"
  by (rule preservesI) (rule Scheduler_update_inv)

lemma preserves_call_state [preserves_intros]:
  "(\<And>st. preserves sched_inv (op subs st)) \<Longrightarrow> preserves sched_inv (call_state subs op)"
  unfolding call_state_def
  by (intro preserves_intros) (auto intro!: preserves_intros split: prod.split)

lemma sched_inv_commit:
  "sched_inv s \<Longrightarrow> sched_inv (s\<lparr>rcv_evt_queue := rcv_evt_queue s @ rcv_evt_queue_staging s,
     rcv_evt_queue_staging := []\<rparr>)"
  by (simp add: sched_inv_def pending_ok_commit)

text \<open>Every public operation keeps the invariant, on normal and exceptional paths.\<close>

lemma exec_op_inv:
  assumes "sched_inv s" and "op_fresh p s"
  shows "sched_inv (snd (exec_op subs p s))"
proof (cases p)
  case (OpInterrupt g)
  let ?s = "s\<lparr>rcv_interrupt_queue := rcv_interrupt_queue s @ [g]\<rparr>"
  have "sched_inv ?s" using assms OpInterrupt by (simp add: sched_inv_def op_fresh_def)
  then have "sched_inv (snd (call_state subs state_interrupt ?s))"
    by (intro preservesD [OF preserves_call_state] preserves_state_interrupt)
  then show ?thesis using OpInterrupt by (simp add: enqueueInterruptActions_def run_simps)
next
  case (OpEnqueue e)
  then show ?thesis
    using assms pending_ok_enqueue
    by (simp add: enqueue_def run_simps sched_inv_def op_fresh_def del: set_concat)
next
  case OpCommit
  let ?s = "s\<lparr>rcv_evt_queue := rcv_evt_queue s @ rcv_evt_queue_staging s, rcv_evt_queue_staging := []\<rparr>"
  have "sched_inv ?s" by (rule sched_inv_commit [OF assms(1)])
  then show ?thesis using OpCommit Scheduler_update_inv by (simp add: commitQueue_def run_simps)
next
  case (OpAction i tr)
  have "preserves sched_inv (actionTransition subs i tr)"
    unfolding actionTransition_def by (intro preserves_intros)
  then show ?thesis using OpAction assms(1) by (simp add: preservesD)
next
  case (OpNavigation tr)
  have "preserves sched_inv (navigationTransition subs tr)"
    unfolding navigationTransition_def by (intro preserves_intros)
  then show ?thesis using OpNavigation assms(1) by (simp add: preservesD)
qed (use assms(1) in \<open>simp_all add: preservesD preserves_call_state preserves_state_cancel
    preserves_state_pause preserves_state_resume Scheduler_update_inv Scheduler_cancel_def
    Scheduler_pause_def Scheduler_resume_def\<close>)

lemma Scheduler_new_inv: "sched_inv Scheduler_new"
  by (simp add: sched_inv_def Scheduler_new_def maps_ok_def pending_ok_def)

interpretation scheduler_maps: guarded_system "exec_state subs" op_fresh sched_inv for subs
  by unfold_locales (simp add: exec_state_def exec_op_inv)

end
