(* ===== verification/SchedulerIdle.thy ===== *)
theory SchedulerIdle
  imports SchedulerInv
begin

text \<open>
  What the idle states promise: nothing is active, nothing is left to fetch. From this
  follows that the status the scheduler has reported last is always the one of its state.
\<close>

section \<open>Fetching never fails and stops only when blocked\<close>

text \<open>The task a navigation step starts.\<close>

definition started_nav :: "Node \<Rightarrow> Edge option \<Rightarrow> (seq_id \<times> seq_id) option \<Rightarrow> NavigationTask" where
  "started_nav g v seg =
     \<lparr>nt_state = NavigationFirstInProgress, nt_segment = seg, nt_goal = g, nt_via_edge = v\<rparr>"

definition nav_step_blocked :: "Scheduler \<Rightarrow> bool" where
  "nav_step_blocked s \<longleftrightarrow> navigation_task s \<noteq> None \<or> nav_interrupting_tasks s \<noteq> [] \<or>
     active_tasks s \<noteq> [] \<and> current_action_blocking_type s \<noteq> NONE"

definition segment_covers :: "Scheduler \<Rightarrow> seq_id \<Rightarrow> bool" where
  "segment_covers s k \<longleftrightarrow> (case current_segment s of None \<Rightarrow> False | Some (b, l) \<Rightarrow> k \<le> l)"

definition nav_started :: "Node \<Rightarrow> Edge option \<Rightarrow> Scheduler \<Rightarrow> Scheduler" where
  "nav_started g v s =
     (let k = n_sequenceId g;
          seg = (if segment_covers s k then None else Some (k, prefetch (rcv_evt_queue s) k));
          nt = started_nav g v seg
      in s\<lparr>rcv_evt_queue := tl (rcv_evt_queue s), navigation_task := Some nt,
           current_segment := (if seg = None then current_segment s else seg),
           outbox := outbox s @ NavigationFirstInProgress_effect nt\<rparr>)"

lemma fetch_navigation_step_eq:
  "fetch_navigation_step subs g v s =
     (if nav_step_blocked s then
        (Inr False, if navigation_task s \<noteq> None then snd (doPatchSegment s) else s)
      else
        (Inr True, nav_started g v s))"
proof (cases "nav_step_blocked s")
  case True
  then show ?thesis
    by (auto simp: fetch_navigation_step_def nav_step_blocked_def run_simps doPatchSegment_def
        emit_def Let_def split: option.splits prod.splits)
next
  case False
  note defs = fetch_navigation_step_def nav_step_blocked_def segment_covers_def start_segment_def
    NavigationTask_new_def setSegment_def pop_evt_def nav_transition_def
    NavigationTask_transition_def NavigationWaiting_transfer_def NavigationState_effect_def
    started_nav_def nav_started_def
  show ?thesis
  proof (cases "current_segment s")
    case None
    then show ?thesis using False by (simp add: defs run_simps Let_def)
  next
    case (Some p)
    obtain b l where "p = (b, l)" by force
    then show ?thesis using False Some by (simp add: defs run_simps Let_def)
  qed
qed

definition group_blocked :: "Scheduler \<Rightarrow> BlockingType \<Rightarrow> bool" where
  "group_blocked s c \<longleftrightarrow> active_tasks s \<noteq> [] \<or> navigation_task s \<noteq> None \<and> c \<noteq> NONE"

lemma group_nav_same:
  "forM as (\<lambda>a. new_task a (register_active a)) s = (r, t) \<Longrightarrow>
   nav_interrupting_tasks t = nav_interrupting_tasks s"
proof (induction as arbitrary: s)
  case (Cons a as)
  have "nav_interrupting_tasks (task_created register_active a s) = nav_interrupting_tasks s"
    by (simp add: task_created_def register_active_def)
  then show ?case
    using Cons new_task_run [of register_active a s] by (simp add: run_simps)
qed (simp add: run_simps)

lemma fetch_action_group_eq:
  assumes "maps_inv s"
  shows "if group_blocked s c then fetch_action_group as c s = (Inr False, s)
     else \<exists>t. fetch_action_group as c s = (Inr True, t\<lparr>rcv_evt_queue := tl (rcv_evt_queue s)\<rparr>) \<and>
       started as (s\<lparr>current_segment := None, current_action_blocking_type := c\<rparr>) t \<and>
       nav_interrupting_tasks t = nav_interrupting_tasks s"
proof (cases "group_blocked s c")
  case True
  then show ?thesis by (auto simp: group_blocked_def fetch_action_group_def run_simps)
next
  case False
  let ?s = "s\<lparr>current_segment := None, current_action_blocking_type := c\<rparr>"
  have maps: "maps_inv ?s" using assms by simp
  then have "actionId ` set as \<inter> fst ` set (paused_tasks ?s) = {}"
    using False by (auto simp: group_blocked_def maps_ok_def)
  then obtain t where t: "forM as (\<lambda>a. new_task a (register_active a)) ?s = (Inr (), t)" "started as ?s t"
    using start_group [OF maps _ disjI1 [OF refl]] by blast
  then show ?thesis
    using False group_nav_same [OF t(1)]
    by (auto simp: group_blocked_def fetch_action_group_def run_simps pop_evt_def started_def
        same_frame_def)
qed

definition group_ready :: "BlockingType \<Rightarrow> Scheduler \<Rightarrow> Scheduler" where
  "group_ready c s = s\<lparr>current_segment := None, current_action_blocking_type := c\<rparr>"

text \<open>Why fetching stopped.\<close>

definition fetch_stopped :: "Scheduler \<Rightarrow> bool" where
  "fetch_stopped s \<longleftrightarrow>
     (case rcv_evt_queue s of
        YieldActionGroupEvent as c # _ \<Rightarrow> group_blocked s c
      | YieldNavigationStepEvent g v stop # _ \<Rightarrow> nav_step_blocked s
      | _ \<Rightarrow> True)"

lemma doPatchSegment_frame:
  assumes "doPatchSegment s = (r, t)"
  shows "r = Inr ()" "rcv_evt_queue t = rcv_evt_queue s" "active_tasks t = active_tasks s"
    "running_tasks t = running_tasks s" "paused_tasks t = paused_tasks s"
    "nav_interrupting_tasks t = nav_interrupting_tasks s" "task_heap t = task_heap s"
    "navigation_task t = navigation_task s" "sc_state t = sc_state s"
    "current_action_blocking_type t = current_action_blocking_type s"
    "rcv_interrupt_queue t = rcv_interrupt_queue s"
    "rcv_evt_queue_staging t = rcv_evt_queue_staging s"
    "\<exists>es. outbox t = outbox s @ es \<and> (\<forall>e \<in> set es. \<exists>b l. e = NavEvt (NavigationUpcomingSegment b l))"
  using assms
  by (auto simp: doPatchSegment_def Let_def emit_def run_simps split: option.splits prod.splits if_splits)

lemma maps_inv_started:
  assumes "started as s t"
  shows "maps_inv (t\<lparr>rcv_evt_queue := q\<rparr>)"
proof -
  have "maps_inv t" using assms unfolding started_def by blast
  then show ?thesis by simp
qed

lemma updateFetchNext_step:
  "updateFetchNext subs s =
     (case rcv_evt_queue s of
        YieldActionGroupEvent as c # _ \<Rightarrow>
          (case fetch_action_group as c s of
             (Inl e, t) \<Rightarrow> (Inl e, t)
           | (Inr again, t) \<Rightarrow> if again then updateFetchNext subs t else (Inr (), t))
      | YieldNavigationStepEvent g v stop # _ \<Rightarrow>
          (if nav_step_blocked s
           then (Inr (), if navigation_task s \<noteq> None then snd (doPatchSegment s) else s)
           else updateFetchNext subs (nav_started g v s))
      | _ \<Rightarrow> (Inr (), s))"
  by (auto simp: updateFetchNext.simps [of subs s] fetch_navigation_step_eq
      split: list.split InterpreterEvent.split)

text \<open>
  The rule for everything that is proved about \<^verbatim>\<open>updateFetchNext\<close>: a property that survives
  the start of a group, the start of a navigation step and the patching of the segment
  holds at the end, where nothing more can be fetched.
\<close>

lemma updateFetchNext_rule:
  assumes "maps_inv s" and "I s"
    and group: "\<And>s as c q t. maps_inv s \<Longrightarrow> I s \<Longrightarrow> rcv_evt_queue s = YieldActionGroupEvent as c # q \<Longrightarrow>
      \<not> group_blocked s c \<Longrightarrow> fetch_action_group as c s = (Inr True, t\<lparr>rcv_evt_queue := q\<rparr>) \<Longrightarrow>
      started as (group_ready c s) t \<Longrightarrow> nav_interrupting_tasks t = nav_interrupting_tasks s \<Longrightarrow>
      I (t\<lparr>rcv_evt_queue := q\<rparr>)"
    and nav: "\<And>s g v stop q. maps_inv s \<Longrightarrow> I s \<Longrightarrow>
      rcv_evt_queue s = YieldNavigationStepEvent g v stop # q \<Longrightarrow>
      \<not> nav_step_blocked s \<Longrightarrow> I (nav_started g v s)"
    and patch: "\<And>s. maps_inv s \<Longrightarrow> I s \<Longrightarrow> navigation_task s \<noteq> None \<Longrightarrow> I (snd (doPatchSegment s))"
  shows "\<exists>t. updateFetchNext subs s = (Inr (), t) \<and> maps_inv t \<and> I t \<and> fetch_stopped t"
  using assms(1,2)
proof (induction "length (rcv_evt_queue s)" arbitrary: s rule: less_induct)
  case less
  show ?case
  proof (cases "rcv_evt_queue s")
    case Nil
    then show ?thesis using less.prems by (simp add: updateFetchNext_step [of _ s] fetch_stopped_def)
  next
    case (Cons e q)
    show ?thesis
    proof (cases e)
      case e: (YieldActionGroupEvent as c)
      show ?thesis
      proof (cases "group_blocked s c")
        case True
        then have "fetch_action_group as c s = (Inr False, s)"
          using fetch_action_group_eq [OF less.prems(1), of c as] by simp
        then show ?thesis
          using Cons e less.prems True by (simp add: updateFetchNext_step [of _ s] fetch_stopped_def)
      next
        case False
        then obtain t where t: "fetch_action_group as c s = (Inr True, t\<lparr>rcv_evt_queue := q\<rparr>)"
          "started as (group_ready c s) t" "nav_interrupting_tasks t = nav_interrupting_tasks s"
          using fetch_action_group_eq [OF less.prems(1), of c as] Cons by (auto simp: group_ready_def)
        let ?t = "t\<lparr>rcv_evt_queue := q\<rparr>"
        have "maps_inv ?t" by (rule maps_inv_started [OF t(2)])
        moreover have "I ?t" using group [OF less.prems(1,2)] Cons e False t by blast
        ultimately obtain u where "updateFetchNext subs ?t = (Inr (), u)" "maps_inv u" "I u" "fetch_stopped u"
          using less.hyps [of ?t] Cons by auto
        then show ?thesis using t(1) Cons e by (simp add: updateFetchNext_step [of _ s])
      qed
    next
      case e: (YieldNavigationStepEvent g v stop)
      show ?thesis
      proof (cases "nav_step_blocked s")
        case True
        obtain r t where p: "doPatchSegment s = (r, t)" by force
        note frame = doPatchSegment_frame [OF p]
        have t: "fetch_stopped t" "maps_inv t"
          using True Cons e frame less.prems(1) by (auto simp: fetch_stopped_def nav_step_blocked_def)
        have s: "fetch_stopped s" using True Cons e by (simp add: fetch_stopped_def)
        have "updateFetchNext subs s = (Inr (), if navigation_task s \<noteq> None then t else s)"
          using Cons e True p by (auto simp: updateFetchNext_step [of _ s])
        moreover have "I t" if "navigation_task s \<noteq> None" using patch [OF less.prems that] p by simp
        ultimately show ?thesis using t s less.prems by auto
      next
        case False
        have "maps_inv (nav_started g v s)" using less.prems(1) by (simp add: nav_started_def Let_def)
        moreover have "I (nav_started g v s)" using nav [OF less.prems] Cons e False by blast
        moreover have "rcv_evt_queue (nav_started g v s) = q"
          using Cons by (simp add: nav_started_def Let_def)
        ultimately show ?thesis
          using less.hyps [of "nav_started g v s"] Cons e False
          by (simp add: updateFetchNext_step [of _ s])
      qed
    qed (use Cons less.prems in \<open>simp_all add: updateFetchNext_step [of _ s] fetch_stopped_def\<close>)
  qed
qed

section \<open>The order of execution\<close>

fun launches :: "Emitted list \<Rightarrow> Emitted list" where
  "launches [] = []"
| "launches (ActionEvt (ActionStart i) # es) = ActionEvt (ActionStart i) # launches es"
| "launches (NavEvt (NavigationNextNode g v) # es) = NavEvt (NavigationNextNode g v) # launches es"
| "launches (e # es) = launches es"

text \<open>What an event of the queue asks for.\<close>

fun plan_of :: "InterpreterEvent \<Rightarrow> Emitted list" where
  "plan_of (YieldActionGroupEvent as c) = map (\<lambda>a. ActionEvt (ActionStart (actionId a))) as"
| "plan_of (YieldNavigationStepEvent g v stop) = [NavEvt (NavigationNextNode g v)]"
| "plan_of e = []"

lemma launches_append [simp]: "launches (es @ fs) = launches es @ launches fs"
  by (induction es rule: launches.induct) auto

lemma launches_start_effects [simp]:
  "launches (start_effects as) = map (\<lambda>a. ActionEvt (ActionStart (actionId a))) as"
  by (induction as) (auto simp: start_effects_def ActionInitializing_effect_def)

lemma launches_nav_start [simp]:
  "launches (NavigationFirstInProgress_effect (started_nav g v seg)) = [NavEvt (NavigationNextNode g v)]"
  by (auto simp: NavigationFirstInProgress_effect_def started_nav_def split: option.split)

lemma launches_none:
  "(\<forall>e \<in> set es. \<exists>b l. e = NavEvt (NavigationUpcomingSegment b l)) \<Longrightarrow> launches es = []"
  by (induction es rule: launches.induct) auto

lemma updateFetchNext_order:
  assumes "maps_inv s"
  shows "\<exists>consumed t. updateFetchNext subs s = (Inr (), t) \<and>
     rcv_evt_queue s = consumed @ rcv_evt_queue t \<and>
     launches (outbox t) = launches (outbox s) @ concat (map plan_of consumed) \<and> fetch_stopped t"
proof -
  let ?I = "\<lambda>t. \<exists>consumed. rcv_evt_queue s = consumed @ rcv_evt_queue t \<and>
     launches (outbox t) = launches (outbox s) @ concat (map plan_of consumed)"
  have "\<exists>t. updateFetchNext subs s = (Inr (), t) \<and> maps_inv t \<and> ?I t \<and> fetch_stopped t"
  proof (rule updateFetchNext_rule [OF assms, where I = ?I])
    show "?I s" by (rule exI [of _ "[]"]) simp
  next
    fix u as c q t
    assume u: "?I u" "rcv_evt_queue u = YieldActionGroupEvent as c # q" "started as (group_ready c u) t"
    then obtain consumed where "rcv_evt_queue s = consumed @ YieldActionGroupEvent as c # q"
      "launches (outbox u) = launches (outbox s) @ concat (map plan_of consumed)" by auto
    then show "?I (t\<lparr>rcv_evt_queue := q\<rparr>)"
      using u(3) by (intro exI [of _ "consumed @ [YieldActionGroupEvent as c]"])
        (simp add: started_def group_ready_def)
  next
    fix u :: Scheduler and g v stop q
    assume u: "?I u" "rcv_evt_queue u = YieldNavigationStepEvent g v stop # q"
    then obtain consumed where "rcv_evt_queue s = consumed @ YieldNavigationStepEvent g v stop # q"
      "launches (outbox u) = launches (outbox s) @ concat (map plan_of consumed)" by auto
    then show "?I (nav_started g v u)"
      using u(2) by (intro exI [of _ "consumed @ [YieldNavigationStepEvent g v stop]"])
        (simp add: nav_started_def Let_def)
  next
    fix u :: Scheduler
    assume u: "?I u"
    obtain r t where p: "doPatchSegment u = (r, t)" by force
    show "?I (snd (doPatchSegment u))"
      using u doPatchSegment_frame(2,13) [OF p] launches_none p by fastforce
  qed
  then show ?thesis by blast
qed

section \<open>The nav-interrupting map\<close>

text \<open>Its unfinished tasks are active.\<close>

definition nav_cover :: "Scheduler \<Rightarrow> bool" where
  "nav_cover s \<longleftrightarrow> (\<forall>p \<in> set (nav_interrupting_tasks s).
     ref_terminal s (snd p) \<or> p \<in> set (active_tasks s))"

lemma ref_terminal_append: "ref_terminal s r \<Longrightarrow> task_heap t = task_heap s @ h \<Longrightarrow> ref_terminal t r"
  by (auto simp: ref_terminal_def nth_append)

lemma task_created_cover:
  assumes "maps_inv s" and "nav_cover s" and "actionId a \<notin> fst ` set (active_tasks s)"
  shows "nav_cover (task_created register_instant a s)"
proof -
  let ?u = "task_created register_instant a s"
  let ?new = "(actionId a, length (task_heap s))"
  have wf: "wf_map (active_tasks s)" "wf_map (nav_interrupting_tasks s)"
    using assms(1) by (auto simp: maps_ok_def)
  have A: "set (active_tasks ?u) = insert ?new (set (active_tasks s))"
    using assms(3) by (force simp: task_created_def register_instant_def register_active_def Let_def
        set_insert_or_assign_wf [OF wf(1)])
  have N: "set (nav_interrupting_tasks ?u) \<subseteq> insert ?new (set (nav_interrupting_tasks s))"
    by (auto simp: task_created_def register_instant_def register_active_def Let_def
        set_insert_or_assign_wf [OF wf(2)])
  have "task_heap ?u = task_heap s @ [\<lparr>at_state = ActionInitializing, at_action = a\<rparr>]"
    by (simp add: task_created_def)
  then show ?thesis
    using assms(2) A N ref_terminal_append [of s _ ?u] unfolding nav_cover_def by blast
qed

lemma instant_group_cover:
  assumes "maps_inv s" and "nav_cover s" and "distinct (map actionId as)"
    and "actionId ` set as \<inter> fst ` set (active_tasks s) = {}"
    and "forM as (\<lambda>a. new_task a (register_instant a)) s = (r, t)"
  shows "nav_cover t"
  using assms
proof (induction as arbitrary: s)
  case Nil
  then show ?case by (simp add: run_simps)
next
  case (Cons a as)
  let ?u = "task_created register_instant a s"
  have "fst ` set (paused_tasks s) \<subseteq> fst ` set (active_tasks s)"
    using Cons.prems(1) by (auto simp: maps_ok_def)
  then have st: "started [a] s ?u"
    using new_task_start [OF Cons.prems(1), of a register_instant] Cons.prems(4) by auto
  have "maps_inv ?u" "actionId ` set as \<inter> fst ` set (active_tasks ?u) = {}"
    using st Cons.prems(3,4) unfolding started_def by auto
  moreover have "nav_cover ?u"
    by (rule task_created_cover) (use Cons.prems in auto)
  moreover have "forM as (\<lambda>a. new_task a (register_instant a)) ?u = (r, t)"
    using Cons.prems(5) new_task_run [of register_instant a s] by (simp add: run_simps)
  ultimately show ?case using Cons.IH Cons.prems(3) by simp
qed

end
