(* ===== verification/SchedulerStatus.thy ===== *)
theory SchedulerStatus
  imports SchedulerIdle
begin

text \<open>
  The scheduler's state, the status it has reported last, and what its idle states promise,
  for every run whose enqueued events have the two kinds the order event handler subscribes
  to (action groups and navigation steps).
\<close>

section \<open>Definitions\<close>

fun status_of :: "SchedulerStateType \<Rightarrow> OrderStatus" where
  "status_of k_idle = k_order_idle"
| "status_of k_idle_paused = k_order_idle_paused"
| "status_of k_active = k_order_active"
| "status_of k_canceling = k_order_canceling"
| "status_of k_resuming = k_order_resuming"
| "status_of k_pausing = k_order_pausing"
| "status_of k_paused = k_order_paused"
| "status_of k_failed = k_order_failed"
| "status_of k_interrupting = k_order_interrupting"

text \<open>The last status among the emitted events; the order manager starts with idle.\<close>

fun last_status :: "OrderStatus \<Rightarrow> Emitted list \<Rightarrow> OrderStatus" where
  "last_status d [] = d"
| "last_status d (OrderEvt (OrderStatusEvent st) # es) = last_status st es"
| "last_status d (e # es) = last_status d es"

fun schedulable :: "InterpreterEvent \<Rightarrow> bool" where
  "schedulable (YieldActionGroupEvent as c) = True"
| "schedulable (YieldNavigationStepEvent g v stop) = True"
| "schedulable e = False"

definition quiet :: "Scheduler \<Rightarrow> bool" where
  "quiet s \<longleftrightarrow> active_tasks s = [] \<and> nav_interrupting_tasks s = [] \<and> navigation_task s = None"

definition body :: "OrderStatus \<Rightarrow> SchedulerStateType \<Rightarrow> Scheduler \<Rightarrow> bool" where
  "body st sc s \<longleftrightarrow> sched_inv s \<and> nav_cover s \<and>
     list_all schedulable (rcv_evt_queue s) \<and> list_all schedulable (rcv_evt_queue_staging s) \<and>
     last_status k_order_idle (outbox s) = st \<and> sc_state s = sc"

definition sched_ok :: "Scheduler \<Rightarrow> bool" where
  "sched_ok s \<longleftrightarrow> body (status_of (sc_state s)) (sc_state s) s \<and>
     (sc_state s \<in> {k_idle, k_idle_paused} \<longrightarrow> quiet s) \<and>
     (sc_state s = k_idle \<longrightarrow> rcv_evt_queue s = [])"

definition op_ok :: "SchedulerOp \<Rightarrow> Scheduler \<Rightarrow> bool" where
  "op_ok p s \<longleftrightarrow> op_fresh p s \<and> (case p of OpEnqueue e \<Rightarrow> schedulable e | _ \<Rightarrow> True)"

lemma last_status_append [simp]:
  "last_status d (es @ fs) = last_status (last_status d es) fs"
  by (induction d es rule: last_status.induct) auto

section \<open>Helper operations\<close>

lemma body_cong:
  assumes "body st sc s"
    and "active_tasks t = active_tasks s" "running_tasks t = running_tasks s"
    and "paused_tasks t = paused_tasks s" "nav_interrupting_tasks t = nav_interrupting_tasks s"
    and "task_heap t = task_heap s" "rcv_evt_queue t = rcv_evt_queue s"
    and "rcv_evt_queue_staging t = rcv_evt_queue_staging s"
    and "rcv_interrupt_queue t = rcv_interrupt_queue s"
    and "last_status k_order_idle (outbox t) = st'" "sc_state t = sc'"
  shows "body st' sc' t"
  using assms sched_inv_cong [OF _ assms(2-9)]
  by (simp add: body_def nav_cover_def ref_terminal_def)

lemma preserves_bodyI:
  assumes "preserves sched_inv m"
    and "\<And>s. sched_inv s \<Longrightarrow> nav_cover s \<Longrightarrow> nav_cover (snd (m s))"
    and "\<And>s. list_all schedulable (rcv_evt_queue s) \<Longrightarrow> list_all schedulable (rcv_evt_queue (snd (m s)))"
    and "\<And>s. rcv_evt_queue_staging (snd (m s)) = rcv_evt_queue_staging s"
    and "\<And>s. last_status k_order_idle (outbox (snd (m s))) = last_status k_order_idle (outbox s)"
    and "\<And>s. sc_state (snd (m s)) = sc_state s"
  shows "preserves (body st sc) m"
  using assms by (simp add: preserves_def body_def)

lemma effect_no_status [simp]: "last_status d (ActionState_effect st i) = d"
  by (cases st) (auto simp: action_state_effect_defs)

lemma action_events_no_status:
  "ActionTask_transition tr t = (r, u, es) \<Longrightarrow> last_status d es = d"
  by (auto simp: ActionTask_transition_def split: sum.splits)

lemma nav_events_no_status:
  "NavigationTask_transition subs tr t = (r, u, es) \<Longrightarrow> last_status d es = d"
  by (auto simp: NavigationTask_transition_def navigation_effect_defs Let_def
      split: sum.splits prod.splits NavigationState.splits option.splits)

lemma nav_cover_cong:
  "nav_cover s \<Longrightarrow> nav_interrupting_tasks t = nav_interrupting_tasks s \<Longrightarrow>
   active_tasks t = active_tasks s \<Longrightarrow> task_heap t = task_heap s \<Longrightarrow> nav_cover t"
  by (simp add: nav_cover_def ref_terminal_def)

lemma ref_terminal_transition:
  assumes "ActionTask_transition tr (task_heap s ! r) = (res, u, es)" and "ref_terminal s i"
    and "task_heap t = (task_heap s)[r := u]"
  shows "ref_terminal t i"
proof -
  have "u = task_heap s ! r" if "ActionTask_isTerminal (task_heap s ! r)"
    using action_task.terminal_rejects [OF that, of tr] assms(1) by simp
  then show ?thesis
    using assms(2,3) by (cases "i = r") (auto simp: ref_terminal_def)
qed

lemma body_task_transition [preserves_intros]: "preserves (body st sc) (task_transition tr r)"
proof (rule preserves_bodyI)
  show "preserves sched_inv (task_transition tr r)" by (rule preserves_task_transition)
next
  fix s assume cover: "nav_cover s"
  obtain res u es where tr: "ActionTask_transition tr (task_heap s ! r) = (res, u, es)"
    by (cases "ActionTask_transition tr (task_heap s ! r)")
  let ?t = "s\<lparr>task_heap := (task_heap s)[r := u], outbox := outbox s @ es\<rparr>"
  have "nav_cover ?t"
    using cover ref_terminal_transition [OF tr, of _ ?t] by (auto simp: nav_cover_def)
  then show "nav_cover (snd (task_transition tr r s))"
    using cover tr by (simp add: task_transition_def)
qed (auto simp: task_transition_def dest: action_events_no_status split: prod.split)

lemma body_nav_transition [preserves_intros]: "preserves (body st sc) (nav_transition subs tr)"
proof (rule preservesI)
  fix s assume b: "body st sc s"
  show "body st sc (snd (nav_transition subs tr s))"
  proof (cases "navigation_task s")
    case (Some nt)
    obtain r u es where tr: "NavigationTask_transition subs tr nt = (r, u, es)"
      by (cases "NavigationTask_transition subs tr nt")
    have "body st sc (s\<lparr>navigation_task := Some u, outbox := outbox s @ es\<rparr>)"
      by (rule body_cong [OF b]) (use b nav_events_no_status [OF tr] in \<open>auto simp: body_def\<close>)
    then show ?thesis using Some tr by (simp add: nav_transition_def)
  qed (simp add: nav_transition_def b)
qed

lemma body_transition_all [preserves_intros]: "preserves (body st sc) (transition_all tr mp)"
  unfolding transition_all_def by (intro preserves_intros)

lemma forget_no_status [simp]: "last_status d (map (\<lambda>i. ActionEvt (ActionForget i)) is) = d"
  by (induction "is") auto

lemma forget_actions_no_status [simp]:
  "last_status d (map (\<lambda>a. ActionEvt (ActionForget (actionId a))) as) = d"
  by (induction as) auto

lemma clear_scan_schedulable:
  "clear_scan keep reached q = Inr (ids, kept) \<Longrightarrow> list_all schedulable kept"
proof (induction keep reached q arbitrary: ids kept rule: clear_scan.induct)
  case (2 keep reached e q)
  then show ?case by (cases e) (auto split: if_splits sum.splits prod.splits)
qed simp

lemma clear_scan_total:
  "list_all schedulable q \<Longrightarrow> \<exists>ids kept. clear_scan keep reached q = Inr (ids, kept)"
proof (induction keep reached q rule: clear_scan.induct)
  case (2 keep reached e q)
  then show ?case by (cases e) (auto split: if_splits)
qed simp

lemma body_clearQueues [preserves_intros]: "preserves (body st sc) (clearQueues keep)"
proof (rule preserves_bodyI [OF preserves_clearQueues])
  fix s assume "nav_cover s"
  then show "nav_cover (snd (clearQueues keep s))"
    by (auto simp: clearQueues_def run_simps emit_def elim: nav_cover_cong split: sum.split prod.split)
next
  fix s :: Scheduler assume "list_all schedulable (rcv_evt_queue s)"
  then show "list_all schedulable (rcv_evt_queue (snd (clearQueues keep s)))"
    by (auto simp: clearQueues_def run_simps emit_def dest: clear_scan_schedulable
        split: sum.split prod.split)
qed (auto simp: clearQueues_def run_simps emit_def comp_def split: sum.split prod.split)

lemma ref_terminal_sort [simp]: "ref_terminal (sort_tasks s) r = ref_terminal s r"
  by (simp add: ref_terminal_def)

lemma nav_cover_sort: "sched_inv s \<Longrightarrow> nav_cover s \<Longrightarrow> nav_cover (sort_tasks s)"
  using sort_tasks_partition(1) [of s] by (auto simp: nav_cover_def sched_inv_def)

lemma body_updateTasks [preserves_intros]: "preserves (body st sc) updateTasks"
proof -
  have "preserves (body st sc) (modify sort_tasks)"
    by (rule preserves_bodyI)
      (auto simp: run_simps nav_cover_sort intro: preserves_modify sched_inv_sort_tasks)
  moreover have "preserves (body st sc) (modify (\<lambda>s. s\<lparr>navigation_task := None\<rparr>))"
  proof (intro preserves_modify)
    fix s assume b: "body st sc s"
    show "body st sc (s\<lparr>navigation_task := None\<rparr>)"
      by (rule body_cong [OF b]) (use b in \<open>auto simp: body_def\<close>)
  qed
  ultimately show ?thesis
    unfolding updateTasks_def by (intro preserves_intros) auto
qed

lemma body_interrupt_mapping [preserves_intros]:
  "preserves (body st sc) (updateTasksInterruptMapping subs)"
proof -
  let ?f = "\<lambda>s. s\<lparr>nav_interrupting_tasks :=
      filter (\<lambda>(k, r). \<not> ref_terminal s r) (nav_interrupting_tasks s)\<rparr>"
  have "nav_cover (?f s)" if "nav_cover s" for s
    using that by (auto simp: nav_cover_def ref_terminal_def)
  then have "preserves (body st sc) (modify ?f)"
    by (intro preserves_bodyI preserves_modify)
      (auto simp: run_simps sched_inv_def maps_ok_filter_nav)
  then show ?thesis
    unfolding updateTasksInterruptMapping_def by (intro preserves_intros)
qed

section \<open>Fetching\<close>

lemma start_effects_no_status [simp]: "last_status d (start_effects as) = d"
  by (induction as arbitrary: d) (auto simp: start_effects_def ActionInitializing_effect_def)

lemma nav_start_no_status [simp]:
  "last_status d (NavigationFirstInProgress_effect nt) = d"
  by (auto simp: NavigationFirstInProgress_effect_def split: option.split)

lemma patch_no_status:
  "(\<forall>e \<in> set es. \<exists>b l. e = NavEvt (NavigationUpcomingSegment b l)) \<Longrightarrow> last_status d es = d"
  by (induction d es rule: last_status.induct) auto

text \<open>
  What fetching keeps, given that the queue holds events of the two kinds: the body
  invariant; a navigation task that is not terminal; nothing waits for navigation to resume
  when nothing is active.
\<close>

definition nav_live :: "Scheduler \<Rightarrow> bool" where
  "nav_live s \<longleftrightarrow> (case navigation_task s of None \<Rightarrow> True | Some nt \<Rightarrow> \<not> NavigationTask_isTerminal nt)"

definition fetching :: "OrderStatus \<Rightarrow> SchedulerStateType \<Rightarrow> Scheduler \<Rightarrow> bool" where
  "fetching st sc s \<longleftrightarrow> body st sc s \<and> nav_live s \<and>
     (active_tasks s = [] \<longrightarrow> nav_interrupting_tasks s = [])"

lemma body_group:
  assumes "body st sc s" and "\<not> group_blocked s c"
    and "rcv_evt_queue s = YieldActionGroupEvent as c # q"
    and "fetch_action_group as c s = (Inr True, t\<lparr>rcv_evt_queue := q\<rparr>)"
    and "started as (group_ready c s) t" and "nav_interrupting_tasks t = nav_interrupting_tasks s"
  shows "body st sc (t\<lparr>rcv_evt_queue := q\<rparr>)"
proof -
  have inv: "sched_inv s" using assms(1) by (simp add: body_def)
  have "sched_inv (t\<lparr>rcv_evt_queue := q\<rparr>)"
    using fetch_action_group_inv [OF inv assms(3)] assms(4) by simp
  moreover have "nav_cover (t\<lparr>rcv_evt_queue := q\<rparr>)"
  proof -
    have "\<forall>p \<in> set (nav_interrupting_tasks s). ref_terminal s (snd p)"
      using assms(1,2) by (auto simp: body_def nav_cover_def group_blocked_def)
    moreover have "task_heap t = task_heap s @ map (\<lambda>a. \<lparr>at_state = ActionInitializing, at_action = a\<rparr>) as"
      using assms(5) by (simp add: started_def group_ready_def)
    ultimately show ?thesis
      using assms(6) by (auto simp: nav_cover_def ref_terminal_def nth_append)
  qed
  ultimately show ?thesis
    using assms(1,3,5) by (auto simp: body_def started_def same_frame_def group_ready_def)
qed

lemma body_nav_started:
  assumes "body st sc s" and "rcv_evt_queue s = e # q"
  shows "body st sc (nav_started g v s)"
proof -
  let ?t = "s\<lparr>rcv_evt_queue := q\<rparr>"
  have "sched_inv ?t"
    using preservesD [OF preserves_pop_evt, of s] assms by (simp add: pop_evt_def run_simps body_def)
  then have t: "body st sc ?t"
    using assms by (auto simp: body_def nav_cover_def ref_terminal_def)
  show ?thesis
    by (rule body_cong [OF t])
      (use assms in \<open>auto simp: nav_started_def Let_def body_def\<close>)
qed

lemma body_patch: "body st sc s \<Longrightarrow> body st sc (snd (doPatchSegment s))"
proof -
  assume b: "body st sc s"
  obtain r t where p: "doPatchSegment s = (r, t)" by force
  note frame = doPatchSegment_frame [OF p]
  have "body st sc t"
    by (rule body_cong [OF b])
      (use frame b patch_no_status in \<open>auto simp: body_def\<close>)
  then show ?thesis using p by simp
qed

lemma body_maps: "body st sc s \<Longrightarrow> maps_inv s"
  by (simp add: body_def sched_inv_def)

lemma body_updateFetchNext [preserves_intros]: "preserves (body st sc) (updateFetchNext subs)"
proof (rule preservesI)
  fix s assume b: "body st sc s"
  have "\<exists>t. updateFetchNext subs s = (Inr (), t) \<and> maps_inv t \<and> body st sc t \<and> fetch_stopped t"
    by (rule updateFetchNext_rule [where I = "body st sc", OF body_maps [OF b] b])
      (blast intro: body_group body_nav_started body_patch)+
  then show "body st sc (snd (updateFetchNext subs s))" by auto
qed

lemma fetching_updateFetchNext:
  assumes "fetching st sc s"
  shows "\<exists>t. updateFetchNext subs s = (Inr (), t) \<and> fetching st sc t \<and> fetch_stopped t"
proof -
  have "\<exists>t. updateFetchNext subs s = (Inr (), t) \<and> maps_inv t \<and> fetching st sc t \<and> fetch_stopped t"
  proof (rule updateFetchNext_rule [where I = "fetching st sc"])
    show "maps_inv s" using assms body_maps by (auto simp: fetching_def)
    show "fetching st sc s" by (rule assms)
  next
    fix s as c q t
    assume "fetching st sc s" and "rcv_evt_queue s = YieldActionGroupEvent as c # q"
      and "\<not> group_blocked s c" and "fetch_action_group as c s = (Inr True, t\<lparr>rcv_evt_queue := q\<rparr>)"
      and "started as (group_ready c s) t" and "nav_interrupting_tasks t = nav_interrupting_tasks s"
    moreover from this have "body st sc (t\<lparr>rcv_evt_queue := q\<rparr>)"
      by (intro body_group [of st sc s c as q t]) (simp_all add: fetching_def)
    ultimately show "fetching st sc (t\<lparr>rcv_evt_queue := q\<rparr>)"
      by (auto simp: fetching_def started_def same_frame_def group_ready_def nav_live_def
          group_blocked_def)
  next
    fix s g v stop q
    assume "fetching st sc s" and "rcv_evt_queue s = YieldNavigationStepEvent g v stop # q"
    then show "fetching st sc (nav_started g v s)"
      using body_nav_started [of st sc s "YieldNavigationStepEvent g v stop" q g v]
      by (auto simp: fetching_def nav_live_def nav_started_def Let_def started_nav_def
          NavigationTask_isTerminal_def)
  next
    fix s assume s: "fetching st sc s"
    obtain r t where p: "doPatchSegment s = (r, t)" by force
    show "fetching st sc (snd (doPatchSegment s))"
      using s body_patch [of st sc s] doPatchSegment_frame [OF p] p
      by (auto simp: fetching_def nav_live_def)
  qed
  then show ?thesis by blast
qed

text \<open>When fetching ends with nothing active and no navigation, the queue is empty.\<close>

lemma fetch_drained:
  assumes "fetching st sc s" and "fetch_stopped s" and "active_tasks s = []"
    and "navigation_task s = None"
  shows "quiet s" and "rcv_evt_queue s = []"
proof -
  show "quiet s" using assms by (simp add: quiet_def fetching_def)
  then show "rcv_evt_queue s = []"
    using assms
    by (auto simp: fetch_stopped_def fetching_def body_def group_blocked_def nav_step_blocked_def
        quiet_def list_all_iff split: list.splits InterpreterEvent.splits)
qed

lemma body_doInterrupt [preserves_intros]: "preserves (body st sc) (doInterrupt subs)"
  unfolding doInterrupt_def
  by (intro preserves_intros) (auto intro!: preserves_intros split: list.split)

lemma body_updateFetchNextInterrupt [preserves_intros]:
  "preserves (body st sc) updateFetchNextInterrupt"
proof (rule preservesI)
  fix s assume b: "body st sc s"
  have inv: "sched_inv (snd (updateFetchNextInterrupt s))"
    using b updateFetchNextInterrupt_inv by (simp add: body_def)
  show "body st sc (snd (updateFetchNextInterrupt s))"
  proof (cases "rcv_interrupt_queue s")
    case Nil
    then show ?thesis using b by (simp add: updateFetchNextInterrupt_def run_simps)
  next
    case (Cons g iq)
    let ?s = "s\<lparr>current_action_blocking_type := iag_ceiling g\<rparr>"
    have maps: "maps_inv ?s" using body_maps [OF b] by simp
    have pend: "pending_ok (fst ` set (active_tasks s)) (rcv_evt_queue s) (rcv_evt_queue_staging s) (g # iq)"
      using b Cons by (simp add: sched_inv_def body_def)
    have "set (paused_tasks s) \<subseteq> set (active_tasks s)" using maps by (simp add: maps_ok_def)
    then have "fst ` set (paused_tasks s) \<subseteq> fst ` set (active_tasks s)" by (rule image_mono)
    moreover have dist: "distinct (map actionId (iag_actions g))"
      and dis: "actionId ` set (iag_actions g) \<inter> fst ` set (active_tasks s) = {}"
      using pend unfolding pending_ok_def by auto
    ultimately have "actionId ` set (iag_actions g) \<inter> fst ` set (paused_tasks ?s) = {}" by auto
    then obtain t where t: "forM (iag_actions g) (\<lambda>a. new_task a (register_instant a)) ?s = (Inr (), t)"
      and st: "started (iag_actions g) ?s t"
      using start_group [OF maps _ disjI2 [OF refl]] by blast
    have "nav_cover ?s" using b by (auto simp: body_def nav_cover_def ref_terminal_def)
    then have "nav_cover t" using instant_group_cover [OF maps _ dist _ t] dis by simp
    then have cover: "nav_cover (t\<lparr>rcv_interrupt_queue := x\<rparr>)" for x
      by (simp add: nav_cover_def ref_terminal_def)
    show ?thesis
      using b inv t st cover Cons
      by (auto simp: updateFetchNextInterrupt_def run_simps body_def started_def same_frame_def)
  qed
qed

section \<open>Updating the tasks\<close>

lemma clearQueues_ok:
  assumes "body st sc s"
  shows "\<exists>t. clearQueues keep s = (Inr (), t) \<and> navigation_task t = navigation_task s \<and>
    active_tasks t = active_tasks s \<and> running_tasks t = running_tasks s \<and>
    paused_tasks t = paused_tasks s \<and> task_heap t = task_heap s \<and>
    nav_interrupting_tasks t = nav_interrupting_tasks s \<and> rcv_interrupt_queue t = []"
proof -
  obtain ids kept where "clear_scan keep False (rcv_evt_queue s) = Inr (ids, kept)"
    using assms clear_scan_total [of "rcv_evt_queue s" keep False] by (auto simp: body_def)
  then show ?thesis by (simp add: clearQueues_def run_simps emit_def)
qed

text \<open>\<^verbatim>\<open>updateTasks\<close> does not fail, and afterwards the maps partition the unfinished tasks.\<close>

lemma updateTasks_result:
  assumes "body st sc s"
  obtains t where "updateTasks s = (Inr (), t)" and "body st sc t" and "nav_live t"
    and "active_tasks t = active_tasks (sort_tasks s)"
    and "running_tasks t = running_tasks (sort_tasks s)"
    and "paused_tasks t = paused_tasks (sort_tasks s)" and "task_heap t = task_heap s"
    and "navigation_task t = (case navigation_task s of None \<Rightarrow> None | Some nt \<Rightarrow>
           if NavigationTask_isTerminal nt then None else Some nt)"
proof -
  have b: "body st sc (snd (updateTasks s))" by (rule preservesD [OF body_updateTasks assms])
  have "preserves (body st sc) (modify sort_tasks)"
    by (rule preserves_bodyI)
      (auto simp: run_simps nav_cover_sort intro: preserves_modify sched_inv_sort_tasks)
  then have b1: "body st sc (sort_tasks s)"
    using assms by (simp add: preserves_def run_simps)
  obtain u where u: "clearQueues False (sort_tasks s) = (Inr (), u)"
    "navigation_task u = navigation_task (sort_tasks s)"
    "active_tasks u = active_tasks (sort_tasks s)" "running_tasks u = running_tasks (sort_tasks s)"
    "paused_tasks u = paused_tasks (sort_tasks s)" "task_heap u = task_heap (sort_tasks s)"
    using clearQueues_ok [OF b1] by blast
  have "\<exists>t. updateTasks s = (Inr (), t) \<and>
    active_tasks t = active_tasks (sort_tasks s) \<and> running_tasks t = running_tasks (sort_tasks s) \<and>
    paused_tasks t = paused_tasks (sort_tasks s) \<and> task_heap t = task_heap s \<and>
    navigation_task t = (case navigation_task s of None \<Rightarrow> None | Some nt \<Rightarrow>
           if NavigationTask_isTerminal nt then None else Some nt)"
    using u by (cases "navigation_task s") (simp_all add: updateTasks_def run_simps)
  then obtain t where t: "updateTasks s = (Inr (), t)"
    "active_tasks t = active_tasks (sort_tasks s)" "running_tasks t = running_tasks (sort_tasks s)"
    "paused_tasks t = paused_tasks (sort_tasks s)" "task_heap t = task_heap s"
    "navigation_task t = (case navigation_task s of None \<Rightarrow> None | Some nt \<Rightarrow>
           if NavigationTask_isTerminal nt then None else Some nt)"
    by blast
  have "nav_live t" using t(6) by (auto simp: nav_live_def split: option.splits)
  then show thesis using that [OF t(1)] b t by simp
qed

lemma nav_resume_live:
  assumes "nav_live s"
  shows "nav_live (snd (nav_transition subs nk_do_resume s))"
proof (cases "navigation_task s")
  case (Some nt)
  show ?thesis
    using assms Some
    by (cases "nt_state nt")
      (auto simp: nav_live_def nav_transition_def NavigationTask_transition_def
        navigation_state_transfer_defs navigation_effect_defs NavigationTask_isTerminal_def Let_def)
qed (use assms in \<open>simp add: nav_transition_def\<close>)

lemma nav_transition_frame:
  "nav_transition subs tr s = (r, t) \<Longrightarrow>
   active_tasks t = active_tasks s \<and> running_tasks t = running_tasks s \<and>
   paused_tasks t = paused_tasks s \<and> task_heap t = task_heap s \<and>
   nav_interrupting_tasks t = nav_interrupting_tasks s \<and>
   (navigation_task t = None \<longleftrightarrow> navigation_task s = None)"
  by (auto simp: nav_transition_def split: option.splits prod.splits)

lemma interrupt_mapping_frame:
  assumes "updateTasksInterruptMapping subs s = (r, t)"
  shows "active_tasks t = active_tasks s" "running_tasks t = running_tasks s"
    "paused_tasks t = paused_tasks s" "task_heap t = task_heap s"
    "nav_interrupting_tasks t = filter (\<lambda>(k, r). \<not> ref_terminal s r) (nav_interrupting_tasks s)"
    "navigation_task t = None \<longleftrightarrow> navigation_task s = None"
  using assms
  by (auto simp: updateTasksInterruptMapping_def run_simps dest!: nav_transition_frame
      split: if_splits)

lemma interrupt_mapping_live:
  assumes "nav_live s"
  shows "nav_live (snd (updateTasksInterruptMapping subs s))"
proof -
  have live: "nav_live (s\<lparr>nav_interrupting_tasks := x\<rparr>)" for x
    using assms by (simp add: nav_live_def)
  then show ?thesis
    using nav_resume_live [OF live, of subs] by (simp add: updateTasksInterruptMapping_def run_simps)
qed

lemma mapping_fetching:
  assumes "body st sc s" and "nav_live s" and "updateTasksInterruptMapping subs s = (r, t)"
  shows "fetching st sc t"
proof -
  have "body st sc t" using preservesD [OF body_interrupt_mapping assms(1), of subs] assms(3) by simp
  moreover have "nav_live t" using interrupt_mapping_live [OF assms(2), of subs] assms(3) by simp
  moreover have "nav_interrupting_tasks t = []" if "active_tasks t = []"
    using that assms(1) interrupt_mapping_frame [OF assms(3)]
    by (auto simp: body_def nav_cover_def filter_empty_iff)
  ultimately show ?thesis by (simp add: fetching_def)
qed

section \<open>The states\<close>

text \<open>
  What a call of a state object may do: when it throws, the body invariant still holds for
  the old state; when it returns, the status reported last is that of the state it returns,
  and an idle state is quiet.
\<close>

definition idle_facts :: "SchedulerStateType \<Rightarrow> Scheduler \<Rightarrow> bool" where
  "idle_facts sc s \<longleftrightarrow>
     (sc \<in> {k_idle, k_idle_paused} \<longrightarrow> quiet s) \<and> (sc = k_idle \<longrightarrow> rcv_evt_queue s = [])"

definition state_post :: "SchedulerStateType \<Rightarrow> exn + state_result \<Rightarrow> Scheduler \<Rightarrow> bool" where
  "state_post sc r t \<longleftrightarrow>
     (case r of
        Inl e \<Rightarrow> body (status_of sc) sc t \<and> (sc \<in> {k_idle, k_idle_paused} \<longrightarrow> quiet t) \<and>
                 (sc = k_idle \<longrightarrow> rcv_evt_queue t = [])
      | Inr (sc', upd) \<Rightarrow> body (status_of sc') sc t \<and> (\<not> upd \<longrightarrow> idle_facts sc' t) \<and>
                 (sc' \<in> {k_idle, k_idle_paused} \<longrightarrow> quiet t))"

lemma body_notify:
  assumes "body st sc s"
  shows "body st' sc (s\<lparr>outbox := outbox s @ [OrderEvt (OrderStatusEvent st')]\<rparr>)"
    and "body st' sc (s\<lparr>outbox := outbox s @ [OrderEvt (OrderStatusEvent st')], current_segment := x\<rparr>)"
    and "body st sc (s\<lparr>current_segment := x\<rparr>)"
  by (rule body_cong [OF assms]; use assms in \<open>simp add: body_def\<close>)+

lemmas go_run = go_def run_simps scheduler_new_defs notify_status_def emit_def

text \<open>States other than the idle ones: only the reported status matters.\<close>

lemma go_post:
  assumes "body (status_of sc) sc s"
  shows "notify \<or> sc = k_active \<Longrightarrow> wp (go SchedulerActive_new notify upd) (state_post sc) s"
    and "notify \<or> sc = k_canceling \<Longrightarrow> wp (go SchedulerCanceling_new notify upd) (state_post sc) s"
    and "notify \<or> sc = k_resuming \<Longrightarrow> wp (go SchedulerResuming_new notify upd) (state_post sc) s"
    and "notify \<or> sc = k_pausing \<Longrightarrow> wp (go SchedulerPausing_new notify upd) (state_post sc) s"
    and "notify \<or> sc = k_paused \<Longrightarrow> wp (go SchedulerPaused_new notify upd) (state_post sc) s"
    and "notify \<or> sc = k_failed \<Longrightarrow> wp (go SchedulerFailed_new notify upd) (state_post sc) s"
    and "notify \<or> sc = k_interrupting \<Longrightarrow>
           wp (go SchedulerInterrupting_new notify upd) (state_post sc) s"
    and "notify \<or> sc = k_idle_paused \<Longrightarrow> quiet s \<Longrightarrow>
           wp (go SchedulerIdlePaused_new notify upd) (state_post sc) s"
    and "notify \<or> sc = k_idle \<Longrightarrow> quiet s \<Longrightarrow> upd \<or> rcv_evt_queue s = [] \<Longrightarrow>
           wp (go SchedulerIdle_new notify upd) (state_post sc) s"
  using assms body_notify [OF assms]
  by (auto simp: wp_def go_run state_post_def idle_facts_def quiet_def)

lemma wp_seq_body:
  assumes "body st sc s" and "preserves (body st sc) m"
    and "\<And>t. body st sc t \<Longrightarrow> wp n Q t"
    and "\<And>e t. body st sc t \<Longrightarrow> Q (Inl e) t"
  shows "wp (seqM m n) Q s"
proof -
  obtain r t where m: "m s = (r, t)" by force
  then have t: "body st sc t" using preservesD [OF assms(2,1)] by simp
  then show ?thesis
    using assms(3) [OF t] assms(4) [OF t] m by (cases r) (auto simp: run_simps wp_def)
qed

lemma post_throw:
  assumes "sched_ok s" and "sc_state s = sc"
  shows "wp (throw e) (state_post sc) s"
  using assms by (auto simp: wp_throw state_post_def sched_ok_def)

lemma post_error:
  "body (status_of sc) sc t \<Longrightarrow> sc \<notin> {k_idle, k_idle_paused} \<Longrightarrow> state_post sc (Inl e) t"
  by (auto simp: state_post_def)

lemma sched_ok_body: "sched_ok s \<Longrightarrow> sc_state s = sc \<Longrightarrow> body (status_of sc) sc s"
  by (auto simp: sched_ok_def)

lemma sched_ok_quiet: "sched_ok s \<Longrightarrow> sc_state s \<in> {k_idle, k_idle_paused} \<Longrightarrow> quiet s"
  by (auto simp: sched_ok_def)

lemma active_cancel_post:
  assumes "body (status_of sc) sc s" and "sc \<notin> {k_idle, k_idle_paused}"
  shows "wp (SchedulerActive_cancel subs) (state_post sc) s"
  unfolding SchedulerActive_cancel_def
  by (rule wp_seq_body [OF assms(1)], intro preserves_intros,
      rule wp_seq_body, assumption, intro preserves_intros,
      rule wp_seq_body, assumption, intro preserves_intros, rule go_post(2))
    (use assms(2) post_error in auto)

lemma state_cancel_post:
  assumes "sched_ok s" and "sc_state s = sc" and "sc \<noteq> k_idle"
  shows "wp (state_cancel subs sc) (state_post sc) s"
proof (cases sc)
  case k_idle_paused
  obtain t where t: "clearQueues False s = (Inr (), t)" "navigation_task t = navigation_task s"
    "active_tasks t = active_tasks s" "nav_interrupting_tasks t = nav_interrupting_tasks s"
    using clearQueues_ok [OF sched_ok_body [OF assms(1,2)]] by blast
  have "body (status_of sc) sc t"
    using preservesD [OF body_clearQueues sched_ok_body [OF assms(1,2)], of False] t(1) by simp
  moreover have "quiet t"
    using sched_ok_quiet [OF assms(1)] assms(2) k_idle_paused t by (simp add: quiet_def)
  ultimately show ?thesis
    using go_post(8) [of sc t False False] t(1) k_idle_paused
    by (simp add: SchedulerIdlePaused_cancel_def wp_def run_simps)
next
  case k_active
  then show ?thesis using active_cancel_post [OF sched_ok_body [OF assms(1,2)]] by simp
next
  case k_paused
  have "preserves (body (status_of sc) sc) (SchedulerActive_new False)"
    unfolding scheduler_new_defs by (intro preserves_intros) simp
  then show ?thesis
    unfolding k_paused state_cancel.simps SchedulerPaused_cancel_def
    using k_paused sched_ok_body [OF assms(1,2)]
    by (intro wp_seq_body [of "status_of sc" sc]) (auto intro: active_cancel_post post_error)
qed (use assms post_throw in \<open>auto simp: state_cancel_defs\<close>)

lemma state_pause_post:
  assumes "sched_ok s" and "sc_state s = sc"
  shows "wp (state_pause subs sc) (state_post sc) s"
proof (cases sc)
  case k_idle
  then show ?thesis
    using go_post(8) [OF sched_ok_body [OF assms], of True False] sched_ok_quiet [OF assms(1)] assms(2)
    by (simp add: SchedulerIdle_pause_def)
next
  case k_active
  show ?thesis
    unfolding k_active state_pause.simps SchedulerActive_pause_def
    by (rule wp_seq_body [OF sched_ok_body [OF assms(1)]], use k_active assms(2) in simp,
        intro preserves_intros, rule wp_seq_body, assumption, intro preserves_intros, rule go_post(4))
      (use k_active post_error in auto)
qed (use assms post_throw in \<open>auto simp: state_pause_defs\<close>)

lemma state_resume_post:
  assumes "sched_ok s" and "sc_state s = sc"
  shows "wp (state_resume subs sc) (state_post sc) s"
proof (cases sc)
  case k_idle_paused
  then show ?thesis
    using go_post(9) [OF sched_ok_body [OF assms], of True True] sched_ok_quiet [OF assms(1)] assms(2)
    by (simp add: SchedulerIdlePaused_resume_def)
next
  case k_paused
  show ?thesis
    unfolding k_paused state_resume.simps SchedulerPaused_resume_def
    by (rule wp_seq_body [OF sched_ok_body [OF assms(1)]], use k_paused assms(2) in simp,
        intro preserves_intros, rule wp_seq_body, assumption, intro preserves_intros, rule go_post(3))
      (use k_paused post_error in auto)
qed (use assms post_throw in \<open>auto simp: state_resume_defs\<close>)

text \<open>In the idle state an interrupt finds nothing to pause or to cancel.\<close>

lemma doInterrupt_quiet:
  assumes "quiet s"
  shows "doInterrupt subs s = (Inr (), s)"
  using assms by (simp add: doInterrupt_def run_simps quiet_def split: list.split)

lemma state_interrupt_post:
  assumes "body (status_of sc) sc s" and "sc \<in> {k_idle, k_idle_paused} \<Longrightarrow> quiet s"
    and "sc = k_idle \<Longrightarrow> rcv_evt_queue s = []"
  shows "wp (state_interrupt subs sc) (state_post sc) s"
proof (cases sc)
  case k_idle
  then show ?thesis
    using go_post(7) [OF assms(1), of True True] doInterrupt_quiet [of s subs] assms(2)
    by (simp add: SchedulerIdle_interrupt_def wp_def run_simps)
next
  case k_active
  show ?thesis
    unfolding k_active state_interrupt.simps SchedulerActive_interrupt_def
    by (rule wp_seq_body, rule assms(1) [unfolded k_active], intro preserves_intros, rule go_post(7))
      (use k_active post_error in auto)
qed (use assms in \<open>auto simp: state_interrupt_defs wp_throw state_post_def\<close>)

subsection \<open>Updates\<close>

text \<open>The common beginning of the updates of most states.\<close>

lemma update_tasks_then:
  assumes "body (status_of sc) sc s" and "sc \<notin> {k_idle, k_idle_paused}"
    and "\<And>t. fetching (status_of sc) sc t \<Longrightarrow> wp m (state_post sc) t"
  shows "wp (seqM updateTasks (seqM (updateTasksInterruptMapping subs) m)) (state_post sc) s"
proof -
  obtain t where t: "updateTasks s = (Inr (), t)" "body (status_of sc) sc t" "nav_live t"
    using updateTasks_result [OF assms(1)] by metis
  obtain r u where u: "updateTasksInterruptMapping subs t = (r, u)" by force
  have f: "fetching (status_of sc) sc u" by (rule mapping_fetching [OF t(2,3) u])
  then have "body (status_of sc) sc u" by (simp add: fetching_def)
  then show ?thesis
    using t(1) u assms(3) [OF f] post_error [OF _ assms(2)]
    by (cases r) (auto simp: wp_def run_simps)
qed

lemma update_fetch_then:
  assumes "fetching (status_of sc) sc s"
    and "\<And>t. fetching (status_of sc) sc t \<Longrightarrow> fetch_stopped t \<Longrightarrow> wp m (state_post sc) t"
  shows "wp (seqM (updateFetchNext subs) m) (state_post sc) s"
proof -
  obtain t where "updateFetchNext subs s = (Inr (), t)" "fetching (status_of sc) sc t" "fetch_stopped t"
    using fetching_updateFetchNext [OF assms(1)] by blast
  then show ?thesis using assms(2) [of t] by (simp add: wp_def run_simps)
qed

lemma fetching_body: "fetching st sc t \<Longrightarrow> body st sc t"
  by (simp add: fetching_def)

lemma wp_gets_bind: "wp (f (g s)) Q s \<Longrightarrow> wp (bindM (gets g) f) Q s"
  by (simp add: wp_bindM wp_gets)

lemma idle_after_fetch:
  assumes "fetching (status_of sc) sc t" and "fetch_stopped t" and "active_tasks t = []"
    and "navigation_task t = None" and "notify \<or> sc = k_idle"
  shows "wp (go SchedulerIdle_new notify upd) (state_post sc) t"
  using go_post(9) [OF fetching_body [OF assms(1)] assms(5)] fetch_drained [OF assms(1-4)] by blast

lemma nav_live_terminal:
  "nav_live t \<Longrightarrow> (case navigation_task t of None \<Rightarrow> True | Some nt \<Rightarrow> NavigationTask_isTerminal nt)
    \<longleftrightarrow> navigation_task t = None"
  by (auto simp: nav_live_def split: option.splits)

lemma state_update_post:
  assumes "body (status_of sc) sc s" and "sc \<in> {k_idle, k_idle_paused} \<Longrightarrow> quiet s"
  shows "wp (state_update subs sc) (state_post sc) s"
proof (cases sc)
  case k_idle
  have "fetching (status_of sc) sc s"
    using assms k_idle by (auto simp: fetching_def nav_live_def quiet_def)
  then show ?thesis
    unfolding k_idle state_update.simps SchedulerIdle_update_def
    by (rule update_fetch_then [unfolded status_of.simps])
      (use k_idle in \<open>auto simp: wp_bindM wp_gets intro!: go_post(1) idle_after_fetch fetching_body\<close>)
next
  case k_idle_paused
  then show ?thesis
    using go_post(8) [OF assms(1), of False False] assms(2)
    by (simp add: SchedulerIdlePaused_update_def)
next
  case k_active
  show ?thesis
    unfolding k_active state_update.simps SchedulerActive_update_def
    by (intro update_tasks_then update_fetch_then wp_gets_bind)
      (use k_active assms(1) nav_live_terminal in \<open>auto simp: fetching_def intro!: go_post(1) idle_after_fetch\<close>)
next
  case k_canceling
  show ?thesis
    unfolding k_canceling state_update.simps SchedulerCanceling_update_def
    by (intro update_tasks_then update_fetch_then wp_gets_bind)
      (use k_canceling assms(1) in \<open>auto intro!: go_post(2) idle_after_fetch fetching_body\<close>)
next
  case k_resuming
  show ?thesis
    unfolding k_resuming state_update.simps SchedulerResuming_update_def
    by (intro update_tasks_then wp_gets_bind)
      (use k_resuming assms(1) in \<open>auto intro!: go_post(1,3) fetching_body\<close>)
next
  case k_pausing
  show ?thesis
    unfolding k_pausing state_update.simps SchedulerPausing_update_def
    by (intro update_tasks_then wp_gets_bind)
      (use k_pausing assms(1) in \<open>auto intro!: go_post(4,5) fetching_body\<close>)
next
  case k_paused
  show ?thesis
    unfolding k_paused state_update.simps SchedulerPaused_update_def
    by (intro update_tasks_then wp_gets_bind)
      (use k_paused assms(1) in \<open>auto intro!: go_post(5) fetching_body\<close>)
next
  case k_failed
  then show ?thesis using go_post(6) [OF assms(1), of False False] by (simp add: SchedulerFailed_update_def)
next
  case k_interrupting
  show ?thesis
    unfolding k_interrupting state_update.simps SchedulerInterrupting_update_def
    by (rule wp_seq_body [OF assms(1) [unfolded k_interrupting]], intro preserves_intros,
        rule wp_seq_body, assumption, intro preserves_intros, rule wp_gets_bind)
      (use k_interrupting post_error in \<open>auto intro!: go_post(1,7)\<close>)
qed

section \<open>The public operations\<close>

lemma sched_ok_set_state:
  assumes "body (status_of sc') sc t" and "idle_facts sc' t"
  shows "sched_ok (t\<lparr>sc_state := sc'\<rparr>)"
proof -
  have "body (status_of sc') sc' (t\<lparr>sc_state := sc'\<rparr>)"
    by (rule body_cong [OF assms(1)]) (use assms(1) in \<open>simp_all add: body_def\<close>)
  then show ?thesis using assms(2) by (simp add: sched_ok_def idle_facts_def quiet_def)
qed

lemma body_set_state:
  assumes "body (status_of sc') sc t"
  shows "body (status_of sc') sc' (t\<lparr>sc_state := sc'\<rparr>)"
  by (rule body_cong [OF assms]) (use assms in \<open>simp_all add: body_def\<close>)

lemma post_error_ok: "state_post sc (Inl e) t \<Longrightarrow> sched_ok t"
  by (auto simp: state_post_def sched_ok_def body_def)

lemma Scheduler_update_ok:
  assumes "body (status_of (sc_state s)) (sc_state s) s"
    and "sc_state s \<in> {k_idle, k_idle_paused} \<Longrightarrow> quiet s"
  shows "sched_ok (snd (Scheduler_update subs s))"
  using assms
proof (induction subs s rule: Scheduler_update.induct)
  case (1 subs s)
  obtain r t where f: "state_update subs (sc_state s) s = (r, t)" by force
  have post: "state_post (sc_state s) r t"
    using state_update_post [OF 1(2,3), of subs] f by (simp add: wp_def)
  show ?case
  proof (cases r)
    case (Inl e)
    then show ?thesis using post post_error_ok f by (auto simp: Scheduler_update.simps [of _ s])
  next
    case (Inr x)
    obtain st upd where x: "x = (st, upd)" by force
    have b: "body (status_of st) (sc_state s) t" "\<not> upd \<Longrightarrow> idle_facts st t"
      "st \<in> {k_idle, k_idle_paused} \<Longrightarrow> quiet t"
      using post Inr x by (auto simp: state_post_def)
    show ?thesis
    proof (cases upd)
      case True
      have "quiet (t\<lparr>sc_state := st\<rparr>)" if "st \<in> {k_idle, k_idle_paused}"
        using b(3) [OF that] by (simp add: quiet_def)
      then have "sched_ok (snd (Scheduler_update subs (t\<lparr>sc_state := st\<rparr>)))"
        using 1(1) [of r t x st upd] f Inr x True body_set_state [OF b(1)] by simp
      then show ?thesis using f Inr x True by (simp add: Scheduler_update.simps [of _ s])
    next
      case False
      then show ?thesis
        using sched_ok_set_state [OF b(1) b(2)] f Inr x by (simp add: Scheduler_update.simps [of _ s])
    qed
  qed
qed

lemma Scheduler_update_sched_ok: "sched_ok s \<Longrightarrow> sched_ok (snd (Scheduler_update subs s))"
  by (rule Scheduler_update_ok) (auto simp: sched_ok_def)

lemma call_state_ok:
  assumes "wp (op subs (sc_state s)) (state_post (sc_state s)) s"
  shows "sched_ok (snd (call_state subs op s))"
proof -
  obtain r t where f: "op subs (sc_state s) s = (r, t)" by force
  have post: "state_post (sc_state s) r t" using assms f by (simp add: wp_def)
  show ?thesis
  proof (cases r)
    case (Inl e)
    then show ?thesis using post post_error_ok f by (auto simp: call_state_def run_simps)
  next
    case (Inr x)
    obtain st upd where x: "x = (st, upd)" by force
    have b: "body (status_of st) (sc_state s) t" "\<not> upd \<Longrightarrow> idle_facts st t"
      "st \<in> {k_idle, k_idle_paused} \<Longrightarrow> quiet t"
      using post Inr x by (auto simp: state_post_def)
    have "quiet (t\<lparr>sc_state := st\<rparr>)" if "st \<in> {k_idle, k_idle_paused}"
      using b(3) [OF that] by (simp add: quiet_def)
    then have "sched_ok (snd (Scheduler_update subs (t\<lparr>sc_state := st\<rparr>)))"
      using body_set_state [OF b(1)] by (intro Scheduler_update_ok) simp_all
    then show ?thesis
      using sched_ok_set_state [OF b(1) b(2)] f Inr x by (simp add: call_state_def run_simps)
  qed
qed

text \<open>
  Cancelling an idle scheduler passes through the canceling state without reporting it and
  ends idle, reporting idle once more.
\<close>

lemma sort_tasks_empty:
  assumes "active_tasks s = []" and "running_tasks s = []" and "paused_tasks s = []"
  shows "sort_tasks s = s"
  using assms by (simp add: sort_tasks_def Let_def emplace_all_def)

lemma cancel_idle:
  assumes "sched_ok s" and "sc_state s = k_idle"
  shows "Scheduler_cancel subs s =
    (Inr (), s\<lparr>outbox := outbox s @ [OrderEvt (OrderStatusEvent k_order_idle)], current_segment := None\<rparr>)"
proof -
  have q: "active_tasks s = []" "nav_interrupting_tasks s = []" "navigation_task s = None"
    "rcv_evt_queue s = []"
    using assms by (auto simp: sched_ok_def quiet_def)
  have "maps_inv s" using assms by (auto simp: sched_ok_def dest: body_maps)
  then have e: "running_tasks s = []" "paused_tasks s = []" using q by (auto simp: maps_ok_def)
  have sort: "sort_tasks (s\<lparr>sc_state := k_canceling\<rparr>) = s\<lparr>sc_state := k_canceling\<rparr>"
    by (rule sort_tasks_empty) (use q e in simp_all)
  have state: "s\<lparr>sc_state := k_idle\<rparr> = s" using assms(2) by simp
  show ?thesis
    using assms(2) q sort state
    by (simp add: Scheduler_cancel_def call_state_def run_simps SchedulerIdle_cancel_def go_run
        Scheduler_update.simps SchedulerCanceling_update_def updateTasks_def
        updateTasksInterruptMapping_def updateFetchNext.simps)
qed

lemma exec_op_ok:
  assumes ok: "sched_ok s" and guard: "op_ok p s"
  shows "sched_ok (exec_state subs p s)"
proof (cases p)
  case OpCancel
  show ?thesis
  proof (cases "sc_state s = k_idle")
    case True
    have "quiet s" "rcv_evt_queue s = []" using ok True by (auto simp: sched_ok_def)
    then show ?thesis
      using cancel_idle [OF ok True, of subs] OpCancel body_notify(2) [OF sched_ok_body [OF ok True]] True
      by (simp add: exec_state_def sched_ok_def quiet_def)
  next
    case False
    then show ?thesis
      using OpCancel call_state_ok [where op = state_cancel, OF state_cancel_post [OF ok refl]]
      by (simp add: exec_state_def Scheduler_cancel_def)
  qed
next
  case OpPause
  then show ?thesis
    using call_state_ok [where op = state_pause, OF state_pause_post [OF ok refl]]
    by (simp add: exec_state_def Scheduler_pause_def)
next
  case OpResume
  then show ?thesis
    using call_state_ok [where op = state_resume, OF state_resume_post [OF ok refl]]
    by (simp add: exec_state_def Scheduler_resume_def)
next
  case OpUpdate
  then show ?thesis using Scheduler_update_sched_ok [OF ok] by (simp add: exec_state_def)
next
  case (OpAction i tr)
  show ?thesis
  proof (cases "map_of (active_tasks s) i")
    case None
    then show ?thesis using OpAction ok by (simp add: exec_state_def actionTransition_def run_simps)
  next
    case (Some r)
    then have "active_tasks s \<noteq> []" by auto
    then have busy: "sc_state s \<notin> {k_idle, k_idle_paused}" using ok by (auto simp: sched_ok_def quiet_def)
    obtain q t where t: "task_transition tr r s = (q, t)" by force
    have b: "body (status_of (sc_state s)) (sc_state s) t"
      using preservesD [OF body_task_transition sched_ok_body [OF ok refl], of tr r] t by simp
    then have "sc_state t = sc_state s" by (simp add: body_def)
    then have "sched_ok t" "sched_ok (snd (Scheduler_update subs t))"
      using b busy Scheduler_update_ok [of t subs] by (auto simp: sched_ok_def)
    then show ?thesis
      using OpAction Some t by (cases q) (simp_all add: exec_state_def actionTransition_def run_simps)
  qed
next
  case (OpNavigation tr)
  show ?thesis
  proof (cases "navigation_task s")
    case None
    then show ?thesis using OpNavigation ok by (simp add: exec_state_def navigationTransition_def run_simps)
  next
    case (Some nt)
    then have busy: "sc_state s \<notin> {k_idle, k_idle_paused}" using ok by (auto simp: sched_ok_def quiet_def)
    obtain q t where t: "nav_transition subs tr s = (q, t)" by force
    have b: "body (status_of (sc_state s)) (sc_state s) t"
      using preservesD [OF body_nav_transition sched_ok_body [OF ok refl], of subs tr] t by simp
    then have "sc_state t = sc_state s" by (simp add: body_def)
    then have "sched_ok t" "sched_ok (snd (Scheduler_update subs t))"
      using b busy Scheduler_update_ok [of t subs] by (auto simp: sched_ok_def)
    then show ?thesis
      using OpNavigation Some t by (cases q) (simp_all add: exec_state_def navigationTransition_def run_simps)
  qed
next
  case (OpInterrupt g)
  let ?s = "s\<lparr>rcv_interrupt_queue := rcv_interrupt_queue s @ [g]\<rparr>"
  have "body (status_of (sc_state s)) (sc_state s) ?s"
    using ok guard OpInterrupt
    by (auto simp: sched_ok_def body_def sched_inv_def op_ok_def op_fresh_def nav_cover_def ref_terminal_def)
  moreover have "sc_state s \<in> {k_idle, k_idle_paused} \<Longrightarrow> quiet ?s"
    "sc_state s = k_idle \<Longrightarrow> rcv_evt_queue ?s = []"
    using ok by (auto simp: sched_ok_def quiet_def)
  ultimately have "sched_ok (snd (call_state subs state_interrupt ?s))"
    using call_state_ok [where op = state_interrupt, of subs ?s]
      state_interrupt_post [of "sc_state s" ?s subs] by simp
  then show ?thesis using OpInterrupt by (simp add: exec_state_def enqueueInterruptActions_def run_simps)
next
  case (OpEnqueue e)
  have "sched_inv (snd (exec_op subs p s))"
    using exec_op_inv ok guard by (auto simp: sched_ok_def body_def op_ok_def)
  then show ?thesis
    using ok guard OpEnqueue
    by (auto simp: exec_state_def enqueue_def run_simps sched_ok_def body_def op_ok_def quiet_def
        nav_cover_def ref_terminal_def)
next
  case OpCommit
  let ?s = "s\<lparr>rcv_evt_queue := rcv_evt_queue s @ rcv_evt_queue_staging s, rcv_evt_queue_staging := []\<rparr>"
  have "body (status_of (sc_state s)) (sc_state s) ?s"
    using ok pending_ok_commit
    by (auto simp: sched_ok_def body_def sched_inv_def nav_cover_def ref_terminal_def)
  moreover have "quiet ?s" if "sc_state s \<in> {k_idle, k_idle_paused}"
    using ok that by (auto simp: sched_ok_def quiet_def)
  ultimately have "sched_ok (snd (Scheduler_update subs ?s))"
    by (intro Scheduler_update_ok) simp_all
  then show ?thesis using OpCommit by (simp add: exec_state_def commitQueue_def run_simps)
qed

lemma sched_ok_new: "sched_ok Scheduler_new"
  using Scheduler_new_inv
  by (simp add: sched_ok_def body_def nav_cover_def quiet_def Scheduler_new_def)

interpretation scheduler: guarded_system "exec_state subs" op_ok sched_ok for subs
  by unfold_locales (rule exec_op_ok)

end
