(* ===== verification/SchedulerSafety.thy ===== *)
theory SchedulerSafety
  imports SchedulerStatus
begin

text \<open>
  No driving while a blocking action is active, for runs without instant actions: whenever
  there is a navigation task, every active action is of blocking type \<open>NONE\<close>.
\<close>

section \<open>The invariant\<close>

fun group_ceiling_ok :: "InterpreterEvent \<Rightarrow> bool" where
  "group_ceiling_ok (YieldActionGroupEvent as c) = list_all (\<lambda>a. blockingType a \<le> c) as"
| "group_ceiling_ok (YieldNavigationStepEvent g v stop) = True"
| "group_ceiling_ok e = False"

definition drive_inv :: "Scheduler \<Rightarrow> bool" where
  "drive_inv s \<longleftrightarrow> sched_inv s \<and> nav_interrupting_tasks s = [] \<and> rcv_interrupt_queue s = [] \<and>
     (navigation_task s \<noteq> None \<longrightarrow> active_tasks s \<noteq> [] \<longrightarrow> current_action_blocking_type s = NONE) \<and>
     (\<forall>p \<in> set (active_tasks s).
        blockingType (at_action (task_heap s ! snd p)) \<le> current_action_blocking_type s) \<and>
     list_all group_ceiling_ok (rcv_evt_queue s) \<and> list_all group_ceiling_ok (rcv_evt_queue_staging s)"

definition order_op :: "SchedulerOp \<Rightarrow> Scheduler \<Rightarrow> bool" where
  "order_op p s \<longleftrightarrow>
     (case p of OpInterrupt g \<Rightarrow> False | OpEnqueue e \<Rightarrow> group_ceiling_ok e | _ \<Rightarrow> True)"

lemma blocking_le_NONE [simp]: "b \<le> NONE \<longleftrightarrow> b = NONE"
  by (cases b) auto

lemma drive_inv_cong:
  assumes "drive_inv s"
    and "active_tasks t = active_tasks s" "running_tasks t = running_tasks s"
    and "paused_tasks t = paused_tasks s" "nav_interrupting_tasks t = nav_interrupting_tasks s"
    and "task_heap t = task_heap s" "rcv_evt_queue t = rcv_evt_queue s"
    and "rcv_evt_queue_staging t = rcv_evt_queue_staging s"
    and "rcv_interrupt_queue t = rcv_interrupt_queue s"
    and "navigation_task t = None \<longleftrightarrow> navigation_task s = None"
    and "current_action_blocking_type t = current_action_blocking_type s"
  shows "drive_inv t"
  using assms sched_inv_cong [OF _ assms(2-9)] by (simp add: drive_inv_def)

lemma drive_emit [preserves_intros]: "preserves drive_inv (emit es)"
  unfolding emit_def by (intro preserves_modify) (erule drive_inv_cong; simp)

lemma drive_notify [preserves_intros]: "preserves drive_inv (notify_status st)"
  unfolding notify_status_def by (rule drive_emit)

lemma drive_segment [preserves_intros]:
  "preserves drive_inv (modify (\<lambda>s. s\<lparr>current_segment := x\<rparr>))"
  by (intro preserves_modify) (erule drive_inv_cong; simp)

lemma drive_set_state [preserves_intros]:
  "preserves drive_inv (modify (\<lambda>s. s\<lparr>sc_state := x\<rparr>))"
  by (intro preserves_modify) (erule drive_inv_cong; simp)

lemma drive_task_transition [preserves_intros]: "preserves drive_inv (task_transition tr r)"
proof (rule preservesI)
  fix s assume d: "drive_inv s"
  obtain q t where t: "task_transition tr r s = (q, t)" by force
  have "sched_inv t" using preservesD [OF preserves_task_transition, of s tr r] d t
    by (simp add: drive_inv_def)
  moreover have "at_action (task_heap t ! i) = at_action (task_heap s ! i)" for i
    using t
    by (cases "i = r") (auto simp: task_transition_def dest!: action_task.exec_key split: prod.splits if_splits)
  moreover have "active_tasks t = active_tasks s" "nav_interrupting_tasks t = nav_interrupting_tasks s"
    "rcv_interrupt_queue t = rcv_interrupt_queue s" "navigation_task t = navigation_task s"
    "current_action_blocking_type t = current_action_blocking_type s"
    "rcv_evt_queue t = rcv_evt_queue s" "rcv_evt_queue_staging t = rcv_evt_queue_staging s"
    using t by (auto simp: task_transition_def split: prod.splits if_splits)
  ultimately show "drive_inv (snd (task_transition tr r s))"
    using d t by (simp add: drive_inv_def)
qed

lemma drive_nav_transition [preserves_intros]: "preserves drive_inv (nav_transition subs tr)"
proof (rule preservesI)
  fix s assume "drive_inv s"
  then show "drive_inv (snd (nav_transition subs tr s))"
    by (auto simp: nav_transition_def elim: drive_inv_cong split: option.split prod.split)
qed

lemma drive_transition_all [preserves_intros]: "preserves drive_inv (transition_all tr mp)"
  unfolding transition_all_def by (intro preserves_intros)

lemma clear_scan_nav_only:
  "clear_scan keep reached q = Inr (ids, kept) \<Longrightarrow> list_all is_YieldNavigationStepEvent kept"
proof (induction keep reached q arbitrary: ids kept rule: clear_scan.induct)
  case (2 keep reached e q)
  then show ?case by (cases e) (auto split: if_splits sum.splits prod.splits)
qed simp

lemma nav_ceiling_ok: "list_all is_YieldNavigationStepEvent q \<Longrightarrow> list_all group_ceiling_ok q"
  by (auto simp: list_all_iff is_YieldNavigationStepEvent_def)

lemma drive_clearQueues [preserves_intros]: "preserves drive_inv (clearQueues keep)"
proof (rule preservesI)
  fix s assume d: "drive_inv s"
  have "sched_inv (snd (clearQueues keep s))"
    using preservesD [OF preserves_clearQueues] d by (simp add: drive_inv_def)
  moreover have "list_all group_ceiling_ok kept"
    if "clear_scan keep False (rcv_evt_queue s) = Inr (ids, kept)" for ids kept
    by (rule nav_ceiling_ok [OF clear_scan_nav_only [OF that]])
  ultimately show "drive_inv (snd (clearQueues keep s))"
    using d by (auto simp: drive_inv_def clearQueues_def run_simps emit_def split: sum.split prod.split)
qed

lemma drive_updateTasks [preserves_intros]: "preserves drive_inv updateTasks"
proof -
  have "preserves drive_inv (modify sort_tasks)"
  proof (intro preserves_modify)
    fix s assume d: "drive_inv s"
    have "set (active_tasks (sort_tasks s)) \<subseteq> set (active_tasks s)"
      using d sort_tasks_partition(1) [of s] by (auto simp: drive_inv_def sched_inv_def)
    moreover from this have "active_tasks (sort_tasks s) \<noteq> [] \<Longrightarrow> active_tasks s \<noteq> []" by auto
    ultimately show "drive_inv (sort_tasks s)"
      using d sched_inv_sort_tasks by (auto simp: drive_inv_def)
  qed
  moreover have "preserves drive_inv (modify (\<lambda>s. s\<lparr>navigation_task := None\<rparr>))"
  proof (intro preserves_modify)
    fix s assume d: "drive_inv s"
    then have "sched_inv s" by (simp add: drive_inv_def)
    then have "sched_inv (s\<lparr>navigation_task := None\<rparr>)" by (rule sched_inv_cong) simp_all
    then show "drive_inv (s\<lparr>navigation_task := None\<rparr>)" using d by (simp add: drive_inv_def)
  qed
  ultimately show ?thesis unfolding updateTasks_def by (intro preserves_intros) auto
qed

lemma drive_interrupt_mapping [preserves_intros]:
  "preserves drive_inv (updateTasksInterruptMapping subs)"
proof (rule preservesI)
  fix s assume d: "drive_inv s"
  have "drive_inv (s\<lparr>nav_interrupting_tasks := []\<rparr>)"
    by (rule drive_inv_cong [OF d]) (use d in \<open>simp_all add: drive_inv_def\<close>)
  then show "drive_inv (snd (updateTasksInterruptMapping subs s))"
    using d by (auto simp: updateTasksInterruptMapping_def run_simps drive_inv_def)
qed

lemma drive_updateFetchNext [preserves_intros]: "preserves drive_inv (updateFetchNext subs)"
proof (rule preservesI)
  fix s assume d: "drive_inv s"
  have maps: "maps_inv s" using d unfolding drive_inv_def sched_inv_def by blast
  have "\<exists>t. updateFetchNext subs s = (Inr (), t) \<and> maps_inv t \<and> drive_inv t \<and> fetch_stopped t"
  proof (rule updateFetchNext_rule [where I = drive_inv, OF maps d])
    fix s as c q t
    assume d: "drive_inv s" and q: "rcv_evt_queue s = YieldActionGroupEvent as c # q"
      and free: "\<not> group_blocked s c"
      and f: "fetch_action_group as c s = (Inr True, t\<lparr>rcv_evt_queue := q\<rparr>)"
      and st: "started as (group_ready c s) t" and nav: "nav_interrupting_tasks t = nav_interrupting_tasks s"
    have inv: "sched_inv s" using d by (simp add: drive_inv_def)
    have "sched_inv (t\<lparr>rcv_evt_queue := q\<rparr>)" using fetch_action_group_inv [OF inv q] f by simp
    moreover have "blockingType (at_action (task_heap t ! snd p)) \<le> c" if "p \<in> set (active_tasks t)" for p
    proof -
      have keys: "fst ` set (active_tasks t) = actionId ` set as" and empty: "active_tasks s = []"
        and heap: "task_heap t = task_heap s @ map (\<lambda>a. \<lparr>at_state = ActionInitializing, at_action = a\<rparr>) as"
        using st free by (auto simp: started_def group_ready_def group_blocked_def)
      have "length (task_heap s) \<le> snd p"
        using st that empty by (auto simp: started_def group_ready_def)
      moreover have "maps_inv t" using st unfolding started_def by (rule conjunct1)
      then have "\<forall>p \<in> set (active_tasks t). snd p < length (task_heap t)" by (simp add: maps_ok_def)
      then have "snd p < length (task_heap t)" using that by (rule bspec)
      ultimately have "task_heap t ! snd p =
          \<lparr>at_state = ActionInitializing, at_action = as ! (snd p - length (task_heap s))\<rparr>"
        and "snd p - length (task_heap s) < length as"
        using heap by (auto simp: nth_append)
      moreover have "list_all (\<lambda>a. blockingType a \<le> c) as" using d q by (simp add: drive_inv_def)
      ultimately show ?thesis by (simp add: list_all_length)
    qed
    ultimately show "drive_inv (t\<lparr>rcv_evt_queue := q\<rparr>)"
      using d q free st nav
      by (auto simp: drive_inv_def started_def same_frame_def group_ready_def group_blocked_def)
  next
    fix s g v stop q
    assume d: "drive_inv s" and q: "rcv_evt_queue s = YieldNavigationStepEvent g v stop # q"
      and free: "\<not> nav_step_blocked s"
    have "sched_inv (s\<lparr>rcv_evt_queue := q\<rparr>)"
      using preservesD [OF preserves_pop_evt, of s] d q by (simp add: pop_evt_def run_simps drive_inv_def)
    then have "sched_inv (nav_started g v s)"
      using q by (elim sched_inv_cong) (simp_all add: nav_started_def Let_def)
    then show "drive_inv (nav_started g v s)"
      using d q free by (auto simp: drive_inv_def nav_started_def Let_def nav_step_blocked_def)
  next
    fix s assume d: "drive_inv s"
    obtain r t where p: "doPatchSegment s = (r, t)" by force
    have "drive_inv t"
      by (rule drive_inv_cong [OF d]) (use doPatchSegment_frame [OF p] in auto)
    then show "drive_inv (snd (doPatchSegment s))" using p by simp
  qed
  then show "drive_inv (snd (updateFetchNext subs s))" by auto
qed

section \<open>States and operations\<close>

text \<open>
  Without instant actions the interrupt queue stays empty, so an interrupting scheduler
  would have nothing to fetch.
\<close>

lemma drive_updateFetchNextInterrupt [preserves_intros]:
  "preserves drive_inv updateFetchNextInterrupt"
  by (rule preservesI) (simp add: updateFetchNextInterrupt_def run_simps drive_inv_def)

lemma drive_new_states [preserves_intros]:
  "preserves drive_inv (SchedulerIdle_new b)" "preserves drive_inv (SchedulerIdlePaused_new b)"
  "preserves drive_inv (SchedulerActive_new b)" "preserves drive_inv (SchedulerCanceling_new b)"
  "preserves drive_inv (SchedulerResuming_new b)" "preserves drive_inv (SchedulerPausing_new b)"
  "preserves drive_inv (SchedulerPaused_new b)" "preserves drive_inv (SchedulerFailed_new b)"
  "preserves drive_inv (SchedulerInterrupting_new b)"
  unfolding scheduler_new_defs by (intro preserves_intros)+

lemma drive_go [preserves_intros]:
  "(\<And>b. preserves drive_inv (new b)) \<Longrightarrow> preserves drive_inv (go new notify upd)"
  unfolding go_def by (intro preserves_intros)

lemma drive_state_cancel: "preserves drive_inv (state_cancel subs st)"
  by (cases st; simp only: state_cancel.simps state_cancel_defs; intro preserves_intros)

lemma drive_state_pause: "preserves drive_inv (state_pause subs st)"
  by (cases st; simp only: state_pause.simps state_pause_defs; intro preserves_intros)

lemma drive_state_resume: "preserves drive_inv (state_resume subs st)"
  by (cases st; simp only: state_resume.simps state_resume_defs; intro preserves_intros)

lemma drive_state_update: "preserves drive_inv (state_update subs st)"
  by (cases st; simp only: state_update.simps state_update_defs; intro preserves_intros)

lemma drive_Scheduler_update: "drive_inv s \<Longrightarrow> drive_inv (snd (Scheduler_update subs s))"
proof (induction subs s rule: Scheduler_update.induct)
  case (1 subs s)
  obtain r t where f: "state_update subs (sc_state s) s = (r, t)" by force
  have "drive_inv t" using preservesD [OF drive_state_update 1(2), of subs "sc_state s"] f by simp
  then have inv: "drive_inv (t\<lparr>sc_state := st\<rparr>)" for st by (rule drive_inv_cong) simp_all
  show ?case
    using 1(1) [OF f [symmetric]] inv \<open>drive_inv t\<close> f
    by (auto simp: Scheduler_update.simps [of _ s] split: sum.split prod.split)
qed

lemma drive_update [preserves_intros]: "preserves drive_inv (Scheduler_update subs)"
  by (rule preservesI) (rule drive_Scheduler_update)

lemma drive_call_state:
  "(\<And>st. preserves drive_inv (op subs st)) \<Longrightarrow> preserves drive_inv (call_state subs op)"
  unfolding call_state_def
  by (intro preserves_intros) (auto intro!: preserves_intros split: prod.split)

lemma exec_op_drive:
  assumes "drive_inv s" and "order_op p s"
  shows "drive_inv (exec_state subs p s)"
proof -
  have inv: "sched_inv (exec_state subs p s)"
    using exec_op_inv [of s p subs] assms
    by (cases p) (auto simp: exec_state_def drive_inv_def op_fresh_def order_op_def)
  have act: "preserves drive_inv (actionTransition subs i tr)" for i tr
    unfolding actionTransition_def by (intro preserves_intros)
  have nav: "preserves drive_inv (navigationTransition subs tr)" for tr
    unfolding navigationTransition_def by (intro preserves_intros)
  have ctl: "preserves drive_inv (Scheduler_cancel subs)" "preserves drive_inv (Scheduler_pause subs)"
    "preserves drive_inv (Scheduler_resume subs)"
    unfolding Scheduler_cancel_def Scheduler_pause_def Scheduler_resume_def
    by (intro drive_call_state drive_state_cancel drive_state_pause drive_state_resume)+
  have commit: "drive_inv (s\<lparr>rcv_evt_queue := rcv_evt_queue s @ rcv_evt_queue_staging s,
      rcv_evt_queue_staging := []\<rparr>)"
    using assms(1) sched_inv_commit by (simp add: drive_inv_def)
  show ?thesis
  proof (cases p)
    case (OpEnqueue e)
    then show ?thesis
      using assms inv by (simp add: exec_state_def enqueue_def run_simps drive_inv_def order_op_def)
  next
    case OpCommit
    then show ?thesis
      using drive_Scheduler_update [OF commit] by (simp add: exec_state_def commitQueue_def run_simps)
  qed (use assms act nav ctl drive_update in \<open>simp_all add: exec_state_def order_op_def preservesD\<close>)
qed

interpretation order_run: guarded_system "exec_state subs" order_op drive_inv for subs
  by unfold_locales (rule exec_op_drive)

lemma drive_inv_new: "drive_inv Scheduler_new"
  using Scheduler_new_inv by (simp add: drive_inv_def Scheduler_new_def)

end
