(* ===== verification/SchedulerProps.thy ===== *)
theory SchedulerProps
  imports SchedulerSafety Samples
begin

text \<open>
  The properties of the scheduler. They are about every run: any sequence of public operations
  (control requests, reports of the handlers, enqueued events) on a new scheduler, where the
  callers catch what an operation throws, for any behaviour of the synchronous subscribers.
  The guards on a run say what the callers guarantee: \<open>op_fresh\<close> that instant actions have new
  ids, \<open>op_ok\<close> in addition that only navigation steps and action groups are enqueued, and
  \<open>order_op\<close> that there are no instant actions and that the ceiling of an enqueued group bounds
  its blocking types, which is how the interpreter builds it.
\<close>

abbreviation run_from_new :: "order_subscribers \<Rightarrow> SchedulerOp list \<Rightarrow> Scheduler" where
  "run_from_new subs ops \<equiv> run_ops (exec_state subs) ops Scheduler_new"

definition no_subs :: order_subscribers where
  "no_subs = (\<lambda>_. None)"

definition act :: "string \<Rightarrow> BlockingType \<Rightarrow> Action" where
  "act i b = sample_action\<lparr>actionId := i, blockingType := b\<rparr>"

abbreviation nav_step :: "seq_id \<Rightarrow> InterpreterEvent" where
  "nav_step k \<equiv> YieldNavigationStepEvent (sample_node k True) None False"

abbreviation one_group :: "string \<Rightarrow> BlockingType \<Rightarrow> InterpreterEvent" where
  "one_group i b \<equiv> YieldActionGroupEvent [act i b] b"

abbreviation one_instant :: "string \<Rightarrow> BlockingType \<Rightarrow> InstantActionGroup" where
  "one_instant i b \<equiv> \<lparr>iag_actions = [act i b], iag_ceiling = b\<rparr>"

section \<open>What is reported and when it is idle\<close>

text \<open>C2: In every run the order status that the scheduler reported last is the status of the state it is
  in: no state change goes unreported, on normal and on exceptional paths.\<close>

theorem reported_status_is_state:
  assumes "ops_ok op_ok (exec_state subs) ops Scheduler_new"
  shows "last_status k_order_idle (outbox (run_from_new subs ops)) =
         status_of (sc_state (run_from_new subs ops))"
  using scheduler.run_inv [OF sched_ok_new assms] by (simp add: sched_ok_def body_def)

definition sample_ops :: "SchedulerOp list" where
  "sample_ops = [OpEnqueue (nav_step 2), OpEnqueue (one_group ''a'' NONE), OpCommit, OpPause,
     OpNavigation nk_is_paused, OpAction ''a'' ActionTransition_isPaused]"

lemma sample_ops_ok: "ops_ok op_ok (exec_state no_subs) sample_ops Scheduler_new"
  by code_simp

theorem reported_status_is_state_witness:
  "last_status k_order_idle (outbox (run_from_new no_subs sample_ops)) =
   status_of (sc_state (run_from_new no_subs sample_ops))"
  by (rule reported_status_is_state [OF sample_ops_ok])

text \<open>C5: Whenever the scheduler is idle in a run, nothing is left to do: no action is active, running,
  paused or interrupting the navigation, there is no navigation task and the queue is empty.
  In particular it never goes idle with events of the order pending.\<close>

theorem idle_means_done:
  assumes "ops_ok op_ok (exec_state subs) ops Scheduler_new"
    and "sc_state (run_from_new subs ops) = k_idle"
  shows "let s = run_from_new subs ops in
     active_tasks s = [] \<and> running_tasks s = [] \<and> paused_tasks s = [] \<and>
     nav_interrupting_tasks s = [] \<and> navigation_task s = None \<and> rcv_evt_queue s = []"
proof -
  let ?s = "run_from_new subs ops"
  have ok: "sched_ok ?s" by (rule scheduler.run_inv [OF sched_ok_new assms(1)])
  then have "maps_inv ?s" by (auto simp: sched_ok_def dest: body_maps)
  then show ?thesis using ok assms(2) by (auto simp: sched_ok_def quiet_def maps_ok_def Let_def)
qed

theorem idle_means_done_witness:
  "let s = run_from_new no_subs [OpEnqueue (nav_step 2), OpCommit, OpNavigation (nk_to_seq_id 2)]
   in sc_state s = k_idle \<and> active_tasks s = [] \<and> navigation_task s = None \<and> rcv_evt_queue s = []"
proof -
  let ?ops = "[OpEnqueue (nav_step 2), OpCommit, OpNavigation (nk_to_seq_id 2)]"
  have ok: "ops_ok op_ok (exec_state no_subs) ?ops Scheduler_new" by code_simp
  have idle: "sc_state (run_from_new no_subs ?ops) = k_idle" by code_simp
  show ?thesis using idle_means_done [OF ok idle] idle unfolding Let_def by blast
qed

section \<open>The maps\<close>

lemma maps_inv_entry:
  assumes "maps_inv s" and "(i, r) \<in> set (active_tasks s)"
  shows "r < length (task_heap s) \<and> actionId (at_action (task_heap s ! r)) = i \<and>
    (ref_terminal s r \<or> (i, r) \<in> set (running_tasks s) \<union> set (paused_tasks s))"
proof -
  note m = assms(1) [unfolded maps_ok_def]
  have "snd (i, r) < length (task_heap s) \<and> actionId (at_action (task_heap s ! snd (i, r))) = fst (i, r)"
    using m assms(2) by (meson UnI1)
  moreover have "ActionTask_isTerminal (task_heap s ! snd (i, r)) \<or>
      (i, r) \<in> set (running_tasks s) \<union> set (paused_tasks s)"
    using m assms(2) by meson
  ultimately show ?thesis by (simp add: ref_terminal_def)
qed

text \<open>C12: In every run with fresh instant actions the maps are consistent: the running and the paused map
  are disjoint parts of the active map and hold the very same task objects, every entry is
  filed under the id of its task's action, and every active task that has not ended is in one
  of the two.\<close>

theorem maps_are_consistent:
  assumes "ops_ok op_fresh (exec_state subs) ops Scheduler_new"
  shows "let s = run_from_new subs ops in
     set (running_tasks s) \<union> set (paused_tasks s) \<subseteq> set (active_tasks s) \<and>
     set (running_tasks s) \<inter> set (paused_tasks s) = {} \<and>
     (\<forall>(i, r) \<in> set (active_tasks s).
        r < length (task_heap s) \<and> actionId (at_action (task_heap s ! r)) = i \<and>
        (ref_terminal s r \<or> (i, r) \<in> set (running_tasks s) \<union> set (paused_tasks s)))"
proof -
  have m: "maps_inv (run_from_new subs ops)"
    using scheduler_maps.run_inv [OF Scheduler_new_inv assms] by (simp add: sched_inv_def)
  then have "set (running_tasks (run_from_new subs ops)) \<union> set (paused_tasks (run_from_new subs ops))
      \<subseteq> set (active_tasks (run_from_new subs ops))"
    and "set (running_tasks (run_from_new subs ops)) \<inter> set (paused_tasks (run_from_new subs ops)) = {}"
    by (simp_all add: maps_ok_def)
  with maps_inv_entry [OF m] show ?thesis unfolding Let_def by blast
qed

theorem maps_are_consistent_witness:
  "let s = run_from_new no_subs sample_ops in
     set (running_tasks s) \<union> set (paused_tasks s) \<subseteq> set (active_tasks s) \<and>
     paused_tasks s = active_tasks s \<and> map fst (active_tasks s) = [''a'']"
proof -
  have fresh: "ops_ok op_fresh (exec_state no_subs) sample_ops Scheduler_new" by code_simp
  have "paused_tasks (run_from_new no_subs sample_ops) = active_tasks (run_from_new no_subs sample_ops)"
    "map fst (active_tasks (run_from_new no_subs sample_ops)) = [''a'']" by code_simp+
  then show ?thesis using maps_are_consistent [OF fresh] unfolding Let_def by blast
qed

text \<open>\<^verbatim>\<open>updateTasks\<close> never fails in a run, and it leaves the active map with exactly the tasks that have
  not ended, split by their state into the running and the paused map; a navigation task that
  has ended is dropped.\<close>

theorem updateTasks_partitions:
  assumes "ops_ok op_ok (exec_state subs) ops Scheduler_new" and "s = run_from_new subs ops"
  shows "\<exists>t. updateTasks s = (Inr (), t) \<and>
     set (active_tasks t) = {p \<in> set (active_tasks s). \<not> ref_terminal s (snd p)} \<and>
     set (running_tasks t) = {p \<in> set (active_tasks t). \<not> ref_paused s (snd p)} \<and>
     set (paused_tasks t) = {p \<in> set (active_tasks t). ref_paused s (snd p)} \<and>
     navigation_task t = (case navigation_task s of None \<Rightarrow> None | Some nt \<Rightarrow>
           if NavigationTask_isTerminal nt then None else Some nt)"
proof -
  have "sched_ok s" unfolding assms(2) by (rule scheduler.run_inv [OF sched_ok_new assms(1)])
  from sched_ok_body [OF this refl] have b: "body (status_of (sc_state s)) (sc_state s) s" .
  obtain t where t: "updateTasks s = (Inr (), t)"
    "active_tasks t = active_tasks (sort_tasks s)" "running_tasks t = running_tasks (sort_tasks s)"
    "paused_tasks t = paused_tasks (sort_tasks s)"
    "navigation_task t = (case navigation_task s of None \<Rightarrow> None | Some nt \<Rightarrow>
           if NavigationTask_isTerminal nt then None else Some nt)"
    using updateTasks_result [OF b] by metis
  note part = sort_tasks_partition(1-3) [OF body_maps [OF b]]
  have r: "set (running_tasks t) = {p \<in> set (active_tasks t). \<not> ref_paused s (snd p)}"
    and p: "set (paused_tasks t) = {p \<in> set (active_tasks t). ref_paused s (snd p)}"
    unfolding t(2-4) part by blast+
  have a: "set (active_tasks t) = {p \<in> set (active_tasks s). \<not> ref_terminal s (snd p)}"
    unfolding t(2) by (rule part(1))
  show ?thesis by (intro exI [of _ t] conjI t(1,5) a r p)
qed

theorem updateTasks_partitions_witness:
  "\<exists>t. updateTasks (run_from_new no_subs sample_ops) = (Inr (), t) \<and>
     set (running_tasks t) =
       {p \<in> set (active_tasks t). \<not> ref_paused (run_from_new no_subs sample_ops) (snd p)}"
  using updateTasks_partitions [OF sample_ops_ok refl] by blast

end
