(* ===== verification/SchedulerRunProps.thy ===== *)
theory SchedulerRunProps
  imports SchedulerProps
begin

text \<open>
  The properties of what the scheduler starts (order of execution, no driving during blocking
  actions) and of its control operations (rejected requests, cancelling, pausing), with the
  runs on which the code does not do what its callers expect.
\<close>

section \<open>What is started\<close>

text \<open>C7: Fetching from the queue terminates without an exception, starts exactly the events of a prefix
  of the queue, each once and in queue order, and stops only when the queue is empty, its
  front has to wait for running actions or for the navigation, or is of another kind.\<close>

theorem fetching_follows_queue_order:
  assumes "ops_ok op_fresh (exec_state subs) ops Scheduler_new" and "s = run_from_new subs ops"
  shows "\<exists>consumed t. updateFetchNext subs s = (Inr (), t) \<and>
     rcv_evt_queue s = consumed @ rcv_evt_queue t \<and>
     launches (outbox t) = launches (outbox s) @ concat (map plan_of consumed) \<and>
     (case rcv_evt_queue t of
        YieldActionGroupEvent as c # _ \<Rightarrow>
          active_tasks t \<noteq> [] \<or> (navigation_task t \<noteq> None \<and> c \<noteq> NONE)
      | YieldNavigationStepEvent g v stop # _ \<Rightarrow>
          navigation_task t \<noteq> None \<or> nav_interrupting_tasks t \<noteq> [] \<or>
          (active_tasks t \<noteq> [] \<and> current_action_blocking_type t \<noteq> NONE)
      | _ \<Rightarrow> True)"
proof -
  have "maps_inv s"
    using scheduler_maps.run_inv [OF Scheduler_new_inv assms(1)] assms(2) by (simp add: sched_inv_def)
  from updateFetchNext_order [OF this, of subs] show ?thesis
    unfolding fetch_stopped_def group_blocked_def nav_step_blocked_def .
qed

definition queued_ops :: "SchedulerOp list" where
  "queued_ops = [OpEnqueue (one_group ''a'' HARD), OpEnqueue (nav_step 2), OpCommit]"

lemma queued_ops_fresh: "ops_ok op_fresh (exec_state no_subs) queued_ops Scheduler_new"
  by code_simp

theorem fetching_follows_queue_order_witness:
  "rcv_evt_queue (run_from_new no_subs queued_ops) = [nav_step 2] \<and>
   (\<exists>t. updateFetchNext no_subs (run_from_new no_subs queued_ops) = (Inr (), t))"
proof -
  have "rcv_evt_queue (run_from_new no_subs queued_ops) = [nav_step 2]" by code_simp
  then show ?thesis using fetching_follows_queue_order [OF queued_ops_fresh refl] by blast
qed

text \<open>C6: In every run without instant actions the vehicle never drives during a blocking action: while
  there is a navigation task, every active action is of blocking type NONE.\<close>

theorem no_driving_during_blocking_actions:
  assumes "ops_ok order_op (exec_state subs) ops Scheduler_new"
    and "navigation_task (run_from_new subs ops) \<noteq> None"
    and "(i, r) \<in> set (active_tasks (run_from_new subs ops))"
  shows "blockingType (at_action (task_heap (run_from_new subs ops) ! r)) = NONE"
proof -
  have "drive_inv (run_from_new subs ops)" by (rule order_run.run_inv [OF drive_inv_new assms(1)])
  then show ?thesis using assms(2,3) by (fastforce simp: drive_inv_def)
qed

definition driving_ops :: "SchedulerOp list" where
  "driving_ops = [OpEnqueue (one_group ''a'' NONE), OpEnqueue (nav_step 2), OpCommit]"

theorem no_driving_during_blocking_actions_witness:
  "blockingType (at_action (task_heap (run_from_new no_subs driving_ops) ! 0)) = NONE"
proof (rule no_driving_during_blocking_actions)
  show "ops_ok order_op (exec_state no_subs) driving_ops Scheduler_new" by code_simp
  show "navigation_task (run_from_new no_subs driving_ops) \<noteq> None" by code_simp
  show "(''a'', 0) \<in> set (active_tasks (run_from_new no_subs driving_ops))" by code_simp
qed

text \<open>With instant actions this fails: after an instant action of blocking type NONE was started while
  an order action of type SOFT is running, the scheduler has forgotten the ceiling of the
  order's group and starts the next navigation step, although that action still runs.\<close>

theorem instant_action_unblocks_driving:
  "let s = run_from_new no_subs
       [OpEnqueue (one_group ''a'' SOFT), OpEnqueue (nav_step 2), OpCommit,
        OpInterrupt (one_instant ''i'' NONE), OpAction ''i'' ActionTransition_isRunning]
   in map_option nt_state (navigation_task s) = Some NavigationFirstInProgress \<and>
      map_of (active_tasks s) ''a'' = Some 0 \<and>
      task_heap s ! 0 = \<lparr>at_state = ActionInitializing, at_action = act ''a'' SOFT\<rparr>"
  by code_simp

section \<open>Rejected control requests\<close>

text \<open>A control request that does not fit the state is rejected with the documented exception and
  changes nothing: cancel outside of idle, idle-paused, active and paused; pause outside of
  idle and active; resume outside of idle-paused and paused.\<close>

theorem control_requests_rejected:
  "(sc_state s \<notin> {k_idle, k_idle_paused, k_active, k_paused} \<longrightarrow>
      Scheduler_cancel subs s = (Inl VDA5050PPInvalidState, s)) \<and>
   (sc_state s \<notin> {k_idle, k_active} \<longrightarrow>
      Scheduler_pause subs s = (Inl VDA5050PPInvalidState, s)) \<and>
   (sc_state s \<notin> {k_idle_paused, k_paused} \<longrightarrow>
      Scheduler_resume subs s = (Inl VDA5050PPInvalidState, s))"
  by (cases "sc_state s")
    (simp_all add: Scheduler_cancel_def Scheduler_pause_def Scheduler_resume_def call_state_def
      run_simps state_cancel_defs state_pause_defs state_resume_defs)

theorem control_requests_rejected_witness:
  "Scheduler_resume no_subs Scheduler_new = (Inl VDA5050PPInvalidState, Scheduler_new)"
  using control_requests_rejected [of Scheduler_new no_subs] by (simp add: Scheduler_new_def)

text \<open>Instant actions that arrive outside of idle and active are rejected, but the group stays in the
  interrupt queue: it was appended before the state was asked.\<close>

theorem rejected_instant_actions_stay_queued:
  assumes "sc_state s \<notin> {k_idle, k_active}"
  shows "enqueueInterruptActions subs g s =
     (Inl VDA5050PPInvalidState, s\<lparr>rcv_interrupt_queue := rcv_interrupt_queue s @ [g]\<rparr>)"
  using assms
  by (cases "sc_state s")
    (simp_all add: enqueueInterruptActions_def call_state_def run_simps state_interrupt_defs)

theorem rejected_instant_actions_stay_queued_witness:
  "rcv_interrupt_queue (snd (enqueueInterruptActions no_subs (one_instant ''i'' HARD)
     (Scheduler_new\<lparr>sc_state := k_paused\<rparr>))) = [one_instant ''i'' HARD]"
  using rejected_instant_actions_stay_queued
    [of "Scheduler_new\<lparr>sc_state := k_paused\<rparr>" no_subs "one_instant ''i'' HARD"]
  by (simp add: Scheduler_new_def)

text \<open>Such a rejected instant action is executed later: after the next accepted instant action it is
  the rejected one that is started, and the accepted one waits behind it.\<close>

theorem rejected_instant_action_is_started:
  "let s = run_from_new no_subs [OpPause];
       t = run_from_new no_subs [OpPause, OpInterrupt (one_instant ''i'' NONE), OpResume,
             OpInterrupt (one_instant ''j'' NONE)]
   in fst (exec_op no_subs (OpInterrupt (one_instant ''i'' NONE)) s) = Inl VDA5050PPInvalidState \<and>
      launches (outbox t) = [ActionEvt (ActionStart ''i'')] \<and>
      rcv_interrupt_queue t = [one_instant ''j'' NONE]"
  by code_simp

section \<open>Cancelling\<close>

fun nav_until_stop :: "InterpreterEvent list \<Rightarrow> InterpreterEvent list" where
  "nav_until_stop [] = []"
| "nav_until_stop (YieldNavigationStepEvent g v stop # q) =
     YieldNavigationStepEvent g v stop # (if stop then [] else nav_until_stop q)"
| "nav_until_stop (e # q) = nav_until_stop q"

lemma clear_scan_reached:
  "list_all schedulable q \<Longrightarrow> clear_scan keep True q = Inr (queue_ids q, [])"
proof (induction q)
  case (Cons e q)
  then show ?case by (cases e) auto
qed simp

lemma clear_scan_keep:
  "list_all schedulable q \<Longrightarrow> clear_scan True False q = Inr (queue_ids q, nav_until_stop q)"
proof (induction q)
  case (Cons e q)
  then show ?case by (cases e) (auto simp: clear_scan_reached)
qed simp

lemma cancel_tasks:
  assumes "distinct rs"
    and "\<forall>r \<in> set rs. r < length (task_heap s) \<and>
      \<not> ActionTask_isTerminal (task_heap s ! r) \<and> at_state (task_heap s ! r) \<noteq> ActionCanceling"
  shows "\<exists>t. forM rs (task_transition ActionTransition_doCancel) s = (Inr (), t) \<and>
     t = s\<lparr>task_heap := task_heap t, outbox := outbox t\<rparr> \<and>
     outbox t = outbox s @
       map (\<lambda>r. ActionEvt (ActionCancel (actionId (at_action (task_heap s ! r))))) rs \<and>
     (\<forall>r. task_heap t ! r =
        (if r \<in> set rs then (task_heap s ! r)\<lparr>at_state := ActionCanceling\<rparr> else task_heap s ! r))"
  using assms
proof (induction rs arbitrary: s)
  case Nil
  then show ?case by (simp add: run_simps)
next
  case (Cons r rs)
  let ?ev = "\<lambda>h r. ActionEvt (ActionCancel (actionId (at_action (h ! r))))"
  let ?u = "s\<lparr>task_heap := (task_heap s)[r := (task_heap s ! r)\<lparr>at_state := ActionCanceling\<rparr>],
              outbox := outbox s @ [?ev (task_heap s) r]\<rparr>"
  have r: "r < length (task_heap s)" using Cons.prems(2) by simp
  have u: "task_transition ActionTransition_doCancel r s = (Inr (), ?u)"
    using Cons.prems(2) by (cases "at_state (task_heap s ! r)")
      (simp_all add: task_transition_def ActionTask_transition_def ActionTask_isTerminal_def
        action_transition_defs action_state_transition_defs action_state_effect_defs)
  have other: "task_heap ?u ! q = task_heap s ! q" if "q \<in> set rs" for q
    using that Cons.prems(1) by (cases "q = r") auto
  have "\<forall>q \<in> set rs. q < length (task_heap ?u) \<and>
      \<not> ActionTask_isTerminal (task_heap ?u ! q) \<and> at_state (task_heap ?u ! q) \<noteq> ActionCanceling"
    using Cons.prems(2) other by simp
  with Cons.IH [of ?u] Cons.prems(1) obtain t where
    t: "forM rs (task_transition ActionTransition_doCancel) ?u = (Inr (), t)"
    "t = ?u\<lparr>task_heap := task_heap t, outbox := outbox t\<rparr>"
    "outbox t = outbox ?u @ map (?ev (task_heap ?u)) rs"
    "\<forall>q. task_heap t ! q =
        (if q \<in> set rs then (task_heap ?u ! q)\<lparr>at_state := ActionCanceling\<rparr> else task_heap ?u ! q)"
    by auto
  have "map (?ev (task_heap ?u)) rs = map (?ev (task_heap s)) rs"
    by (rule map_cong [OF refl]) (simp only: other)
  with t(3) have ob: "outbox t = outbox s @ map (?ev (task_heap s)) (r # rs)" by simp
  have fr: "t = s\<lparr>task_heap := task_heap t, outbox := outbox t\<rparr>" by (subst t(2)) simp
  have run: "forM (r # rs) (task_transition ActionTransition_doCancel) s = (Inr (), t)"
    using u t(1) by (simp add: run_simps)
  have heap: "task_heap t ! q =
      (if q \<in> set (r # rs) then (task_heap s ! q)\<lparr>at_state := ActionCanceling\<rparr> else task_heap s ! q)" for q
    using t(4) Cons.prems(1) r other by auto
  show ?case by (intro exI [of _ t] conjI allI run fr ob heap)
qed

lemma active_ref_key:
  assumes "maps_inv s" and "p \<in> set (active_tasks s)"
  shows "actionId (at_action (task_heap s ! snd p)) = fst p"
  using maps_inv_entry [OF assms(1), of "fst p" "snd p"] assms(2) by simp

lemma active_refs_distinct:
  assumes "maps_inv s"
  shows "distinct (map snd (active_tasks s))"
proof -
  have "wf_map (active_tasks s)" using assms unfolding maps_ok_def by simp
  then have d: "distinct (map fst (active_tasks s))" by (rule wf_map_distinct)
  have "fst p = fst q"
    if "p \<in> set (active_tasks s)" "q \<in> set (active_tasks s)" "snd p = snd q" for p q
    using active_ref_key [OF assms that(1)] active_ref_key [OF assms that(2)] that(3) by simp
  with d show ?thesis unfolding distinct_map inj_on_def by (meson prod_eqI)
qed

definition navigation_told :: "NavigationTask option \<Rightarrow> NavigationTask option \<Rightarrow> bool" where
  "navigation_told before after \<longleftrightarrow>
     (case after of
        None \<Rightarrow> before = None
      | Some nt \<Rightarrow> NavigationTask_isPaused nt \<or> NavigationTask_isTerminal nt \<or> nt_state nt = NavigationCanceling)"

lemma cancel_navigation:
  assumes "\<forall>nt. navigation_task s = Some nt \<longrightarrow> nt_state nt \<noteq> NavigationCanceling"
  shows "\<exists>t. bindM (gets navigation_task) (\<lambda>ont. case ont of None \<Rightarrow> ret ()
        | Some nt \<Rightarrow> whenM (\<not> NavigationTask_isPaused nt \<and> \<not> NavigationTask_isTerminal nt)
                      (nav_transition subs nk_do_cancel)) s = (Inr (), t) \<and>
     t = s\<lparr>navigation_task := navigation_task t, outbox := outbox t\<rparr> \<and>
     (\<exists>es. outbox t = outbox s @ es) \<and>
     navigation_told (navigation_task s) (navigation_task t)"
proof (cases "navigation_task s")
  case None
  then show ?thesis by (simp add: run_simps navigation_told_def)
next
  case (Some nt)
  then show ?thesis using assms
    by (cases "nt_state nt")
      (simp_all add: run_simps nav_transition_def NavigationTask_transition_def navigation_told_def
        NavigationTask_isPaused_def NavigationTask_isTerminal_def
        navigation_state_transfer_defs navigation_effect_defs)
qed

lemma cancel_active_tasks:
  assumes "maps_inv s" and "\<forall>(i, r) \<in> set (active_tasks s).
      \<not> ref_terminal s r \<and> at_state (task_heap s ! r) \<noteq> ActionCanceling"
  obtains t where
    "forM (map snd (active_tasks s)) (task_transition ActionTransition_doCancel) s = (Inr (), t)"
    "t = s\<lparr>task_heap := task_heap t, outbox := outbox t\<rparr>"
    "outbox t = outbox s @ map (\<lambda>p. ActionEvt (ActionCancel (fst p))) (active_tasks s)"
    "\<forall>p \<in> set (active_tasks s). at_state (task_heap t ! snd p) = ActionCanceling"
proof -
  let ?rs = "map snd (active_tasks s)"
  have alive: "\<forall>r \<in> set ?rs. r < length (task_heap s) \<and>
      \<not> ActionTask_isTerminal (task_heap s ! r) \<and> at_state (task_heap s ! r) \<noteq> ActionCanceling"
    using assms(2) maps_inv_entry [OF assms(1)] by (fastforce simp: ref_terminal_def)
  obtain t where t: "forM ?rs (task_transition ActionTransition_doCancel) s = (Inr (), t)"
    "t = s\<lparr>task_heap := task_heap t, outbox := outbox t\<rparr>"
    "outbox t = outbox s @
       map (\<lambda>r. ActionEvt (ActionCancel (actionId (at_action (task_heap s ! r))))) ?rs"
    "\<forall>r. task_heap t ! r = (if r \<in> set ?rs
        then (task_heap s ! r)\<lparr>at_state := ActionCanceling\<rparr> else task_heap s ! r)"
    using cancel_tasks [OF active_refs_distinct [OF assms(1)] alive] by blast
  have "map (\<lambda>r. ActionEvt (ActionCancel (actionId (at_action (task_heap s ! r))))) ?rs =
      map (\<lambda>p. ActionEvt (ActionCancel (fst p))) (active_tasks s)"
    by (simp add: active_ref_key [OF assms(1)])
  with t show thesis by (intro that [OF t(1,2)]) simp_all
qed

text \<open>C13: Cancelling an active order whose actions all can still be cancelled: every active action is told
  to cancel and so is the navigation unless it is paused; of the queue only the navigation
  steps up to the next stop are kept, all waiting actions and instant actions are dropped, and
  the scheduler is canceling.\<close>

theorem cancel_active_order:
  assumes "sched_ok s" and "sc_state s = k_active"
    and "\<forall>(i, r) \<in> set (active_tasks s).
       \<not> ref_terminal s r \<and> at_state (task_heap s ! r) \<noteq> ActionCanceling"
    and "\<forall>nt. navigation_task s = Some nt \<longrightarrow> nt_state nt \<noteq> NavigationCanceling"
  shows "\<exists>t. Scheduler_cancel subs s = (Inr (), t) \<and> sc_state t = k_canceling \<and>
     active_tasks t = active_tasks s \<and>
     (\<forall>(i, r) \<in> set (active_tasks t). at_state (task_heap t ! r) = ActionCanceling) \<and>
     (case navigation_task t of
        None \<Rightarrow> navigation_task s = None
      | Some nt \<Rightarrow> NavigationTask_isPaused nt \<or> NavigationTask_isTerminal nt \<or>
          nt_state nt = NavigationCanceling) \<and>
     rcv_evt_queue t = nav_until_stop (rcv_evt_queue s) \<and> rcv_interrupt_queue t = [] \<and>
     (\<exists>es. outbox t = outbox s @ map (\<lambda>p. ActionEvt (ActionCancel (fst p))) (active_tasks s) @ es @
        [OrderEvt (OrderStatusEvent k_order_canceling)])"
proof -
  have b: "body (status_of (sc_state s)) (sc_state s) s" by (rule sched_ok_body [OF assms(1) refl])
  have q: "list_all schedulable (rcv_evt_queue s)" using b by (simp add: body_def)
  obtain u where u: "forM (map snd (active_tasks s)) (task_transition ActionTransition_doCancel) s = (Inr (), u)"
    "u = s\<lparr>task_heap := task_heap u, outbox := outbox u\<rparr>"
    "outbox u = outbox s @ map (\<lambda>p. ActionEvt (ActionCancel (fst p))) (active_tasks s)"
    "\<forall>p \<in> set (active_tasks s). at_state (task_heap u ! snd p) = ActionCanceling"
    by (rule cancel_active_tasks [OF body_maps [OF b] assms(3)])
  have fr: "navigation_task u = navigation_task s" "rcv_evt_queue u = rcv_evt_queue s"
    "active_tasks u = active_tasks s"
    by (subst u(2), simp)+
  obtain v es where v: "bindM (gets navigation_task) (\<lambda>ont. case ont of None \<Rightarrow> ret ()
        | Some nt \<Rightarrow> whenM (\<not> NavigationTask_isPaused nt \<and> \<not> NavigationTask_isTerminal nt)
                      (nav_transition subs nk_do_cancel)) u = (Inr (), v)"
    "v = u\<lparr>navigation_task := navigation_task v, outbox := outbox v\<rparr>" "outbox v = outbox u @ es"
    "navigation_told (navigation_task u) (navigation_task v)"
    using cancel_navigation [of u subs] assms(4) fr(1) by auto
  have frv: "rcv_evt_queue v = rcv_evt_queue s" "active_tasks v = active_tasks s"
    "task_heap v = task_heap u"
    by (subst v(2), simp add: fr)+
  have clear: "clear_scan True False (rcv_evt_queue v) =
      Inr (queue_ids (rcv_evt_queue s), nav_until_stop (rcv_evt_queue s))"
    unfolding frv by (rule clear_scan_keep [OF q])
  show ?thesis
    using assms(2) u(1,3,4) v(1,3) v(4) [unfolded navigation_told_def fr] clear frv
    by (simp add: Scheduler_cancel_def call_state_def run_simps SchedulerActive_cancel_def
        transition_all_def go_run clearQueues_def case_prod_beta)
qed

definition cancel_ops :: "SchedulerOp list" where
  "cancel_ops = [OpEnqueue (one_group ''a'' NONE), OpEnqueue (nav_step 2),
     OpEnqueue (one_group ''b'' HARD), OpEnqueue (nav_step 4), OpCommit]"

theorem cancel_active_order_witness:
  "\<exists>t. Scheduler_cancel no_subs (run_from_new no_subs cancel_ops) = (Inr (), t) \<and>
     sc_state t = k_canceling \<and> rcv_evt_queue t = [nav_step 4]"
proof -
  let ?s = "run_from_new no_subs cancel_ops"
  have "ops_ok op_ok (exec_state no_subs) cancel_ops Scheduler_new" by code_simp
  then have ok: "sched_ok ?s" by (rule scheduler.run_inv [OF sched_ok_new])
  have st: "sc_state ?s = k_active" by code_simp
  have active: "\<forall>(i, r) \<in> set (active_tasks ?s).
      \<not> ref_terminal ?s r \<and> at_state (task_heap ?s ! r) \<noteq> ActionCanceling" by code_simp
  have "map_option nt_state (navigation_task ?s) = Some NavigationFirstInProgress" by code_simp
  then have nav: "\<forall>nt. navigation_task ?s = Some nt \<longrightarrow> nt_state nt \<noteq> NavigationCanceling"
    by auto
  have "nav_until_stop (rcv_evt_queue ?s) = [nav_step 4]" by code_simp
  with cancel_active_order [OF ok st active nav, of no_subs] show ?thesis by auto
qed

text \<open>Cancelling a paused order does not cancel its navigation: the vehicle gets no cancel request, its
  task stays paused, and the scheduler, now canceling, is left unchanged by every further
  update, so it does not become idle until the paused navigation itself ends.\<close>

theorem cancel_of_paused_order_gets_stuck:
  "let s = run_from_new no_subs
       [OpEnqueue (nav_step 2), OpCommit, OpPause, OpNavigation nk_is_paused, OpCancel]
   in sc_state s = k_canceling \<and> map_option nt_state (navigation_task s) = Some NavigationPaused \<and>
      NavEvt (NavigationControl nk_cancel) \<notin> set (outbox s) \<and>
      Scheduler_update no_subs s = (Inr (), s)"
  by code_simp

text \<open>A pause request during an interrupting instant action fails half way: the actions have been
  told to pause when the paused navigation rejects the request, the exception leaves the
  scheduler active, and once the action is paused neither resume nor pause is accepted.\<close>

theorem pause_during_interrupt_fails_half_way:
  "let ops = [OpEnqueue (nav_step 2), OpCommit, OpInterrupt (one_instant ''i'' SOFT),
              OpNavigation nk_is_paused];
       s = run_from_new no_subs ops;
       t = run_from_new no_subs (ops @ [OpPause]);
       u = run_from_new no_subs (ops @ [OpPause, OpAction ''i'' ActionTransition_isPaused])
   in fst (Scheduler_pause no_subs s) = Inl VDA5050PPInvalidState \<and> sc_state t = k_active \<and>
      map at_state (task_heap t) = [ActionPausing] \<and>
      sc_state u = k_active \<and> map at_state (task_heap u) = [ActionPaused] \<and>
      fst (Scheduler_resume no_subs u) = Inl VDA5050PPInvalidState \<and>
      fst (Scheduler_pause no_subs u) = Inl VDA5050PPInvalidState"
  by code_simp

section \<open>Leaving the transient states\<close>

lemma updateTasks_interrupting:
  assumes "updateTasks s = (r, t)"
  shows "nav_interrupting_tasks t = nav_interrupting_tasks s"
proof -
  have "snd (updateTasks s) = t" using assms by simp
  moreover have "nav_interrupting_tasks (snd (clearQueues k u)) = nav_interrupting_tasks u" for k u
    by (cases "clear_scan k False (rcv_evt_queue u)")
      (simp_all add: clearQueues_def run_simps emit_def case_prod_beta)
  then have "nav_interrupting_tasks (snd (updateTasks s)) = nav_interrupting_tasks (sort_tasks s)"
    by (simp add: updateTasks_def run_simps case_prod_beta split: option.split sum.split)
  ultimately show ?thesis by simp
qed

text \<open>The navigation steps that a cancelled order still drives: a cancel keeps those up to the next stop, and
  the failure of a navigation drops them.\<close>

fun is_navigation_step :: "InterpreterEvent \<Rightarrow> bool" where
  "is_navigation_step (YieldNavigationStepEvent g v stop) = True"
| "is_navigation_step e = False"

lemma nav_until_stop_steps: "list_all is_navigation_step (nav_until_stop q)"
  by (induction q rule: nav_until_stop.induct) simp_all

definition steps_to_drive :: "Scheduler \<Rightarrow> InterpreterEvent list" where
  "steps_to_drive s =
     (case navigation_task s of
        None \<Rightarrow> rcv_evt_queue s
      | Some nt \<Rightarrow> if NavigationTask_isFailed nt then [] else rcv_evt_queue s)"

text \<open>The vehicle reports that it has reached the goal of a step.\<close>

fun goal_reached :: "InterpreterEvent \<Rightarrow> SchedulerOp" where
  "goal_reached (YieldNavigationStepEvent g v stop) = OpNavigation (nk_to_seq_id (n_sequenceId g))"
| "goal_reached e = OpUpdate"

fun drives_to :: "InterpreterEvent \<Rightarrow> NavigationTask option \<Rightarrow> bool" where
  "drives_to (YieldNavigationStepEvent g v stop) ont \<longleftrightarrow>
     (\<exists>nt. ont = Some nt \<and> nt_state nt = NavigationFirstInProgress \<and> nt_goal nt = g \<and> nt_via_edge nt = v)"
| "drives_to e ont \<longleftrightarrow> False"

definition cancel_ready :: "Scheduler \<Rightarrow> bool" where
  "cancel_ready s \<longleftrightarrow> sched_ok s \<and> sc_state s = k_canceling \<and>
     (\<forall>(i, r) \<in> set (active_tasks s). ref_terminal s r) \<and>
     (\<forall>nt. navigation_task s = Some nt \<longrightarrow> NavigationTask_isTerminal nt) \<and>
     list_all is_navigation_step (steps_to_drive s)"

lemma clear_scan_drop: "\<exists>ids. clear_scan False b q = Inr (ids, [])"
proof (induction q arbitrary: b)
  case (Cons e q)
  obtain ids where "clear_scan False b q = Inr (ids, [])" using Cons.IH by blast
  then show ?case by (cases e) simp_all
qed simp

lemma updateTasks_queue:
  assumes "updateTasks s = (Inr (), t)" and "\<forall>nt. navigation_task s = Some nt \<longrightarrow> NavigationTask_isTerminal nt"
  shows "rcv_evt_queue t = steps_to_drive s"
proof -
  obtain ids where "clear_scan False False (rcv_evt_queue s) = Inr (ids, [])" using clear_scan_drop by blast
  then show ?thesis
    using assms by (auto simp: updateTasks_def run_simps clearQueues_def emit_def steps_to_drive_def
        split: option.splits if_splits)
qed

text \<open>One update of such a scheduler: it ends, or it starts the next step.\<close>

lemma canceling_tasks_updated:
  assumes "cancel_ready s"
  obtains u where "\<And>m. seqM updateTasks (seqM (updateTasksInterruptMapping subs) m) s = m u"
    and "body k_order_canceling k_canceling u" and "active_tasks u = []" and "navigation_task u = None"
    and "nav_interrupting_tasks u = []" and "rcv_evt_queue u = steps_to_drive s"
proof -
  have b: "body k_order_canceling k_canceling s"
    using sched_ok_body [of s k_canceling] assms by (simp add: cancel_ready_def)
  obtain t where t: "updateTasks s = (Inr (), t)" "body k_order_canceling k_canceling t" "nav_live t"
    "active_tasks t = active_tasks (sort_tasks s)"
    "navigation_task t = (case navigation_task s of None \<Rightarrow> None | Some nt \<Rightarrow>
           if NavigationTask_isTerminal nt then None else Some nt)"
    using updateTasks_result [OF b] by metis
  have "set (active_tasks (sort_tasks s)) = {}"
    using sort_tasks_partition(1) [OF body_maps [OF b]] assms by (auto simp: cancel_ready_def)
  then have a: "active_tasks t = []" using t(4) by simp
  have n: "navigation_task t = None" using t(5) assms by (auto simp: cancel_ready_def split: option.split)
  have q: "rcv_evt_queue t = steps_to_drive s"
    using updateTasks_queue [OF t(1)] assms by (auto simp: cancel_ready_def)
  obtain r u where m: "updateTasksInterruptMapping subs t = (r, u)" by force
  have f: "fetching k_order_canceling k_canceling u" by (rule mapping_fetching [OF t(2,3) m])
  have u: "r = Inr ()" "u = t\<lparr>nav_interrupting_tasks := nav_interrupting_tasks u\<rparr>"
    using m n by (auto simp: updateTasksInterruptMapping_def run_simps split: if_splits)
  have same: "active_tasks u = []" "navigation_task u = None" "rcv_evt_queue u = steps_to_drive s"
    by (subst u(2), simp add: a n q)+
  show thesis
    by (rule that [OF _ fetching_body [OF f] same(1,2) _ same(3)])
      (use t(1) m u(1) f same(1) in \<open>simp_all add: run_simps fetching_def\<close>)
qed

lemma canceling_update:
  assumes "cancel_ready s"
  shows "case steps_to_drive s of
      [] \<Rightarrow> \<exists>t. Scheduler_update subs s = (Inr (), t) \<and> sc_state t = k_idle \<and> active_tasks t = [] \<and>
        navigation_task t = None \<and> rcv_evt_queue t = [] \<and>
        last (outbox t) = OrderEvt (OrderStatusEvent k_order_idle)
    | e # q \<Rightarrow> \<exists>t. Scheduler_update subs s = (Inr (), t) \<and> sched_ok t \<and> sc_state t = k_canceling \<and>
        active_tasks t = [] \<and> drives_to e (navigation_task t) \<and> rcv_evt_queue t = q"
proof -
  obtain u where run: "\<And>m :: state_result sched.
      seqM updateTasks (seqM (updateTasksInterruptMapping subs) m) s = m u"
    and u: "body k_order_canceling k_canceling u" "active_tasks u = []" "navigation_task u = None"
      "nav_interrupting_tasks u = []" "rcv_evt_queue u = steps_to_drive s"
    using canceling_tasks_updated [OF assms] by blast
  have st: "sc_state s = k_canceling" using assms by (simp add: cancel_ready_def)
  have "Scheduler_update subs s =
      (case seqM (updateFetchNext subs)
         (bindM (gets (\<lambda>s. active_tasks s = [] \<and> navigation_task s = None)) (\<lambda>b.
            if b then go SchedulerIdle_new True False else go SchedulerCanceling_new False False)) u of
         (Inl e, t) \<Rightarrow> (Inl e, t)
       | (Inr (st, again), t) \<Rightarrow>
           (if again then Scheduler_update subs (t\<lparr>sc_state := st\<rparr>) else (Inr (), t\<lparr>sc_state := st\<rparr>)))"
    by (simp only: Scheduler_update.simps [of subs s] st state_update.simps SchedulerCanceling_update_def run)
  note upd = this go_run
  show ?thesis
  proof (cases "steps_to_drive s")
    case Nil
    then have "updateFetchNext subs u = (Inr (), u)" using u(5) by (simp add: updateFetchNext_step [of subs u])
    then show ?thesis using Nil u by (simp add: upd)
  next
    case (Cons e q)
    moreover have "is_navigation_step e" using assms Cons by (simp add: cancel_ready_def)
    ultimately obtain g v stop where e: "e = YieldNavigationStepEvent g v stop" by (cases e) simp_all
    let ?v = "nav_started g v u"
    have v: "rcv_evt_queue ?v = q" "active_tasks ?v = []" "drives_to e (navigation_task ?v)"
      using u Cons e by (simp_all add: nav_started_def Let_def started_nav_def)
    have "\<exists>t. updateFetchNext subs ?v = (Inr (), t) \<and> rcv_evt_queue t = q \<and> active_tasks t = [] \<and>
        navigation_task t = navigation_task ?v"
    proof (cases q)
      case Nil
      then show ?thesis using v by (simp add: updateFetchNext_step [of subs ?v])
    next
      case (Cons e' q')
      moreover have "is_navigation_step e'"
        using assms Cons \<open>steps_to_drive s = e # q\<close> by (simp add: cancel_ready_def)
      ultimately obtain g' v' stop' where e': "e' = YieldNavigationStepEvent g' v' stop'" by (cases e') simp_all
      obtain r t where p: "doPatchSegment ?v = (r, t)" by force
      have "navigation_task ?v \<noteq> None" using v(3) e by auto
      then have "updateFetchNext subs ?v = (Inr (), t)"
        using v(1) Cons e' p by (simp add: updateFetchNext_step [of subs ?v] nav_step_blocked_def)
      then show ?thesis using doPatchSegment_frame [OF p] v by auto
    qed
    then obtain t where t: "updateFetchNext subs ?v = (Inr (), t)" "rcv_evt_queue t = q" "active_tasks t = []"
      "navigation_task t = navigation_task ?v" by blast
    have "updateFetchNext subs u = (Inr (), t)"
      using u Cons e t(1) by (simp add: updateFetchNext_step [of subs u] nav_step_blocked_def)
    moreover have nav: "navigation_task t \<noteq> None" using v(3) t(4) e by auto
    ultimately have "Scheduler_update subs s = (Inr (), t\<lparr>sc_state := k_canceling\<rparr>)"
      by (auto simp: upd)
    moreover from this have "sched_ok (t\<lparr>sc_state := k_canceling\<rparr>)"
      using Scheduler_update_sched_ok [of s subs] assms by (simp add: cancel_ready_def)
    ultimately show ?thesis using Cons t v(3) by simp
  qed
qed

text \<open>The goal of the step is reached: the navigation is done, and the scheduler is ready for the next one.\<close>

lemma canceling_goal_reached:
  assumes "sched_ok t" and "sc_state t = k_canceling" and "active_tasks t = []"
    and "drives_to e (navigation_task t)" and "list_all is_navigation_step (rcv_evt_queue t)"
    and "\<And>ev. subs ev = None"
  obtains u where "exec_state subs (goal_reached e) t = exec_state subs OpUpdate u"
    and "cancel_ready u" and "steps_to_drive u = rcv_evt_queue t"
proof -
  obtain g v stop where e: "e = YieldNavigationStepEvent g v stop" using assms(4) by (cases e) simp_all
  then obtain nt where nt: "navigation_task t = Some nt" "nt_state nt = NavigationFirstInProgress" "nt_goal nt = g"
    using assms(4) by auto
  let ?tr = "nk_to_seq_id (n_sequenceId g)" and ?nt = "nt\<lparr>nt_state := NavigationDone\<rparr>"
  obtain es where n: "nav_transition subs ?tr t =
      (Inr (), t\<lparr>navigation_task := Some ?nt, outbox := outbox t @ es\<rparr>)"
    using nt assms(6)
    by (simp add: nav_transition_def NavigationTask_transition_def NavigationFirstInProgress_transfer_def
        NavigationState_effect_def Let_def)
  let ?u = "t\<lparr>navigation_task := Some ?nt, outbox := outbox t @ es\<rparr>"
  have "body k_order_canceling k_canceling ?u"
    using preservesD [OF body_nav_transition sched_ok_body [OF assms(1,2)], of subs ?tr] n by simp
  then have "cancel_ready ?u"
    using assms(2,3,5)
    by (auto simp: cancel_ready_def sched_ok_def body_def steps_to_drive_def NavigationTask_isTerminal_def
        NavigationTask_isFailed_def)
  moreover have "exec_state subs (goal_reached e) t = exec_state subs OpUpdate ?u"
    using e n nt(1) by (simp add: exec_state_def navigationTransition_def run_simps)
  moreover have "steps_to_drive ?u = rcv_evt_queue t"
    by (simp add: steps_to_drive_def NavigationTask_isFailed_def)
  ultimately show thesis using that by blast
qed

definition canceling_after :: "order_subscribers \<Rightarrow> InterpreterEvent list \<Rightarrow> nat \<Rightarrow> Scheduler \<Rightarrow> Scheduler" where
  "canceling_after subs steps k s = run_ops (exec_state subs) (OpUpdate # map goal_reached (take k steps)) s"

lemma canceling_run:
  assumes "\<And>ev. subs ev = None"
  shows "cancel_ready s \<Longrightarrow> steps_to_drive s = steps \<Longrightarrow>
    (\<forall>k < length steps. sc_state (canceling_after subs steps k s) = k_canceling \<and>
       drives_to (steps ! k) (navigation_task (canceling_after subs steps k s))) \<and>
    (\<exists>t. canceling_after subs steps (length steps) s = t \<and> sc_state t = k_idle \<and> active_tasks t = [] \<and>
       navigation_task t = None \<and> rcv_evt_queue t = [] \<and> last (outbox t) = OrderEvt (OrderStatusEvent k_order_idle))"
proof (induction steps arbitrary: s)
  case Nil
  then show ?case
    using canceling_update [OF Nil.prems(1), of subs] by (auto simp: exec_state_def canceling_after_def)
next
  case (Cons e q)
  obtain t where t: "Scheduler_update subs s = (Inr (), t)" "sched_ok t" "sc_state t = k_canceling"
    "active_tasks t = []" "drives_to e (navigation_task t)" "rcv_evt_queue t = q"
    using canceling_update [OF Cons.prems(1), of subs] Cons.prems(2) by auto
  have l: "list_all is_navigation_step (rcv_evt_queue t)"
    using Cons.prems t(6) by (simp add: cancel_ready_def)
  obtain u where u: "exec_state subs (goal_reached e) t = exec_state subs OpUpdate u"
    "cancel_ready u" "steps_to_drive u = q"
    by (rule canceling_goal_reached [OF t(2-5) l assms]) (simp add: t(6))
  have s: "exec_state subs OpUpdate s = t" using t(1) by (simp add: exec_state_def)
  have run: "canceling_after subs (e # q) (Suc k) s = canceling_after subs q k u" for k
    using s u(1) by (simp add: canceling_after_def)
  have start: "canceling_after subs (e # q) 0 s = t" using s by (simp add: canceling_after_def)
  note IH = Cons.IH [OF u(2,3)]
  have "sc_state (canceling_after subs (e # q) k s) = k_canceling \<and>
      drives_to ((e # q) ! k) (navigation_task (canceling_after subs (e # q) k s))"
    if "k < length (e # q)" for k
  proof (cases k)
    case 0
    then show ?thesis using start t(3,5) by simp
  next
    case (Suc j)
    then show ?thesis using conjunct1 [OF IH] that by (simp add: run)
  qed
  then show ?case using conjunct2 [OF IH] by (simp only: run list.size add_Suc_right add_0_right) blast
qed

text \<open>C18: A canceling scheduler gets idle. Let every active action have ended and let there be no navigation
  that has not ended, while navigation steps wait in the queue; a cancel keeps those up to the next
  stop, and the failure of a navigation drops them. Then the next update starts the
  first of them, every report of the vehicle that it has reached the goal of a step starts the next
  one, and the report for the last one leaves the scheduler idle, with no active action, no
  navigation and nothing queued, and reports idle. Before that it stays canceling. When no steps wait,
  the update itself gets there. The synchronous subscribers of the new last nodes do not throw.\<close>

theorem canceling_completes:
  assumes "sched_ok s" and "sc_state s = k_canceling"
    and "\<forall>(i, r) \<in> set (active_tasks s). ref_terminal s r"
    and "\<forall>nt. navigation_task s = Some nt \<longrightarrow> NavigationTask_isTerminal nt"
    and "list_all is_navigation_step (steps_to_drive s)" and "\<And>ev. subs ev = None"
  shows "let steps = steps_to_drive s;
      after = (\<lambda>k. run_ops (exec_state subs) (OpUpdate # map goal_reached (take k steps)) s);
      t = after (length steps)
    in (\<forall>k < length steps. sc_state (after k) = k_canceling \<and> drives_to (steps ! k) (navigation_task (after k))) \<and>
       sc_state t = k_idle \<and> active_tasks t = [] \<and> navigation_task t = None \<and> rcv_evt_queue t = [] \<and>
       last (outbox t) = OrderEvt (OrderStatusEvent k_order_idle)"
  using canceling_run [OF assms(6), of s "steps_to_drive s"] assms(1-5)
  by (simp add: cancel_ready_def canceling_after_def Let_def)

definition canceling_ops :: "SchedulerOp list" where
  "canceling_ops = [OpEnqueue (nav_step 2), OpEnqueue (nav_step 4), OpEnqueue (nav_step 6), OpCommit, OpCancel]"

theorem canceling_completes_witness:
  "sc_state (run_ops (exec_state no_subs) [OpUpdate, goal_reached (nav_step 4), goal_reached (nav_step 6)]
     (snd (nav_transition no_subs (nk_to_seq_id 2) (run_from_new no_subs canceling_ops)))) = k_idle"
proof -
  let ?r = "run_from_new no_subs canceling_ops"
  let ?s = "snd (nav_transition no_subs (nk_to_seq_id 2) ?r)"
  have "ops_ok op_ok (exec_state no_subs) canceling_ops Scheduler_new" by code_simp
  then have ok: "sched_ok ?r" by (rule scheduler.run_inv [OF sched_ok_new])
  have st: "sc_state ?r = k_canceling" by code_simp
  have "body k_order_canceling k_canceling ?s"
    by (rule preservesD [OF body_nav_transition]) (use sched_ok_body [OF ok st] in simp)
  then have ok': "sched_ok ?s" by (auto simp: sched_ok_def body_def)
  have st': "sc_state ?s = k_canceling" by code_simp
  have a: "\<forall>(i, r) \<in> set (active_tasks ?s). ref_terminal ?s r" by code_simp
  have "case navigation_task ?s of None \<Rightarrow> True | Some nt \<Rightarrow> NavigationTask_isTerminal nt" by code_simp
  then have n: "\<forall>nt. navigation_task ?s = Some nt \<longrightarrow> NavigationTask_isTerminal nt" by auto
  have steps: "steps_to_drive ?s = [nav_step 4, nav_step 6]" by code_simp
  then have l: "list_all is_navigation_step (steps_to_drive ?s)" by simp
  show ?thesis
    using canceling_completes [OF ok' st' a n l, of no_subs] unfolding Let_def steps
    by (simp add: no_subs_def)
qed

text \<open>A pausing scheduler gets paused: when every active action is paused or has ended and the
  navigation task, if any, is paused, the next update succeeds, leaves it paused with no
  running action, and reports paused.\<close>

theorem pausing_completes:
  assumes "sched_ok s" and "sc_state s = k_pausing" and "nav_interrupting_tasks s = []"
    and "\<forall>(i, r) \<in> set (active_tasks s). ref_terminal s r \<or> ref_paused s r"
    and "\<forall>nt. navigation_task s = Some nt \<longrightarrow> NavigationTask_isPaused nt"
  shows "\<exists>t. Scheduler_update subs s = (Inr (), t) \<and> sc_state t = k_paused \<and> running_tasks t = [] \<and>
     last (outbox t) = OrderEvt (OrderStatusEvent k_order_paused)"
proof -
  have b: "body (status_of (sc_state s)) (sc_state s) s" by (rule sched_ok_body [OF assms(1) refl])
  obtain t where t: "updateTasks s = (Inr (), t)" "running_tasks t = running_tasks (sort_tasks s)"
    "navigation_task t = (case navigation_task s of None \<Rightarrow> None | Some nt \<Rightarrow>
           if NavigationTask_isTerminal nt then None else Some nt)"
    using updateTasks_result [OF b] by metis
  have "set (running_tasks (sort_tasks s)) = {}"
    using sort_tasks_partition(2) [OF body_maps [OF b]] assms(4) by auto
  then have r: "running_tasks t = []" using t(2) by simp
  have n: "navigation_task t = Some nt \<Longrightarrow> NavigationTask_isPaused nt" for nt
    using t(3) assms(5) by (auto split: option.splits if_splits)
  note i = updateTasks_interrupting [OF t(1)]
  show ?thesis
    using assms(2,3) t(1) r n i
    by (auto simp: Scheduler_update.simps SchedulerPausing_update_def run_simps
        updateTasksInterruptMapping_def go_run split: option.split)
qed

theorem pausing_completes_witness:
  "\<exists>t. Scheduler_update no_subs (snd (task_transition ActionTransition_isPaused 0
        (run_from_new no_subs [OpEnqueue (one_group ''a'' HARD), OpCommit, OpPause]))) = (Inr (), t) \<and>
     sc_state t = k_paused"
proof -
  let ?r = "run_from_new no_subs [OpEnqueue (one_group ''a'' HARD), OpCommit, OpPause]"
  let ?s = "snd (task_transition ActionTransition_isPaused 0 ?r)"
  have "ops_ok op_ok (exec_state no_subs) [OpEnqueue (one_group ''a'' HARD), OpCommit, OpPause]
      Scheduler_new" by code_simp
  then have ok: "sched_ok ?r" by (rule scheduler.run_inv [OF sched_ok_new])
  have st: "sc_state ?r = k_pausing" by code_simp
  have "preserves (body k_order_pausing k_pausing) (task_transition ActionTransition_isPaused 0)"
    by (rule body_task_transition)
  then have "body k_order_pausing k_pausing ?s"
    using sched_ok_body [OF ok st] by (simp add: preserves_def)
  then have ok': "sched_ok ?s" by (auto simp: sched_ok_def body_def)
  have st': "sc_state ?s = k_pausing" by code_simp
  have i: "nav_interrupting_tasks ?s = []" by code_simp
  have a: "\<forall>(i, r) \<in> set (active_tasks ?s). ref_terminal ?s r \<or> ref_paused ?s r" by code_simp
  have "navigation_task ?s = None" by code_simp
  then have n: "\<forall>nt. navigation_task ?s = Some nt \<longrightarrow> NavigationTask_isPaused nt" by simp
  show ?thesis using pausing_completes [OF ok' st' i a n, of no_subs] by blast
qed

end
