(* ===== verification/OrderManager.thy ===== *)
theory OrderManager
  imports Graph
begin

text \<open>
  \<^verbatim>\<open>core/state/order_manager\<close>: the order's id, its graph, its actions with their states, and the
  order status, as the state message reports them. Every public operation takes the mutex,
  so it is one step. The protected overloads get the caller's lock and test that it is held;
  the test is their first argument. An action pointer may be null.
\<close>

section \<open>State\<close>

record OrderManager =
  order_id :: string
  order_update_id :: uint32
  last_node_id :: string
  last_node_sequence_id :: seq_id
  om_graph :: "Graph option"
  action_by_id :: "(string, Action) std_map"
  action_state_by_id :: "(string, ActionStateMsg) std_map"
  order_status :: OrderStatus

type_synonym 'a om = "(OrderManager, 'a) comp"

definition OrderManager_new :: OrderManager where
  "OrderManager_new =
     \<lparr>order_id = [], order_update_id = 0, last_node_id = [], last_node_sequence_id = 0,
      om_graph = None, action_by_id = [], action_state_by_id = [], order_status = k_order_idle\<rparr>"

text \<open>The part of the state message that the order manager fills in.\<close>

record OrderPart =
  st_orderId :: string
  st_orderUpdateId :: uint32
  st_paused :: bool
  st_lastNodeId :: string
  st_lastNodeSequenceId :: seq_id
  st_actionStates :: "ActionStateMsg list"
  st_nodeStates :: "NodeState list"
  st_edgeStates :: "EdgeState list"

section \<open>Actions\<close>

definition new_action_state :: "Action \<Rightarrow> ActionStateMsg" where
  "new_action_state a =
     \<lparr>as_actionId = actionId a, as_actionType = actionType a,
      as_actionDescription = actionDescription a, as_actionStatus = WAITING,
      as_resultDescription = None\<rparr>"

definition addNewAction_locked :: "bool \<Rightarrow> Action option \<Rightarrow> unit om" where
  "addNewAction_locked lock_held action =
     (if \<not> lock_held then throw VDA5050PPInvalidArgument
      else case action of
        None \<Rightarrow> throw VDA5050PPNullPointer
      | Some a \<Rightarrow>
          bindM (gets (\<lambda>m. map_of (action_by_id m) (actionId a))) (\<lambda>old.
          if old \<noteq> None then throw VDA5050PPInvalidArgument
          else
            seqM (modify (\<lambda>m. m\<lparr>action_by_id := try_emplace (actionId a) a (action_by_id m)\<rparr>))
            (bindM (gets (\<lambda>m. map_of (action_state_by_id m) (actionId a))) (\<lambda>old_state.
             if old_state \<noteq> None then throw VDA5050PPInvalidArgument
             else modify (\<lambda>m. m\<lparr>action_state_by_id :=
                    try_emplace (actionId a) (new_action_state a) (action_state_by_id m)\<rparr>)))))"

definition addNewAction :: "Action option \<Rightarrow> unit om" where
  "addNewAction action = addNewAction_locked True action"

definition getAction :: "string \<Rightarrow> Action om" where
  "getAction i =
     bindM (gets (\<lambda>m. map_of (action_by_id m) i)) (\<lambda>r.
     case r of None \<Rightarrow> throw VDA5050PPInvalidArgument | Some a \<Rightarrow> ret a)"

definition tryGetAction :: "string \<Rightarrow> Action option om" where
  "tryGetAction i = gets (\<lambda>m. map_of (action_by_id m) i)"

definition getActionState :: "string \<Rightarrow> ActionStateMsg om" where
  "getActionState i =
     bindM (gets (\<lambda>m. map_of (action_state_by_id m) i)) (\<lambda>r.
     case r of None \<Rightarrow> throw VDA5050PPInvalidArgument | Some a \<Rightarrow> ret a)"

definition tryGetActionState :: "string \<Rightarrow> ActionStateMsg option om" where
  "tryGetActionState i = gets (\<lambda>m. map_of (action_state_by_id m) i)"

text \<open>Only the status of a waiting action changes; the map's order and keys stay.\<close>

definition fail_if_waiting :: "ActionStateMsg \<Rightarrow> ActionStateMsg" where
  "fail_if_waiting st = (if as_actionStatus st = WAITING then st\<lparr>as_actionStatus := FAILED\<rparr> else st)"

definition cancelWaitingActions :: "unit om" where
  "cancelWaitingActions =
     modify (\<lambda>m. m\<lparr>action_state_by_id := map (\<lambda>(i, st). (i, fail_if_waiting st)) (action_state_by_id m)\<rparr>)"

definition clearActions :: "unit om" where
  "clearActions = modify (\<lambda>m. m\<lparr>action_state_by_id := [], action_by_id := []\<rparr>)"

section \<open>Order id and status\<close>

definition getOrderId :: "(string \<times> uint32) om" where
  "getOrderId = gets (\<lambda>m. (order_id m, order_update_id m))"

definition getOrderStatus :: "OrderStatus om" where
  "getOrderStatus = gets order_status"

definition setOrderStatus :: "OrderStatus \<Rightarrow> unit om" where
  "setOrderStatus st = modify (\<lambda>m. m\<lparr>order_status := st\<rparr>)"

section \<open>The graph\<close>

text \<open>The log line reads the bounds of both graphs before anything else.\<close>

definition extendGraph_locked :: "bool \<Rightarrow> Graph \<Rightarrow> (seq_id \<times> seq_id) om" where
  "extendGraph_locked lock_held extension =
     (if \<not> lock_held then throw VDA5050PPInvalidArgument
      else
        bindM (gets om_graph) (\<lambda>og.
        seqM (liftE (case og of None \<Rightarrow> Inr (0, 0) | Some g \<Rightarrow> bounds g))
        (seqM (liftE (bounds extension))
        (case og of
           None \<Rightarrow> throw VDA5050PPInvalidArgument
         | Some g \<Rightarrow>
             bindM (liftE (Graph.extend extension g)) (\<lambda>(delta, g').
             seqM (modify (\<lambda>m. m\<lparr>om_graph := Some g'\<rparr>)) (ret delta))))))"

definition extendGraph :: "Graph \<Rightarrow> (seq_id \<times> seq_id) om" where
  "extendGraph extension = extendGraph_locked True extension"

definition extendGraph_update_locked :: "bool \<Rightarrow> Graph \<Rightarrow> uint32 \<Rightarrow> (seq_id \<times> seq_id) om" where
  "extendGraph_update_locked lock_held extension update_id =
     (if \<not> lock_held then throw VDA5050PPInvalidArgument
      else seqM (modify (\<lambda>m. m\<lparr>order_update_id := update_id\<rparr>))
             (extendGraph_locked lock_held extension))"

definition extendGraph_update :: "Graph \<Rightarrow> uint32 \<Rightarrow> (seq_id \<times> seq_id) om" where
  "extendGraph_update extension update_id = extendGraph_update_locked True extension update_id"

definition replaceGraph_locked :: "bool \<Rightarrow> Graph \<Rightarrow> string \<Rightarrow> unit om" where
  "replaceGraph_locked lock_held new_graph new_order_id =
     (if \<not> lock_held then throw VDA5050PPInvalidArgument
      else
        seqM (liftE (bounds new_graph))
        (seqM (modify (\<lambda>m. m\<lparr>om_graph := Some new_graph, order_id := new_order_id,
                            order_update_id := 0\<rparr>))
        (bindM (liftE (setAgvLastNodeSequenceId 0 new_graph)) (\<lambda>g'.
         modify (\<lambda>m. m\<lparr>om_graph := Some g'\<rparr>)))))"

definition replaceGraph :: "Graph \<Rightarrow> string \<Rightarrow> unit om" where
  "replaceGraph new_graph new_order_id =
     seqM (modify (\<lambda>m. m\<lparr>last_node_sequence_id := 0\<rparr>))
       (replaceGraph_locked True new_graph new_order_id)"

definition getCurrentGraph :: "Graph om" where
  "getCurrentGraph =
     bindM (gets om_graph) (\<lambda>og.
     case og of None \<Rightarrow> throw VDA5050PPInvalidArgument | Some g \<Rightarrow> ret g)"

definition hasGraph :: "bool om" where
  "hasGraph = gets (\<lambda>m. om_graph m \<noteq> None)"

definition setAGVLastNode :: "seq_id \<Rightarrow> unit om" where
  "setAGVLastNode agv_seq_id =
     bindM (gets om_graph) (\<lambda>og.
     case og of
       None \<Rightarrow> throw VDA5050PPInvalidArgument
     | Some g \<Rightarrow>
         bindM (liftE (setAgvLastNodeSequenceId agv_seq_id g)) (\<lambda>g1.
         seqM (modify (\<lambda>m. m\<lparr>om_graph := Some g1\<rparr>))
         (bindM (liftE (trim g1)) (\<lambda>g2.
         seqM (modify (\<lambda>m. m\<lparr>om_graph := Some g2\<rparr>))
         (bindM (liftE (agvPosition g2)) (\<lambda>p.
         seqM (modify (\<lambda>m. m\<lparr>last_node_sequence_id := p\<rparr>))
         (bindM (liftE (Graph_at p g2)) (\<lambda>el.
         modify (\<lambda>m. m\<lparr>last_node_id := getId el\<rparr>)))))))))"

definition setAGVLastNodeId :: "string \<Rightarrow> bool om" where
  "setAGVLastNodeId i =
     bindM (gets (\<lambda>m. last_node_id m \<noteq> i)) (\<lambda>changed.
     seqM (modify (\<lambda>m. m\<lparr>last_node_id := i\<rparr>)) (ret changed))"

definition clearGraph :: "unit om" where
  "clearGraph = modify (\<lambda>m. m\<lparr>om_graph := None\<rparr>)"

section \<open>The state message\<close>

definition OrderManager_dumpTo :: "OrderPart \<Rightarrow> OrderPart om" where
  "OrderManager_dumpTo st =
     gets (\<lambda>m.
       let (ns, es) =
         (case om_graph m of
            None \<Rightarrow> (st_nodeStates st, st_edgeStates st)
          | Some g \<Rightarrow> Graph_dumpTo g True (st_nodeStates st, st_edgeStates st))
       in st\<lparr>st_orderId := order_id m, st_orderUpdateId := order_update_id m,
             st_paused := (order_status m = k_order_paused \<or> order_status m = k_order_resuming),
             st_lastNodeId := last_node_id m, st_lastNodeSequenceId := last_node_sequence_id m,
             st_actionStates := st_actionStates st @ map snd (action_state_by_id m),
             st_nodeStates := ns, st_edgeStates := es\<rparr>)"

section \<open>The invariant\<close>

text \<open>
  Every action has exactly one state and the other way round, filed under its id; the graph
  satisfies its class invariants.
\<close>

definition om_inv :: "OrderManager \<Rightarrow> bool" where
  "om_inv m \<longleftrightarrow>
     wf_map (action_by_id m) \<and> wf_map (action_state_by_id m) \<and>
     map fst (action_by_id m) = map fst (action_state_by_id m) \<and>
     (\<forall>(i, a) \<in> set (action_by_id m). actionId a = i) \<and>
     (\<forall>(i, st) \<in> set (action_state_by_id m). as_actionId st = i) \<and>
     (case om_graph m of None \<Rightarrow> True | Some g \<Rightarrow> graph_inv g)"

lemma om_inv_graph: "om_inv m \<Longrightarrow> om_graph m = Some g \<Longrightarrow> graph_inv g"
  by (simp add: om_inv_def)

lemma om_inv_set_graph:
  "om_inv m \<Longrightarrow> (case og of None \<Rightarrow> True | Some g \<Rightarrow> graph_inv g) \<Longrightarrow> om_inv (m\<lparr>om_graph := og\<rparr>)"
  by (simp add: om_inv_def)

lemma om_inv_fields [simp]:
  "om_inv (m\<lparr>order_id := a\<rparr>) = om_inv m" "om_inv (m\<lparr>order_update_id := b\<rparr>) = om_inv m"
  "om_inv (m\<lparr>last_node_id := a\<rparr>) = om_inv m" "om_inv (m\<lparr>last_node_sequence_id := c\<rparr>) = om_inv m"
  "om_inv (m\<lparr>order_status := d\<rparr>) = om_inv m"
  by (simp_all add: om_inv_def)

text \<open>\<^verbatim>\<open>try_emplace\<close> of a new key inserts it at the position that its order gives, in any map.\<close>

lemma keys_insert_new:
  "map fst m = map fst n \<Longrightarrow>
   map fst (insert_or_assign k v m) = map fst (insert_or_assign k w n)"
proof (induction k v m arbitrary: n rule: insert_or_assign.induct)
  case (1 k v)
  then show ?case by simp
next
  case (2 k v a b m)
  then obtain c n' where "n = (a, c) # n'" "map fst m = map fst n'"
    by (cases n) auto
  then show ?case using 2 by simp
qed

lemma map_of_same_keys: "map fst m = map fst n \<Longrightarrow> map_of m k = None \<longleftrightarrow> map_of n k = None"
  by (metis list.set_map map_of_eq_None_iff)

lemma set_try_emplace_new:
  assumes "wf_map m" and "map_of m k = None"
  shows "set (try_emplace k v m) = insert (k, v) (set m)"
proof -
  have "k \<notin> fst ` set m" using assms(2) by (simp add: map_of_eq_None_iff)
  then have "{p \<in> set m. fst p \<noteq> k} = set m" by auto
  then show ?thesis using assms by (simp add: try_emplace_def set_insert_or_assign_wf)
qed

lemma map_of_try_emplace_new:
  "wf_map m \<Longrightarrow> map_of m k = None \<Longrightarrow> map_of (try_emplace k v m) = (map_of m)(k \<mapsto> v)"
  by (simp add: try_emplace_def fun_eq_iff map_of_insert_or_assign)

text \<open>Adding an action: the three outcomes.\<close>

lemma addNewAction_known:
  "map_of (action_by_id m) (actionId a) \<noteq> None \<Longrightarrow>
   addNewAction (Some a) m = (Inl VDA5050PPInvalidArgument, m)"
  by (simp add: addNewAction_def addNewAction_locked_def run_simps)

lemma addNewAction_null: "addNewAction None m = (Inl VDA5050PPNullPointer, m)"
  by (simp add: addNewAction_def addNewAction_locked_def run_simps)

lemma addNewAction_new:
  assumes "om_inv m" and "map_of (action_by_id m) (actionId a) = None"
  defines "t \<equiv> m\<lparr>action_by_id := try_emplace (actionId a) a (action_by_id m),
     action_state_by_id := try_emplace (actionId a) (new_action_state a) (action_state_by_id m)\<rparr>"
  shows "addNewAction (Some a) m = (Inr (), t)" and "om_inv t"
    and "map_of (action_by_id t) = (map_of (action_by_id m))(actionId a \<mapsto> a)"
    and "map_of (action_state_by_id t) =
      (map_of (action_state_by_id m))(actionId a \<mapsto> new_action_state a)"
proof -
  let ?A = "try_emplace (actionId a) a (action_by_id m)"
  let ?S = "try_emplace (actionId a) (new_action_state a) (action_state_by_id m)"
  have inv: "wf_map (action_by_id m)" "wf_map (action_state_by_id m)"
    "map fst (action_by_id m) = map fst (action_state_by_id m)"
    using assms(1) by (simp_all add: om_inv_def)
  have none: "map_of (action_state_by_id m) (actionId a) = None"
    using map_of_same_keys [OF inv(3)] assms(2) by simp
  show "addNewAction (Some a) m = (Inr (), t)"
    using assms(2) none by (simp add: addNewAction_def addNewAction_locked_def run_simps t_def)
  show "map_of (action_by_id t) = (map_of (action_by_id m))(actionId a \<mapsto> a)"
    and "map_of (action_state_by_id t) =
      (map_of (action_state_by_id m))(actionId a \<mapsto> new_action_state a)"
    using inv(1,2) assms(2) none by (simp_all add: t_def map_of_try_emplace_new)
  have keys: "map fst ?A = map fst ?S"
    using assms(2) none keys_insert_new [OF inv(3)] by (simp add: try_emplace_def)
  have wf: "wf_map ?A" "wf_map ?S"
    using assms(2) none inv(1,2) by (simp_all add: try_emplace_def wf_insert_or_assign)
  have sets: "set ?A = insert (actionId a, a) (set (action_by_id m))"
    "set ?S = insert (actionId a, new_action_state a) (set (action_state_by_id m))"
    by (rule set_try_emplace_new [OF inv(1) assms(2)], rule set_try_emplace_new [OF inv(2) none])
  have old: "\<forall>(i, a) \<in> set (action_by_id m). actionId a = i"
    "\<forall>(i, st) \<in> set (action_state_by_id m). as_actionId st = i"
    "case om_graph m of None \<Rightarrow> True | Some g \<Rightarrow> graph_inv g"
    using assms(1) unfolding om_inv_def by blast+
  have new: "\<forall>(i, a) \<in> set ?A. actionId a = i" "\<forall>(i, st) \<in> set ?S. as_actionId st = i"
    using old(1,2) unfolding sets by (auto simp: new_action_state_def)
  have f: "action_by_id t = ?A" "action_state_by_id t = ?S" "om_graph t = om_graph m"
    by (simp_all add: t_def)
  show "om_inv t" unfolding om_inv_def f by (intro conjI wf keys new old(3))
qed

section \<open>Preservation\<close>

text \<open>Rewriting the states in place, without touching their ids.\<close>

lemma om_inv_map_states:
  assumes "om_inv m" and "\<And>i st. as_actionId (f i st) = as_actionId st"
  shows "om_inv (m\<lparr>action_state_by_id := map (\<lambda>(i, st). (i, f i st)) (action_state_by_id m)\<rparr>)"
proof -
  define xs where "xs = map (\<lambda>(i, st). (i, f i st)) (action_state_by_id m)"
  have "map fst (map (\<lambda>(i, st). (i, f i st)) ys) = map fst ys" for ys by (induction ys) auto
  then have "map fst xs = map fst (action_state_by_id m)" by (simp only: xs_def)
  moreover have "\<forall>(i, st) \<in> set xs. as_actionId st = i"
    using assms by (auto simp: om_inv_def xs_def)
  ultimately show ?thesis
    using assms(1) by (simp add: om_inv_def wf_map_def flip: xs_def)
qed

lemma om_inv_cancelWaiting: "om_inv m \<Longrightarrow> om_inv (snd (cancelWaitingActions m))"
  by (simp add: cancelWaitingActions_def run_simps om_inv_map_states fail_if_waiting_def)

lemma replaceGraph_inv:
  assumes "om_inv m" and "graph_inv g"
  shows "om_inv (snd (replaceGraph g i m))"
proof -
  have "graph_inv g'" if "setAgvLastNodeSequenceId 0 g = Inr g'" for g'
    using assms(2) that by (auto simp: setAgv_spec graph_inv_def)
  moreover have "om_inv (m\<lparr>om_graph := Some h\<rparr>)" if "graph_inv h" for h
    using assms(1) that by (simp add: om_inv_def)
  ultimately show ?thesis
    using assms by (auto simp: replaceGraph_def replaceGraph_locked_def run_simps bounds_def om_inv_def
        split: sum.split)
qed

end
