(* ===== verification/ActionParameters.thy ===== *)
theory ActionParameters
  imports Types
begin

text \<open>
  \<^verbatim>\<open>misc/action_parameter_view\<close>: typed access to the string parameters of an action, with the
  parts of the standard library it is made of, \<^verbatim>\<open>std::to_string\<close> for integers and \<^verbatim>\<open>std::stol\<close>
  (base 10, a 64-bit \<^verbatim>\<open>long\<close>). The conversion to floating point, \<^verbatim>\<open>std::stod\<close>, is an argument of the
  functions that use it: its result is a bit pattern here.
\<close>

section \<open>Decimal numbers\<close>

definition digit_char :: "nat \<Rightarrow> char" where
  "digit_char d = char_of (48 + d)"

definition is_digit :: "char \<Rightarrow> bool" where
  "is_digit c \<longleftrightarrow> 48 \<le> (of_char c :: nat) \<and> (of_char c :: nat) \<le> 57"

definition digit_value :: "char \<Rightarrow> nat" where
  "digit_value c = of_char c - 48"

fun nat_to_string :: "nat \<Rightarrow> string" where
  "nat_to_string n =
     (if n < 10 then [digit_char n] else nat_to_string (n div 10) @ [digit_char (n mod 10)])"

declare nat_to_string.simps [simp del]

definition to_string :: "int \<Rightarrow> string" where
  "to_string i = (if i < 0 then CHR ''-'' # nat_to_string (nat (- i)) else nat_to_string (nat i))"

definition digits_value :: "string \<Rightarrow> nat" where
  "digits_value ds = foldl (\<lambda>v c. 10 * v + digit_value c) 0 ds"

definition is_space :: "char \<Rightarrow> bool" where
  "is_space c \<longleftrightarrow> (of_char c :: nat) = 32 \<or> (9 \<le> (of_char c :: nat) \<and> (of_char c :: nat) \<le> 13)"

definition int64_min :: int where "int64_min = - (2 ^ 63)"
definition int64_max :: int where "int64_max = 2 ^ 63 - 1"

datatype sto_error = std_invalid_argument | std_out_of_range

text \<open>
  \<^verbatim>\<open>std::stol(s, &pos)\<close>: leading white space, an optional sign, digits. It reads a C string, so it
  ends at a zero character. The result has the number of characters read.
\<close>

definition c_str :: "string \<Rightarrow> string" where
  "c_str s = takeWhile (\<lambda>c. of_char c \<noteq> (0 :: nat)) s"

fun split_sign :: "string \<Rightarrow> bool \<times> nat \<times> string" where
  "split_sign [] = (False, 0, [])"
| "split_sign (c # cs) =
     (if c = CHR ''-'' then (True, 1, cs)
      else if c = CHR ''+'' then (False, 1, cs)
      else (False, 0, c # cs))"

definition stol :: "string \<Rightarrow> sto_error + int \<times> nat" where
  "stol s =
     (let ws = takeWhile is_space (c_str s);
          (neg, sign, rest) = split_sign (dropWhile is_space (c_str s));
          ds = takeWhile is_digit rest;
          v = (if neg then - int (digits_value ds) else int (digits_value ds))
      in if ds = [] then Inl std_invalid_argument
         else if v < int64_min \<or> int64_max < v then Inl std_out_of_range
         else Inr (v, length ws + sign + length ds))"

section \<open>\<^verbatim>\<open>ActionParameterValueView\<close>\<close>

definition true_values :: "string set" where
  "true_values =
     {''true'', ''True'', ''TRUE'', ''1'', ''yes'', ''Yes'', ''YES'', ''on'', ''On'', ''ON''}"

definition false_values :: "string set" where
  "false_values =
     {''false'', ''False'', ''FALSE'', ''0'', ''no'', ''No'', ''NO'', ''off'', ''Off'', ''OFF''}"

definition parseBool :: "string \<Rightarrow> bool option" where
  "parseBool v =
     (if v \<in> true_values then Some True else if v \<in> false_values then Some False else None)"

definition value_getInt :: "string \<Rightarrow> exn + int" where
  "value_getInt v =
     (case stol v of
        Inl _ \<Rightarrow> Inl VDA5050PPInvalidActionParameterType
      | Inr (parsed, pos) \<Rightarrow>
          if pos \<noteq> length v then Inl VDA5050PPInvalidActionParameterType else Inr parsed)"

definition value_tryGetInt :: "string \<Rightarrow> int option" where
  "value_tryGetInt v =
     (case stol v of
        Inl _ \<Rightarrow> None
      | Inr (parsed, pos) \<Rightarrow> if pos \<noteq> length v then None else Some parsed)"

type_synonym stod = "string \<Rightarrow> sto_error + double"

definition value_getFloat :: "stod \<Rightarrow> string \<Rightarrow> exn + double" where
  "value_getFloat stod v =
     (case stod v of Inl _ \<Rightarrow> Inl VDA5050PPInvalidActionParameterType | Inr d \<Rightarrow> Inr d)"

definition value_tryGetFloat :: "stod \<Rightarrow> string \<Rightarrow> double option" where
  "value_tryGetFloat stod v = (case stod v of Inl _ \<Rightarrow> None | Inr d \<Rightarrow> Some d)"

definition value_getBool :: "string \<Rightarrow> exn + bool" where
  "value_getBool v =
     (case parseBool v of None \<Rightarrow> Inl VDA5050PPInvalidActionParameterType | Some b \<Rightarrow> Inr b)"

definition value_tryGetBool :: "string \<Rightarrow> bool option" where
  "value_tryGetBool v = parseBool v"

section \<open>\<^verbatim>\<open>ActionParameterView\<close>\<close>

type_synonym parameters = "(string \<times> string) list"

definition lookupActionParameter :: "parameters \<Rightarrow> string \<Rightarrow> string option" where
  "lookupActionParameter ps key = map_option snd (List.find (\<lambda>p. fst p = key) ps)"

definition view_get :: "parameters \<Rightarrow> string \<Rightarrow> exn + string" where
  "view_get ps key =
     (case lookupActionParameter ps key of
        None \<Rightarrow> Inl VDA5050PPInvalidActionParameterKey
      | Some v \<Rightarrow> Inr v)"

definition view_tryGet :: "parameters \<Rightarrow> string \<Rightarrow> string option" where
  "view_tryGet ps key = lookupActionParameter ps key"

definition view_getInt :: "parameters \<Rightarrow> string \<Rightarrow> exn + int" where
  "view_getInt ps key = (case view_get ps key of Inl e \<Rightarrow> Inl e | Inr v \<Rightarrow> value_getInt v)"

definition view_tryGetInt :: "parameters \<Rightarrow> string \<Rightarrow> int option" where
  "view_tryGetInt ps key = (case view_tryGet ps key of None \<Rightarrow> None | Some v \<Rightarrow> value_tryGetInt v)"

definition view_getFloat :: "stod \<Rightarrow> parameters \<Rightarrow> string \<Rightarrow> exn + double" where
  "view_getFloat stod ps key =
     (case view_get ps key of Inl e \<Rightarrow> Inl e | Inr v \<Rightarrow> value_getFloat stod v)"

definition view_tryGetFloat :: "stod \<Rightarrow> parameters \<Rightarrow> string \<Rightarrow> double option" where
  "view_tryGetFloat stod ps key =
     (case view_tryGet ps key of None \<Rightarrow> None | Some v \<Rightarrow> value_tryGetFloat stod v)"

definition view_getBool :: "parameters \<Rightarrow> string \<Rightarrow> exn + bool" where
  "view_getBool ps key = (case view_get ps key of Inl e \<Rightarrow> Inl e | Inr v \<Rightarrow> value_getBool v)"

definition view_tryGetBool :: "parameters \<Rightarrow> string \<Rightarrow> bool option" where
  "view_tryGetBool ps key = (case view_tryGet ps key of None \<Rightarrow> None | Some v \<Rightarrow> value_tryGetBool v)"

section \<open>Printing and parsing\<close>

lemma digit_char_code: "d < 10 \<Longrightarrow> of_char (digit_char d) = 48 + d"
  by (simp add: digit_char_def of_char_of)

lemma digit_char_simps [simp]:
  "d < 10 \<Longrightarrow> is_digit (digit_char d)" "d < 10 \<Longrightarrow> digit_value (digit_char d) = d"
  by (simp_all add: is_digit_def digit_value_def digit_char_code)

lemma digits_value_append [simp]: "digits_value (ds @ [c]) = 10 * digits_value ds + digit_value c"
  by (simp add: digits_value_def)

lemma nat_to_string_digits: "\<forall>c \<in> set (nat_to_string n). is_digit c"
  by (induction n rule: nat_to_string.induct) (subst nat_to_string.simps, auto)

lemma nat_to_string_nonempty [simp]: "nat_to_string n \<noteq> []"
  by (subst nat_to_string.simps) simp

lemma digits_value_nat_to_string [simp]: "digits_value (nat_to_string n) = n"
proof (induction n rule: nat_to_string.induct)
  case (1 n)
  show ?case
  proof (cases "n < 10")
    case True
    then show ?thesis by (simp add: nat_to_string.simps [of n] digits_value_def)
  next
    case False
    then show ?thesis using 1 by (simp add: nat_to_string.simps [of n])
  qed
qed

lemma is_digit_not:
  "is_digit c \<Longrightarrow> \<not> is_space c" "is_digit c \<Longrightarrow> of_char c \<noteq> (0 :: nat)"
  "\<not> is_digit CHR ''-''" "\<not> is_digit CHR ''+''" "\<not> is_space CHR ''-''"
  by (auto simp: is_digit_def is_space_def)

lemma takeWhile_digits:
  assumes "\<forall>c \<in> set ds. is_digit c"
  shows "takeWhile is_digit ds = ds" and "c_str ds = ds"
    and "takeWhile is_space ds = []" and "dropWhile is_space ds = ds"
    and "split_sign ds = (False, 0, ds)"
  using assms is_digit_not(2)
  by (simp_all add: c_str_def takeWhile_eq_all_conv)
    (cases ds, use is_digit_not in auto)+

text \<open>A digit string with or without a minus sign, read by \<^verbatim>\<open>stol\<close>.\<close>

lemma stol_digits:
  assumes "\<forall>c \<in> set ds. is_digit c" and "ds \<noteq> []" and "int (digits_value ds) \<le> int64_max"
  shows "stol ds = Inr (int (digits_value ds), length ds)"
proof -
  have "\<not> int (digits_value ds) < int64_min" by (simp add: int64_min_def)
  then show ?thesis
    using assms(2,3) by (simp add: stol_def takeWhile_digits [OF assms(1)])
qed

lemma stol_negative:
  assumes "\<forall>c \<in> set ds. is_digit c" and "ds \<noteq> []" and "int64_min \<le> - int (digits_value ds)"
  shows "stol (CHR ''-'' # ds) = Inr (- int (digits_value ds), Suc (length ds))"
proof -
  have "c_str (CHR ''-'' # ds) = CHR ''-'' # ds"
    using takeWhile_digits(2) [OF assms(1)] by (simp add: c_str_def)
  moreover have "\<not> int64_max < - int (digits_value ds)" by (simp add: int64_max_def)
  ultimately show ?thesis
    using assms(2,3) is_digit_not(5) by (simp add: stol_def takeWhile_digits [OF assms(1)])
qed

lemma stol_to_string:
  assumes "int64_min \<le> i" and "i \<le> int64_max"
  shows "stol (to_string i) = Inr (i, length (to_string i))"
  using assms stol_digits [OF nat_to_string_digits nat_to_string_nonempty, of "nat i"]
    stol_negative [OF nat_to_string_digits nat_to_string_nonempty, of "nat (- i)"]
  by (simp add: to_string_def)

lemma stol_range: "stol v = Inr (i, pos) \<Longrightarrow> int64_min \<le> i \<and> i \<le> int64_max"
  by (auto simp: stol_def Let_def not_less split: if_splits prod.splits)

lemma digits_value_out_of_range:
  "int64_max < i \<Longrightarrow> stol (to_string i) = Inl std_out_of_range"
  "i < int64_min \<Longrightarrow> stol (to_string i) = Inl std_out_of_range"
proof -
  note digits = nat_to_string_digits takeWhile_digits [OF nat_to_string_digits]
  show "stol (to_string i) = Inl std_out_of_range" if "int64_max < i"
  proof -
    have i: "0 \<le> i" using that by (simp add: int64_max_def)
    then have "to_string i = nat_to_string (nat i)" by (simp add: to_string_def)
    then show ?thesis using that i by (simp add: stol_def digits)
  qed
  show "stol (to_string i) = Inl std_out_of_range" if "i < int64_min"
  proof -
    have i: "i < 0" using that by (simp add: int64_min_def)
    have "c_str (CHR ''-'' # nat_to_string (nat (- i))) = CHR ''-'' # nat_to_string (nat (- i))"
      using digits(3) by (simp add: c_str_def)
    then show ?thesis using that i is_digit_not(5) by (simp add: to_string_def stol_def digits)
  qed
qed

section \<open>Properties\<close>

text \<open>An integer parameter that was printed in decimal is read back unchanged when it fits
  into 64 bits; every other integer is rejected with the parameter type error.\<close>

theorem integer_parameter_roundtrip:
  "value_getInt (to_string i) =
     (if int64_min \<le> i \<and> i \<le> int64_max then Inr i else Inl VDA5050PPInvalidActionParameterType)"
  using stol_to_string [of i] digits_value_out_of_range [of i]
  by (auto simp: value_getInt_def not_le)

end
