(* ===== verification/OrderChecks.thy ===== *)
theory OrderChecks
  imports OrderManager ActionParameters
begin

text \<open>
  \<^verbatim>\<open>core/checks/order.cpp\<close>, \<^verbatim>\<open>core/checks/header.cpp\<close> and the id check of
  \<^verbatim>\<open>core/checks/action.cpp\<close>: what makes an order acceptable. A check returns the list of errors
  it found. The order manager it consults is an argument; a query of it that throws makes the
  check throw.
\<close>

section \<open>Errors\<close>

text \<open>
  \<^verbatim>\<open>vda5050::Error\<close>. Some errors are built member by member and never get a level: \<open>None\<close> stands
  for the indeterminate value.
\<close>

datatype ErrorLevel = WARNING | FATAL

record Error =
  errorType :: string
  errorReferences :: "(string \<times> string) list option"
  errorDescription :: string
  errorLevel :: "ErrorLevel option"

definition mk_error :: "string \<Rightarrow> (string \<times> string) list \<Rightarrow> string \<Rightarrow> Error" where
  "mk_error t refs d =
     \<lparr>errorType = t, errorReferences = Some refs, errorDescription = d, errorLevel = Some WARNING\<rparr>"

definition word_string :: "uint32 \<Rightarrow> string" where
  "word_string w = to_string (uint w)"

section \<open>Graph consistency\<close>

definition order_refs :: "Order \<Rightarrow> (string \<times> string) list" where
  "order_refs order =
     [(''order.orderId'', o_orderId order),
      (''order.orderUpdateId'', word_string (o_orderUpdateId order))]"

definition node_refs :: "Order \<Rightarrow> Node \<Rightarrow> (string \<times> string) list" where
  "node_refs order n =
     order_refs order @ [(''node.nodeId'', n_nodeId n), (''node.sequenceId'', word_string (n_sequenceId n))]"

definition edge_refs :: "Order \<Rightarrow> Edge \<Rightarrow> (string \<times> string) list" where
  "edge_refs order e =
     order_refs order @ [(''edge.edgeId'', e_edgeId e), (''edge.sequenceId'', word_string (e_sequenceId e))]"

text \<open>The two loops, over the sequence ids found so far: \<^verbatim>\<open>found_base\<close> and \<^verbatim>\<open>found_horz\<close>.\<close>

fun check_node_ids :: "Order \<Rightarrow> Node list \<Rightarrow> seq_id set \<times> seq_id set \<Rightarrow> Error + seq_id set \<times> seq_id set" where
  "check_node_ids order [] found = Inr found"
| "check_node_ids order (n # ns) (base, horz) =
     (if n_sequenceId n mod 2 = 1
      then Inl (mk_error ''orderError'' (node_refs order n)
        ''The order contains a node with an odd sequence id'')
      else if n_sequenceId n \<in> base \<or> n_sequenceId n \<in> horz
      then Inl (mk_error ''orderError'' (node_refs order n)
        ''The order contains duplicate sequence ids'')
      else check_node_ids order ns
        (if n_released n then (insert (n_sequenceId n) base, horz)
         else (base, insert (n_sequenceId n) horz)))"

fun check_edge_ids :: "Order \<Rightarrow> Edge list \<Rightarrow> seq_id set \<times> seq_id set \<Rightarrow> Error + seq_id set \<times> seq_id set" where
  "check_edge_ids order [] found = Inr found"
| "check_edge_ids order (e # es) (base, horz) =
     (if e_sequenceId e mod 2 = 0
      then Inl (mk_error ''orderError'' (edge_refs order e)
        ''The order contains a edge with an even sequence id'')
      else if e_sequenceId e \<in> base \<or> e_sequenceId e \<in> horz
      then Inl (mk_error ''orderError'' (edge_refs order e)
        ''The order contains duplicate sequence ids'')
      else check_edge_ids order es
        (if e_released e then (insert (e_sequenceId e) base, horz)
         else (base, insert (e_sequenceId e) horz)))"

definition checkOrderGraphConsistency :: "Order \<Rightarrow> Error list" where
  "checkOrderGraphConsistency order =
     (if o_nodes order = []
      then [mk_error ''orderError'' (order_refs order) ''This order does not contain any nodes'']
      else
        case check_node_ids order (o_nodes order) ({}, {}) of
          Inl err \<Rightarrow> [err]
        | Inr found \<Rightarrow>
            (case check_edge_ids order (o_edges order) found of
               Inl err \<Rightarrow> [err]
             | Inr (base, horz) \<Rightarrow>
                 let (max_seq, min_seq) =
                   (if base = {} then (Max horz, Min horz)
                    else if horz = {} then (Max base, Min base)
                    else (max (Max base) (Max horz), min (Min base) (Min horz)))
                 in if unat (max_seq - min_seq + 1) \<noteq> card base + card horz
                    then [mk_error ''orderError'' (order_refs order) ''The order skips sequence ids'']
                    else if horz \<noteq> {} \<and> base \<noteq> {} \<and> Min horz \<le> Max base
                    then [mk_error ''orderError'' (order_refs order)
                      ''The order contains a horizon sequence id smaller then a base sequence id'']
                    else []))"

section \<open>Order id and stitching\<close>

definition checkOrderId :: "OrderManager \<Rightarrow> Order \<Rightarrow> Error list" where
  "checkOrderId om order =
     (let i = order_id om; update_id = order_update_id om in
      if i = o_orderId order \<and> o_orderUpdateId order < update_id
      then [mk_error ''orderUpdateError''
        [(''state.orderId'', i), (''state.orderUpdateId'', word_string update_id),
         (''order.orderId'', o_orderId order),
         (''order.orderUpdateId'', word_string (o_orderUpdateId order))]
        ''6.6.4.3 - Cannot accept decreasing orderUpdateId'']
      else [])"

text \<open>\<^verbatim>\<open>std::min_element\<close>: the first of the smallest.\<close>

fun min_node :: "Node \<Rightarrow> Node list \<Rightarrow> Node" where
  "min_node m [] = m"
| "min_node m (n # ns) = min_node (if n_sequenceId n < n_sequenceId m then n else m) ns"

definition checkOrderAppend :: "OrderManager \<Rightarrow> Order \<Rightarrow> exn + Error list" where
  "checkOrderAppend om order =
     (let i = order_id om; update_id = order_update_id om in
      if o_orderId order = i \<and> o_orderUpdateId order \<le> update_id then Inr []
      else
        let may_replace = (order_status om = k_order_idle \<or> order_status om = k_order_idle_paused) in
        if \<not> may_replace \<and> o_orderId order \<noteq> i
        then Inr [mk_error ''orderUpdateError''
          [(''order.orderId'', o_orderId order), (''state.orderId'', i)]
          ''Order ID does not match the current (unfinished) one'']
        else
          case o_nodes order of
            [] \<Rightarrow> Inr []
          | n # ns \<Rightarrow>
              let min_seq = n_sequenceId (min_node n ns) in
              (case (case om_graph om of
                       None \<Rightarrow> Inr 0
                     | Some g \<Rightarrow> (case baseBounds g of Inl x \<Rightarrow> Inl x | Inr (_, l) \<Rightarrow> Inr l)) of
                 Inl x \<Rightarrow> Inl x
               | Inr base_last \<Rightarrow>
                   if \<not> (base_last = min_seq \<or> (may_replace \<and> min_seq = 0))
                   then Inr [mk_error ''orderUpdateError''
                     [(''order.orderId'', o_orderId order),
                      (''order.orderUpdateId'', word_string (o_orderUpdateId order)),
                      (''order.node.sequenceId'', word_string min_seq),
                      (''state.baseSequenceId'', word_string base_last)]
                     ''Could not stitch order due to invalid sequence ids'']
                   else Inr []))"

section \<open>Action ids\<close>

definition uniqueActionId :: "OrderManager \<Rightarrow> Action \<Rightarrow> string set \<Rightarrow> Error list \<times> string set" where
  "uniqueActionId om action seen =
     (if actionId action \<in> seen
      then ([mk_error ''orderError''
        [(''order.action.actionId'', actionId action), (''order.action.actionType'', actionType action)]
        ''The order contains duplicate action ids.''], seen)
      else
        case map_of (action_by_id om) (actionId action) of
          Some known \<Rightarrow>
            ([mk_error ''orderError''
               [(''state.action.actionId'', actionId known),
                (''state.action.actionType'', actionType known),
                (''order.action.actionId'', actionId action),
                (''order.action.actionType'', actionType action)]
               ''The order contains an action with a non-unique id''],
             insert (actionId action) seen)
        | None \<Rightarrow> ([], insert (actionId action) seen))"

fun unique_ids :: "OrderManager \<Rightarrow> Action list \<Rightarrow> Error list \<times> string set \<Rightarrow> Error list \<times> string set" where
  "unique_ids om [] acc = acc"
| "unique_ids om (a # as) (errors, seen) =
     (case uniqueActionId om a seen of (errs, seen') \<Rightarrow> unique_ids om as (errors @ errs, seen'))"

definition order_actions :: "Order \<Rightarrow> Action list" where
  "order_actions order = concat (map n_actions (o_nodes order)) @ concat (map e_actions (o_edges order))"

definition checkOrderActionIds :: "OrderManager \<Rightarrow> Order \<Rightarrow> Error list" where
  "checkOrderActionIds om order = fst (unique_ids om (order_actions order) ([], {}))"

section \<open>Header\<close>

text \<open>
  The description holds the configured manufacturer and serial number. How \<^verbatim>\<open>fmt\<close> prints the set of
  compatible versions is an argument.
\<close>

definition current_version :: string where "current_version = ''2.0.0''"

definition compatible_versions :: "string set" where "compatible_versions = {current_version}"

definition checkHeader :: "(string set \<Rightarrow> string) \<Rightarrow> string \<Rightarrow> string \<Rightarrow> HeaderVDA5050 \<Rightarrow> Error list" where
  "checkHeader fmt_set desc_manufacturer desc_serial header =
     (if desc_manufacturer \<noteq> manufacturer header
      then [mk_error ''InvalidHeader''
        [(''header.headerId'', word_string (headerId header)), (''header.manufacturer'', manufacturer header)]
        (''Header.manufacturer is \"'' @ manufacturer header @ ''\", requires \"'' @ desc_manufacturer @ ''\"'')]
      else []) @
     (if desc_serial \<noteq> serialNumber header
      then [mk_error ''InvalidHeader''
        [(''header.headerId'', word_string (headerId header)), (''header.serialNumber'', serialNumber header)]
        (''Header.serialNumber is \"'' @ serialNumber header @ ''\", requires \"'' @ desc_serial @ ''\"'')]
      else []) @
     (if version header \<notin> compatible_versions
      then [mk_error ''InvalidHeader''
        [(''header.headerId'', word_string (headerId header)), (''header.version'', version header)]
        (''Header.version is '' @ version header @ '', requires one of '' @ fmt_set compatible_versions)]
      else [])"

end
