(* ===== verification/StatusManager.thy ===== *)
theory StatusManager
  imports OrderChecks
begin

text \<open>
  \<^verbatim>\<open>core/state/status_manager\<close>: the part of the state message that does not depend on the order.
  Every operation takes the mutex and is one step. The message types the code only copies are
  opaque; an alter function comes from the user, may change what it is given, and may throw.
\<close>

section \<open>Messages\<close>

datatype Velocity = Velocity (velocity_payload: string)
datatype BatteryState = BatteryState (battery_payload: string)
datatype Info = Info (info_payload: string)
datatype SafetyState = SafetyState (safety_payload: string)

record Load =
  loadId :: "string option"
  load_payload :: string

record AGVPosition =
  ap_x :: double
  ap_y :: double
  ap_theta :: double
  mapId :: string
  ap_positionInitialized :: bool
  ap_deviationRange :: "double option"
  position_payload :: string

datatype OperatingMode = AUTOMATIC | SEMIAUTOMATIC | MANUAL | SERVICE | TEACHIN

section \<open>State\<close>

record StatusManager =
  sm_loads :: "Load list option"
  new_base_request :: "bool option"
  battery_state :: BatteryState
  operating_mode :: OperatingMode
  sm_errors :: "Error list"
  information :: "Info list"
  safety_state :: SafetyState
  agv_position :: AGVPosition
  velocity :: "Velocity option"
  sm_driving :: bool
  distance_since_last_node :: "double option"

text \<open>The members without an initializer start as the default value of their message type.\<close>

definition StatusManager_new :: "BatteryState \<Rightarrow> SafetyState \<Rightarrow> AGVPosition \<Rightarrow> StatusManager" where
  "StatusManager_new battery safety position =
     \<lparr>sm_loads = None, new_base_request = None, battery_state = battery, operating_mode = SERVICE,
      sm_errors = [], information = [], safety_state = safety, agv_position = position,
      velocity = None, sm_driving = False, distance_since_last_node = None\<rparr>"

type_synonym 'a sm = "(StatusManager, 'a) comp"
type_synonym 'a alter = "('a, unit) comp"

section \<open>Operations\<close>

definition setAGVPosition :: "AGVPosition \<Rightarrow> unit sm" where
  "setAGVPosition p = modify (\<lambda>m. m\<lparr>agv_position := p\<rparr>)"

definition getAGVPosition :: "AGVPosition sm" where
  "getAGVPosition = gets agv_position"

definition setVelocity :: "Velocity \<Rightarrow> unit sm" where
  "setVelocity v = modify (\<lambda>m. m\<lparr>velocity := Some v\<rparr>)"

definition getVelocity :: "Velocity option sm" where
  "getVelocity = gets velocity"

definition resetVelocity :: "unit sm" where
  "resetVelocity = modify (\<lambda>m. m\<lparr>velocity := None\<rparr>)"

definition setDriving :: "bool \<Rightarrow> bool sm" where
  "setDriving d =
     bindM (gets (\<lambda>m. sm_driving m \<noteq> d)) (\<lambda>changed.
     seqM (modify (\<lambda>m. m\<lparr>sm_driving := d\<rparr>)) (ret changed))"

definition setDistanceSinceLastNode :: "double \<Rightarrow> unit sm" where
  "setDistanceSinceLastNode d = modify (\<lambda>m. m\<lparr>distance_since_last_node := Some d\<rparr>)"

definition resetDistanceSinceLastNode :: "unit sm" where
  "resetDistanceSinceLastNode = modify (\<lambda>m. m\<lparr>distance_since_last_node := None\<rparr>)"

definition addLoad :: "Load \<Rightarrow> bool sm" where
  "addLoad l =
     seqM (modify (\<lambda>m. m\<lparr>sm_loads :=
       (case sm_loads m of None \<Rightarrow> Some [l] | Some ls \<Rightarrow> Some (ls @ [l]))\<rparr>)) (ret True)"

definition removeLoad :: "string \<Rightarrow> bool sm" where
  "removeLoad i =
     bindM (gets sm_loads) (\<lambda>loads.
     case loads of
       None \<Rightarrow> ret False
     | Some ls \<Rightarrow>
         let ls' = filter (\<lambda>l. loadId l \<noteq> Some i) ls in
         seqM (modify (\<lambda>m. m\<lparr>sm_loads := Some ls'\<rparr>)) (ret (length ls' \<noteq> length ls)))"

definition getLoads :: "Load list sm" where
  "getLoads = gets (\<lambda>m. case sm_loads m of None \<Rightarrow> [] | Some ls \<Rightarrow> ls)"

definition setOperatingMode :: "OperatingMode \<Rightarrow> bool sm" where
  "setOperatingMode d =
     bindM (gets (\<lambda>m. operating_mode m \<noteq> d)) (\<lambda>changed.
     seqM (modify (\<lambda>m. m\<lparr>operating_mode := d\<rparr>)) (ret changed))"

definition getOperatingMode :: "OperatingMode sm" where
  "getOperatingMode = gets operating_mode"

definition setBatteryState :: "BatteryState \<Rightarrow> unit sm" where
  "setBatteryState b = modify (\<lambda>m. m\<lparr>battery_state := b\<rparr>)"

definition getBatteryState :: "BatteryState sm" where
  "getBatteryState = gets battery_state"

definition requestNewBase :: "unit sm" where
  "requestNewBase = modify (\<lambda>m. m\<lparr>new_base_request := Some True\<rparr>)"

definition addError :: "Error \<Rightarrow> bool sm" where
  "addError e = seqM (modify (\<lambda>m. m\<lparr>sm_errors := sm_errors m @ [e]\<rparr>)) (ret True)"

definition addInfo :: "Info \<Rightarrow> unit sm" where
  "addInfo i = modify (\<lambda>m. m\<lparr>information := information m @ [i]\<rparr>)"

section \<open>Alter functions\<close>

text \<open>A user function run on a member: what it did to the member stays even when it throws.\<close>

definition alter_member :: "(StatusManager \<Rightarrow> 'a) \<Rightarrow> ('a \<Rightarrow> StatusManager \<Rightarrow> StatusManager) \<Rightarrow>
    'a alter \<Rightarrow> unit sm" where
  "alter_member get put f m = (case f (get m) of (r, x) \<Rightarrow> (r, put x m))"

definition loadsAlter :: "Load list alter \<Rightarrow> bool sm" where
  "loadsAlter f =
     bindM (gets sm_loads) (\<lambda>loads.
     case loads of
       None \<Rightarrow> ret False
     | Some ls \<Rightarrow>
         seqM (alter_member (\<lambda>_. ls) (\<lambda>x m. m\<lparr>sm_loads := Some x\<rparr>) f) (ret True))"

definition operatingModeAlter :: "(OperatingMode \<Rightarrow> exn + OperatingMode) \<Rightarrow> bool sm" where
  "operatingModeAlter f =
     bindM (gets operating_mode) (\<lambda>before.
     bindM (liftE (f before)) (\<lambda>after.
     seqM (modify (\<lambda>m. m\<lparr>operating_mode := after\<rparr>)) (ret (before \<noteq> after))))"

definition alterBatteryState :: "BatteryState alter \<Rightarrow> unit sm" where
  "alterBatteryState f = alter_member battery_state (\<lambda>x m. m\<lparr>battery_state := x\<rparr>) f"

definition alterErrors :: "Error list alter \<Rightarrow> bool sm" where
  "alterErrors f =
     seqM (alter_member sm_errors (\<lambda>x m. m\<lparr>sm_errors := x\<rparr>) f) (ret True)"

definition alterInfos :: "Info list alter \<Rightarrow> unit sm" where
  "alterInfos f = alter_member information (\<lambda>x m. m\<lparr>information := x\<rparr>) f"

section \<open>The state message\<close>

record StatusPart =
  st_agvPosition :: AGVPosition
  st_batteryState :: BatteryState
  st_distanceSinceLastNode :: "double option"
  st_driving :: bool
  st_errors :: "Error list"
  st_information :: "Info list"
  st_loads :: "Load list option"
  st_newBaseRequest :: "bool option"
  st_operatingMode :: OperatingMode
  st_safetyState :: SafetyState
  st_velocity :: "Velocity option"

text \<open>All fields of this part are overwritten.\<close>

definition StatusManager_dumpTo :: "StatusPart sm" where
  "StatusManager_dumpTo =
     gets (\<lambda>m. \<lparr>st_agvPosition = agv_position m, st_batteryState = battery_state m,
       st_distanceSinceLastNode = distance_since_last_node m, st_driving = sm_driving m,
       st_errors = sm_errors m, st_information = information m, st_loads = sm_loads m,
       st_newBaseRequest = new_base_request m, st_operatingMode = operating_mode m,
       st_safetyState = safety_state m, st_velocity = velocity m\<rparr>)"

end
