(* ===== verification/Interpreter.thy ===== *)
theory Interpreter
  imports InterpreterEvents
begin

text \<open>
  \<^verbatim>\<open>core/interpreter/functional\<close>: the interpreter that turns an order into the sequence of events
  the scheduler, the order manager and the action manager work on.

  An iterator pair into a vector of the order is the list of the elements that remain. A handler
  of the C++ code either returns an event or tail-calls \<^verbatim>\<open>nextEvent\<close>; here it returns the step,
  and \<open>nextEvent\<close> goes on after a \<open>Skip\<close>. An exception destroys the iterator (it is owned by a
  \<^verbatim>\<open>unique_ptr\<close> that was moved from the caller), so the result is a sum. The \<^verbatim>\<open>default\<close> branches
  of the switches over the two enumerations are unreachable for their enumerators.
\<close>

section \<open>State\<close>

datatype IterState =
    k_handling_initial
  | k_handling_pre_node_action
  | k_handling_node_action
  | k_handling_node_action_queue
  | k_handling_pre_edge_action
  | k_handling_edge_action
  | k_handling_edge_action_queue
  | k_handling_action_yield
  | k_handling_navigation
  | k_handling_transition
  | k_pre_done
  | k_done

record EventIter =
  node_rest :: "Node list"
  edge_rest :: "Edge list"
  action_rest :: "Action list"
  ei_order_id :: string
  ei_order_update_id :: uint32
  collected_graph :: "Graph option"
  current_goal_node :: "Node option"
  current_via_edge :: "Edge option"
  stop_at_goal :: bool
  current_action_group :: "Action list"
  current_action_group_blocking_type :: BlockingType
  action_events_after_navigation :: "InterpreterEvent list"
  iter_state :: IterState

text \<open>
  The member \<^verbatim>\<open>current_action_group_blocking_type_\<close> has no initializer: its first value is
  the argument \<open>indeterminate\<close>.
\<close>

definition fromOrder :: "BlockingType \<Rightarrow> Order \<Rightarrow> EventIter" where
  "fromOrder indeterminate order =
     \<lparr>node_rest = o_nodes order, edge_rest = o_edges order, action_rest = [],
      ei_order_id = o_orderId order, ei_order_update_id = o_orderUpdateId order,
      collected_graph = None, current_goal_node = None, current_via_edge = None,
      stop_at_goal = False, current_action_group = [],
      current_action_group_blocking_type = indeterminate,
      action_events_after_navigation = [], iter_state = k_handling_initial\<rparr>"

definition ceilCurrentActionGroupBlockingType :: "BlockingType \<Rightarrow> EventIter \<Rightarrow> EventIter" where
  "ceilCurrentActionGroupBlockingType additional it =
     (case current_action_group_blocking_type it of
        HARD \<Rightarrow> it
      | SOFT \<Rightarrow> if additional = HARD then it\<lparr>current_action_group_blocking_type := HARD\<rparr> else it
      | NONE \<Rightarrow> it\<lparr>current_action_group_blocking_type := additional\<rparr>)"

datatype step = Skip EventIter | Yield "InterpreterEvent option" EventIter

section \<open>Edge actions\<close>

definition handlePreEdgeAction :: "EventIter \<Rightarrow> exn + step" where
  "handlePreEdgeAction it =
     (case edge_rest it of
        [] \<Rightarrow> Inl VDA5050PPInvalidArgument
      | e # _ \<Rightarrow>
          if e_released e
          then Inr (Skip (it\<lparr>action_rest := e_actions e, iter_state := k_handling_edge_action\<rparr>))
          else Inr (Skip (it\<lparr>iter_state := k_handling_navigation\<rparr>)))"

definition handleEdgeAction :: "EventIter \<Rightarrow> exn + step" where
  "handleEdgeAction it =
     (case action_rest it of
        [] \<Rightarrow> Inr (Skip (it\<lparr>iter_state := k_handling_edge_action_queue\<rparr>))
      | a # rest \<Rightarrow>
          if blockingType a = HARD \<and> current_action_group it \<noteq> []
          then Inr (Skip (it\<lparr>iter_state := k_handling_edge_action_queue\<rparr>))
          else
            let it1 = (if blockingType a = HARD
                       then it\<lparr>iter_state := k_handling_edge_action_queue\<rparr> else it);
                it2 = (if blockingType a = NONE then it1 else it1\<lparr>stop_at_goal := True\<rparr>);
                it3 = ceilCurrentActionGroupBlockingType (blockingType a) it2
            in Inr (Yield (Some (YieldNewAction a))
                 (it3\<lparr>current_action_group := current_action_group it3 @ [a],
                      action_rest := rest\<rparr>)))"

definition handleEdgeActionQueue :: "EventIter \<Rightarrow> exn + step" where
  "handleEdgeActionQueue it =
     (if current_action_group it \<noteq> []
      then Inr (Skip (it\<lparr>
        action_events_after_navigation := action_events_after_navigation it @
          [YieldActionGroupEvent (current_action_group it) (current_action_group_blocking_type it)],
        current_action_group := [], current_action_group_blocking_type := NONE\<rparr>))
      else if action_rest it \<noteq> []
      then Inr (Skip (it\<lparr>iter_state := k_handling_edge_action\<rparr>))
      else Inr (Skip (it\<lparr>iter_state := k_handling_navigation\<rparr>)))"

section \<open>Node actions\<close>

definition handlePreNodeAction :: "EventIter \<Rightarrow> exn + step" where
  "handlePreNodeAction it =
     (case node_rest it of
        [] \<Rightarrow> Inl VDA5050PPInvalidArgument
      | n # _ \<Rightarrow>
          if n_released n
          then Inr (Skip (it\<lparr>action_rest := n_actions n, iter_state := k_handling_node_action\<rparr>))
          else Inr (Skip (it\<lparr>iter_state := k_handling_transition\<rparr>)))"

definition handleNodeAction :: "EventIter \<Rightarrow> exn + step" where
  "handleNodeAction it =
     (case action_rest it of
        [] \<Rightarrow> Inr (Skip (it\<lparr>iter_state := k_handling_node_action_queue\<rparr>))
      | a # rest \<Rightarrow>
          if blockingType a = HARD \<and> current_action_group it \<noteq> []
          then Inr (Skip (it\<lparr>iter_state := k_handling_node_action_queue\<rparr>))
          else
            let it1 = (if blockingType a = HARD
                       then it\<lparr>iter_state := k_handling_node_action_queue\<rparr> else it);
                it2 = (if blockingType a = NONE then it1 else it1\<lparr>stop_at_goal := True\<rparr>);
                it3 = ceilCurrentActionGroupBlockingType (blockingType a) it2
            in Inr (Yield (Some (YieldNewAction a))
                 (it3\<lparr>current_action_group := current_action_group it3 @ [a],
                      action_rest := rest\<rparr>)))"

definition handleNodeActionQueue :: "EventIter \<Rightarrow> exn + step" where
  "handleNodeActionQueue it =
     (let it1 = (if action_rest it \<noteq> [] then it\<lparr>iter_state := k_handling_node_action\<rparr>
                 else it\<lparr>iter_state := k_handling_transition\<rparr>)
      in if current_action_group it1 \<noteq> []
         then Inr (Skip (it1\<lparr>
           action_events_after_navigation := action_events_after_navigation it1 @
             [YieldActionGroupEvent (current_action_group it1)
                (current_action_group_blocking_type it1)],
           current_action_group := [], current_action_group_blocking_type := NONE\<rparr>))
         else Inr (Skip it1))"

definition handleActionYield :: "EventIter \<Rightarrow> exn + step" where
  "handleActionYield it =
     (case action_events_after_navigation it of
        [] \<Rightarrow> Inr (Skip (it\<lparr>iter_state := k_handling_pre_node_action\<rparr>))
      | ev # q \<Rightarrow> Inr (Yield (Some ev) (it\<lparr>action_events_after_navigation := q\<rparr>)))"

section \<open>Stepping through the order\<close>

definition handleInitial :: "EventIter \<Rightarrow> exn + step" where
  "handleInitial it =
     (case node_rest it of
        [] \<Rightarrow> Inl VDA5050PPInvalidArgument
      | n # _ \<Rightarrow>
          let first_node =
                (case edge_rest it of
                   [] \<Rightarrow> True
                 | e # _ \<Rightarrow> n_sequenceId n < e_sequenceId e \<and> ei_order_update_id it = 0);
              it1 = it\<lparr>iter_state := if first_node then k_handling_pre_node_action
                                     else k_handling_transition\<rparr>
          in if ei_order_update_id it = 0
             then Inr (Yield (Some YieldClearActions) it1)
             else Inr (Skip it1))"

text \<open>
  The loop over the horizon: both iterators advance until one of them is at its end. The graph
  is a pointer that may be null.
\<close>

definition update_collected :: "GraphElement \<Rightarrow> Graph option \<Rightarrow> exn + Graph" where
  "update_collected el og =
     (case og of None \<Rightarrow> Inl UndefinedBehaviour | Some g \<Rightarrow> Graph_update el g)"

fun skip_horizon ::
  "Edge list \<Rightarrow> Node list \<Rightarrow> Graph option \<Rightarrow> exn + Edge list \<times> Node list \<times> Graph option" where
  "skip_horizon (e # es) (n # ns) og =
     (case update_collected (EdgeElement e) og of
        Inl x \<Rightarrow> Inl x
      | Inr g \<Rightarrow>
          (case update_collected (NodeElement n) (Some g) of
             Inl x \<Rightarrow> Inl x
           | Inr g' \<Rightarrow> skip_horizon es ns (Some g')))"
| "skip_horizon es ns og = Inr (es, ns, og)"

definition transition_step :: "EventIter \<Rightarrow> exn + EventIter" where
  "transition_step it =
     (case node_rest it of
        [] \<Rightarrow> Inl UndefinedBehaviour
      | n # ns \<Rightarrow>
          if (case edge_rest it of [] \<Rightarrow> True | e # _ \<Rightarrow> n_sequenceId n < e_sequenceId e)
          then
            (case Graph_new [NodeElement n] of
               Inl x \<Rightarrow> Inl x
             | Inr g \<Rightarrow> Inr (it\<lparr>collected_graph := Some g, node_rest := ns\<rparr>))
          else
            (case edge_rest it of
               [] \<Rightarrow> Inl UndefinedBehaviour
             | e # es \<Rightarrow>
                 if \<not> e_released e then
                   (case skip_horizon (edge_rest it) (node_rest it) (collected_graph it) of
                      Inl x \<Rightarrow> Inl x
                    | Inr (es', ns', og) \<Rightarrow>
                        Inr (it\<lparr>collected_graph := og, node_rest := ns', edge_rest := es'\<rparr>))
                 else if \<not> n_released n then Inl VDA5050PPInvalidArgument
                 else
                   (case update_collected (EdgeElement e) (collected_graph it) of
                      Inl x \<Rightarrow> Inl x
                    | Inr g \<Rightarrow>
                        (case update_collected (NodeElement n) (Some g) of
                           Inl x \<Rightarrow> Inl x
                         | Inr g' \<Rightarrow>
                             Inr (it\<lparr>collected_graph := Some g', current_goal_node := Some n,
                                     current_via_edge := Some e, node_rest := ns,
                                     edge_rest := es\<rparr>)))))"

definition handleTransition :: "EventIter \<Rightarrow> exn + step" where
  "handleTransition it =
     (case transition_step it of
        Inl x \<Rightarrow> Inl x
      | Inr it1 \<Rightarrow>
          if node_rest it1 = [] \<and> edge_rest it1 = [] then Inr (Skip (it1\<lparr>iter_state := k_pre_done\<rparr>))
          else if node_rest it1 = [] then Inl VDA5050PPInvalidArgument
          else if edge_rest it1 = [] then Inl VDA5050PPInvalidArgument
          else Inr (Skip (it1\<lparr>iter_state := k_handling_pre_edge_action\<rparr>)))"

definition handleNavigation :: "EventIter \<Rightarrow> exn + step" where
  "handleNavigation it =
     (let it1 = it\<lparr>iter_state := k_handling_action_yield\<rparr> in
      case (current_goal_node it, current_via_edge it) of
        (None, None) \<Rightarrow> Inr (Skip (it1\<lparr>stop_at_goal := False\<rparr>))
      | (None, Some _) \<Rightarrow> Inl VDA5050PPInvalidArgument
      | (Some _, None) \<Rightarrow> Inl VDA5050PPInvalidArgument
      | (Some n, Some e) \<Rightarrow>
          Inr (Yield (Some (YieldNavigationStepEvent n (Some e) (stop_at_goal it)))
            (it1\<lparr>current_goal_node := None, current_via_edge := None, stop_at_goal := False\<rparr>)))"

section \<open>The end of the order\<close>

text \<open>
  The graph pointer of the two graph events is never null when a transition led here; the code
  copies it unread, so a null pointer would only show at the receiver. Such an event has no
  counterpart in the model and is \<open>UndefinedBehaviour\<close>.
\<close>

definition handlePreDone :: "EventIter \<Rightarrow> exn + step" where
  "handlePreDone it =
     (if current_action_group it \<noteq> [] then Inl VDA5050PPInvalidArgument
      else
        case (current_goal_node it, current_via_edge it) of
          (Some n, Some e) \<Rightarrow>
            Inr (Yield (Some (YieldNavigationStepEvent n (Some e) (stop_at_goal it)))
              (it\<lparr>current_goal_node := None, current_via_edge := None, stop_at_goal := False\<rparr>))
        | _ \<Rightarrow>
            (case action_events_after_navigation it of
               ev # q \<Rightarrow> Inr (Yield (Some ev) (it\<lparr>action_events_after_navigation := q\<rparr>))
             | [] \<Rightarrow>
                 (case collected_graph it of
                    None \<Rightarrow> Inl UndefinedBehaviour
                  | Some g \<Rightarrow>
                      if 0 < ei_order_update_id it
                      then Inr (Yield (Some (YieldGraphExtension (ei_order_update_id it) g))
                             (it\<lparr>iter_state := k_done\<rparr>))
                      else Inr (Yield (Some (YieldGraphReplacement (ei_order_id it) g))
                             (it\<lparr>iter_state := k_done\<rparr>)))))"

section \<open>The driver\<close>

text \<open>The switch of \<^verbatim>\<open>nextEvent\<close>.\<close>

definition handle :: "EventIter \<Rightarrow> exn + step" where
  "handle it =
     (case iter_state it of
        k_handling_initial \<Rightarrow> handleInitial it
      | k_handling_pre_node_action \<Rightarrow> handlePreNodeAction it
      | k_handling_node_action \<Rightarrow> handleNodeAction it
      | k_handling_node_action_queue \<Rightarrow> handleNodeActionQueue it
      | k_handling_pre_edge_action \<Rightarrow> handlePreEdgeAction it
      | k_handling_edge_action \<Rightarrow> handleEdgeAction it
      | k_handling_edge_action_queue \<Rightarrow> handleEdgeActionQueue it
      | k_handling_action_yield \<Rightarrow> handleActionYield it
      | k_handling_transition \<Rightarrow> handleTransition it
      | k_handling_navigation \<Rightarrow> handleNavigation it
      | k_pre_done \<Rightarrow> handlePreDone it
      | k_done \<Rightarrow> Inr (Yield None it))"

text \<open>
  Termination. Every step either consumes a node of the order, or goes on to a later phase of
  the current one, or makes progress within its phase: the actions left and the buffered
  events get fewer, and the two states of an action loop alternate only once per action.
\<close>

fun phase_rank :: "IterState \<Rightarrow> nat" where
  "phase_rank k_handling_initial = 10"
| "phase_rank k_handling_pre_edge_action = 9"
| "phase_rank k_handling_edge_action = 8"
| "phase_rank k_handling_edge_action_queue = 8"
| "phase_rank k_handling_navigation = 7"
| "phase_rank k_handling_action_yield = 6"
| "phase_rank k_handling_pre_node_action = 5"
| "phase_rank k_handling_node_action = 4"
| "phase_rank k_handling_node_action_queue = 4"
| "phase_rank k_handling_transition = 3"
| "phase_rank k_pre_done = 2"
| "phase_rank k_done = 0"

definition loop_rank :: "bool \<Rightarrow> EventIter \<Rightarrow> nat" where
  "loop_rank in_queue it =
     4 * length (action_rest it) +
     (if current_action_group it \<noteq> [] then if in_queue then 2 else 3
      else if action_rest it \<noteq> [] then if in_queue then 1 else 0
      else if in_queue then 0 else 1)"

definition inner_rank :: "EventIter \<Rightarrow> nat" where
  "inner_rank it =
     (case iter_state it of
        k_handling_edge_action \<Rightarrow> loop_rank False it
      | k_handling_node_action \<Rightarrow> loop_rank False it
      | k_handling_edge_action_queue \<Rightarrow> loop_rank True it
      | k_handling_node_action_queue \<Rightarrow> loop_rank True it
      | k_handling_action_yield \<Rightarrow> length (action_events_after_navigation it)
      | k_pre_done \<Rightarrow>
          length (action_events_after_navigation it) +
          (if current_goal_node it = None then 0 else 1)
      | _ \<Rightarrow> 0)"

definition iter_order :: "(EventIter \<times> EventIter) set" where
  "iter_order =
     measures [\<lambda>it. length (node_rest it), \<lambda>it. phase_rank (iter_state it), inner_rank]"

lemma wf_iter_order: "wf iter_order"
  by (simp add: iter_order_def)

lemmas handler_defs =
  handleInitial_def handlePreNodeAction_def handleNodeAction_def handleNodeActionQueue_def
  handlePreEdgeAction_def handleEdgeAction_def handleEdgeActionQueue_def handleActionYield_def
  handleTransition_def handleNavigation_def handlePreDone_def

lemma ceil_fields [simp]:
  "node_rest (ceilCurrentActionGroupBlockingType b it) = node_rest it"
  "edge_rest (ceilCurrentActionGroupBlockingType b it) = edge_rest it"
  "action_rest (ceilCurrentActionGroupBlockingType b it) = action_rest it"
  "iter_state (ceilCurrentActionGroupBlockingType b it) = iter_state it"
  "current_action_group (ceilCurrentActionGroupBlockingType b it) = current_action_group it"
  "collected_graph (ceilCurrentActionGroupBlockingType b it) = collected_graph it"
  by (auto simp: ceilCurrentActionGroupBlockingType_def split: BlockingType.split)

lemma skip_horizon_length:
  "skip_horizon es ns og = Inr (es', ns', og') \<Longrightarrow> length ns' \<le> length ns"
  by (induction es ns og rule: skip_horizon.induct) (force split: sum.splits)+

lemma transition_step_length:
  assumes "transition_step it = Inr it'"
  shows "length (node_rest it') < length (node_rest it)"
proof -
  obtain n ns where n: "node_rest it = n # ns"
    using assms by (cases "node_rest it") (auto simp: transition_step_def)
  show ?thesis using assms n
    by (auto simp: transition_step_def less_Suc_eq_le dest: skip_horizon_length
        split: list.splits if_splits sum.splits)
qed


text \<open>Every step that is not the final one makes the iterator smaller.\<close>

lemma handle_decreases:
  assumes "handle it = Inr (Skip it') \<or> handle it = Inr (Yield (Some ev) it')"
  shows "(it', it) \<in> iter_order"
proof (cases "iter_state it = k_handling_transition")
  case True
  then obtain it1 where "transition_step it = Inr it1" "node_rest it' = node_rest it1"
    using assms by (auto simp: handle_def handleTransition_def split: sum.splits if_splits)
  then show ?thesis using transition_step_length by (simp add: iter_order_def)
next
  case False
  then show ?thesis
    using assms
    by (cases "iter_state it")
      (auto simp: handle_def handler_defs iter_order_def inner_rank_def loop_rank_def Let_def
        split: list.splits if_splits option.splits)
qed

function nextEvent :: "EventIter \<Rightarrow> exn + InterpreterEvent option \<times> EventIter" where
  "nextEvent it =
     (case handle it of
        Inl x \<Rightarrow> Inl x
      | Inr (Skip it') \<Rightarrow> nextEvent it'
      | Inr (Yield ev it') \<Rightarrow> Inr (ev, it'))"
  by pat_completeness auto
termination
  by (relation iter_order) (auto simp: wf_iter_order intro: handle_decreases)

declare nextEvent.simps [simp del]

text \<open>The public function tests the pointer first.\<close>

definition nextEvent_ptr :: "EventIter option \<Rightarrow> exn + InterpreterEvent option \<times> EventIter" where
  "nextEvent_ptr p = (case p of None \<Rightarrow> Inl VDA5050PPNullPointer | Some it \<Rightarrow> nextEvent it)"

lemma nextEvent_decreases:
  "nextEvent it = Inr (Some ev, it') \<Longrightarrow> (it', it) \<in> iter_order"
proof (induction it rule: nextEvent.induct)
  case (1 it)
  show ?case
  proof (cases "handle it")
    case (Inr s)
    show ?thesis
    proof (cases s)
      case (Skip it1)
      then have "(it', it1) \<in> iter_order" "(it1, it) \<in> iter_order"
        using 1 Inr handle_decreases by (auto simp: nextEvent.simps [of it])
      then show ?thesis
        by (auto simp: iter_order_def)
    next
      case (Yield ev' it1)
      then show ?thesis using 1(2) Inr handle_decreases by (auto simp: nextEvent.simps [of it])
    qed
  qed (use 1(2) in \<open>simp add: nextEvent.simps [of it]\<close>)
qed

end
