(* ===== verification/InterpreterRun.thy ===== *)
theory InterpreterRun
  imports Interpreter
begin

text \<open>
  The loop of \<^verbatim>\<open>InterpreterEventHandler::handleValidOrder\<close> over \<^verbatim>\<open>nextEvent\<close>, and the equations that
  run the interpreter phase by phase: an action list at once, the buffered groups at once,
  the horizon at once.
\<close>

section \<open>The loop\<close>

text \<open>The result and the events dispatched before it, in order.\<close>

function interpret_all :: "EventIter \<Rightarrow> (exn + unit) \<times> InterpreterEvent list" where
  "interpret_all it =
     (case nextEvent it of
        Inl x \<Rightarrow> (Inl x, [])
      | Inr (None, _) \<Rightarrow> (Inr (), [])
      | Inr (Some ev, it') \<Rightarrow> (case interpret_all it' of (r, evs) \<Rightarrow> (r, ev # evs)))"
  by pat_completeness auto
termination
  by (relation iter_order) (auto simp: wf_iter_order intro: nextEvent_decreases)

declare interpret_all.simps [simp del]

text \<open>\<^verbatim>\<open>StateUpdateUrgency\<close>: the longest delay allowed, in milliseconds.\<close>

datatype StateUpdateUrgency = StateUpdateUrgency (getMaxDelay: int)

definition urgency_immediate :: StateUpdateUrgency where
  "urgency_immediate = StateUpdateUrgency 0"

definition urgency_high :: StateUpdateUrgency where
  "urgency_high = StateUpdateUrgency 100"

definition urgency_medium :: StateUpdateUrgency where
  "urgency_medium = StateUpdateUrgency 1000"

definition urgency_low :: StateUpdateUrgency where
  "urgency_low = StateUpdateUrgency 5000"

definition isImmediate :: "StateUpdateUrgency \<Rightarrow> bool" where
  "isImmediate u \<longleftrightarrow> getMaxDelay u = 0"

text \<open>What the handler passes to the interpreter and state event managers.\<close>

datatype InterpreterOut =
    IDispatch InterpreterEvent
  | ISyncDispatch InterpreterEvent
  | IRequestStateUpdate StateUpdateUrgency

definition handleValidOrder :: "BlockingType \<Rightarrow> Order option \<Rightarrow> (InterpreterOut list, unit) comp" where
  "handleValidOrder indeterminate data out =
     (case data of
        None \<Rightarrow> (Inl VDA5050PPInvalidEventData, out)
      | Some order \<Rightarrow>
          (case interpret_all (fromOrder indeterminate order) of
             (Inl x, evs) \<Rightarrow> (Inl x, out @ map IDispatch evs)
           | (Inr _, evs) \<Rightarrow>
               (Inr (), out @ map IDispatch evs @
                  [IDispatch InterpreterDone, IRequestStateUpdate urgency_high])))"

section \<open>Running it\<close>

definition emits :: "'e list \<Rightarrow> 'r \<times> 'e list \<Rightarrow> 'r \<times> 'e list" where
  "emits xs p = (fst p, xs @ snd p)"

lemma emits_simps [simp]:
  "emits [] p = p" "emits xs (emits ys p) = emits (xs @ ys) p" "emits xs (r, ys) = (r, xs @ ys)"
  by (simp_all add: emits_def)

lemma interpret_all_step:
  "interpret_all it =
     (case handle it of
        Inl x \<Rightarrow> (Inl x, [])
      | Inr (Skip it') \<Rightarrow> interpret_all it'
      | Inr (Yield None it') \<Rightarrow> (Inr (), [])
      | Inr (Yield (Some ev) it') \<Rightarrow> emits [ev] (interpret_all it'))"
proof (cases "handle it")
  case (Inl x)
  then show ?thesis by (simp add: interpret_all.simps [of it] nextEvent.simps [of it])
next
  case (Inr s)
  show ?thesis
  proof (cases s)
    case (Skip it')
    then have "nextEvent it = nextEvent it'"
      using Inr by (subst nextEvent.simps) simp
    then have "interpret_all it = interpret_all it'"
      by (simp add: interpret_all.simps [of it] interpret_all.simps [of it'])
    then show ?thesis using Inr Skip by simp
  next
    case (Yield ev it')
    then show ?thesis using Inr
      by (simp add: interpret_all.simps [of it] nextEvent.simps [of it] split_beta emits_def
          split: option.split)
  qed
qed

text \<open>An iterator given field by field.\<close>

abbreviation EI where
  "EI ns es as i u cg gn ve stop g b q st \<equiv>
     \<lparr>node_rest = ns, edge_rest = es, action_rest = as, ei_order_id = i,
      ei_order_update_id = u, collected_graph = cg, current_goal_node = gn,
      current_via_edge = ve, stop_at_goal = stop, current_action_group = g,
      current_action_group_blocking_type = b, action_events_after_navigation = q,
      iter_state = st\<rparr>"

lemma ceil_EI:
  "ceilCurrentActionGroupBlockingType c (EI ns es as i u cg gn ve stop g b q st) =
     EI ns es as i u cg gn ve stop g (max b c) q st"
  by (cases b; cases c) (simp_all add: ceilCurrentActionGroupBlockingType_def max_def)

named_theorems interp_steps "what the interpreter does next, by state"

lemmas step_defs = handle_def handler_defs ceil_EI Let_def

lemma step_node_action [interp_steps]:
  "interpret_all (EI ns es [] i u cg gn ve stop g b q k_handling_node_action) =
     interpret_all (EI ns es [] i u cg gn ve stop g b q k_handling_node_action_queue)"
  "blockingType a \<noteq> HARD \<Longrightarrow>
   interpret_all (EI ns es (a # as) i u cg gn ve stop g b q k_handling_node_action) =
     emits [YieldNewAction a] (interpret_all (EI ns es as i u cg gn ve
       (stop \<or> blockingType a \<noteq> NONE) (g @ [a]) (max b (blockingType a)) q k_handling_node_action))"
  "blockingType a = HARD \<Longrightarrow> g \<noteq> [] \<Longrightarrow>
   interpret_all (EI ns es (a # as) i u cg gn ve stop g b q k_handling_node_action) =
     interpret_all (EI ns es (a # as) i u cg gn ve stop g b q k_handling_node_action_queue)"
  "blockingType a = HARD \<Longrightarrow>
   interpret_all (EI ns es (a # as) i u cg gn ve stop [] b q k_handling_node_action) =
     emits [YieldNewAction a] (interpret_all (EI ns es as i u cg gn ve
       True [a] HARD q k_handling_node_action_queue))"
  by (subst interpret_all_step, simp add: step_defs max_def)+

lemma step_node_action_queue [interp_steps]:
  "interpret_all (EI ns es as i u cg gn ve stop g b q k_handling_node_action_queue) =
     interpret_all (EI ns es as i u cg gn ve stop [] (if g = [] then b else NONE)
       (q @ (if g = [] then [] else [YieldActionGroupEvent g b]))
       (if as = [] then k_handling_transition else k_handling_node_action))"
  by (subst interpret_all_step, simp add: step_defs)

lemma step_edge_action [interp_steps]:
  "interpret_all (EI ns es [] i u cg gn ve stop g b q k_handling_edge_action) =
     interpret_all (EI ns es [] i u cg gn ve stop g b q k_handling_edge_action_queue)"
  "blockingType a \<noteq> HARD \<Longrightarrow>
   interpret_all (EI ns es (a # as) i u cg gn ve stop g b q k_handling_edge_action) =
     emits [YieldNewAction a] (interpret_all (EI ns es as i u cg gn ve
       (stop \<or> blockingType a \<noteq> NONE) (g @ [a]) (max b (blockingType a)) q k_handling_edge_action))"
  "blockingType a = HARD \<Longrightarrow> g \<noteq> [] \<Longrightarrow>
   interpret_all (EI ns es (a # as) i u cg gn ve stop g b q k_handling_edge_action) =
     interpret_all (EI ns es (a # as) i u cg gn ve stop g b q k_handling_edge_action_queue)"
  "blockingType a = HARD \<Longrightarrow>
   interpret_all (EI ns es (a # as) i u cg gn ve stop [] b q k_handling_edge_action) =
     emits [YieldNewAction a] (interpret_all (EI ns es as i u cg gn ve
       True [a] HARD q k_handling_edge_action_queue))"
  by (subst interpret_all_step, simp add: step_defs max_def)+

lemma step_edge_action_queue [interp_steps]:
  "interpret_all (EI ns es as i u cg gn ve stop g b q k_handling_edge_action_queue) =
     interpret_all (EI ns es as i u cg gn ve stop [] (if g = [] then b else NONE)
       (q @ (if g = [] then [] else [YieldActionGroupEvent g b]))
       (if as = [] then k_handling_navigation else k_handling_edge_action))"
proof -
  have flush: "interpret_all (EI ns es as i u cg gn ve stop [] b q k_handling_edge_action_queue) =
      interpret_all (EI ns es as i u cg gn ve stop [] b q
        (if as = [] then k_handling_navigation else k_handling_edge_action))" for b q
    by (subst interpret_all_step, simp add: step_defs)
  show ?thesis
  proof (cases "g = []")
    case False
    have "interpret_all (EI ns es as i u cg gn ve stop g b q k_handling_edge_action_queue) =
        interpret_all (EI ns es as i u cg gn ve stop [] NONE (q @ [YieldActionGroupEvent g b])
          k_handling_edge_action_queue)"
      using False by (subst interpret_all_step) (simp add: step_defs)
    then show ?thesis using False by (simp only: flush if_False)
  qed (simp add: flush)
qed

lemma step_pre_action [interp_steps]:
  "n_released n \<Longrightarrow>
   interpret_all (EI (n # ns) es as i u cg gn ve stop g b q k_handling_pre_node_action) =
     interpret_all (EI (n # ns) es (n_actions n) i u cg gn ve stop g b q k_handling_node_action)"
  "\<not> n_released n \<Longrightarrow>
   interpret_all (EI (n # ns) es as i u cg gn ve stop g b q k_handling_pre_node_action) =
     interpret_all (EI (n # ns) es as i u cg gn ve stop g b q k_handling_transition)"
  "e_released e \<Longrightarrow>
   interpret_all (EI ns (e # es) as i u cg gn ve stop g b q k_handling_pre_edge_action) =
     interpret_all (EI ns (e # es) (e_actions e) i u cg gn ve stop g b q k_handling_edge_action)"
  "\<not> e_released e \<Longrightarrow>
   interpret_all (EI ns (e # es) as i u cg gn ve stop g b q k_handling_pre_edge_action) =
     interpret_all (EI ns (e # es) as i u cg gn ve stop g b q k_handling_navigation)"
  by (subst interpret_all_step, simp add: step_defs)+

lemma step_navigation [interp_steps]:
  "interpret_all (EI ns es as i u cg None None stop g b q k_handling_navigation) =
     interpret_all (EI ns es as i u cg None None False g b q k_handling_action_yield)"
  "interpret_all (EI ns es as i u cg (Some n) (Some e) stop g b q k_handling_navigation) =
     emits [YieldNavigationStepEvent n (Some e) stop]
       (interpret_all (EI ns es as i u cg None None False g b q k_handling_action_yield))"
  by (subst interpret_all_step, simp add: step_defs)+

text \<open>The buffered groups leave in the order they came in.\<close>

lemma step_action_yield [interp_steps]:
  "interpret_all (EI ns es as i u cg gn ve stop g b q k_handling_action_yield) =
     emits q (interpret_all (EI ns es as i u cg gn ve stop g b [] k_handling_pre_node_action))"
proof (induction q)
  case Nil
  show ?case by (subst interpret_all_step) (simp add: step_defs)
next
  case (Cons ev q)
  show ?case
    by (subst interpret_all_step) (simp add: step_defs Cons.IH)
qed

lemma step_done [interp_steps]:
  "interpret_all (EI ns es as i u cg gn ve stop g b q k_done) = (Inr (), [])"
  by (subst interpret_all_step, simp add: step_defs)

definition graph_event :: "uint32 \<Rightarrow> string \<Rightarrow> Graph \<Rightarrow> InterpreterEvent" where
  "graph_event u i g = (if 0 < u then YieldGraphExtension u g else YieldGraphReplacement i g)"

lemma step_pre_done [interp_steps]:
  "interpret_all (EI ns es as i u (Some cg) None None stop [] b q k_pre_done) =
     (Inr (), q @ [graph_event u i cg])"
  "interpret_all (EI ns es as i u (Some cg) (Some n) (Some e) stop [] b q k_pre_done) =
     (Inr (), YieldNavigationStepEvent n (Some e) stop # q @ [graph_event u i cg])"
proof -
  show none: "interpret_all (EI ns es as i u (Some cg) None None stop [] b q k_pre_done) =
     (Inr (), q @ [graph_event u i cg])" for stop
  proof (induction q)
    case Nil
    show ?case by (subst interpret_all_step) (auto simp: step_defs step_done graph_event_def)
  next
    case (Cons ev q)
    show ?case by (subst interpret_all_step) (simp add: step_defs Cons.IH)
  qed
  show "interpret_all (EI ns es as i u (Some cg) (Some n) (Some e) stop [] b q k_pre_done) =
     (Inr (), YieldNavigationStepEvent n (Some e) stop # q @ [graph_event u i cg])"
    by (subst interpret_all_step) (simp add: step_defs none)
qed

end
