(* ===== verification/StateEventHandler.thy ===== *)
theory StateEventHandler
  imports StatusManager InterpreterRun
begin

text \<open>
  \<^verbatim>\<open>core/state/state_event_handler\<close>: the subscriber that keeps the order manager and the status
  manager up to date. A handler gets a pointer to its event; \<open>None\<close> is a null pointer, in the
  event or in one of its members. A handler of a query event acquires the event's result token
  first, which succeeds for one subscriber only; the result set through it is the value the handler
  returns.
\<close>

section \<open>World\<close>

datatype StateOut =
    NavDispatch NavigationEvent
  | RequestStateUpdate StateUpdateUrgency

record StateWorld =
  w_om :: OrderManager
  w_sm :: StatusManager
  w_out :: "StateOut list"

type_synonym 'a seh = "(StateWorld, 'a) comp"

definition on_om :: "'a om \<Rightarrow> 'a seh" where
  "on_om m w = (case m (w_om w) of (r, om) \<Rightarrow> (r, w\<lparr>w_om := om\<rparr>))"

definition on_sm :: "'a sm \<Rightarrow> 'a seh" where
  "on_sm m w = (case m (w_sm w) of (r, sm) \<Rightarrow> (r, w\<lparr>w_sm := sm\<rparr>))"

definition emit :: "StateOut \<Rightarrow> unit seh" where
  "emit x = modify (\<lambda>w. w\<lparr>w_out := w_out w @ [x]\<rparr>)"

definition request_update :: "unit seh" where
  "request_update = emit (RequestStateUpdate urgency_high)"

lemma run_on_om [run_simps]: "on_om m w = (case m (w_om w) of (r, om) \<Rightarrow> (r, w\<lparr>w_om := om\<rparr>))"
  by (simp add: on_om_def)

lemma run_on_sm [run_simps]: "on_sm m w = (case m (w_sm w) of (r, sm) \<Rightarrow> (r, w\<lparr>w_sm := sm\<rparr>))"
  by (simp add: on_sm_def)

lemma run_emit [run_simps]: "emit x w = (Inr (), w\<lparr>w_out := w_out w @ [x]\<rparr>)"
  by (simp add: emit_def run_simps)

lemma run_request_update [run_simps]:
  "request_update w = (Inr (), w\<lparr>w_out := w_out w @ [RequestStateUpdate urgency_high]\<rparr>)"
  by (simp add: request_update_def run_simps)

section \<open>Interpreter events\<close>

definition handleGraphExtensionEvent :: "(uint32 \<times> Graph option) option \<Rightarrow> unit seh" where
  "handleGraphExtensionEvent data =
     (case data of
        Some (update_id, Some g) \<Rightarrow>
          bindM (on_om (extendGraph_update g update_id)) (\<lambda>(delta_first, _).
          bindM (liftE (baseBounds g)) (\<lambda>(_, delta_last).
          if delta_last < delta_first then ret ()
          else
            bindM (liftE (subgraph delta_first delta_last g)) (\<lambda>g'.
            emit (NavDispatch (NavigationBaseIncreased (getNodes g') (getEdges g'))))))
      | _ \<Rightarrow> throw VDA5050PPInvalidEventData)"

definition handleGraphReplacementEvent :: "(string \<times> Graph option) option \<Rightarrow> unit seh" where
  "handleGraphReplacementEvent data =
     (case data of
        Some (new_order_id, Some g) \<Rightarrow>
          bindM (liftE (baseBounds g)) (\<lambda>(first, last).
          bindM (liftE (subgraph first last g)) (\<lambda>base.
          seqM (on_om (replaceGraph g new_order_id))
          (emit (NavDispatch (NavigationBaseIncreased (getNodes base) (getEdges base))))))
      | _ \<Rightarrow> throw VDA5050PPInvalidEventData)"

definition handleNewActionEvent :: "Action option option \<Rightarrow> unit seh" where
  "handleNewActionEvent data =
     (case data of
        Some (Some a) \<Rightarrow> on_om (addNewAction (Some a))
      | _ \<Rightarrow> throw VDA5050PPInvalidEventData)"

definition handleClearActions :: "unit option \<Rightarrow> unit seh" where
  "handleClearActions data =
     (case data of None \<Rightarrow> throw VDA5050PPInvalidEventData | Some _ \<Rightarrow> on_om clearActions)"

section \<open>Order events\<close>

definition handleOrderNewLastNodeId :: "(string \<times> seq_id) option \<Rightarrow> unit seh" where
  "handleOrderNewLastNodeId data =
     (case data of
        None \<Rightarrow> throw VDA5050PPInvalidEventData
      | Some (_, seq) \<Rightarrow>
          seqM (on_om (setAGVLastNode seq)) (seqM (on_sm resetDistanceSinceLastNode) request_update))"

text \<open>The state that \<^verbatim>\<open>getActionState\<close> returns is shared with the order manager and is written to.\<close>

definition write_action_state :: "string \<Rightarrow> ActionStatus \<Rightarrow> string option \<Rightarrow> unit om" where
  "write_action_state i s r =
     modify (\<lambda>m. m\<lparr>action_state_by_id :=
       map (\<lambda>(k, st). (k, if k = i then st\<lparr>as_actionStatus := s, as_resultDescription := r\<rparr> else st))
         (action_state_by_id m)\<rparr>)"

definition handleOrderActionStatusChanged ::
  "(string \<times> ActionStatus \<times> string option) option \<Rightarrow> unit seh" where
  "handleOrderActionStatusChanged data =
     (case data of
        None \<Rightarrow> throw VDA5050PPInvalidEventData
      | Some (i, s, r) \<Rightarrow>
          seqM (on_om (getActionState i)) (seqM (on_om (write_action_state i s r)) request_update))"

definition is_pause :: "OrderStatus \<Rightarrow> bool" where
  "is_pause s \<longleftrightarrow> s = k_order_paused \<or> s = k_order_idle_paused \<or> s = k_order_resuming"

definition handleOrderStatus :: "OrderStatus option \<Rightarrow> unit seh" where
  "handleOrderStatus data =
     (case data of
        None \<Rightarrow> throw VDA5050PPInvalidEventData
      | Some s \<Rightarrow>
          bindM (on_om getOrderStatus) (\<lambda>pre.
          seqM (on_om (setOrderStatus s))
          (whenM (is_pause pre \<noteq> is_pause s) request_update)))"

definition handleOrderClearAfterCancel :: "Action option option \<Rightarrow> unit seh" where
  "handleOrderClearAfterCancel data =
     (case data of
        Some (Some _) \<Rightarrow> seqM (on_om clearGraph) (on_om cancelWaitingActions)
      | _ \<Rightarrow> throw VDA5050PPInvalidEventData)"

section \<open>Navigation status\<close>

text \<open>The two settings of \<^verbatim>\<open>StateSubConfig\<close>.\<close>

record StateConfig =
  use_agv_position_from_order :: bool
  default_agv_position_map :: "string option"

definition handleNavigationStatusPosition :: "StateConfig \<Rightarrow> AGVPosition option \<Rightarrow> unit seh" where
  "handleNavigationStatusPosition cfg data =
     (case data of
        None \<Rightarrow> throw VDA5050PPInvalidEventData
      | Some pos \<Rightarrow>
          bindM (on_om hasGraph) (\<lambda>has.
          bindM (if use_agv_position_from_order cfg \<and> has
                 then bindM (on_om getCurrentGraph) (\<lambda>g. liftE (currentMap g))
                 else ret None) (\<lambda>map_id.
          on_sm (setAGVPosition (pos\<lparr>mapId :=
            (case map_id of
               Some i \<Rightarrow> i
             | None \<Rightarrow> (case default_agv_position_map cfg of Some i \<Rightarrow> i | None \<Rightarrow> []))\<rparr>)))))"

definition handleNavigationStatusVelocity :: "Velocity option \<Rightarrow> unit seh" where
  "handleNavigationStatusVelocity data =
     (case data of None \<Rightarrow> throw VDA5050PPInvalidEventData | Some v \<Rightarrow> on_sm (setVelocity v))"

definition handleNavigationStatusDistanceSinceLastNode :: "double option \<Rightarrow> unit seh" where
  "handleNavigationStatusDistanceSinceLastNode data =
     (case data of
        None \<Rightarrow> throw VDA5050PPInvalidEventData
      | Some d \<Rightarrow> on_sm (setDistanceSinceLastNode d))"

text \<open>A change that the state message must report soon.\<close>

definition update_if :: "bool seh \<Rightarrow> unit seh" where
  "update_if m = bindM m (\<lambda>changed. whenM changed request_update)"

definition handleNavigationStatusDriving :: "bool option \<Rightarrow> unit seh" where
  "handleNavigationStatusDriving data =
     (case data of
        None \<Rightarrow> throw VDA5050PPInvalidEventData
      | Some d \<Rightarrow> update_if (on_sm (setDriving d)))"

definition handleNavigationStatusNodeReached :: "string option option \<Rightarrow> unit seh" where
  "handleNavigationStatusNodeReached data =
     (case data of
        None \<Rightarrow> throw VDA5050PPInvalidEventData
      | Some None \<Rightarrow> ret ()
      | Some (Some last_node) \<Rightarrow> update_if (on_om (setAGVLastNodeId last_node)))"

section \<open>Status events\<close>

definition handleLoadAdd :: "Load option \<Rightarrow> unit seh" where
  "handleLoadAdd data =
     (case data of None \<Rightarrow> throw VDA5050PPInvalidEventData | Some l \<Rightarrow> update_if (on_sm (addLoad l)))"

definition handleLoadRemove :: "string option \<Rightarrow> unit seh" where
  "handleLoadRemove data =
     (case data of
        None \<Rightarrow> throw VDA5050PPInvalidEventData
      | Some i \<Rightarrow> update_if (on_sm (removeLoad i)))"

text \<open>A query: \<open>Some acquired\<close> tells whether the result token of the event could be acquired.\<close>

definition handle_get :: "'a seh \<Rightarrow> bool option \<Rightarrow> 'a seh" where
  "handle_get get data =
     (case data of
        None \<Rightarrow> throw VDA5050PPInvalidEventData
      | Some acquired \<Rightarrow>
          if acquired then get else throw VDA5050PPSynchronizedEventNotAcquired)"

definition handleLoadsGet :: "bool option \<Rightarrow> Load list seh" where
  "handleLoadsGet data = handle_get (on_sm getLoads) data"

definition handleLoadsAlter :: "Load list alter option option \<Rightarrow> unit seh" where
  "handleLoadsAlter data =
     (case data of
        Some (Some f) \<Rightarrow> update_if (on_sm (loadsAlter f))
      | _ \<Rightarrow> throw VDA5050PPInvalidEventData)"

definition handleOperatingModeSet :: "OperatingMode option \<Rightarrow> unit seh" where
  "handleOperatingModeSet data =
     (case data of
        None \<Rightarrow> throw VDA5050PPInvalidEventData
      | Some d \<Rightarrow> update_if (on_sm (setOperatingMode d)))"

definition handleOperatingModeGet :: "bool option \<Rightarrow> OperatingMode seh" where
  "handleOperatingModeGet data = handle_get (on_sm getOperatingMode) data"

definition handleOperatingModeAlter ::
  "(OperatingMode \<Rightarrow> exn + OperatingMode) option option \<Rightarrow> unit seh" where
  "handleOperatingModeAlter data =
     (case data of
        Some (Some f) \<Rightarrow> update_if (on_sm (operatingModeAlter f))
      | _ \<Rightarrow> throw VDA5050PPInvalidEventData)"

definition handleBatteryStateSet :: "BatteryState option \<Rightarrow> unit seh" where
  "handleBatteryStateSet data =
     (case data of
        None \<Rightarrow> throw VDA5050PPInvalidEventData
      | Some b \<Rightarrow> on_sm (setBatteryState b))"

definition handleBatteryStateGet :: "bool option \<Rightarrow> BatteryState seh" where
  "handleBatteryStateGet data = handle_get (on_sm getBatteryState) data"

definition handleBatteryStateAlter :: "BatteryState alter option option \<Rightarrow> unit seh" where
  "handleBatteryStateAlter data =
     (case data of
        Some (Some f) \<Rightarrow> on_sm (alterBatteryState f)
      | _ \<Rightarrow> throw VDA5050PPInvalidEventData)"

definition handleRequestNewBase :: "unit option \<Rightarrow> unit seh" where
  "handleRequestNewBase data =
     (case data of
        None \<Rightarrow> throw VDA5050PPInvalidEventData
      | Some _ \<Rightarrow> seqM (on_sm requestNewBase) request_update)"

definition handleErrorAdd :: "Error option \<Rightarrow> unit seh" where
  "handleErrorAdd data =
     (case data of
        None \<Rightarrow> throw VDA5050PPInvalidEventData
      | Some e \<Rightarrow> update_if (on_sm (addError e)))"

definition handleErrorsAlter :: "Error list alter option option \<Rightarrow> unit seh" where
  "handleErrorsAlter data =
     (case data of
        Some (Some f) \<Rightarrow> update_if (on_sm (alterErrors f))
      | _ \<Rightarrow> throw VDA5050PPInvalidEventData)"

definition handleInfoAdd :: "Info option \<Rightarrow> unit seh" where
  "handleInfoAdd data =
     (case data of
        None \<Rightarrow> throw VDA5050PPInvalidEventData
      | Some i \<Rightarrow> seqM (on_sm (addInfo i)) request_update)"

definition handleInfosAlter :: "Info list alter option option \<Rightarrow> unit seh" where
  "handleInfosAlter data =
     (case data of
        Some (Some f) \<Rightarrow> seqM (on_sm (alterInfos f)) request_update
      | _ \<Rightarrow> throw VDA5050PPInvalidEventData)"

section \<open>The subscriber\<close>

text \<open>What \<^verbatim>\<open>initialize\<close> subscribes to: the handler of each event of the interpreter and of the order.\<close>

fun state_on_interpreter :: "InterpreterEvent \<Rightarrow> unit seh" where
  "state_on_interpreter (YieldGraphExtension u g) = handleGraphExtensionEvent (Some (u, Some g))"
| "state_on_interpreter (YieldGraphReplacement i g) = handleGraphReplacementEvent (Some (i, Some g))"
| "state_on_interpreter (YieldNewAction a) = handleNewActionEvent (Some (Some a))"
| "state_on_interpreter YieldClearActions = handleClearActions (Some ())"
| "state_on_interpreter _ = ret ()"

fun state_on_order :: "OrderEvent \<Rightarrow> unit seh" where
  "state_on_order (OrderNewLastNodeId i seq) = handleOrderNewLastNodeId (Some (i, seq))"
| "state_on_order (OrderActionStatusChanged i s r) = handleOrderActionStatusChanged (Some (i, s, r))"
| "state_on_order (OrderClearAfterCancel a) = handleOrderClearAfterCancel (Some (Some a))"
| "state_on_order (OrderStatusEvent s) = handleOrderStatus (Some s)"

end
