(* ===== verification/GraphProps.thy ===== *)
theory GraphProps
  imports Graph Samples
begin

text \<open>
  The properties of \<^verbatim>\<open>core/state/graph\<close>: which updates and extensions are accepted, what the
  graph holds afterwards, that the class invariant is kept, and where the invariant on the
  vehicle's position is not.
\<close>

section \<open>Lookup in a graph without gaps\<close>

lemma contiguous_lookup:
  fixes k :: seq_id
  assumes "m \<noteq> []" and "contiguous m" and "fst (hd m) \<le> k" and "k \<le> fst (last m)"
  shows "k \<in> fst ` set m"
  using assms(3,4)
proof (induction "unat k" arbitrary: k)
  case 0
  then have "k = fst (hd m)" by (simp add: unat_eq_zero)
  then show ?case using assms(1) by (metis hd_in_set image_eqI)
next
  case (Suc n)
  show ?case
  proof (cases "k = fst (hd m)")
    case True
    then show ?thesis using assms(1) by (metis hd_in_set image_eqI)
  next
    case False
    have k1: "unat (k - 1) = n"
      using Suc(2) by (metis Suc_inject Suc_pred' nat.simps(3) unat_eq_zero unat_minus_one zero_less_Suc)
    have "fst (hd m) \<le> k - 1"
      using False Suc.prems(1) k1 Suc(2)
      by (metis less_Suc_eq_le order_le_less word_le_nat_alt word_less_nat_alt)
    moreover have lt: "k - 1 < fst (last m)"
      using Suc.prems(2) k1 Suc(2) by (simp add: word_le_nat_alt word_less_nat_alt)
    ultimately have "k - 1 \<in> fst ` set m" using Suc(1) [OF k1 [symmetric]] by simp
    then show ?thesis using contiguousD [OF assms(2)] lt by force
  qed
qed

definition sample_graph :: Graph where
  "sample_graph = \<lparr>agv_pos = Some 2,
     graph_map = [(0, NodeElement (sample_node 0 True)), (1, EdgeElement (sample_edge 1 True)),
                  (2, NodeElement (sample_node 2 True)), (3, EdgeElement (sample_edge 3 False)),
                  (4, NodeElement (sample_node 4 False))]\<rparr>"

definition sample_extension :: Graph where
  "sample_extension = \<lparr>agv_pos = None,
     graph_map = [(2, NodeElement (sample_node 2 True)), (3, EdgeElement (sample_edge 3 True)),
                  (4, NodeElement (sample_node 4 True))]\<rparr>"

lemmas sample_graph_defs = sample_graph_def sample_extension_def sample_defs

lemma sample_graph_ok [simp]:
  "graph_inv sample_graph" "contiguous (graph_map sample_graph)" "agv_on_base sample_graph"
  "base_part (graph_map sample_graph) = take 3 (graph_map sample_graph)"
  by (auto simp: graph_inv_def sample_graph_defs keys_ok_def base_before_horizon_def wf_map_Cons
      contiguous_def agv_on_base_def)

lemma sample_extension_ok [simp]:
  "graph_inv sample_extension" "contiguous (graph_map sample_extension)"
  by (auto simp: graph_inv_def sample_graph_defs keys_ok_def base_before_horizon_def wf_map_Cons
      contiguous_def)

text \<open>Looking an element up in a graph whose sequence ids have no gaps yields the stored element, and
  for every other id the documented exception. With a gap inside the bounds the exception is
  the one of \<^verbatim>\<open>std::map::at\<close> instead.\<close>

theorem graph_at_spec:
  assumes "graph_inv g"
  shows "Graph_at k g =
    (case map_of (graph_map g) k of
       Some el \<Rightarrow> Inr el
     | None \<Rightarrow>
         if fst (hd (graph_map g)) \<le> k \<and> k \<le> fst (last (graph_map g))
         then Inl StdOutOfRange else Inl VDA5050PPInvalidArgument) \<and>
    (contiguous (graph_map g) \<longrightarrow> Graph_at k g \<noteq> Inl StdOutOfRange)"
proof -
  let ?m = "graph_map g"
  have inv: "wf_map ?m" "?m \<noteq> []" using assms by (auto simp: graph_inv_def)
  have in_bounds: "fst (hd ?m) \<le> k \<and> k \<le> fst (last ?m)" if "map_of ?m k = Some el" for el
    using wf_map_hd_least [OF inv(1) map_of_SomeD [OF that]]
      wf_map_last_greatest [OF inv(1) map_of_SomeD [OF that]] by simp
  have "k \<in> fst ` set ?m" if "contiguous ?m" "fst (hd ?m) \<le> k" "k \<le> fst (last ?m)"
    by (rule contiguous_lookup [OF inv(2) that])
  then have "\<exists>el. map_of ?m k = Some el"
    if "contiguous ?m" "fst (hd ?m) \<le> k" "k \<le> fst (last ?m)"
    using that by (metis map_of_eq_None_iff not_Some_eq)
  then show ?thesis
    using inv(2) in_bounds
    by (auto simp: Graph_at_def bounds_def not_less split: option.split)
qed

theorem graph_at_spec_witness:
  "Graph_at 3 sample_graph = Inr (EdgeElement (sample_edge 3 False)) \<and>
   Graph_at 5 sample_graph = Inl VDA5050PPInvalidArgument"
  using graph_at_spec [OF sample_graph_ok(1), of 3] graph_at_spec [OF sample_graph_ok(1), of 5]
  by (auto simp: sample_graph_def)

section \<open>Building and updating\<close>

lemma Graph_update_all_lookup:
  assumes "Graph_update_all es g = Inr g'" and "graph_inv g \<or> graph_map g = []"
  shows "map_of (graph_map g') k =
    (case List.find (\<lambda>e. getSequenceId e = k) (rev es) of
       Some e \<Rightarrow> Some e | None \<Rightarrow> map_of (graph_map g) k)"
  using assms
proof (induction es arbitrary: g)
  case Nil
  then show ?case by simp
next
  case (Cons e es)
  then obtain h where h: "Graph_update e g = Inr h" "Graph_update_all es h = Inr g'"
    by (auto split: sum.splits)
  have wf: "wf_map (graph_map g)" "base_before_horizon (graph_map g)" "keys_ok (graph_map g)"
    using Cons.prems(2) by (auto simp: graph_inv_def keys_ok_def base_before_horizon_def)
  have "graph_inv h" using Graph_update_inv [OF h(1)] wf by blast
  moreover have
    "map_of (graph_map h) k = (if getSequenceId e = k then Some e else map_of (graph_map g) k)"
    using h(1) wf by (auto simp: Graph_update_eq map_of_insert_or_assign split: if_splits)
  ultimately show ?case using Cons.IH [OF h(2)]
    by (simp add: find_append split: option.split)
qed

text \<open>The constructor accepts a list of elements only if the graph it builds is not empty and has
  no base element after a horizon element. The graph then holds, for every sequence id, the
  last element of the list with that id, and no vehicle is on it.\<close>

theorem graph_constructor_spec:
  assumes "Graph_new es = Inr g"
  shows "graph_inv g \<and> agv_pos g = None \<and>
     map_of (graph_map g) k = List.find (\<lambda>e. getSequenceId e = k) (rev es)"
proof -
  have "Graph_update_all es \<lparr>agv_pos = None, graph_map = []\<rparr> = Inr g"
    using assms by (simp add: Graph_new_def split: if_splits)
  from Graph_update_all_lookup [OF this, of k] Graph_new_inv [OF assms] show ?thesis
    by (simp split: option.split)
qed

theorem graph_constructor_spec_witness:
  "\<exists>g. Graph_new [NodeElement (sample_node 4 False), NodeElement (sample_node 2 True)] = Inr g \<and>
     map_of (graph_map g) 2 = Some (NodeElement (sample_node 2 True)) \<and> graph_inv g"
proof -
  obtain g where g: "Graph_new [NodeElement (sample_node 4 False), NodeElement (sample_node 2 True)] = Inr g"
    by (simp add: Graph_new_def Graph_update_def sample_defs before_upper_bound_def upper_bound_def)
  show ?thesis using graph_constructor_spec [OF g, of 2] g by (simp add: sample_defs)
qed



text \<open>The third class invariant of the header, that the vehicle is never on a horizon element, is
  not kept by \<^verbatim>\<open>update\<close>: overwriting the last base node, on which the vehicle stands, by a
  horizon node is accepted.\<close>

theorem graph_update_moves_vehicle_to_horizon:
  "graph_inv sample_graph \<and> agv_on_base sample_graph \<and>
   (\<exists>g'. Graph_update (NodeElement (sample_node 2 False)) sample_graph = Inr g' \<and>
         graph_inv g' \<and> \<not> agv_on_base g')"
proof -
  have allowed: "update_allowed (NodeElement (sample_node 2 False)) (graph_map sample_graph)"
    by (auto simp: update_allowed_def sample_graph_defs)
  then obtain g' where g': "Graph_update (NodeElement (sample_node 2 False)) sample_graph = Inr g'"
    using sample_graph_ok(1) by (simp add: Graph_update_eq graph_inv_def)
  have "graph_inv g' \<and> agv_pos g' = agv_pos sample_graph"
    using Graph_update_inv [OF g'] sample_graph_ok(1) by (simp add: graph_inv_def)
  moreover have "map_of (graph_map g') 2 = Some (NodeElement (sample_node 2 False))"
    using g' allowed sample_graph_ok(1)
    by (auto simp: Graph_update_eq graph_inv_def map_of_insert_or_assign sample_defs)
  ultimately have "graph_inv g' \<and> \<not> agv_on_base g'"
    by (auto simp: agv_on_base_def sample_graph_def sample_node_def)
  then show ?thesis using g' by simp
qed

section \<open>Extending, cutting and moving\<close>



text \<open>A subgraph holds exactly the elements between the two given ids, both of which must be in the
  graph; it satisfies the class invariant, and the vehicle is on it exactly if its position is
  within the bounds. Otherwise the documented exception is thrown.\<close>

theorem subgraph_spec:
  assumes "graph_inv g"
  shows "subgraph f l g =
     (if f \<le> l \<and> map_of (graph_map g) f \<noteq> None \<and> map_of (graph_map g) l \<noteq> None
      then Inr \<lparr>agv_pos = (case agv_pos g of
                    None \<Rightarrow> None | Some p \<Rightarrow> if f \<le> p \<and> p \<le> l then Some p else None),
                graph_map = filter (\<lambda>p. f \<le> fst p \<and> fst p \<le> l) (graph_map g)\<rparr>
      else Inl VDA5050PPInvalidArgument) \<and>
    (case subgraph f l g of Inl _ \<Rightarrow> True
     | Inr h \<Rightarrow> graph_inv h \<and> (agv_on_base g \<longrightarrow> agv_on_base h))"
proof -
  let ?m = "graph_map g" and ?in = "\<lambda>p :: seq_id \<times> GraphElement. f \<le> fst p \<and> fst p \<le> l"
  note eq = subgraph_eq [OF assms, of f l]
  have "graph_inv h \<and> (agv_on_base g \<longrightarrow> agv_on_base h)" if "subgraph f l g = Inr h" for h
  proof
    have fl: "f \<le> l" "map_of ?m f \<noteq> None" and h: "graph_map h = filter ?in ?m"
      "agv_pos h = (case agv_pos g of None \<Rightarrow> None | Some p \<Rightarrow> if f \<le> p \<and> p \<le> l then Some p else None)"
      using that eq by (auto split: if_splits)
    obtain u where "(f, u) \<in> set ?m" using fl(2) map_of_SomeD by fastforce
    then have ne: "filter ?in ?m \<noteq> []" using fl(1) by (force simp: filter_empty_iff)
    show "graph_inv h"
      using filtered_inv [OF assms ne] h(1) by (simp add: graph_inv_def)
    show "agv_on_base g \<longrightarrow> agv_on_base h"
      using map_of_filter_key [of "\<lambda>k. f \<le> k \<and> k \<le> l" ?m]
      by (auto simp: agv_on_base_def h split: option.split)
  qed
  then show ?thesis using eq by (auto split: sum.split)
qed

theorem subgraph_spec_witness:
  "\<exists>h. subgraph 1 2 sample_graph = Inr h \<and> agv_pos h = Some 2 \<and> length (graph_map h) = 2"
  using subgraph_spec [OF sample_graph_ok(1), of 1 2] by (simp add: sample_graph_def)

text \<open>After the vehicle has reached a released node of the graph, setting its position and trimming
  succeed: everything before the node is gone, everything from it on is kept, the graph begins
  at the vehicle and all three class invariants hold.\<close>

theorem vehicle_moves_and_trims:
  assumes "graph_inv g" and "setAgvLastNodeSequenceId k g = Inr g1"
  shows "trim g1 = Inr \<lparr>agv_pos = Some k, graph_map = filter (\<lambda>q. k \<le> fst q) (graph_map g)\<rparr> \<and>
     (case trim g1 of Inl _ \<Rightarrow> False
      | Inr g2 \<Rightarrow> graph_inv g2 \<and> agv_on_base g2 \<and> fst (hd (graph_map g2)) = k)"
proof -
  obtain n where n: "map_of (graph_map g) k = Some (NodeElement n)" "n_released n"
    and g1: "g1 = g\<lparr>agv_pos := Some k\<rparr>"
    using assms(2) by (auto simp: setAgv_spec)
  have inv: "graph_inv g1" "agv_on_base g1" "agv_pos g1 = Some k"
    using assms(1) n by (auto simp: g1 graph_inv_def agv_on_base_def)
  note eq = trim_eq [OF inv]
  show ?thesis using trim_inv [OF inv(1,2) eq] eq by (simp add: g1)
qed

theorem vehicle_moves_and_trims_witness:
  "\<exists>g1. setAgvLastNodeSequenceId 2 sample_graph = Inr g1 \<and>
     trim g1 = Inr \<lparr>agv_pos = Some 2, graph_map = drop 2 (graph_map sample_graph)\<rparr>"
proof -
  obtain g1 where g1: "setAgvLastNodeSequenceId 2 sample_graph = Inr g1"
    by (simp add: setAgvLastNodeSequenceId_def sample_graph_defs)
  have "\<not> (2 :: seq_id) \<le> 1" by (simp add: word_le_nat_alt)
  then show ?thesis using vehicle_moves_and_trims [OF sample_graph_ok(1) g1] g1
    by (simp add: sample_graph_def)
qed

section \<open>The state message\<close>

lemma dump_elements_eq:
  assumes "m' = filter (\<lambda>(k, el). skip \<noteq> Some k) m"
  shows "dump_elements skip m (ns, es) =
   (ns @ map node_state_of (getNodes \<lparr>agv_pos = a, graph_map = m'\<rparr>),
    es @ map edge_state_of (getEdges \<lparr>agv_pos = a, graph_map = m'\<rparr>))"
  unfolding assms
  by (induction m arbitrary: ns es)
    (auto simp: List.map_filter_simps getNodes_def getEdges_def split: GraphElement.splits)

text \<open>The state message gets the states of all nodes and of all edges of the graph appended, in the
  order of their sequence ids; when asked to, the element the vehicle is on is left out, and
  nothing else is.\<close>

theorem graph_dump_spec:
  "Graph_dumpTo g skip_agv_elem (ns, es) =
   (let h = g\<lparr>graph_map :=
          filter (\<lambda>(k, el). \<not> (skip_agv_elem \<and> agv_pos g = Some k)) (graph_map g)\<rparr>
    in (ns @ map node_state_of (getNodes h), es @ map edge_state_of (getEdges h)))"
proof -
  let ?m = "filter (\<lambda>(k, el). \<not> (skip_agv_elem \<and> agv_pos g = Some k)) (graph_map g)"
  have "?m = filter (\<lambda>(k, el). (if skip_agv_elem then agv_pos g else None) \<noteq> Some k) (graph_map g)"
    by (intro filter_cong) auto
  from dump_elements_eq [OF this, of ns es "agv_pos g"] show ?thesis
    by (cases g; cases skip_agv_elem) (simp_all add: Graph_dumpTo_def Let_def)
qed

end
