(* ===== verification/StateProps.thy ===== *)
theory StateProps
  imports StateEventHandler GraphProps
begin

text \<open>
  Properties of the order manager and of the state event handler: every handler keeps the
  invariant of the order manager, the vehicle is told about exactly the new part of the base, and
  what is left behind when a graph is refused half way.
\<close>

section \<open>The invariant is kept\<close>

lemma om_inv_write_action_state: "om_inv m \<Longrightarrow> om_inv (snd (write_action_state i s r m))"
  by (simp add: write_action_state_def run_simps om_inv_map_states)

lemma om_inv_addNewAction: "om_inv m \<Longrightarrow> om_inv (snd (addNewAction a m))"
proof (cases a)
  case (Some x)
  assume inv: "om_inv m"
  show ?thesis
  proof (cases "map_of (action_by_id m) (actionId x) = None")
    case True
    then show ?thesis using addNewAction_new [OF inv True] Some by simp
  qed (use inv Some addNewAction_known in simp)
qed (simp add: addNewAction_null)

lemma om_inv_clearActions: "om_inv m \<Longrightarrow> om_inv (snd (clearActions m))"
  by (simp add: om_inv_def clearActions_def run_simps)

lemma om_inv_setAGVLastNode: "om_inv m \<Longrightarrow> om_inv (snd (setAGVLastNode k m))"
proof (cases "om_graph m")
  case (Some g)
  assume inv: "om_inv m"
  have g: "graph_inv g" using om_inv_graph [OF inv Some] .
  show ?thesis
  proof (cases "setAgvLastNodeSequenceId k g")
    case (Inr g1)
    then have g1: "graph_inv g1" "agv_on_base g1" "agv_pos g1 = Some k"
      using g by (auto simp: setAgv_spec graph_inv_def agv_on_base_def)
    obtain g2 where trim: "trim g1 = Inr g2" using trim_eq [OF g1] by blast
    have g2: "graph_inv g2" using trim_inv [OF g1(1,2) trim] by blast
    show ?thesis
      using inv Some Inr trim g1(1) g2
      by (auto simp: setAGVLastNode_def run_simps om_inv_set_graph split: sum.split)
  qed (use inv Some in \<open>simp add: setAGVLastNode_def run_simps\<close>)
qed (simp add: setAGVLastNode_def run_simps)

text \<open>The events of the two managers that change the order manager.\<close>

datatype StateInput =
    InterpreterInput InterpreterEvent
  | OrderInput OrderEvent
  | NodeReachedInput "string option"

fun state_step :: "StateInput \<Rightarrow> unit seh" where
  "state_step (InterpreterInput ev) = state_on_interpreter ev"
| "state_step (OrderInput ev) = state_on_order ev"
| "state_step (NodeReachedInput i) = handleNavigationStatusNodeReached (Some i)"

text \<open>
  What the senders of graphs guarantee: a replacement satisfies the class invariant, an extension
  too, and it fits to the present graph, which has a base whose last sequence id is not the
  greatest number.
\<close>

definition graph_input_ok :: "StateInput \<Rightarrow> StateWorld \<Rightarrow> bool" where
  "graph_input_ok p w \<longleftrightarrow>
     (case p of
        InterpreterInput (YieldGraphReplacement _ g) \<Rightarrow> graph_inv g
      | InterpreterInput (YieldGraphExtension _ x) \<Rightarrow>
          graph_inv x \<and>
          (case om_graph (w_om w) of
             None \<Rightarrow> True
           | Some g \<Rightarrow>
               contiguous (graph_map g) \<and> base_part (graph_map g) \<noteq> [] \<and>
               fst (last (base_part (graph_map g))) < fst (last (base_part (graph_map g))) + 1)
      | _ \<Rightarrow> True)"

definition w_inv :: "StateWorld \<Rightarrow> bool" where
  "w_inv w \<longleftrightarrow> om_inv (w_om w)"

lemma extendGraph_update_inv:
  assumes "om_inv m" and "graph_inv x"
    and "\<And>g. om_graph m = Some g \<Longrightarrow> contiguous (graph_map g) \<and> base_part (graph_map g) \<noteq> [] \<and>
      fst (last (base_part (graph_map g))) < fst (last (base_part (graph_map g))) + 1"
  shows "om_inv (snd (extendGraph_update x u m))"
proof (cases "om_graph m")
  case None
  then show ?thesis
    using assms(1) by (simp add: extendGraph_update_def extendGraph_update_locked_def
        extendGraph_locked_def run_simps split: sum.split)
next
  case (Some g)
  have g: "graph_inv g" by (rule om_inv_graph [OF assms(1) Some])
  have x: "graph_map x \<noteq> []" using assms(2) by (simp add: graph_inv_def)
  note h = assms(3) [OF Some]
  note eq = extend_eq [OF g conjunct1 [OF h] x conjunct1 [OF conjunct2 [OF h]]]
  have "om_inv (m\<lparr>order_update_id := u, om_graph := Some g'\<rparr>)" if "Graph.extend x g = Inr (d, g')" for d g'
  proof -
    have "g' = extended x g" "fst (last (base_part (graph_map g))) \<le> fst (hd (graph_map x))"
      using that eq h by (auto split: if_splits)
    then have "graph_inv g'" using extended_inv [OF g assms(2)] h by simp
    then show ?thesis using assms(1) by (simp add: om_inv_set_graph)
  qed
  then show ?thesis
    using assms(1) Some
    by (auto simp: extendGraph_update_def extendGraph_update_locked_def extendGraph_locked_def run_simps
        split: sum.split)
qed

lemma state_step_inv:
  assumes "w_inv w" and "graph_input_ok p w"
  shows "w_inv (snd (state_step p w))"
proof -
  have inv: "om_inv (w_om w)" using assms(1) by (simp add: w_inv_def)
  show ?thesis
  proof (cases p)
    case (InterpreterInput ev)
    show ?thesis
    proof (cases ev)
      case (YieldGraphExtension u x)
      have "om_inv (snd (extendGraph_update x u (w_om w)))"
        using assms(2) InterpreterInput YieldGraphExtension
        by (intro extendGraph_update_inv inv) (auto simp: graph_input_ok_def)
      then show ?thesis
        using InterpreterInput YieldGraphExtension
        by (auto simp: w_inv_def handleGraphExtensionEvent_def run_simps split: sum.split prod.split)
    next
      case (YieldGraphReplacement i g)
      have "om_inv (snd (replaceGraph g i (w_om w)))"
        using assms(2) InterpreterInput YieldGraphReplacement
        by (intro replaceGraph_inv inv) (simp add: graph_input_ok_def)
      then show ?thesis
        using InterpreterInput YieldGraphReplacement inv
        by (auto simp: w_inv_def handleGraphReplacementEvent_def run_simps split: sum.split prod.split)
    next
      case (YieldNewAction a)
      then show ?thesis
        using InterpreterInput om_inv_addNewAction [OF inv, of "Some a"]
        by (simp add: w_inv_def handleNewActionEvent_def run_simps split_beta)
    next
      case YieldClearActions
      then show ?thesis
        using InterpreterInput om_inv_clearActions [OF inv]
        by (simp add: w_inv_def handleClearActions_def run_simps split_beta)
    qed (use InterpreterInput inv in \<open>simp_all add: w_inv_def run_simps\<close>)
  next
    case (OrderInput ev)
    show ?thesis
    proof (cases ev)
      case (OrderNewLastNodeId i k)
      then show ?thesis
        using OrderInput om_inv_setAGVLastNode [OF inv, of k]
        by (auto simp: w_inv_def handleOrderNewLastNodeId_def resetDistanceSinceLastNode_def run_simps
            split: sum.split prod.split)
    next
      case (OrderActionStatusChanged i s r)
      then show ?thesis
        using OrderInput om_inv_write_action_state [OF inv, of i s r] inv
        by (auto simp: w_inv_def handleOrderActionStatusChanged_def getActionState_def run_simps
            split: sum.split prod.split option.split)
    next
      case (OrderClearAfterCancel a)
      have "om_inv ((w_om w)\<lparr>om_graph := None\<rparr>)" using inv by (simp add: om_inv_set_graph)
      from om_inv_cancelWaiting [OF this] show ?thesis
        using OrderInput OrderClearAfterCancel
        by (simp add: w_inv_def handleOrderClearAfterCancel_def clearGraph_def run_simps split_beta
            split: sum.split)
    next
      case (OrderStatusEvent s)
      then show ?thesis
        using OrderInput inv
        by (simp add: w_inv_def handleOrderStatus_def getOrderStatus_def setOrderStatus_def run_simps)
    qed
  next
    case (NodeReachedInput i)
    then show ?thesis
      using inv by (cases i)
        (simp_all add: w_inv_def handleNavigationStatusNodeReached_def update_if_def setAGVLastNodeId_def
          run_simps)
  qed
qed

text \<open>
  The handlers catch nothing. An exception keeps what has been changed before it; it also ends the
  manager's thread, so the sequences of events considered here include more than the real ones.
\<close>

definition state_exec :: "StateInput \<Rightarrow> StateWorld \<Rightarrow> StateWorld" where
  "state_exec p w = snd (state_step p w)"

interpretation state: guarded_system state_exec graph_input_ok w_inv
  by unfold_locales (simp add: state_exec_def state_step_inv)

section \<open>An extension of the graph\<close>

text \<open>The base elements of a graph behind a sequence id.\<close>

definition base_behind :: "seq_id \<Rightarrow> Graph \<Rightarrow> Graph" where
  "base_behind k x =
     \<lparr>agv_pos = None, graph_map = filter (\<lambda>p. k < fst p \<and> isBase (snd p)) (graph_map x)\<rparr>"

text \<open>Two graphs that fit together: the second one begins at or right behind the base of the first.\<close>

definition extends_base :: "Graph \<Rightarrow> Graph \<Rightarrow> bool" where
  "extends_base g x \<longleftrightarrow>
     graph_inv g \<and> contiguous (graph_map g) \<and> base_part (graph_map g) \<noteq> [] \<and>
     graph_inv x \<and> contiguous (graph_map x) \<and> base_part (graph_map x) \<noteq> [] \<and> agv_pos x = None \<and>
     (let bl = fst (last (base_part (graph_map g)))
      in bl < bl + 1 \<and> fst (hd (graph_map x)) \<in> {bl, bl + 1})"

lemma handle_extension:
  assumes "om_graph (w_om w) = Some g" and "extends_base g x"
  defines "new \<equiv> base_behind (fst (last (base_part (graph_map g)))) x"
  shows "handleGraphExtensionEvent (Some (u, Some x)) w =
    (Inr (), w\<lparr>w_om := (w_om w)\<lparr>order_update_id := u, om_graph := Some (extended x g)\<rparr>,
       w_out := w_out w @ (if graph_map new = [] then []
         else [NavDispatch (NavigationBaseIncreased (getNodes new) (getEdges new))])\<rparr>)"
proof -
  let ?bl = "fst (last (base_part (graph_map g)))" and ?bx = "fst (last (base_part (graph_map x)))"
  let ?f = "fst (hd (graph_map x))" and ?m = "graph_map x"
  have g: "graph_inv g" "contiguous (graph_map g)" "base_part (graph_map g) \<noteq> []"
    and x: "graph_inv x" "contiguous ?m" "base_part ?m \<noteq> []" "agv_pos x = None"
    and bl: "?bl < ?bl + 1" and f: "?f \<in> {?bl, ?bl + 1}"
    using assms(2) by (simp_all add: extends_base_def Let_def)
  have ne: "graph_map g \<noteq> []" "?m \<noteq> []" using g(1) x(1) by (simp_all add: graph_inv_def)
  have wf: "wf_map ?m" "base_before_horizon ?m" using x(1) by (simp_all add: graph_inv_def)
  have hz: "isHorizon (snd p) \<longleftrightarrow> ?bx < fst p" if "p \<in> set ?m" for p
    by (rule last_base_bounds [OF wf x(3) that])
  have succ: "k < ?bl + 1 \<longleftrightarrow> k \<le> ?bl" for k using less_succ_word [OF bl] by simp
  have mx: "max (?bl + 1) ?f = ?bl + 1" using f bl by (auto simp: max_def)
  have ext: "Graph.extend x g = Inr ((?bl + 1, fst (last ?m)), extended x g)"
    using extend_eq [OF g(1,2) ne(2) g(3)] x(4) f mx by simp
  have ext': "extendGraph_update x u (w_om w) = (Inr (?bl + 1, fst (last ?m)),
      (w_om w)\<lparr>order_update_id := u, om_graph := Some (extended x g)\<rparr>)"
    using ext assms(1) ne
    by (simp add: extendGraph_update_def extendGraph_update_locked_def extendGraph_locked_def run_simps
        bounds_def)
  have bb: "baseBounds x = Inr (?f, ?bx)" using baseBounds_eq [OF ne(2)] x(3) by simp
  show ?thesis
  proof (cases "?bx < ?bl + 1")
    case True
    then have "?bx \<le> ?bl" by (simp only: succ)
    then have "\<not> (?bl < fst p \<and> isBase (snd p))" if "p \<in> set ?m" for p
      using hz [OF that] by (meson isBase_def leD le_less_trans not_le)
    then have "graph_map new = []"
      unfolding new_def base_behind_def by (simp add: filter_empty_iff del: isBase_iff)
    then show ?thesis
      using True ext' bb by (simp add: handleGraphExtensionEvent_def run_simps)
  next
    case False
    then have le: "?bl + 1 \<le> ?bx" by (simp only: not_less)
    then have lt: "?bl < ?bx" "?bl + 1 \<le> ?bx" using less_le_trans [OF bl le] le by blast+
    have bx: "last (base_part ?m) \<in> set ?m" using last_in_set [OF x(3)] by auto
    then have top: "?bx \<le> fst (last ?m)" by (rule wf_map_last_greatest [OF wf(1)])
    have "?f \<le> ?bl + 1" using f bl by auto
    moreover have "?bl + 1 \<le> fst (last ?m)" using lt(2) top by simp
    ultimately have "?bl + 1 \<in> fst ` set ?m" by (rule contiguous_lookup [OF ne(2) x(2)])
    then have keys: "map_of ?m (?bl + 1) \<noteq> None" "map_of ?m ?bx \<noteq> None"
      using bx by (auto simp: map_of_eq_None_iff)
    have cut: "filter (\<lambda>p. ?bl + 1 \<le> fst p \<and> fst p \<le> ?bx) ?m = graph_map new"
    proof -
      have "(?bl + 1 \<le> fst p \<and> fst p \<le> ?bx) = (?bl < fst p \<and> isBase (snd p))" if "p \<in> set ?m" for p
        using hz [OF that] succ [of "fst p"] by (auto simp: not_le not_less)
      then show ?thesis
        unfolding new_def base_behind_def Graph.simps by (rule filter_cong [OF refl])
    qed
    have "last (base_part ?m) \<in> set (graph_map new)"
      using bx hz [OF bx] lt(1) by (simp add: new_def base_behind_def)
    then have nonempty: "graph_map new \<noteq> []" by auto
    have "subgraph (?bl + 1) ?bx x = Inr new"
      using subgraph_eq [OF x(1), of "?bl + 1" ?bx] keys lt(2) x(4) cut
      by (simp add: new_def base_behind_def)
    then show ?thesis
      using False ext' bb nonempty by (simp add: handleGraphExtensionEvent_def run_simps)
  qed
qed

text \<open>A state without an order; the two sample graphs fit together.\<close>

definition empty_state_world :: StateWorld where
  "empty_state_world =
     \<lparr>w_om = OrderManager_new,
      w_sm = StatusManager_new (BatteryState []) (SafetyState []) \<lparr>ap_x = 0, ap_y = 0, ap_theta = 0, mapId = [],
        ap_positionInitialized = False, ap_deviationRange = None, position_payload = []\<rparr>,
      w_out = []\<rparr>"

lemma sample_extends_base: "extends_base sample_graph sample_extension"
  by (simp add: extends_base_def) (simp add: sample_graph_defs)

section \<open>Properties\<close>

text \<open>C9: Whatever sequence of events reaches the state event handler, with graphs that keep
  the class invariant, the order manager stays well formed: its graph satisfies the class invariant,
  and every action has exactly one state, filed under its id. This includes the events whose
  handler throws half way.\<close>

theorem state_invariant_kept:
  assumes "w_inv w" and "ops_ok graph_input_ok state_exec ps w"
  shows "w_inv (run_ops state_exec ps w)"
  using assms by (rule state.run_inv)

theorem state_invariant_kept_witness:
  "w_inv (run_ops state_exec
     [InterpreterInput (YieldGraphReplacement ''o'' sample_graph), InterpreterInput (YieldNewAction sample_action),
      OrderInput (OrderActionStatusChanged ''a'' RUNNING None)] empty_state_world)"
proof (rule state_invariant_kept)
  show "w_inv empty_state_world" by (simp add: w_inv_def om_inv_def empty_state_world_def OrderManager_new_def)
qed (simp add: graph_input_ok_def)

text \<open>An extension that fits to the current graph is taken over: the new graph is the
  extended one, the update id is stored, and the navigation is told about exactly those base elements
  of the extension that are behind the old base; when there are none it is told nothing.\<close>

theorem extension_announces_new_base:
  assumes "om_graph (w_om w) = Some g" and "extends_base g x"
    and "new = base_behind (fst (last (base_part (graph_map g)))) x"
  shows "handleGraphExtensionEvent (Some (u, Some x)) w =
    (Inr (), w\<lparr>w_om := (w_om w)\<lparr>order_update_id := u, om_graph := Some (extended x g)\<rparr>,
       w_out := w_out w @ (if graph_map new = [] then []
         else [NavDispatch (NavigationBaseIncreased (getNodes new) (getEdges new))])\<rparr>)"
  unfolding assms(3) by (rule handle_extension [OF assms(1,2)])

theorem extension_announces_new_base_witness:
  "w_out (snd (handleGraphExtensionEvent (Some (1, Some sample_extension))
     (empty_state_world\<lparr>w_om := OrderManager_new\<lparr>om_graph := Some sample_graph\<rparr>\<rparr>))) =
   [NavDispatch (NavigationBaseIncreased [sample_node 4 True] [sample_edge 3 True])]"
proof -
  let ?w = "empty_state_world\<lparr>w_om := OrderManager_new\<lparr>om_graph := Some sample_graph\<rparr>\<rparr>"
  have "om_graph (w_om ?w) = Some sample_graph" by simp
  note announced = extension_announces_new_base [OF this sample_extends_base refl, of 1]
  have "base_behind (fst (last (base_part (graph_map sample_graph)))) sample_extension =
      \<lparr>agv_pos = None, graph_map = [(3, EdgeElement (sample_edge 3 True)), (4, NodeElement (sample_node 4 True))]\<rparr>"
    by (simp add: base_behind_def) (simp add: sample_graph_defs)
  then show ?thesis
    by (simp only: announced) (simp add: empty_state_world_def getNodes_def getEdges_def List.map_filter_def)
qed

end
