(* ===== verification/InterpreterPlan.thy ===== *)
theory InterpreterPlan
  imports InterpreterRun
begin

text \<open>
  A reference definition of what an order means, and the proof that the interpreter's state
  machine computes it. The reference walks over the pairs of an edge and the node it leads to;
  it knows nothing of iterators, states or buffers.
\<close>

section \<open>Groups of actions\<close>

definition is_hard :: "Action \<Rightarrow> bool" where
  "is_hard a \<longleftrightarrow> blockingType a = HARD"

text \<open>A HARD action runs alone; the actions between two HARD ones run together.\<close>

function action_groups :: "Action list \<Rightarrow> Action list list" where
  "action_groups [] = []"
| "action_groups (a # as) =
     (if is_hard a then [a] # action_groups as
      else (a # takeWhile (\<lambda>x. \<not> is_hard x) as) # action_groups (dropWhile (\<lambda>x. \<not> is_hard x) as))"
  by pat_completeness auto
termination
  by (relation "measure length") (auto simp: less_Suc_eq_le length_dropWhile_le)

definition ceiling :: "Action list \<Rightarrow> BlockingType" where
  "ceiling as = fold max (map blockingType as) NONE"

definition group_events :: "Action list \<Rightarrow> InterpreterEvent list" where
  "group_events as = map (\<lambda>g. YieldActionGroupEvent g (ceiling g)) (action_groups as)"

definition has_blocking :: "Action list \<Rightarrow> bool" where
  "has_blocking as \<longleftrightarrow> (\<exists>a \<in> set as. blockingType a \<noteq> NONE)"

section \<open>The plan of an order\<close>

fun nav_event :: "(Node \<times> Edge) option \<Rightarrow> Action list \<Rightarrow> InterpreterEvent list" where
  "nav_event None as = []"
| "nav_event (Some (n, e)) as = [YieldNavigationStepEvent n (Some e) (has_blocking as)]"

text \<open>
  \<open>goal\<close> is the step to the node reached last, \<open>acts\<close> are that node's actions. The vehicle stops
  at the node when one of its actions or of those of the next edge blocks; the groups of
  the node and of the next edge follow the step to the node.
\<close>

fun plan_rest ::
  "(Node \<times> Edge) option \<Rightarrow> Action list \<Rightarrow> (Edge \<times> Node) list \<Rightarrow> InterpreterEvent list" where
  "plan_rest goal acts [] = nav_event goal acts @ group_events acts"
| "plan_rest goal acts ((e, n) # rest) =
     (if e_released e then
        map YieldNewAction (e_actions e) @ nav_event goal (acts @ e_actions e) @
        group_events acts @ group_events (e_actions e) @
        map YieldNewAction (n_actions n) @ plan_rest (Some (n, e)) (n_actions n) rest
      else nav_event goal acts @ group_events acts)"

fun interleave :: "(Edge \<times> Node) list \<Rightarrow> (seq_id, GraphElement) std_map" where
  "interleave [] = []"
| "interleave ((e, n) # rest) =
     (e_sequenceId e, EdgeElement e) # (n_sequenceId n, NodeElement n) # interleave rest"

definition legs :: "Order \<Rightarrow> (Edge \<times> Node) list" where
  "legs order = zip (o_edges order) (tl (o_nodes order))"

definition order_graph :: "Order \<Rightarrow> Graph" where
  "order_graph order =
     (let n = hd (o_nodes order)
      in \<lparr>agv_pos = None, graph_map = (n_sequenceId n, NodeElement n) # interleave (legs order)\<rparr>)"

text \<open>An update of an order does not repeat the actions of the node it is stitched to.\<close>

definition first_actions :: "Order \<Rightarrow> Action list" where
  "first_actions order =
     (let n = hd (o_nodes order)
      in if n_released n \<and> (o_orderUpdateId order = 0 \<or> legs order = []) then n_actions n else [])"

definition order_plan :: "Order \<Rightarrow> InterpreterEvent list" where
  "order_plan order =
     (if o_orderUpdateId order = 0 then [YieldClearActions] else []) @
     map YieldNewAction (first_actions order) @
     plan_rest None (first_actions order) (legs order) @
     [graph_event (o_orderUpdateId order) (o_orderId order) (order_graph order)]"

text \<open>
  The orders it is for: nodes and edges alternate, sequence ids count up without wrapping
  around, and the base ends with a node.
\<close>

fun chain_ok :: "seq_id \<Rightarrow> bool \<Rightarrow> (Edge \<times> Node) list \<Rightarrow> bool" where
  "chain_ok s r [] = True"
| "chain_ok s r ((e, n) # rest) \<longleftrightarrow>
     s < s + 1 \<and> s + 1 < s + 2 \<and> e_sequenceId e = s + 1 \<and> n_sequenceId n = s + 2 \<and>
     e_released e = n_released n \<and> (e_released e \<longrightarrow> r) \<and> chain_ok (s + 2) (n_released n) rest"

definition order_ok :: "Order \<Rightarrow> bool" where
  "order_ok order \<longleftrightarrow>
     (case o_nodes order of
        [] \<Rightarrow> False
      | n # ns \<Rightarrow>
          length (o_edges order) = length ns \<and>
          chain_ok (n_sequenceId n) (n_released n) (zip (o_edges order) ns))"

text \<open>The first group of an order gets the indeterminate value into its ceiling.\<close>

fun raise_first :: "BlockingType \<Rightarrow> InterpreterEvent list \<Rightarrow> InterpreterEvent list" where
  "raise_first b [] = []"
| "raise_first b (YieldActionGroupEvent as c # evs) = YieldActionGroupEvent as (max b c) # evs"
| "raise_first b (ev # evs) = ev # raise_first b evs"

section \<open>Groups: the loop and the reference\<close>

fun buffered :: "Action list \<Rightarrow> BlockingType \<Rightarrow> Action list \<Rightarrow> InterpreterEvent list" where
  "buffered g b [] = (if g = [] then [] else [YieldActionGroupEvent g b])"
| "buffered g b (a # as) =
     (if blockingType a = HARD
      then (if g = [] then [] else [YieldActionGroupEvent g b]) @
           YieldActionGroupEvent [a] HARD # buffered [] NONE as
      else buffered (g @ [a]) (max b (blockingType a)) as)"

definition next_ceiling :: "Action list \<Rightarrow> BlockingType \<Rightarrow> Action list \<Rightarrow> BlockingType" where
  "next_ceiling g b as = (if g = [] \<and> as = [] then b else NONE)"

lemma has_blocking_simps [simp]:
  "\<not> has_blocking []" "has_blocking (a # as) \<longleftrightarrow> blockingType a \<noteq> NONE \<or> has_blocking as"
  "has_blocking (as @ bs) \<longleftrightarrow> has_blocking as \<or> has_blocking bs"
  by (auto simp: has_blocking_def)

lemma max_NONE [simp]: "max NONE b = b" "max b NONE = b" "max b HARD = HARD" "max HARD b = HARD"
  by (cases b; simp add: max_def)+

lemma run_node_actions:
  "interpret_all (EI ns es as i u cg gn ve stop g b q k_handling_node_action) =
     emits (map YieldNewAction as) (interpret_all (EI ns es [] i u cg gn ve
       (stop \<or> has_blocking as) [] (next_ceiling g b as) (q @ buffered g b as)
       k_handling_transition))"
proof (induction as arbitrary: stop g b q)
  case Nil
  show ?case by (simp add: interp_steps next_ceiling_def)
next
  case (Cons a as)
  show ?case
  proof (cases "blockingType a = HARD")
    case True
    have hard: "interpret_all (EI ns es (a # as) i u cg gn ve stop [] b q k_handling_node_action) =
      emits (map YieldNewAction (a # as)) (interpret_all (EI ns es [] i u cg gn ve True []
         NONE (q @ YieldActionGroupEvent [a] HARD # buffered [] NONE as) k_handling_transition))"
      for stop b q
      using True by (simp add: interp_steps Cons.IH next_ceiling_def)
    show ?thesis
    proof (cases "g = []")
      case False
      then show ?thesis
        by (simp add: step_node_action(3) [OF True] step_node_action_queue hard True next_ceiling_def)
    qed (simp add: hard True next_ceiling_def)
  next
    case False
    then show ?thesis by (simp add: interp_steps Cons.IH next_ceiling_def)
  qed
qed

lemma run_edge_actions:
  "interpret_all (EI ns es as i u cg gn ve stop g b q k_handling_edge_action) =
     emits (map YieldNewAction as) (interpret_all (EI ns es [] i u cg gn ve
       (stop \<or> has_blocking as) [] (next_ceiling g b as) (q @ buffered g b as)
       k_handling_navigation))"
proof (induction as arbitrary: stop g b q)
  case Nil
  show ?case by (simp add: interp_steps next_ceiling_def)
next
  case (Cons a as)
  show ?case
  proof (cases "blockingType a = HARD")
    case True
    have hard: "interpret_all (EI ns es (a # as) i u cg gn ve stop [] b q k_handling_edge_action) =
      emits (map YieldNewAction (a # as)) (interpret_all (EI ns es [] i u cg gn ve True []
         NONE (q @ YieldActionGroupEvent [a] HARD # buffered [] NONE as) k_handling_navigation))"
      for stop b q
      using True by (simp add: interp_steps Cons.IH next_ceiling_def)
    show ?thesis
    proof (cases "g = []")
      case False
      then show ?thesis
        by (simp add: step_edge_action(3) [OF True] step_edge_action_queue hard True next_ceiling_def)
    qed (simp add: hard True next_ceiling_def)
  next
    case False
    then show ?thesis by (simp add: interp_steps Cons.IH next_ceiling_def)
  qed
qed

lemma fold_max_raise: "fold max (map f as) (max b c) = max b (fold max (map f as) c)"
  for b c :: BlockingType
  by (induction as arbitrary: c) (simp_all add: max.left_commute)

lemma ceiling_append: "ceiling (as @ [a]) = max (ceiling as) (blockingType a)"
  by (simp add: ceiling_def max.commute)

text \<open>With a group open, and without.\<close>

lemma buffered_open:
  assumes "g \<noteq> []"
  shows "buffered g b as =
    YieldActionGroupEvent (g @ takeWhile (\<lambda>x. \<not> is_hard x) as)
      (fold max (map blockingType (takeWhile (\<lambda>x. \<not> is_hard x) as)) b) #
    buffered [] NONE (dropWhile (\<lambda>x. \<not> is_hard x) as)"
  using assms
  by (induction as arbitrary: g b) (auto simp: is_hard_def max.commute)

lemma buffered_group_events: "buffered [] b as = raise_first b (group_events as)"
proof (induction as arbitrary: b rule: action_groups.induct)
  case 1
  then show ?case by (simp add: group_events_def)
next
  case (2 a as)
  let ?soft = "\<lambda>x. \<not> is_hard x"
  have raise: "raise_first NONE evs = evs" for evs
    by (induction NONE evs rule: raise_first.induct) simp_all
  show ?case
  proof (cases "is_hard a")
    case True
    then show ?thesis using 2(1) raise
      by (simp add: group_events_def is_hard_def ceiling_def)
  next
    case False
    have ceil: "ceiling (a # takeWhile ?soft as) =
        fold max (map blockingType (takeWhile ?soft as)) (blockingType a)"
      by (simp add: ceiling_def)
    show ?thesis using False 2(2) raise
      by (simp add: buffered_open is_hard_def group_events_def ceil [unfolded is_hard_def]
          fold_max_raise)
  qed
qed

lemma raise_first_NONE [simp]: "raise_first NONE evs = evs"
  by (induction NONE evs rule: raise_first.induct) simp_all

lemma raise_first_new [simp]:
  "raise_first b (map YieldNewAction as @ evs) = map YieldNewAction as @ raise_first b evs"
  by (induction as) simp_all

lemma raise_first_nav [simp]: "raise_first b (nav_event goal as @ evs) = nav_event goal as @ raise_first b evs"
  by (cases "(goal, as)" rule: nav_event.cases) simp_all

lemma group_events_empty: "group_events as = [] \<longleftrightarrow> as = []"
  by (cases as) (simp_all add: group_events_def)

lemma raise_first_groups:
  "raise_first b (group_events as @ evs) =
     raise_first b (group_events as) @ raise_first (next_ceiling [] b as) evs"
proof (cases "action_groups as")
  case Nil
  then have "as = []" using group_events_empty by (simp add: group_events_def)
  then show ?thesis by (simp add: group_events_def next_ceiling_def)
next
  case (Cons g gs)
  then have "as \<noteq> []" by auto
  then show ?thesis using Cons by (simp add: group_events_def next_ceiling_def)
qed

section \<open>The collected graph\<close>

lemma insert_or_assign_last:
  "\<forall>p \<in> set m. fst p < k \<Longrightarrow> insert_or_assign k v m = m @ [(k, v)]"
  by (induction m) auto

text \<open>An element behind all others is accepted unless it is base behind horizon.\<close>

lemma Graph_update_last:
  assumes "\<forall>p \<in> set (graph_map g). fst p < getSequenceId el"
    and "isBase el \<longrightarrow> (\<forall>p \<in> set (graph_map g). isBase (snd p))"
  shows "Graph_update el g = Inr (g\<lparr>graph_map := graph_map g @ [(getSequenceId el, el)]\<rparr>)"
proof -
  have "upper_bound (getSequenceId el) (graph_map g) = None"
    using assms(1) by (auto simp: upper_bound_None not_less intro: less_imp_le)
  moreover have "\<not> isHorizon (snd b)"
    if "isBase el" "before_upper_bound (getSequenceId el) (graph_map g) = Some b" for b
    using assms(2) that before_upper_bound_Some(1) by fastforce
  ultimately show ?thesis
    using assms(1) by (auto simp: Graph_update_def Let_def insert_or_assign_last split: option.split)
qed

text \<open>All keys are at most \<open>s\<close>; when \<open>r\<close> is set, no element is horizon.\<close>

definition collected_ok :: "seq_id \<Rightarrow> bool \<Rightarrow> Graph \<Rightarrow> bool" where
  "collected_ok s r g \<longleftrightarrow>
     (\<forall>p \<in> set (graph_map g). fst p \<le> s) \<and> (r \<longrightarrow> (\<forall>p \<in> set (graph_map g). isBase (snd p)))"

abbreviation add_leg :: "Edge \<Rightarrow> Node \<Rightarrow> Graph \<Rightarrow> Graph" where
  "add_leg e n g \<equiv> g\<lparr>graph_map := graph_map g @
     [(e_sequenceId e, EdgeElement e), (n_sequenceId n, NodeElement n)]\<rparr>"

lemma collect_leg:
  assumes "collected_ok s r g" and "chain_ok s r ((e, n) # rest)"
  shows "\<exists>g1. update_collected (EdgeElement e) (Some g) = Inr g1 \<and>
    update_collected (NodeElement n) (Some g1) = Inr (add_leg e n g)"
    and "collected_ok (s + 2) (n_released n) (add_leg e n g)"
proof -
  have lt: "s < s + 1" "s + 1 < s + 2" and seq: "e_sequenceId e = s + 1" "n_sequenceId n = s + 2"
    and rel: "e_released e = n_released n" "e_released e \<longrightarrow> r"
    using assms(2) by simp_all
  have keys: "\<forall>p \<in> set (graph_map g). fst p < s + 1"
    using assms(1) lt(1) by (auto simp: collected_ok_def)
  then have keys2: "\<forall>p \<in> set (graph_map g). fst p < s + 2"
    using lt(2) by (meson less_trans)
  have e: "Graph_update (EdgeElement e) g = Inr (g\<lparr>graph_map := graph_map g @ [(s + 1, EdgeElement e)]\<rparr>)"
    using Graph_update_last [of g "EdgeElement e"] keys assms(1) rel seq(1) by (simp add: collected_ok_def)
  have "Graph_update (NodeElement n) (g\<lparr>graph_map := graph_map g @ [(s + 1, EdgeElement e)]\<rparr>) =
      Inr (add_leg e n g)"
    using Graph_update_last [of "g\<lparr>graph_map := graph_map g @ [(s + 1, EdgeElement e)]\<rparr>" "NodeElement n"]
      keys2 assms(1) rel seq lt(2) by (auto simp: collected_ok_def)
  then show "\<exists>g1. update_collected (EdgeElement e) (Some g) = Inr g1 \<and>
      update_collected (NodeElement n) (Some g1) = Inr (add_leg e n g)"
    using e by (simp add: update_collected_def)
  have "\<forall>p \<in> set (graph_map (add_leg e n g)). fst p \<le> s + 2"
    using keys2 seq lt(2) by (auto intro: less_imp_le)
  moreover have "n_released n \<longrightarrow> (\<forall>p \<in> set (graph_map (add_leg e n g)). isBase (snd p))"
    using assms(1) rel by (auto simp: collected_ok_def)
  ultimately show "collected_ok (s + 2) (n_released n) (add_leg e n g)"
    by (simp only: collected_ok_def)
qed

text \<open>The horizon is collected as a whole.\<close>

lemma skip_horizon_all:
  "collected_ok s r g \<Longrightarrow> chain_ok s r rest \<Longrightarrow>
   skip_horizon (map fst rest) (map snd rest) (Some g) =
     Inr ([], [], Some (g\<lparr>graph_map := graph_map g @ interleave rest\<rparr>))"
proof (induction rest arbitrary: s r g)
  case Nil
  then show ?case by simp
next
  case (Cons leg rest)
  obtain e n where leg [simp]: "leg = (e, n)" by force
  note chain = Cons.prems(2) [unfolded leg]
  obtain g1 where "update_collected (EdgeElement e) (Some g) = Inr g1"
    "update_collected (NodeElement n) (Some g1) = Inr (add_leg e n g)"
    using collect_leg(1) [OF Cons.prems(1) chain] by blast
  moreover have "chain_ok (s + 2) (n_released n) rest" using chain by simp
  ultimately show ?case using Cons.IH [OF collect_leg(2) [OF Cons.prems(1) chain]] by simp
qed

section \<open>The state machine computes the plan\<close>

lemma step_nav_goal:
  assumes "goal = None \<or> stop = has_blocking acts"
  shows "interpret_all (EI ns es as i u cg (map_option fst goal) (map_option snd goal) stop g b q
      k_handling_navigation) =
    emits (nav_event goal acts)
      (interpret_all (EI ns es as i u cg None None False g b q k_handling_action_yield))"
  using assms by (cases "(goal, acts)" rule: nav_event.cases) (auto simp: step_navigation)

lemma step_pre_done_goal:
  assumes "goal = None \<or> stop = has_blocking acts"
  shows "interpret_all (EI ns es as i u (Some cg) (map_option fst goal) (map_option snd goal) stop []
      b q k_pre_done) = (Inr (), nav_event goal acts @ q @ [graph_event u i cg])"
  using assms by (cases "(goal, acts)" rule: nav_event.cases) (auto simp: step_pre_done)

abbreviation next_phase :: "(Edge \<times> Node) list \<Rightarrow> IterState" where
  "next_phase rest \<equiv> (if rest = [] then k_pre_done else k_handling_pre_edge_action)"

lemma step_transition_base:
  assumes "collected_ok s r g" and "chain_ok s r ((e, n) # rest)" and "e_released e"
  shows "interpret_all (EI (n # map snd rest) (e # map fst rest) as i u (Some g) gn ve stop [] b q
      k_handling_transition) =
    interpret_all (EI (map snd rest) (map fst rest) as i u (Some (add_leg e n g)) (Some n) (Some e)
      stop [] b q (next_phase rest))"
proof -
  obtain g1 where "update_collected (EdgeElement e) (Some g) = Inr g1"
    "update_collected (NodeElement n) (Some g1) = Inr (add_leg e n g)"
    using collect_leg(1) [OF assms(1,2)] by blast
  moreover have "\<not> n_sequenceId n < e_sequenceId e" "n_released n"
    using assms(2,3) by auto
  ultimately show ?thesis
    using assms(3) by (subst interpret_all_step) (simp add: step_defs transition_step_def)
qed

lemma step_transition_horizon:
  assumes "collected_ok s r g" and "chain_ok s r ((e, n) # rest)" and "\<not> e_released e"
  shows "interpret_all (EI (n # map snd rest) (e # map fst rest) as i u (Some g) gn ve stop [] b q
      k_handling_transition) =
    interpret_all (EI [] [] as i u (Some (g\<lparr>graph_map := graph_map g @ interleave ((e, n) # rest)\<rparr>))
      gn ve stop [] b q k_pre_done)"
proof -
  have "\<not> n_sequenceId n < e_sequenceId e" using assms(2) by auto
  moreover have "skip_horizon (e # map fst rest) (n # map snd rest) (Some g) =
      Inr ([], [], Some (g\<lparr>graph_map := graph_map g @ interleave ((e, n) # rest)\<rparr>))"
    using skip_horizon_all [OF assms(1,2)] by simp
  ultimately show ?thesis
    using assms(3) by (subst interpret_all_step) (simp add: step_defs transition_step_def)
qed

lemma run_legs:
  assumes "collected_ok s r g" and "chain_ok s r rest"
    and "goal = None \<or> stop = has_blocking acts"
  shows "interpret_all (EI (map snd rest) (map fst rest) as i u (Some g) (map_option fst goal)
      (map_option snd goal) stop [] (next_ceiling [] b acts) (raise_first b (group_events acts))
      (next_phase rest)) =
    (Inr (), raise_first b (plan_rest goal acts rest) @
       [graph_event u i (g\<lparr>graph_map := graph_map g @ interleave rest\<rparr>)])"
  using assms
proof (induction rest arbitrary: s r g goal acts stop as b)
  case Nil
  then show ?case by (simp add: step_pre_done_goal)
next
  case (Cons leg rest)
  obtain e n where leg [simp]: "leg = (e, n)" by force
  note chain = Cons.prems(2) [unfolded leg]
  show ?case
  proof (cases "e_released e")
    case True
    let ?b1 = "next_ceiling [] b acts" and ?b2 = "next_ceiling [] (next_ceiling [] b acts) (e_actions e)"
    have n: "n_released n" using chain True by simp
    have goal: "goal = None \<or> (stop \<or> has_blocking (e_actions e)) = has_blocking (acts @ e_actions e)"
      using Cons.prems(3) by auto
    have IH: "interpret_all (EI (map snd rest) (map fst rest) [] i u (Some (add_leg e n g)) (Some n)
        (Some e) (has_blocking (n_actions n)) [] (next_ceiling [] ?b2 (n_actions n))
        (raise_first ?b2 (group_events (n_actions n))) (next_phase rest)) =
      (Inr (), raise_first ?b2 (plan_rest (Some (n, e)) (n_actions n) rest) @
         [graph_event u i (g\<lparr>graph_map := graph_map g @ interleave ((e, n) # rest)\<rparr>)])"
      using Cons.IH [of "s + 2" "n_released n" "add_leg e n g" "Some (n, e)"
          "has_blocking (n_actions n)" "n_actions n"]
        collect_leg(2) [OF Cons.prems(1) chain] chain by simp
    show ?thesis
      using True n
      by (simp add: step_pre_action run_edge_actions step_nav_goal [OF goal] step_action_yield
          run_node_actions step_transition_base [OF Cons.prems(1) chain] buffered_group_events IH
          raise_first_groups)
  next
    case False
    have n: "\<not> n_released n" using chain False by simp
    show ?thesis
      using False n Cons.prems(3)
      by (simp add: step_pre_action step_nav_goal step_action_yield
          step_transition_horizon [OF Cons.prems(1) chain] step_pre_done)
  qed
qed

end
