(* ===== verification/OrderChecksProps.thy ===== *)
theory OrderChecksProps
  imports OrderChecks InterpreterPlan Samples
begin

text \<open>
  What the checks on an order establish: the exact set of orders whose graph is consistent, and
  how that set relates to the orders the interpreter can handle.
\<close>

section \<open>Intervals of words\<close>

lemma unat_image_interval: "unat ` {lo..hi} = {unat lo..unat hi}" for lo hi :: "'a::len word"
proof
  show "{unat lo..unat hi} \<subseteq> unat ` {lo..hi}"
  proof
    fix n assume n: "n \<in> {unat lo..unat hi}"
    then have "n < 2 ^ LENGTH('a)" by (auto intro: le_less_trans [OF _ unsigned_less])
    then have "unat (word_of_nat n :: 'a word) = n" by (simp add: unat_of_nat)
    then show "n \<in> unat ` {lo..hi}" using n
      by (intro image_eqI [of _ _ "word_of_nat n"]) (simp_all add: word_le_nat_alt)
  qed
qed (auto simp: word_le_nat_alt)

lemma card_word_interval: "card {lo..hi} = Suc (unat hi) - unat lo" for lo hi :: "'a::len word"
proof -
  have "card {lo..hi} = card (unat ` {lo..hi})"
    by (rule card_image [symmetric]) (simp add: inj_on_def word_unat_eq_iff)
  then show ?thesis by (simp add: unat_image_interval)
qed

lemma unat_interval_length:
  fixes lo hi :: "'a::len word"
  assumes "lo \<le> hi"
  shows "unat (hi - lo + 1) = (if hi - lo = - 1 then 0 else card {lo..hi})"
proof (cases "hi - lo = - 1")
  case False
  have "unat (hi - lo + 1) = Suc (unat (hi - lo))"
    using False by (metis add.commute add_eq_0_iff unatSuc)
  also have "unat (hi - lo) = unat hi - unat lo"
    using assms by (rule unat_sub)
  finally show ?thesis using False assms by (simp add: card_word_interval word_le_nat_alt Suc_diff_le)
qed (simp add: eq_neg_iff_add_eq_0)

text \<open>The size test accepts exactly the intervals.\<close>

lemma interval_size_test:
  fixes U :: "'a::len word set"
  assumes "U \<noteq> {}"
  shows "unat (Max U - Min U + 1) = card U \<longleftrightarrow> (\<exists>lo hi. U = {lo..hi}) \<and> U \<noteq> UNIV"
proof -
  have fin: "finite U" by simp
  have le: "Min U \<le> Max U" using assms fin by simp
  have sub: "U \<subseteq> {Min U..Max U}" using fin by auto
  have pos: "card U \<noteq> 0" using assms fin by simp
  have "unat (Max U - Min U + 1) = card U \<longleftrightarrow> Max U - Min U \<noteq> - 1 \<and> card {Min U..Max U} = card U"
    using pos by (simp add: unat_interval_length [OF le])
  also have "\<dots> \<longleftrightarrow> Max U - Min U \<noteq> - 1 \<and> U = {Min U..Max U}"
    using card_subset_eq [OF _ sub] by auto
  also have "\<dots> \<longleftrightarrow> (\<exists>lo hi. U = {lo..hi}) \<and> U \<noteq> UNIV"
  proof (intro iffI conjI; (elim conjE)?)
    assume wrap: "Max U - Min U \<noteq> - 1" and U: "U = {Min U..Max U}"
    show "\<exists>lo hi. U = {lo..hi}" using U by blast
    show "U \<noteq> UNIV"
    proof
      assume univ: "U = UNIV"
      have "Min U = 0" using univ fin by (metis Min_le UNIV_I word_le_0_iff)
      moreover have "Max U = - 1" using univ fin by (metis Max_ge UNIV_I word_order.extremum_unique)
      ultimately show False using wrap by simp
    qed
  next
    assume "\<exists>lo hi. U = {lo..hi}" and univ: "U \<noteq> UNIV"
    then obtain lo hi where U: "U = {lo..hi}" by blast
    then have lh: "lo \<le> hi" using assms by simp
    then have mm: "Min U = lo" "Max U = hi"
      using U by (auto intro!: Min_eqI Max_eqI)
    then show "U = {Min U..Max U}" using U by simp
    show "Max U - Min U \<noteq> - 1"
    proof
      assume "Max U - Min U = - 1"
      then have "unat hi - unat lo = unat (- 1 :: 'a word)" using mm unat_sub [OF lh] by simp
      moreover have "unat lo \<le> unat hi" "unat hi \<le> unat (- 1 :: 'a word)"
        using lh word_order.extremum [of hi] by (simp_all only: word_le_nat_alt)
      ultimately have "unat lo = 0 \<and> unat hi = unat (- 1 :: 'a word)" by linarith
      then have "lo = 0" "hi = - 1" by (simp_all only: word_unat_eq_iff unat_0)
      then show False using U univ by auto
    qed
  qed
  finally show ?thesis .
qed

section \<open>The ids of an order\<close>

definition order_ids :: "Order \<Rightarrow> seq_id list" where
  "order_ids order = map n_sequenceId (o_nodes order) @ map e_sequenceId (o_edges order)"

definition base_ids :: "Order \<Rightarrow> seq_id set" where
  "base_ids order =
     n_sequenceId ` {n \<in> set (o_nodes order). n_released n} \<union>
     e_sequenceId ` {e \<in> set (o_edges order). e_released e}"

definition horizon_ids :: "Order \<Rightarrow> seq_id set" where
  "horizon_ids order =
     n_sequenceId ` {n \<in> set (o_nodes order). \<not> n_released n} \<union>
     e_sequenceId ` {e \<in> set (o_edges order). \<not> e_released e}"

lemma odd_test: "w mod 2 = 1 \<longleftrightarrow> odd w" "w mod 2 = 0 \<longleftrightarrow> even w" for w :: seq_id
  by (simp_all add: odd_iff_mod_2_eq_one even_iff_mod_2_eq_zero)

lemma check_node_ids_Inr:
  "check_node_ids order ns (B, H) = Inr r \<longleftrightarrow>
     (\<forall>n \<in> set ns. even (n_sequenceId n)) \<and> distinct (map n_sequenceId ns) \<and>
     n_sequenceId ` set ns \<inter> (B \<union> H) = {} \<and>
     r = (B \<union> n_sequenceId ` {n \<in> set ns. n_released n}, H \<union> n_sequenceId ` {n \<in> set ns. \<not> n_released n})"
proof (induction ns arbitrary: B H)
  case Nil
  then show ?case by auto
next
  case (Cons n ns)
  have split: "{x \<in> set (n # ns). P x} = (if P n then {n} else {}) \<union> {x \<in> set ns. P x}" for P by auto
  show ?case by (auto simp: odd_test Cons.IH split)
qed

lemma check_edge_ids_Inr:
  "check_edge_ids order es (B, H) = Inr r \<longleftrightarrow>
     (\<forall>e \<in> set es. odd (e_sequenceId e)) \<and> distinct (map e_sequenceId es) \<and>
     e_sequenceId ` set es \<inter> (B \<union> H) = {} \<and>
     r = (B \<union> e_sequenceId ` {e \<in> set es. e_released e}, H \<union> e_sequenceId ` {e \<in> set es. \<not> e_released e})"
proof (induction es arbitrary: B H)
  case Nil
  then show ?case by auto
next
  case (Cons e es)
  have split: "{x \<in> set (e # es). P x} = (if P e then {e} else {}) \<union> {x \<in> set es. P x}" for P by auto
  show ?case by (auto simp: odd_test Cons.IH split)
qed

lemma base_horizon_union: "base_ids order \<union> horizon_ids order = set (order_ids order)"
  by (auto simp: base_ids_def horizon_ids_def order_ids_def)

lemma distinct_image_disjoint:
  "distinct (map f xs) \<Longrightarrow> f ` {x \<in> set xs. P x} \<inter> f ` {x \<in> set xs. \<not> P x} = {}"
  by (auto simp: distinct_map inj_on_def)

lemma base_horizon_disjoint:
  "distinct (order_ids order) \<Longrightarrow> base_ids order \<inter> horizon_ids order = {}"
  using distinct_image_disjoint [of n_sequenceId "o_nodes order" n_released]
    distinct_image_disjoint [of e_sequenceId "o_edges order" e_released]
  by (fastforce simp: order_ids_def base_ids_def horizon_ids_def)

lemma Max_Min_split:
  fixes B H :: "'a::linorder set"
  assumes "finite B" and "finite H" and "B \<union> H \<noteq> {}"
  shows "(if B = {} then (Max H, Min H) else if H = {} then (Max B, Min B)
          else (max (Max B) (Max H), min (Min B) (Min H))) = (Max (B \<union> H), Min (B \<union> H))"
  using assms by (auto simp: Max_Un Min_Un)

definition consistent_ids :: "Order \<Rightarrow> bool" where
  "consistent_ids order \<longleftrightarrow>
     (\<forall>n \<in> set (o_nodes order). even (n_sequenceId n)) \<and>
     (\<forall>e \<in> set (o_edges order). odd (e_sequenceId e)) \<and> distinct (order_ids order)"

lemma checkOrderGraphConsistency_eq:
  "checkOrderGraphConsistency order = [] \<longleftrightarrow>
     o_nodes order \<noteq> [] \<and> consistent_ids order \<and>
     unat (Max (set (order_ids order)) - Min (set (order_ids order)) + 1) = card (set (order_ids order)) \<and>
     (\<forall>b \<in> base_ids order. \<forall>h \<in> horizon_ids order. b < h)"
proof (cases "o_nodes order \<noteq> [] \<and> consistent_ids order")
  case True
  let ?B = "base_ids order" and ?H = "horizon_ids order"
  have ne: "?B \<union> ?H \<noteq> {}" using True by (simp add: base_horizon_union order_ids_def)
  have fin: "finite ?B" "finite ?H" by simp_all
  have card: "card ?B + card ?H = card (set (order_ids order))"
    using True card_Un_disjoint [OF fin base_horizon_disjoint]
    by (simp add: base_horizon_union consistent_ids_def)
  have dist: "distinct (map n_sequenceId (o_nodes order))" "distinct (map e_sequenceId (o_edges order))"
    "n_sequenceId ` set (o_nodes order) \<inter> e_sequenceId ` set (o_edges order) = {}"
    using True by (auto simp: consistent_ids_def order_ids_def)
  have nodes: "check_node_ids order (o_nodes order) ({}, {}) =
      Inr (n_sequenceId ` {n \<in> set (o_nodes order). n_released n},
           n_sequenceId ` {n \<in> set (o_nodes order). \<not> n_released n})"
    using True dist(1) by (simp add: check_node_ids_Inr consistent_ids_def)
  have "e_sequenceId ` set (o_edges order) \<inter>
      (n_sequenceId ` {n \<in> set (o_nodes order). n_released n} \<union>
       n_sequenceId ` {n \<in> set (o_nodes order). \<not> n_released n}) = {}"
    using dist(3) by blast
  then have edges: "check_edge_ids order (o_edges order)
      (n_sequenceId ` {n \<in> set (o_nodes order). n_released n},
       n_sequenceId ` {n \<in> set (o_nodes order). \<not> n_released n}) = Inr (?B, ?H)"
    using True dist(2) by (simp add: check_edge_ids_Inr consistent_ids_def base_ids_def horizon_ids_def)
  have sep: "(?H \<noteq> {} \<and> ?B \<noteq> {} \<and> Min ?H \<le> Max ?B) \<longleftrightarrow> \<not> (\<forall>b \<in> ?B. \<forall>h \<in> ?H. b < h)"
  proof -
    have "(\<forall>b \<in> ?B. \<forall>h \<in> ?H. b < h) \<longleftrightarrow> Max ?B < Min ?H" if "?B \<noteq> {}" "?H \<noteq> {}"
      using that fin by auto
    then show ?thesis by (metis emptyE not_less)
  qed
  show ?thesis
    using True nodes edges sep
    by (simp add: checkOrderGraphConsistency_def Max_Min_split [OF fin ne] base_horizon_union card
        del: Max_le_iff Max_less_iff)
next
  case False
  have "False" if "check_node_ids order (o_nodes order) ({}, {}) = Inr (B, H)"
    "check_edge_ids order (o_edges order) (B, H) = Inr r" "o_nodes order \<noteq> []" for B H r
  proof -
    have n: "\<forall>n \<in> set (o_nodes order). even (n_sequenceId n)" "distinct (map n_sequenceId (o_nodes order))"
      "B \<union> H = n_sequenceId ` set (o_nodes order)"
      using that(1) by (auto simp: check_node_ids_Inr)
    have "\<forall>e \<in> set (o_edges order). odd (e_sequenceId e)" "distinct (map e_sequenceId (o_edges order))"
      "e_sequenceId ` set (o_edges order) \<inter> (B \<union> H) = {}"
      using that(2) by (auto simp: check_edge_ids_Inr)
    then have "consistent_ids order"
      using n by (auto simp: consistent_ids_def order_ids_def)
    then show False using False that(3) by simp
  qed
  then show ?thesis using False
    by (auto simp: checkOrderGraphConsistency_def split: sum.split)
qed

section \<open>Orders the interpreter handles\<close>

text \<open>Two sorted lists, of even and of odd numbers, that fill an interval from an even number on.\<close>

fun counts_up :: "nat \<Rightarrow> nat list \<Rightarrow> nat list \<Rightarrow> bool" where
  "counts_up l [] [] = True"
| "counts_up l (e # es) (n # ns) \<longleftrightarrow> e = l + 1 \<and> n = l + 2 \<and> counts_up (l + 2) es ns"
| "counts_up l _ _ = False"

lemma alternate:
  assumes "sorted_wrt (<) (l # ns)" and "sorted_wrt (<) es" and "\<forall>n \<in> set (l # ns). even n"
    and "\<forall>e \<in> set es. odd e" and "set (l # ns) \<union> set es = {l..h}" and "length ns = length es"
  shows "counts_up l es ns"
  using assms
proof (induction l es ns rule: counts_up.induct)
  case (2 l e es n ns)
  have set: "insert l (insert n (insert e (set ns \<union> set es))) = {l..h}"
    using "2.prems"(5) by auto
  have n: "l < n" "even n" "even l" and odd: "odd e" using "2.prems"(1,3,4) by simp_all
  have "e \<in> {l..h}" using set by blast
  then have e: "l < e" using odd n(3) by (metis atLeastAtMost_iff order_le_less)
  have n2: "l + 2 \<le> n" using n by presburger
  have e1: "l + 1 \<le> e" using e by simp
  have gt: "\<forall>x \<in> set ns. n < x" "\<forall>x \<in> set es. e < x" using "2.prems"(1,2) by auto
  have nh: "n \<in> {l..h}" using set by blast
  have "l + 1 \<in> {l..h}" "l + 2 \<in> {l..h}" using n2 nh by auto
  then have "l + 1 = e \<or> l + 1 \<in> set es" "l + 2 = n \<or> l + 2 \<in> set ns"
    unfolding set [symmetric] using "2.prems"(3,4) n(3) by auto
  then have eq: "e = l + 1" "n = l + 2" using gt n2 e1 by fastforce+
  have "insert n (set ns \<union> set es) = {n..h}"
  proof -
    have "\<forall>x \<in> insert n (set ns \<union> set es). l < x \<and> e < x" using gt eq by auto
    then have "l \<notin> insert n (set ns \<union> set es)" "e \<notin> insert n (set ns \<union> set es)" by blast+
    then have "insert n (set ns \<union> set es) = {l..h} - {l, e}" unfolding set [symmetric] by blast
    also have "\<dots> = {n..h}" using eq nh by auto
    finally show ?thesis .
  qed
  then show ?case
    using "2.IH" "2.prems" eq by simp
qed auto

lemma unat_add_less: "unat s + unat c < 2 ^ LENGTH('a) \<Longrightarrow> unat (s + c) = unat s + unat c"
  for s c :: "'a::len word"
  by (rule unat_add_lem [THEN iffD1])

text \<open>The base-before-horizon condition of the ids, leg by leg.\<close>

lemma counts_up_chain:
  assumes "counts_up (unat s) (map (\<lambda>e. unat (e_sequenceId e)) es) (map (\<lambda>n. unat (n_sequenceId n)) ns)"
    and "unat s + 2 * length ns < 2 ^ 32"
    and "list_all2 (\<lambda>e n. e_released e = n_released n) es ns"
    and "\<forall>n \<in> set ns. n_released n \<longrightarrow> r"
    and "\<forall>n \<in> set ns. \<forall>m \<in> set ns. n_released n \<longrightarrow> \<not> n_released m \<longrightarrow> n_sequenceId n < n_sequenceId m"
  shows "chain_ok s r (zip es ns)"
  using assms
proof (induction es arbitrary: s r ns)
  case (Cons e es)
  obtain n ns' where ns: "ns = n # ns'" using Cons.prems(3) by (cases ns) auto
  note P = Cons.prems [unfolded ns]
  have c: "unat (e_sequenceId e) = unat s + 1" "unat (n_sequenceId n) = unat s + 2"
    "counts_up (unat s + 2) (map (\<lambda>e. unat (e_sequenceId e)) es) (map (\<lambda>n. unat (n_sequenceId n)) ns')"
    using P(1) by simp_all
  have u: "unat (s + 1) = unat s + 1" "unat (s + 2) = unat s + 2"
    using P(2) unat_add_less [of s 1] unat_add_less [of s 2] by simp_all
  have seq: "e_sequenceId e = s + 1" "n_sequenceId n = s + 2" "s < s + 1" "s + 1 < s + 2"
    using c u by (simp_all add: word_unat_eq_iff word_less_nat_alt)
  have rel: "n_released m \<longrightarrow> n_released n" if "m \<in> set ns'" for m
  proof -
    have "\<forall>x \<in> set (map (\<lambda>n. unat (n_sequenceId n)) ns'). unat (n_sequenceId n) < x"
      if "counts_up l es' xs" "unat (n_sequenceId n) \<le> l" "xs = map (\<lambda>n. unat (n_sequenceId n)) ns'" for l es' xs
    proof -
      have "counts_up l es' xs \<Longrightarrow> \<forall>x \<in> set xs. l < x" for l es' xs
        by (induction l es' xs rule: counts_up.induct) fastforce+
      then show ?thesis using that by force
    qed
    then have "n_sequenceId n < n_sequenceId m" using c that by (force simp: word_less_nat_alt)
    then show ?thesis using P(5) that by fastforce
  qed
  have "chain_ok (s + 2) (n_released n) (zip es ns')"
    using Cons.IH [of "s + 2" ns' "n_released n"] P c(3) u(2) rel by simp
  then show ?case using P(3,4) seq by (simp add: ns)
qed simp

lemma counts_up_last: "counts_up l es ns \<Longrightarrow> ns \<noteq> [] \<Longrightarrow> last ns = l + 2 * length ns"
  by (induction l es ns rule: counts_up.induct) auto

lemma even_unat: "even (unat w) \<longleftrightarrow> even w" for w :: seq_id
proof -
  have "bit (unat w) 0 \<longleftrightarrow> bit w 0" by (simp add: bit_unsigned_iff)
  then show ?thesis by (simp add: bit_0)
qed

text \<open>The least id is a node's when there are more nodes than edges.\<close>

lemma least_is_even:
  fixes N E :: "nat set"
  assumes "N \<union> E = {l..h}" and "\<forall>n \<in> N. even n" and "\<forall>e \<in> E. odd e" and "card E < card N"
  shows "even l"
proof (rule ccontr)
  assume "odd l"
  have fin: "finite N" "finite E" using assms(1) by (metis finite_Un finite_atLeastAtMost)+
  have "(\<lambda>n. n - 1) ` N \<subseteq> E"
  proof
    fix x assume "x \<in> (\<lambda>n. n - 1) ` N"
    then obtain n where n: "n \<in> N" "x = n - 1" by blast
    have "n \<in> {l..h}" "even n" using n assms(1,2) by blast+
    then have "l < n" using \<open>odd l\<close> by (metis atLeastAtMost_iff order_le_less)
    then have "x \<in> {l..h}" "odd x" using n(2) \<open>n \<in> {l..h}\<close> \<open>even n\<close> by auto
    then show "x \<in> E" using assms(1,2) by (metis UnE)
  qed
  moreover have "inj_on (\<lambda>n. n - 1) N"
  proof (rule inj_onI)
    fix x y assume xy: "x \<in> N" "y \<in> N" "x - 1 = y - 1"
    have "l \<le> x" "l \<le> y" using xy assms(1) by auto
    moreover have "0 < l" using \<open>odd l\<close> by (cases l) auto
    ultimately show "x = y" using xy(3) by linarith
  qed
  ultimately have "card N \<le> card E" using fin by (metis card_image card_mono)
  then show False using assms(4) by simp
qed

definition sorted_order :: "Order \<Rightarrow> bool" where
  "sorted_order order \<longleftrightarrow>
     sorted_wrt (<) (map n_sequenceId (o_nodes order)) \<and>
     sorted_wrt (<) (map e_sequenceId (o_edges order))"

definition base_ends_with_node :: "Order \<Rightarrow> bool" where
  "base_ends_with_node order \<longleftrightarrow>
     length (o_nodes order) = Suc (length (o_edges order)) \<and>
     list_all2 (\<lambda>e n. e_released e = n_released n) (o_edges order) (tl (o_nodes order))"

lemma consistent_order_ok:
  assumes "checkOrderGraphConsistency order = []" and "sorted_order order"
    and "base_ends_with_node order"
  shows "order_ok order" and "even (n_sequenceId (hd (o_nodes order)))"
proof -
  note chk = assms(1) [unfolded checkOrderGraphConsistency_eq]
  obtain n ns where nodes: "o_nodes order = n # ns" using chk by (cases "o_nodes order") auto
  let ?es = "o_edges order" and ?N = "(\<lambda>n. unat (n_sequenceId n)) ` set (n # ns)"
  let ?E = "(\<lambda>e. unat (e_sequenceId e)) ` set (o_edges order)"
  have len: "length ns = length ?es" and rel: "list_all2 (\<lambda>e n. e_released e = n_released n) ?es ns"
    using assms(3) nodes by (simp_all add: base_ends_with_node_def)
  have par: "\<forall>x \<in> set (n # ns). even (n_sequenceId x)" "\<forall>x \<in> set ?es. odd (e_sequenceId x)"
    and dist: "distinct (order_ids order)"
    using chk nodes by (auto simp: consistent_ids_def)
  show "even (n_sequenceId (hd (o_nodes order)))" using par(1) nodes by simp
  have ne: "set (order_ids order) \<noteq> {}" using nodes by (simp add: order_ids_def)
  obtain lo hi where U: "set (order_ids order) = {lo..hi}"
    using chk interval_size_test [OF ne] by blast
  have NE: "?N \<union> ?E = {unat lo..unat hi}"
    unfolding unat_image_interval [symmetric] U [symmetric]
    by (simp add: order_ids_def nodes image_Un image_image image_insert)
  have "card ?E \<le> length ?es" by (metis card_image_le card_length finite_set le_trans)
  moreover have "card ?N = Suc (length ns)"
  proof -
    have "distinct (map n_sequenceId (n # ns))" using dist nodes by (simp add: order_ids_def)
    then have "inj_on (\<lambda>n. unat (n_sequenceId n)) (set (n # ns))" "distinct (n # ns)"
      unfolding distinct_map by (auto simp: inj_on_def word_unat_eq_iff [symmetric])
    then show ?thesis by (metis card_image distinct_card length_Cons)
  qed
  moreover have parE: "\<forall>x \<in> ?N. even x" "\<forall>x \<in> ?E. odd x" using par by (simp_all add: even_unat)
  ultimately have even_lo: "even (unat lo)"
    using least_is_even [OF NE parE] len by simp
  then have "unat lo \<in> ?N"
  proof -
    have "lo \<le> hi" using ne U by auto
    then have "unat lo \<in> ?N \<union> ?E" unfolding NE by (simp add: word_le_nat_alt)
    then show ?thesis using even_lo parE(2) by blast
  qed
  moreover have "unat (n_sequenceId n) \<le> x" if "x \<in> ?N" for x
    using assms(2) nodes that by (auto simp: sorted_order_def word_less_nat_alt)
  moreover have "unat lo \<le> unat (n_sequenceId n)" using NE by auto
  ultimately have first: "unat lo = unat (n_sequenceId n)" by (metis le_antisym)
  have up: "counts_up (unat (n_sequenceId n)) (map (\<lambda>e. unat (e_sequenceId e)) ?es)
      (map (\<lambda>n. unat (n_sequenceId n)) ns)"
    using assms(2) NE par len nodes
    by (intro alternate [where h = "unat hi"])
      (auto simp: sorted_order_def sorted_wrt_map word_less_nat_alt even_unat first)
  have "unat (n_sequenceId n) + 2 * length ns < 2 ^ 32"
  proof (cases "ns = []")
    case False
    then have "unat (n_sequenceId n) + 2 * length ns = unat (n_sequenceId (last ns))"
      using counts_up_last [OF up] by (simp add: last_map)
    also have "\<dots> < 2 ^ LENGTH(32)" by (rule unsigned_less)
    finally show ?thesis by simp
  next
    case True
    have "unat (n_sequenceId n) < 2 ^ LENGTH(32)" by (rule unsigned_less)
    then show ?thesis using True by simp
  qed
  moreover have "\<forall>x \<in> set (n # ns). \<forall>m \<in> set (n # ns). n_released x \<longrightarrow> \<not> n_released m \<longrightarrow>
      n_sequenceId x < n_sequenceId m"
    using chk nodes by (auto simp: base_ids_def horizon_ids_def)
  moreover have "\<forall>x \<in> set ns. n_released x \<longrightarrow> n_released n"
    using calculation(2) assms(2) nodes by (fastforce simp: sorted_order_def)
  ultimately have "chain_ok (n_sequenceId n) (n_released n) (zip ?es ns)"
    using counts_up_chain [OF up _ rel] by simp
  then show "order_ok order" using nodes len by (simp add: order_ok_def)
qed

text \<open>The other direction: what a chain says about its ids.\<close>

lemma counts_up_length: "counts_up l es ns \<Longrightarrow> length es = length ns"
  by (induction l es ns rule: counts_up.induct) auto

lemma counts_up_above:
  "counts_up l es ns \<Longrightarrow> x \<in> set ns \<Longrightarrow> l + 2 \<le> x"
  "counts_up l es ns \<Longrightarrow> x \<in> set es \<Longrightarrow> l + 1 \<le> x"
  by (induction l es ns rule: counts_up.induct) auto

lemma counts_up_sorted: "counts_up l es ns \<Longrightarrow> sorted_wrt (<) ns \<and> sorted_wrt (<) es"
  by (induction l es ns rule: counts_up.induct) (auto dest: counts_up_above)

lemma counts_up_parity:
  "counts_up l es ns \<Longrightarrow> even l \<Longrightarrow> (\<forall>n \<in> set ns. even n) \<and> (\<forall>e \<in> set es. odd e)"
  by (induction l es ns rule: counts_up.induct) auto

lemma counts_up_set:
  "counts_up l es ns \<Longrightarrow> insert l (set ns \<union> set es) = {l..l + 2 * length ns}"
proof (induction l es ns rule: counts_up.induct)
  case (2 l e es n ns)
  then have IH: "insert n (set ns \<union> set es) = {n..n + 2 * length ns}" "e = l + 1" "n = l + 2"
    by simp_all
  have "insert l (set (n # ns) \<union> set (e # es)) = insert l (insert e (insert n (set ns \<union> set es)))"
    by auto
  also have "\<dots> = {l..l + 2 * length (n # ns)}" unfolding IH(1) using IH(2,3) by auto
  finally show ?case .
qed auto

lemma chain_counts_up:
  "chain_ok s r rest \<Longrightarrow>
     counts_up (unat s) (map (\<lambda>l. unat (e_sequenceId (fst l))) rest)
       (map (\<lambda>l. unat (n_sequenceId (snd l))) rest)"
proof (induction s r rest rule: chain_ok.induct)
  case (2 s r e n rest)
  have "s < s + 1" "s + 1 < (s + 1) + 1" using "2.prems" by (simp_all add: add.assoc)
  from unat_succ_word [OF this(1)] unat_succ_word [OF this(2)]
  have "unat (s + 1) = unat s + 1" "unat (s + 2) = unat s + 2" by (simp_all add: add.assoc)
  then show ?case using 2 by simp
qed simp

lemma chain_unreleased:
  "chain_ok s False rest \<Longrightarrow> (e, n) \<in> set rest \<Longrightarrow> \<not> e_released e \<and> \<not> n_released n"
  by (induction rest arbitrary: s) auto

lemma chain_above:
  assumes "chain_ok s r rest" and "(e, n) \<in> set rest"
  shows "s < e_sequenceId e" and "s < n_sequenceId n"
  using counts_up_above [OF chain_counts_up [OF assms(1)]] assms(2)
  by (force simp: word_less_nat_alt)+

definition leg_ids :: "bool \<Rightarrow> (Edge \<times> Node) list \<Rightarrow> seq_id set" where
  "leg_ids b rest =
     (e_sequenceId \<circ> fst) ` {l \<in> set rest. e_released (fst l) = b} \<union>
     (n_sequenceId \<circ> snd) ` {l \<in> set rest. n_released (snd l) = b}"

lemma chain_separated:
  "chain_ok s r rest \<Longrightarrow> b \<in> leg_ids True rest \<Longrightarrow> h \<in> leg_ids False rest \<Longrightarrow> b < h"
proof (induction s r rest rule: chain_ok.induct)
  case (2 s r e n rest)
  have chain: "chain_ok (s + 2) (n_released n) rest" "e_released e = n_released n"
    "e_sequenceId e < s + 2" "n_sequenceId n = s + 2"
    using "2.prems"(1) by simp_all
  have above: "s + 2 < h" if "h \<in> leg_ids c rest" for h c
    using that chain_above [OF chain(1)] by (auto simp: leg_ids_def)
  show ?case
  proof (cases "n_released n")
    case True
    then have "b \<in> {e_sequenceId e, n_sequenceId n} \<union> leg_ids True rest" "h \<in> leg_ids False rest"
      using "2.prems"(2,3) chain(2) by (auto simp: leg_ids_def)
    then show ?thesis using "2.IH" chain above by (auto intro: less_trans)
  next
    case False
    then have "leg_ids True rest = {}"
      using chain(1) chain_unreleased by (fastforce simp: leg_ids_def)
    then show ?thesis using "2.prems"(2) False chain(2) by (auto simp: leg_ids_def)
  qed
qed (simp add: leg_ids_def)

lemma chain_releases:
  "chain_ok s r rest \<Longrightarrow> list_all2 (\<lambda>e n. e_released e = n_released n) (map fst rest) (map snd rest)"
  by (induction s r rest rule: chain_ok.induct) auto

lemma order_ids_legs:
  assumes "o_nodes order = n # ns" and "map fst rest = o_edges order" and "map snd rest = ns"
  shows "base_ids order = (if n_released n then {n_sequenceId n} else {}) \<union> leg_ids True rest"
    and "horizon_ids order = (if n_released n then {} else {n_sequenceId n}) \<union> leg_ids False rest"
proof -
  have es: "set (o_edges order) = fst ` set rest" and nds: "set ns = snd ` set rest"
    using assms(2,3) by (metis list.set_map)+
  have nodes: "f ` {x \<in> set (n # ns). P x} = (if P n then {f n} else {}) \<union> (f \<circ> snd) ` {l \<in> set rest. P (snd l)}"
    for f :: "Node \<Rightarrow> seq_id" and P
    using nds by auto
  have edges: "f ` {x \<in> set (o_edges order). P x} = (f \<circ> fst) ` {l \<in> set rest. P (fst l)}"
    for f :: "Edge \<Rightarrow> seq_id" and P
    unfolding es by auto
  show "base_ids order = (if n_released n then {n_sequenceId n} else {}) \<union> leg_ids True rest"
    unfolding base_ids_def assms(1) nodes edges by (auto simp: leg_ids_def)
  show "horizon_ids order = (if n_released n then {} else {n_sequenceId n}) \<union> leg_ids False rest"
    unfolding horizon_ids_def assms(1) nodes edges by (auto simp: leg_ids_def)
qed

lemma order_ok_consistent:
  assumes "order_ok order" and "even (n_sequenceId (hd (o_nodes order)))"
  shows "checkOrderGraphConsistency order = []" and "sorted_order order"
    and "base_ends_with_node order"
proof -
  obtain n ns where nodes: "o_nodes order = n # ns"
    using assms(1) by (cases "o_nodes order") (simp_all add: order_ok_def)
  let ?es = "o_edges order" and ?s = "n_sequenceId n"
  define rest where "rest = zip (o_edges order) ns"
  have len: "length ?es = length ns" and chain: "chain_ok ?s (n_released n) rest"
    using assms(1) nodes by (simp_all add: order_ok_def rest_def)
  have proj: "map fst rest = ?es" "map snd rest = ns" using len by (simp_all add: rest_def)
  have "map (\<lambda>l. unat (e_sequenceId (fst l))) rest = map (\<lambda>e. unat (e_sequenceId e)) ?es"
    "map (\<lambda>l. unat (n_sequenceId (snd l))) rest = map (\<lambda>n. unat (n_sequenceId n)) ns"
    unfolding proj [symmetric] by simp_all
  then have up: "counts_up (unat ?s) (map (\<lambda>e. unat (e_sequenceId e)) ?es) (map (\<lambda>n. unat (n_sequenceId n)) ns)"
    using chain_counts_up [OF chain] by simp
  have above: "\<forall>x \<in> set ns. ?s < n_sequenceId x"
    using counts_up_above(1) [OF up] by (fastforce simp: word_less_nat_alt)
  have sorted: "sorted_wrt (<) (map n_sequenceId (o_nodes order))" "sorted_wrt (<) (map e_sequenceId ?es)"
    using counts_up_sorted [OF up] above nodes
    by (simp_all add: sorted_wrt_map word_less_nat_alt)
  then show "sorted_order order" by (simp add: sorted_order_def)
  show "base_ends_with_node order"
    using chain_releases [OF chain] len nodes by (simp add: base_ends_with_node_def proj)
  have par: "(\<forall>x \<in> set ns. even (n_sequenceId x)) \<and> (\<forall>e \<in> set ?es. odd (e_sequenceId e))"
    using counts_up_parity [OF up] assms(2) nodes by (simp add: even_unat)
  have "n_sequenceId x \<noteq> e_sequenceId e" if "x \<in> set (n # ns)" "e \<in> set ?es" for x e
    using par assms(2) nodes that by (metis list.sel(1) set_ConsD)
  moreover have "distinct (map n_sequenceId (n # ns))" "distinct (map e_sequenceId ?es)"
    using sorted nodes by (simp_all only: strict_sorted_iff)
  ultimately have dist: "distinct (order_ids order)"
    by (fastforce simp: order_ids_def nodes)
  then have cons: "consistent_ids order"
    using par assms(2) nodes by (simp add: consistent_ids_def)
  let ?U = "set (order_ids order)" and ?hi = "last (?s # map n_sequenceId ns)"
  have hi: "unat ?hi = unat ?s + 2 * length ns"
    using counts_up_last [OF up] by (simp add: last_map)
  have "unat ` ?U = {unat ?s..unat ?hi}"
    using counts_up_set [OF up] unfolding hi
    by (simp add: order_ids_def nodes image_Un image_image image_insert)
  then have U: "?U = {?s..?hi}"
    unfolding unat_image_interval [symmetric] by (simp add: inj_image_eq_iff inj_def word_unat_eq_iff)
  moreover have "?U \<noteq> UNIV"
  proof
    assume univ: "?U = UNIV"
    have "even ?hi" using par assms(2) nodes by (auto simp: last_map)
    moreover have "?hi = - 1"
      using U univ by (metis UNIV_I atLeastAtMost_iff word_order.extremum_unique)
    ultimately show False by simp
  qed
  ultimately have size: "unat (Max ?U - Min ?U + 1) = card ?U"
    using interval_size_test [of ?U] U by (metis list.distinct(1) list.map_disc_iff nodes order_ids_def
        append_is_Nil_conv set_empty)
  have "b < h" if "b \<in> base_ids order" "h \<in> horizon_ids order" for b h
  proof (cases "n_released n")
    case True
    have "?s < x" if "x \<in> leg_ids c rest" for x c
      using that chain_above [OF chain] by (auto simp: leg_ids_def)
    then show ?thesis
      using that True chain_separated [OF chain] by (auto simp: order_ids_legs [OF nodes proj])
  next
    case False
    then have "leg_ids True rest = {}"
      using chain chain_unreleased by (fastforce simp: leg_ids_def)
    then show ?thesis using that False by (simp add: order_ids_legs [OF nodes proj])
  qed
  then show "checkOrderGraphConsistency order = []"
    using cons size nodes by (simp add: checkOrderGraphConsistency_eq)
qed

section \<open>Unique action ids\<close>

lemma unique_ids_grow: "set errs \<subseteq> set (fst (unique_ids om as (errs, seen)))"
proof (induction as arbitrary: errs seen)
  case (Cons a as)
  obtain es seen' where "uniqueActionId om a seen = (es, seen')" by force
  then show ?case using Cons [of "errs @ es" seen'] by simp
qed simp

lemma unique_ids_ok:
  assumes "fst (unique_ids om as (errs, seen)) = []"
  shows "errs = [] \<and> distinct (map actionId as) \<and>
    (\<forall>a \<in> set as. actionId a \<notin> seen \<and> map_of (action_by_id om) (actionId a) = None)"
  using assms
proof (induction as arbitrary: errs seen)
  case (Cons a as)
  obtain es seen' where u: "uniqueActionId om a seen = (es, seen')" by force
  then have rest: "fst (unique_ids om as (errs @ es, seen')) = []" using Cons.prems by simp
  note IH = Cons.IH [OF this]
  have "es = []" using IH by simp
  then have "actionId a \<notin> seen" "map_of (action_by_id om) (actionId a) = None"
    "seen' = insert (actionId a) seen"
    using u by (auto simp: uniqueActionId_def split: if_splits option.splits)
  then show ?case using IH by auto
qed simp

lemma checkOrderActionIds_ok:
  assumes "checkOrderActionIds om order = []"
  shows "distinct (map actionId (order_actions order))"
    and "a \<in> set (order_actions order) \<Longrightarrow> map_of (action_by_id om) (actionId a) = None"
  using unique_ids_ok [of om "order_actions order" "[]" "{}"] assms
  by (simp_all add: checkOrderActionIds_def)

lemma known_action_rejected:
  assumes "a \<in> set (order_actions order)" and "map_of (action_by_id om) (actionId a) \<noteq> None"
  shows "checkOrderActionIds om order \<noteq> []"
  using checkOrderActionIds_ok(2) [OF _ assms(1)] assms(2) by auto

section \<open>Properties\<close>

definition base_below_horizon :: "Order \<Rightarrow> bool" where
  "base_below_horizon order \<longleftrightarrow> (\<forall>b \<in> base_ids order. \<forall>h \<in> horizon_ids order. b < h)"

definition ids_fill_interval :: "Order \<Rightarrow> bool" where
  "ids_fill_interval order \<longleftrightarrow>
     (\<exists>lo hi. set (order_ids order) = {lo..hi}) \<and> set (order_ids order) \<noteq> UNIV"

lemma graph_check_iff:
  "checkOrderGraphConsistency order = [] \<longleftrightarrow>
     o_nodes order \<noteq> [] \<and> consistent_ids order \<and> ids_fill_interval order \<and>
     base_below_horizon order"
proof -
  have "set (order_ids order) \<noteq> {}" if "o_nodes order \<noteq> []" using that by (simp add: order_ids_def)
  then show ?thesis
    using interval_size_test [of "set (order_ids order)"]
    by (auto simp: checkOrderGraphConsistency_eq ids_fill_interval_def base_below_horizon_def)
qed

text \<open>C21: The graph check accepts an order exactly when it has a node, nodes have even and
  edges odd sequence ids, no id occurs twice, the ids fill an interval of 32-bit numbers
  (other than all of them: the size computed with wrap-around is then zero), and every released
  id is below every unreleased one. The order of the nodes and edges in their lists plays no
  part.\<close>

theorem graph_check_accepts:
  "checkOrderGraphConsistency order = [] \<longleftrightarrow>
     o_nodes order \<noteq> [] \<and> consistent_ids order \<and> ids_fill_interval order \<and>
     base_below_horizon order"
  by (rule graph_check_iff)

text \<open>The orders for which the interpreter's theorems hold are those that the check accepts and that satisfy two
  conditions the check does not look at: nodes and edges come in ascending order, and the base ends
  with a node.\<close>

theorem interpretable_orders:
  "order_ok order \<and> even (n_sequenceId (hd (o_nodes order))) \<longleftrightarrow>
     checkOrderGraphConsistency order = [] \<and> sorted_order order \<and> base_ends_with_node order"
  using consistent_order_ok order_ok_consistent by blast

end
