(* ===== verification/InterpreterProps.thy ===== *)
theory InterpreterProps
  imports InterpreterPlan OrderChecksProps
begin

text \<open>
  The properties of the interpreter: it computes the plan of an order, dispatches a bounded
  number of events, announces and schedules every action once, always comes to an end, and
  what it does with orders that pass the checks but are not of the form it relies on.
\<close>

section \<open>Sample orders\<close>

definition typed_action :: "string \<Rightarrow> BlockingType \<Rightarrow> Action" where
  "typed_action i b = sample_action\<lparr>actionId := i, blockingType := b\<rparr>"

definition sample_order :: "uint32 \<Rightarrow> Node list \<Rightarrow> Edge list \<Rightarrow> Order" where
  "sample_order u ns es =
     \<lparr>o_header = \<lparr>headerId = 0, version = ''2.0.0'', manufacturer = ''m'', serialNumber = ''s''\<rparr>,
      o_orderId = ''o'', o_orderUpdateId = u, o_zoneSetId = None, o_nodes = ns, o_edges = es\<rparr>"

text \<open>A base of two nodes with actions on all elements, and a horizon.\<close>

definition two_leg_order :: Order where
  "two_leg_order = sample_order 0
     [(sample_node 0 True)\<lparr>n_actions := [typed_action ''a'' NONE, typed_action ''b'' SOFT]\<rparr>,
      (sample_node 2 True)\<lparr>n_actions := [typed_action ''d'' NONE, typed_action ''e'' HARD]\<rparr>,
      sample_node 4 False]
     [(sample_edge 1 True)\<lparr>e_actions := [typed_action ''c'' NONE]\<rparr>, sample_edge 3 False]"

lemmas sample_order_defs = two_leg_order_def sample_order_def typed_action_def sample_defs

lemma two_leg_order_ok [simp]: "order_ok two_leg_order"
  by (simp add: order_ok_def sample_order_defs)

section \<open>The whole order\<close>

lemma raise_first_snoc:
  "raise_first b (evs @ [graph_event u i g]) = raise_first b evs @ [graph_event u i g]"
  by (induction b evs rule: raise_first.induct) (simp_all add: graph_event_def)

lemma raise_order_plan:
  "raise_first b (order_plan order) =
     (if o_orderUpdateId order = 0 then [YieldClearActions] else []) @
     map YieldNewAction (first_actions order) @
     raise_first b (plan_rest None (first_actions order) (legs order)) @
     [graph_event (o_orderUpdateId order) (o_orderId order) (order_graph order)]"
  by (simp add: order_plan_def raise_first_snoc)

lemma interpret_order:
  assumes "order_ok order"
  shows "interpret_all (fromOrder b order) = (Inr (), raise_first b (order_plan order))"
proof -
  obtain n ns where nodes: "o_nodes order = n # ns"
    using assms by (cases "o_nodes order") (simp_all add: order_ok_def)
  define rest where "rest = zip (o_edges order) ns"
  let ?i = "o_orderId order" and ?u = "o_orderUpdateId order" and ?as = "first_actions order"
  let ?g = "\<lparr>agv_pos = None, graph_map = [(n_sequenceId n, NodeElement n)]\<rparr>"
  have chain: "chain_ok (n_sequenceId n) (n_released n) rest"
    and len: "length (o_edges order) = length ns"
    using assms nodes by (simp_all add: order_ok_def rest_def)
  have proj: "o_nodes order = n # map snd rest" "o_edges order = map fst rest" "legs order = rest"
    using nodes len by (simp_all add: rest_def legs_def)
  have new: "Graph_new [NodeElement n] = Inr ?g"
    by (simp add: Graph_new_def Graph_update_def Let_def)
  have first: "(case map fst rest of [] \<Rightarrow> True | e # es \<Rightarrow> n_sequenceId n < e_sequenceId e)"
    using chain by (cases rest) auto
  have empty: "n_sequenceId n < e_sequenceId (fst (hd rest))" if "rest \<noteq> []"
    using chain that by (cases rest) auto
  have transition: "interpret_all (EI (n # map snd rest) (map fst rest) [] ?i ?u None None None stop []
      c q k_handling_transition) =
    interpret_all (EI (map snd rest) (map fst rest) [] ?i ?u (Some ?g) None None stop [] c q
      (next_phase rest))" for stop c q
    using first new by (subst interpret_all_step) (cases rest, simp_all add: step_defs transition_step_def)
  have legs: "interpret_all (EI (map snd rest) (map fst rest) [] ?i ?u (Some ?g) None None stop []
      (next_ceiling [] b ?as) (raise_first b (group_events ?as)) (next_phase rest)) =
    (Inr (), raise_first b (plan_rest None ?as rest) @ [graph_event ?u ?i (order_graph order)])" for stop
    using run_legs [of "n_sequenceId n" "n_released n" ?g rest None] chain
    by (simp add: collected_ok_def order_graph_def proj)
  have actions: "interpret_all (EI (n # map snd rest) (map fst rest) [] ?i ?u None None None False [] b
      [] k_handling_pre_node_action) =
    emits (map YieldNewAction ?as)
      (Inr (), raise_first b (plan_rest None ?as rest) @ [graph_event ?u ?i (order_graph order)])"
    if "?u = 0 \<or> rest = []"
  proof -
    have as: "?as = (if n_released n then n_actions n else [])"
      using that by (simp add: first_actions_def proj)
    show ?thesis
    proof (cases "n_released n")
      case True
      then show ?thesis using as legs
        by (simp add: step_pre_action run_node_actions transition buffered_group_events)
    next
      case False
      then show ?thesis using as legs [of False]
        by (simp add: step_pre_action transition next_ceiling_def group_events_def)
    qed
  qed
  have start: "fromOrder b order = EI (n # map snd rest) (map fst rest) [] ?i ?u None None None False
      [] b [] k_handling_initial"
    by (simp add: fromOrder_def proj)
  show ?thesis
  proof (cases "?u = 0")
    case True
    then have "interpret_all (fromOrder b order) =
        emits [YieldClearActions] (interpret_all (EI (n # map snd rest) (map fst rest) [] ?i ?u None
          None None False [] b [] k_handling_pre_node_action))"
      using first unfolding start
      by (subst interpret_all_step) (cases rest, simp_all add: step_defs)
    then show ?thesis using True actions
      by (simp add: raise_order_plan proj)
  next
    case False
    show ?thesis
    proof (cases "rest = []")
      case True
      then have "interpret_all (fromOrder b order) =
          interpret_all (EI (n # map snd rest) (map fst rest) [] ?i ?u None None None False [] b []
            k_handling_pre_node_action)"
        using False unfolding start by (subst interpret_all_step) (simp add: step_defs)
      then show ?thesis using False True actions
        by (simp add: raise_order_plan proj)
    next
      case more: False
      then have as: "?as = []" using False by (simp add: first_actions_def proj)
      have "interpret_all (fromOrder b order) =
          interpret_all (EI (n # map snd rest) (map fst rest) [] ?i ?u None None None False [] b []
            k_handling_transition)"
        using False more unfolding start
        by (subst interpret_all_step) (cases rest, simp_all add: step_defs)
      then show ?thesis using False legs [of False] as
        by (simp add: raise_order_plan proj transition next_ceiling_def group_events_def)
    qed
  qed
qed

section \<open>Counting and bookkeeping over the plan\<close>

lemma length_raise_first [simp]: "length (raise_first b evs) = length evs"
  by (induction b evs rule: raise_first.induct) simp_all

lemma length_group_events: "length (group_events as) \<le> length as"
proof (induction as rule: action_groups.induct)
  case (2 a as)
  have "length (dropWhile (\<lambda>x. \<not> is_hard x) as) \<le> length as" by (rule length_dropWhile_le)
  then show ?case using 2 by (auto simp: group_events_def)
qed (simp add: group_events_def)

definition leg_size :: "Edge \<times> Node \<Rightarrow> nat" where
  "leg_size l = Suc (2 * (length (e_actions (fst l)) + length (n_actions (snd l))))"

lemma length_nav_event: "length (nav_event goal as) = (if goal = None then 0 else 1)"
  by (cases "(goal, as)" rule: nav_event.cases) simp_all

lemma length_plan_rest:
  "length (plan_rest goal acts rest) \<le>
     (if goal = None then 0 else 1) + length acts + sum_list (map leg_size rest)"
proof (induction goal acts rest rule: plan_rest.induct)
  case (1 goal acts)
  then show ?case using length_group_events [of acts] by (simp add: length_nav_event)
next
  case (2 goal acts e n rest)
  then show ?case
    using length_group_events [of acts] length_group_events [of "e_actions e"]
    by (auto simp: leg_size_def length_nav_event)
qed

lemma sum_leg_size:
  "sum_list (map leg_size rest) =
     length rest + 2 * (length (concat (map e_actions (map fst rest))) +
       length (concat (map n_actions (map snd rest))))"
  by (induction rest) (simp_all add: leg_size_def)

lemma length_order_plan:
  assumes "order_ok order"
  shows "length (order_plan order) \<le> 2 * length (order_actions order) + length (o_edges order) + 2"
proof -
  obtain n ns where nodes: "o_nodes order = n # ns"
    using assms by (cases "o_nodes order") (simp_all add: order_ok_def)
  have len: "length (o_edges order) = length ns"
    using assms nodes by (simp add: order_ok_def)
  have legs: "map fst (legs order) = o_edges order" "map snd (legs order) = ns" "length (legs order) = length ns"
    using nodes len by (simp_all add: legs_def)
  have "length (first_actions order) \<le> length (n_actions n)"
    using nodes by (simp add: first_actions_def)
  moreover have "length (plan_rest None (first_actions order) (legs order)) \<le>
      length (first_actions order) + sum_list (map leg_size (legs order))"
    using length_plan_rest [of None "first_actions order" "legs order"] by simp
  ultimately show ?thesis
    by (simp add: order_plan_def sum_leg_size legs order_actions_def nodes len del: map_map)
qed

text \<open>
  Actions that were announced and not scheduled yet. A group must consist of the oldest of
  them, and none may be left in the end.
\<close>

fun announced_first :: "Action list \<Rightarrow> InterpreterEvent list \<Rightarrow> bool" where
  "announced_first pending [] \<longleftrightarrow> pending = []"
| "announced_first pending (YieldNewAction a # evs) = announced_first (pending @ [a]) evs"
| "announced_first pending (YieldActionGroupEvent g c # evs) \<longleftrightarrow>
     take (length g) pending = g \<and> announced_first (drop (length g) pending) evs"
| "announced_first pending (ev # evs) = announced_first pending evs"

lemma announced_first_new:
  "announced_first p (map YieldNewAction as @ evs) = announced_first (p @ as) evs"
  by (induction as arbitrary: p) simp_all

lemma concat_action_groups: "concat (action_groups as) = as"
  by (induction as rule: action_groups.induct) simp_all

lemma announced_first_groups: "announced_first (as @ p) (group_events as @ evs) = announced_first p evs"
proof -
  have "announced_first (concat gs @ p) (map (\<lambda>g. YieldActionGroupEvent g (ceiling g)) gs @ evs) =
      announced_first p evs" for gs
    by (induction gs) simp_all
  then show ?thesis unfolding group_events_def by (metis concat_action_groups)
qed

lemma announced_first_nav [simp]:
  "announced_first p (nav_event goal as @ evs) = announced_first p evs"
  by (cases "(goal, as)" rule: nav_event.cases) simp_all

lemma announced_first_raise [simp]: "announced_first p (raise_first b evs) = announced_first p evs"
  by (induction p evs rule: announced_first.induct) simp_all

lemma announced_first_graph [simp]: "announced_first p [graph_event u i g] \<longleftrightarrow> p = []"
  by (simp add: graph_event_def)

lemma announced_first_rest: "announced_first acts (plan_rest goal acts rest @ [graph_event u i g])"
proof (induction goal acts rest rule: plan_rest.induct)
  case (1 goal acts)
  then show ?case using announced_first_groups [of acts "[]"] by simp
next
  case (2 goal acts e n rest)
  then show ?case
    using announced_first_groups [of acts "[]"] announced_first_groups [of "e_actions e" "[]"]
      announced_first_groups [of acts "e_actions e"]
    by (simp add: announced_first_new)
qed

text \<open>The actions of the base, in the order the vehicle meets them.\<close>

definition base_actions :: "Order \<Rightarrow> Action list" where
  "base_actions order =
     first_actions order @
     concat (map (\<lambda>(e, n). if e_released e then e_actions e @ n_actions n else []) (legs order))"

definition scheduled :: "InterpreterEvent list \<Rightarrow> Action list" where
  "scheduled evs = concat (map (\<lambda>ev. case ev of YieldActionGroupEvent g _ \<Rightarrow> g | _ \<Rightarrow> []) evs)"

lemma scheduled_simps [simp]:
  "scheduled (xs @ ys) = scheduled xs @ scheduled ys" "scheduled (map YieldNewAction as) = []"
  "scheduled (nav_event goal as) = []" "scheduled (group_events as) = as"
  "scheduled [graph_event u i g] = []" "scheduled [YieldClearActions] = []" "scheduled [] = []"
proof -
  show "scheduled (group_events as) = as"
  proof -
    have "scheduled (map (\<lambda>g. YieldActionGroupEvent g (ceiling g)) gs) = concat gs" for gs
      by (induction gs) (simp_all add: scheduled_def)
    then show ?thesis by (simp add: group_events_def concat_action_groups)
  qed
  show "scheduled (map YieldNewAction as) = []" by (induction as) (simp_all add: scheduled_def)
  show "scheduled (nav_event goal as) = []"
    by (cases "(goal, as)" rule: nav_event.cases) (simp_all add: scheduled_def)
qed (simp_all add: scheduled_def graph_event_def)

lemma scheduled_raise [simp]: "scheduled (raise_first b evs) = scheduled evs"
  by (induction b evs rule: raise_first.induct) (simp_all add: scheduled_def)

lemma scheduled_rest:
  "chain_ok s r rest \<Longrightarrow> scheduled (plan_rest goal acts rest) =
     acts @ concat (map (\<lambda>(e, n). if e_released e then e_actions e @ n_actions n else []) rest)"
proof (induction rest arbitrary: s r goal acts)
  case (Cons leg rest)
  obtain e n where leg [simp]: "leg = (e, n)" by force
  show ?case
  proof (cases "e_released e")
    case False
    then have "chain_ok (s + 2) False rest" using Cons.prems by (cases "n_released n") simp_all
    then have "concat (map (\<lambda>(e, n). if e_released e then e_actions e @ n_actions n else []) rest) = []"
      using chain_unreleased by fastforce
    then show ?thesis using False by simp
  next
    case True
    have "chain_ok (s + 2) (n_released n) rest" using Cons.prems by simp
    from Cons.IH [OF this] show ?thesis using True by simp
  qed
qed simp

section \<open>Properties\<close>

text \<open>C3: For every order the interpreter is made for, handling it succeeds and dispatches
  exactly the plan of the order, then the end marker, and then requests a state update with high
  urgency. The one deviation from the plan is the ceiling of the first action group: it is the
  maximum of the group's ceiling and the member that the constructor leaves uninitialized.\<close>

theorem interpreter_computes_plan:
  assumes "order_ok order"
  shows "handleValidOrder indeterminate (Some order) out =
    (Inr (), out @ map IDispatch (raise_first indeterminate (order_plan order) @ [InterpreterDone]) @
       [IRequestStateUpdate urgency_high])"
  using interpret_order [OF assms] by (simp add: handleValidOrder_def)

theorem interpreter_computes_plan_witness:
  "handleValidOrder NONE (Some two_leg_order) [] =
    (Inr (), map IDispatch (order_plan two_leg_order @ [InterpreterDone]) @
       [IRequestStateUpdate urgency_high])"
  using interpreter_computes_plan [OF two_leg_order_ok, of NONE "[]"] by simp



text \<open>The number of events an order causes is linear in its size: at most two for each
  action, one for each edge, and four more.\<close>

theorem interpreter_event_bound:
  assumes "order_ok order"
  shows "length (snd (handleValidOrder indeterminate (Some order) [])) \<le>
    2 * length (order_actions order) + length (o_edges order) + 4"
  using length_order_plan [OF assms] interpret_order [OF assms] by (simp add: handleValidOrder_def)

theorem interpreter_event_bound_witness:
  "length (snd (handleValidOrder NONE (Some two_leg_order) [])) \<le> 16"
  using interpreter_event_bound [OF two_leg_order_ok, of NONE]
  by (simp add: order_actions_def sample_order_defs)

text \<open>C20: No sequence of calls of the event function is infinite: from any state of the
  iterator, even one that no order leads to, the calls end with the null event or with an
  exception.\<close>

theorem interpretation_terminates:
  "\<not> (\<exists>its. \<forall>k. \<exists>ev. nextEvent (its k) = Inr (Some ev, its (Suc k)))"
proof
  assume "\<exists>its. \<forall>k. \<exists>ev. nextEvent (its k) = Inr (Some ev, its (Suc k))"
  then obtain its where "\<And>k. (its (Suc k), its k) \<in> iter_order"
    using nextEvent_decreases by blast
  then show False using wf_iter_order by (meson wf_iff_no_infinite_down_chain)
qed

definition unsorted_order :: Order where
  "unsorted_order = sample_order 0 [sample_node 2 True, sample_node 0 True] [sample_edge 1 True]"

text \<open>The ids of a first leg.\<close>

lemma first_leg_ids:
  assumes "set (order_ids order) = {0, 1, 2}"
  shows "ids_fill_interval order"
proof -
  have le2: "x \<le> 2 \<longleftrightarrow> x = 0 \<or> x = 1 \<or> x = 2" for x :: seq_id
  proof -
    have "unat x \<le> 2 \<longleftrightarrow> unat x = 0 \<or> unat x = 1 \<or> unat x = 2" by linarith
    then show ?thesis unfolding word_le_nat_alt word_unat_eq_iff by simp
  qed
  have "{0..2 :: seq_id} = {0, 1, 2}"
    unfolding set_eq_iff atLeastAtMost_iff insert_iff empty_iff le2 by simp
  moreover have "{0, 1, 2} \<noteq> (UNIV :: seq_id set)"
  proof
    assume "{0, 1, 2} = (UNIV :: seq_id set)"
    then have "(3 :: seq_id) \<in> {0, 1, 2}" by blast
    then show False by simp
  qed
  ultimately show ?thesis unfolding ids_fill_interval_def assms by metis
qed

lemma unsorted_order_checked: "checkOrderGraphConsistency unsorted_order = []"
proof -
  have "set (order_ids unsorted_order) = {0, 1, 2}"
    by (simp add: order_ids_def unsorted_order_def sample_order_defs insert_commute)
  then have "ids_fill_interval unsorted_order" by (rule first_leg_ids)
  moreover have "consistent_ids unsorted_order"
    by (simp add: consistent_ids_def order_ids_def unsorted_order_def sample_order_defs)
  moreover have "base_below_horizon unsorted_order"
    by (auto simp: base_below_horizon_def horizon_ids_def unsorted_order_def sample_order_defs)
  moreover have "o_nodes unsorted_order \<noteq> []" by (simp add: unsorted_order_def sample_order_defs)
  ultimately show ?thesis unfolding graph_check_iff by blast
qed

text \<open>An order with its nodes in descending order, for which the graph check, the order id check, the append
  check and the action id check of an empty order manager find no error, and on which the interpreter
  dereferences a null graph pointer: the handler clears the actions and runs into undefined
  behaviour. The check of the header and that of the zone set do not look at the nodes.\<close>

theorem accepted_order_crashes:
  "checkOrderGraphConsistency unsorted_order = [] \<and>
   checkOrderId OrderManager_new unsorted_order = [] \<and>
   checkOrderAppend OrderManager_new unsorted_order = Inr [] \<and>
   checkOrderActionIds OrderManager_new unsorted_order = [] \<and>
   handleValidOrder indeterminate (Some unsorted_order) out =
     (Inl UndefinedBehaviour, out @ [IDispatch YieldClearActions])"
proof (intro conjI)
  show "checkOrderGraphConsistency unsorted_order = []" by (rule unsorted_order_checked)
  show "checkOrderId OrderManager_new unsorted_order = []"
    by (simp add: checkOrderId_def OrderManager_new_def unsorted_order_def sample_order_defs Let_def)
  show "checkOrderAppend OrderManager_new unsorted_order = Inr []"
    by (simp add: checkOrderAppend_def OrderManager_new_def unsorted_order_def sample_order_defs Let_def)
  show "checkOrderActionIds OrderManager_new unsorted_order = []"
    by (simp add: checkOrderActionIds_def order_actions_def unsorted_order_def sample_order_defs)
  have "interpret_all (fromOrder indeterminate unsorted_order) =
      (Inl UndefinedBehaviour, [YieldClearActions])"
    by (subst interpret_all_step, simp add: step_defs fromOrder_def unsorted_order_def sample_order_defs,
        subst interpret_all_step, simp add: step_defs transition_step_def update_collected_def)
  then show "handleValidOrder indeterminate (Some unsorted_order) out =
      (Inl UndefinedBehaviour, out @ [IDispatch YieldClearActions])"
    by (simp add: handleValidOrder_def)
qed

definition open_base_order :: Order where
  "open_base_order = sample_order 0
     [(sample_node 0 True)\<lparr>n_actions := [typed_action ''a'' HARD]\<rparr>, sample_node 2 False]
     [sample_edge 1 True]"

lemma open_base_order_checked: "checkOrderGraphConsistency open_base_order = []"
proof -
  have "set (order_ids open_base_order) = {0, 1, 2}"
    by (simp add: order_ids_def open_base_order_def sample_order_defs insert_commute)
  then have "ids_fill_interval open_base_order" by (rule first_leg_ids)
  moreover have "consistent_ids open_base_order"
    by (simp add: consistent_ids_def order_ids_def open_base_order_def sample_order_defs)
  moreover have "b = 0 \<or> b = 1" if "b \<in> base_ids open_base_order" for b
    using that by (auto simp: base_ids_def open_base_order_def sample_order_defs)
  then have "base_below_horizon open_base_order"
    by (force simp: base_below_horizon_def horizon_ids_def open_base_order_def sample_order_defs)
  moreover have "o_nodes open_base_order \<noteq> []" by (simp add: open_base_order_def sample_order_defs)
  ultimately show ?thesis unfolding graph_check_iff by blast
qed

text \<open>An order whose base ends with an edge passes the graph check too. The interpreter
  starts it: it clears the actions, announces and schedules the actions of the first node, and only
  then gives up, so that no graph ever reaches the order manager.\<close>

theorem accepted_order_fails_half_way:
  "checkOrderGraphConsistency open_base_order = [] \<and>
   checkOrderAppend OrderManager_new open_base_order = Inr [] \<and>
   handleValidOrder NONE (Some open_base_order) out =
     (Inl VDA5050PPInvalidArgument,
      out @ map IDispatch [YieldClearActions, YieldNewAction (typed_action ''a'' HARD),
        YieldActionGroupEvent [typed_action ''a'' HARD] HARD])"
proof (intro conjI)
  show "checkOrderGraphConsistency open_base_order = []" by (rule open_base_order_checked)
  show "checkOrderAppend OrderManager_new open_base_order = Inr []"
    by (simp add: checkOrderAppend_def OrderManager_new_def open_base_order_def sample_order_defs Let_def)
  have "interpret_all (fromOrder NONE open_base_order) =
      (Inl VDA5050PPInvalidArgument, [YieldClearActions, YieldNewAction (typed_action ''a'' HARD),
        YieldActionGroupEvent [typed_action ''a'' HARD] HARD])"
    by code_simp
  then show "handleValidOrder NONE (Some open_base_order) out =
      (Inl VDA5050PPInvalidArgument,
       out @ map IDispatch [YieldClearActions, YieldNewAction (typed_action ''a'' HARD),
         YieldActionGroupEvent [typed_action ''a'' HARD] HARD])"
    by (simp add: handleValidOrder_def)
qed

end
