(* ===== verification/ActionChecks.thy ===== *)
theory ActionChecks
  imports OrderChecks
begin

text \<open>
  \<^verbatim>\<open>core/checks/action.cpp\<close>: validating an action against its declaration (type, context, blocking
  type, parameters), which also fills the map of parsed parameters, and the test whether a control
  action fits the order status. What is not the library's own is an argument: how \<^verbatim>\<open>fmt\<close> prints
  lists and values, \<^verbatim>\<open>std::stod\<close>, and the comparison of floating point numbers.
\<close>

section \<open>Declarations\<close>

datatype ActionContext = ctx_unspecified | ctx_instant | ctx_edge | ctx_node

datatype ParameterValueType = k_string | k_integer | k_float | k_boolean | k_custom

record ParameterRange =
  pr_key :: string
  pr_type :: ParameterValueType
  pr_description :: "string option"
  pr_ordinal_min :: "string option"
  pr_ordinal_max :: "string option"
  pr_value_set :: "string list option"

text \<open>
  \<^verbatim>\<open>std::set<ParameterRange>\<close> is ordered by key: the ranges are a list in ascending order of their
  keys. A set of blocking types is a list in the order of the enumerators.
\<close>

record ActionDeclaration =
  ad_action_type :: string
  ad_description :: "string option"
  ad_result_description :: "string option"
  ad_parameter :: "ParameterRange list"
  ad_optional_parameter :: "ParameterRange list"
  ad_blocking_types :: "BlockingType list"
  ad_instant :: bool
  ad_node :: bool
  ad_edge :: bool

text \<open>
  \<^verbatim>\<open>std::variant<std::string, int64_t, double, bool, AnyPtr>\<close>; the code here never stores the last
  alternative.
\<close>

datatype ParameterValue =
    PV_string string
  | PV_int int
  | PV_float double
  | PV_bool bool

type_synonym ParametersMap = "(string, ParameterValue) std_map"

record externals =
  ext_stod :: stod
  ext_double_less :: "double \<Rightarrow> double \<Rightarrow> bool"
  ext_fmt_list :: "string list \<Rightarrow> string"
  ext_fmt_value :: "ParameterValue \<Rightarrow> string"
  ext_what :: "ParameterValueType \<Rightarrow> string \<Rightarrow> string"

fun blocking_name :: "BlockingType \<Rightarrow> string" where
  "blocking_name HARD = ''HARD''"
| "blocking_name SOFT = ''SOFT''"
| "blocking_name NONE = ''NONE''"

definition matchActionType :: "ActionDeclaration \<Rightarrow> Action \<Rightarrow> bool" where
  "matchActionType decl action \<longleftrightarrow> actionType action = ad_action_type decl"

section \<open>Parameters\<close>

text \<open>The conversion \<^verbatim>\<open>T(ActionParameterValueView(value))\<close>, by the type \<^verbatim>\<open>T\<close> that belongs to the range.\<close>

fun convert_value :: "externals \<Rightarrow> ParameterValueType \<Rightarrow> string \<Rightarrow> exn + ParameterValue" where
  "convert_value ext k_string v = Inr (PV_string v)"
| "convert_value ext k_integer v =
     (case value_getInt v of Inl e \<Rightarrow> Inl e | Inr i \<Rightarrow> Inr (PV_int i))"
| "convert_value ext k_float v =
     (case value_getFloat (ext_stod ext) v of Inl e \<Rightarrow> Inl e | Inr d \<Rightarrow> Inr (PV_float d))"
| "convert_value ext k_boolean v =
     (case value_getBool v of Inl e \<Rightarrow> Inl e | Inr b \<Rightarrow> Inr (PV_bool b))"
| "convert_value ext k_custom v = Inl VDA5050PPInvalidConfiguration"

text \<open>\<^verbatim>\<open>a < b\<close> for two values of one type. Booleans are never compared.\<close>

fun value_less :: "externals \<Rightarrow> ParameterValue \<Rightarrow> ParameterValue \<Rightarrow> bool" where
  "value_less ext (PV_string a) (PV_string b) = (a < b)"
| "value_less ext (PV_int a) (PV_int b) = (a < b)"
| "value_less ext (PV_float a) (PV_float b) = ext_double_less ext a b"
| "value_less ext _ _ = False"

text \<open>An error about a parameter's value has no references yet.\<close>

definition value_error :: "string \<Rightarrow> Error" where
  "value_error d = \<lparr>errorType = ''InvalidActionParameterValue'', errorReferences = None,
     errorDescription = d, errorLevel = Some WARNING\<rparr>"

definition check_value_set :: "externals \<Rightarrow> ParameterRange \<Rightarrow> string \<Rightarrow> ParameterValue \<Rightarrow> Error + ParameterValue" where
  "check_value_set ext p value t_value =
     (case pr_value_set p of
        None \<Rightarrow> Inr t_value
      | Some vs \<Rightarrow>
          if value \<notin> set vs
          then Inl (value_error (''Expected a value of '' @ ext_fmt_list ext vs @ '', not '' @
            ext_fmt_value ext t_value))
          else Inr t_value)"

text \<open>The bounds of the declaration are converted outside of the \<^verbatim>\<open>try\<close>: a bad bound throws.\<close>

definition ensureParameterConstraints ::
  "externals \<Rightarrow> ParameterValueType \<Rightarrow> ParameterRange \<Rightarrow> string \<Rightarrow> exn + Error + ParameterValue" where
  "ensureParameterConstraints ext t p value =
     (case convert_value ext t value of
        Inl _ \<Rightarrow> Inr (Inl (value_error (ext_what ext t value)))
      | Inr t_value \<Rightarrow>
          (case (case pr_ordinal_min p of
                   None \<Rightarrow> Inr None
                 | Some lo \<Rightarrow>
                     (case convert_value ext t lo of
                        Inl e \<Rightarrow> Inl e
                      | Inr min_value \<Rightarrow>
                          Inr (if value_less ext t_value min_value
                               then Some (value_error (''Expected a value not smaller then '' @
                                 ext_fmt_value ext min_value @ '', got '' @ ext_fmt_value ext t_value))
                               else None))) of
             Inl e \<Rightarrow> Inl e
           | Inr (Some err) \<Rightarrow> Inr (Inl err)
           | Inr None \<Rightarrow>
               (case (case pr_ordinal_max p of
                        None \<Rightarrow> Inr None
                      | Some hi \<Rightarrow>
                          (case convert_value ext t hi of
                             Inl e \<Rightarrow> Inl e
                           | Inr max_value \<Rightarrow>
                               Inr (if value_less ext max_value t_value
                                    then Some (value_error (''Expected a value not greater then '' @
                                      ext_fmt_value ext max_value @ '', got '' @
                                      ext_fmt_value ext t_value))
                                    else None))) of
                  Inl e \<Rightarrow> Inl e
                | Inr (Some err) \<Rightarrow> Inr (Inl err)
                | Inr None \<Rightarrow> Inr (check_value_set ext p value t_value))))"

text \<open>The specialization for \<^verbatim>\<open>bool\<close> looks at the value set only.\<close>

definition ensureParameterConstraints_bool ::
  "externals \<Rightarrow> ParameterRange \<Rightarrow> string \<Rightarrow> exn + Error + ParameterValue" where
  "ensureParameterConstraints_bool ext p value =
     (case convert_value ext k_boolean value of
        Inl _ \<Rightarrow> Inr (Inl (value_error (ext_what ext k_boolean value)))
      | Inr t_value \<Rightarrow> Inr (check_value_set ext p value t_value))"

text \<open>The map of parameters is there only when the caller wants it.\<close>

definition doInsert ::
  "externals \<Rightarrow> ParameterValueType \<Rightarrow> string \<times> string \<Rightarrow> ParameterRange \<Rightarrow>
   (ParametersMap option, Error option) comp" where
  "doInsert ext t p decl =
     bindM (liftE (if t = k_boolean then ensureParameterConstraints_bool ext decl (snd p)
                   else ensureParameterConstraints ext t decl (snd p)))
       (\<lambda>r. case r of
          Inl err \<Rightarrow> ret (Some err)
        | Inr v \<Rightarrow>
            seqM (modify (map_option (insert_or_assign (fst p) v))) (ret None))"

section \<open>Context\<close>

definition context_allowed :: "ActionContext \<Rightarrow> ActionDeclaration \<Rightarrow> bool" where
  "context_allowed context decl =
     (case context of
        ctx_edge \<Rightarrow> ad_edge decl
      | ctx_instant \<Rightarrow> ad_instant decl
      | ctx_node \<Rightarrow> ad_node decl
      | ctx_unspecified \<Rightarrow> True)"

fun context_name :: "ActionContext \<Rightarrow> string" where
  "context_name ctx_edge = ''Edge''"
| "context_name ctx_instant = ''Instant''"
| "context_name ctx_node = ''Node''"
| "context_name ctx_unspecified = []"

definition contextCheck :: "externals \<Rightarrow> Action \<Rightarrow> ActionContext \<Rightarrow> ActionDeclaration \<Rightarrow> Error list" where
  "contextCheck ext action context decl =
     (if context_allowed context decl then []
      else
        let whr = context_name context;
            allowed = (if ad_instant decl then [''Instant''] else []) @
                      (if ad_node decl then [''Node''] else []) @
                      (if ad_edge decl then [''Edge''] else [])
        in [\<lparr>errorType = ''ActionContext'',
             errorReferences = Some
               [(''action.actionId'', actionId action), (''action.actionType'', actionType action),
                (''action.context'', whr), (''action.allowedContext'', ext_fmt_list ext allowed)],
             errorDescription = ''The action is not allowed to run at \"'' @ whr @ ''\"'',
             errorLevel = None\<rparr>])"

section \<open>The whole action\<close>

text \<open>\<^verbatim>\<open>extract(reference)\<close>: the range with the key is taken out of the set.\<close>

definition extract_range :: "string \<Rightarrow> ParameterRange list \<Rightarrow> (ParameterRange \<times> ParameterRange list) option" where
  "extract_range key rs =
     (case List.find (\<lambda>r. pr_key r = key) rs of
        None \<Rightarrow> None
      | Some r \<Rightarrow> Some (r, filter (\<lambda>r. pr_key r \<noteq> key) rs))"

fun check_parameters ::
  "externals \<Rightarrow> Action \<Rightarrow> (string \<times> string) list \<Rightarrow> ParameterRange list \<Rightarrow> ParameterRange list \<Rightarrow>
   Error list \<Rightarrow> (ParametersMap option, Error list \<times> ParameterRange list) comp" where
  "check_parameters ext action [] to_be_found may_be_found errors = ret (errors, to_be_found)"
| "check_parameters ext action (p # ps) to_be_found may_be_found errors =
     (case (case extract_range (fst p) to_be_found of
              Some (r, rest) \<Rightarrow> Some (r, rest, may_be_found)
            | None \<Rightarrow>
                (case extract_range (fst p) may_be_found of
                   Some (r, rest) \<Rightarrow> Some (r, to_be_found, rest)
                 | None \<Rightarrow> None)) of
        None \<Rightarrow>
          check_parameters ext action ps to_be_found may_be_found
            (errors @ [mk_error ''UnknownActionParameter''
              [(''action.actionType'', actionType action), (''action.actionId'', actionId action),
               (''action.parameter.key'', fst p)]
              (''ActionParameter \"'' @ fst p @ ''\" with value \"'' @ snd p @ ''\" is unknown.'')])
      | Some (decl, to_be_found', may_be_found') \<Rightarrow>
          if pr_type decl = k_custom then throw VDA5050PPInvalidConfiguration
          else
            bindM (doInsert ext (pr_type decl) p decl) (\<lambda>maybe_error.
            check_parameters ext action ps to_be_found' may_be_found'
              (case maybe_error of None \<Rightarrow> errors | Some err \<Rightarrow> errors @ [err])))"

definition validateActionWithDeclaration ::
  "externals \<Rightarrow> Action \<Rightarrow> ActionContext \<Rightarrow> ActionDeclaration \<Rightarrow> (ParametersMap option, Error list) comp" where
  "validateActionWithDeclaration ext action context decl =
     (let type_errors =
            (if ad_action_type decl \<noteq> actionType action
             then [mk_error ''ActionTypeMismatch''
               [(''action.actionType'', actionType action), (''requiredActionType'', ad_action_type decl)]
               (''The action type \"'' @ actionType action @ ''\" does not match required action type \"'' @
                ad_action_type decl @ ''\"'')]
             else []);
          expected_types = ext_fmt_list ext (map blocking_name (ad_blocking_types decl));
          blocking_errors =
            (if blockingType action \<notin> set (ad_blocking_types decl)
             then [mk_error ''ActionBlockingTypeMismatch''
               [(''action.blockingType'', blocking_name (blockingType action)),
                (''allowedBlockingTypes'', expected_types)]
               (''BlockingType \"'' @ blocking_name (blockingType action) @
                ''\" is not allowed, expected one of '' @ expected_types)]
             else [])
      in bindM (check_parameters ext action (actionParameters action) (ad_parameter decl)
            (ad_optional_parameter decl)
            (type_errors @ contextCheck ext action context decl @ blocking_errors))
          (\<lambda>(errors, missing).
             ret (if missing = [] then errors
                  else errors @
                    [\<lparr>errorType = ''MissingActionParameter'',
                      errorReferences = Some
                        [(''action.actionId'', actionId action), (''action.actionType'', actionType action)],
                      errorDescription = ''Missing action parameters: '' @ ext_fmt_list ext (map pr_key missing),
                      errorLevel = None\<rparr>])))"

section \<open>Control actions\<close>

fun status_name :: "OrderStatus \<Rightarrow> string" where
  "status_name k_order_active = ''Active''"
| "status_name k_order_canceling = ''Canceling''"
| "status_name k_order_failed = ''Failed''"
| "status_name k_order_idle = ''Idle''"
| "status_name k_order_idle_paused = ''Idle-Paused''"
| "status_name k_order_interrupting = ''Interrupting''"
| "status_name k_order_paused = ''Paused''"
| "status_name k_order_pausing = ''Pausing''"
| "status_name k_order_resuming = ''Resuming''"

definition isPauseable :: "OrderStatus \<Rightarrow> bool" where
  "isPauseable s \<longleftrightarrow> s = k_order_active \<or> s = k_order_idle"

definition isResumable :: "OrderStatus \<Rightarrow> bool" where
  "isResumable s \<longleftrightarrow> s = k_order_idle_paused \<or> s = k_order_paused"

definition isCancelable :: "OrderStatus \<Rightarrow> bool" where
  "isCancelable s \<longleftrightarrow>
     s = k_order_idle_paused \<or> s = k_order_active \<or> s = k_order_idle \<or> s = k_order_paused"

definition control_error :: "Action \<Rightarrow> OrderStatus \<Rightarrow> string \<Rightarrow> Error" where
  "control_error action s verb =
     mk_error ''controlError''
       [(''action.actionId'', actionId action), (''action.actionType'', actionType action),
        (''internal.orderStatus'', status_name s)]
       (''Cannot '' @ verb @ '' order with status \"'' @ status_name s @ ''\"'')"

definition controlActionFeasible :: "OrderManager \<Rightarrow> Action \<Rightarrow> Error list" where
  "controlActionFeasible om action =
     (let s = order_status om in
      if actionType action = ''startPause'' \<and> \<not> isPauseable s then [control_error action s ''pause'']
      else if actionType action = ''stopPause'' \<and> \<not> isResumable s
      then [control_error action s ''resume'']
      else if actionType action = ''cancelOrder'' \<and> \<not> isCancelable s
      then [control_error action s ''cancel'']
      else [])"

end
