(* ===== verification/AgvHandlers.thy ===== *)
theory AgvHandlers
  imports ActionChecks
begin

text \<open>
  \<^verbatim>\<open>core/agv_handler/action_event_handler\<close> and \<^verbatim>\<open>query_event_handler\<close>, with the handler classes a user
  derives from (\<^verbatim>\<open>handler/\<close>): what the library keeps of an action that a user's handler accepted,
  and which callback runs on which event. The user's code is data: what a handler answers, and
  how a callback ends.
\<close>

section \<open>The result of a synchronized event\<close>

text \<open>
  \<^verbatim>\<open>events/synchronized_event.h\<close>: the result is set once; the token can be acquired while it is live. A
  token that is given up unset leaves the result live.
\<close>

datatype 'r Result = Live | ResultValue 'r | ResultException exn

definition acquireResultToken :: "'r Result \<Rightarrow> bool" where
  "acquireResultToken r \<longleftrightarrow> r = Live"

definition setValue :: "'r \<Rightarrow> 'r Result \<Rightarrow> exn + 'r Result" where
  "setValue v r = (if r = Live then Inr (ResultValue v) else Inl VDA5050PPSynchronizedEventNotAcquired)"

definition setException :: "exn \<Rightarrow> 'r Result \<Rightarrow> exn + 'r Result" where
  "setException x r = (if r = Live then Inr (ResultException x) else Inl VDA5050PPSynchronizedEventNotAcquired)"

definition release :: "'r Result \<Rightarrow> exn + 'r Result" where
  "release r = (if r = Live then Inr r else Inl VDA5050PPSynchronizedEventNotAcquired)"

text \<open>What the sender finds in the future: nothing yet, the value, or an exception that \<^verbatim>\<open>get\<close> rethrows.\<close>

fun future_get :: "'r Result \<Rightarrow> (exn + 'r) option" where
  "future_get Live = None"
| "future_get (ResultValue v) = Some (Inr v)"
| "future_get (ResultException x) = Some (Inl x)"

section \<open>A user's action handler\<close>

text \<open>A callback that is set, with the way it ends.\<close>

record ActionCallbacks =
  on_start :: "(exn + unit) option"
  on_pause :: "(exn + unit) option"
  on_resume :: "(exn + unit) option"
  on_cancel :: "(exn + unit) option"

type_synonym ValidationResult = "Error list \<times> ParametersMap"

record 'd ActionHandler =
  ah_match :: "Action \<Rightarrow> exn + bool"
  ah_validate :: "Action \<Rightarrow> ActionContext \<Rightarrow> exn + ValidationResult"
  ah_prepare :: "Action \<Rightarrow> ParametersMap \<Rightarrow> exn + ActionCallbacks"
  ah_description :: "'d list"

text \<open>
  \<^verbatim>\<open>SimpleMultiActionHandler\<close>: the declarations are a set. Its functions are \<^verbatim>\<open>noexcept\<close>; an exception
  of the check, which a wrong declaration causes, terminates the program.
\<close>

definition SimpleMulti_match :: "ActionDeclaration list \<Rightarrow> Action \<Rightarrow> exn + bool" where
  "SimpleMulti_match decls a = Inr (\<exists>d \<in> set decls. matchActionType d a)"

definition SimpleMulti_validate ::
  "externals \<Rightarrow> ActionDeclaration list \<Rightarrow> Action \<Rightarrow> ActionContext \<Rightarrow> exn + ValidationResult" where
  "SimpleMulti_validate ext decls a context =
     (case List.find (\<lambda>d. matchActionType d a) decls of
        None \<Rightarrow> Inr ([], [])
      | Some d \<Rightarrow>
          (case validateActionWithDeclaration ext a context d (Some []) of
             (Inr errors, ps) \<Rightarrow> Inr (errors, (case ps of Some m \<Rightarrow> m | None \<Rightarrow> []))
           | (Inl x, _) \<Rightarrow> Inl UndefinedBehaviour))"

definition Simple_match :: "ActionDeclaration \<Rightarrow> Action \<Rightarrow> exn + bool" where
  "Simple_match decl a = Inr (matchActionType decl a)"

definition Simple_validate ::
  "externals \<Rightarrow> ActionDeclaration \<Rightarrow> Action \<Rightarrow> ActionContext \<Rightarrow> exn + ValidationResult" where
  "Simple_validate ext decl a context =
     (case validateActionWithDeclaration ext a context decl (Some []) of
        (Inr errors, ps) \<Rightarrow> Inr (errors, (case ps of Some m \<Rightarrow> m | None \<Rightarrow> []))
      | (Inl x, _) \<Rightarrow> Inl UndefinedBehaviour)"

section \<open>State of the action event handler\<close>

record 'd ActionStore =
  store_action :: Action
  store_state :: "Action option"
  store_handler :: "'d ActionHandler"
  store_callbacks :: "ActionCallbacks option"
  store_parameters :: ParametersMap

text \<open>The callbacks called so far, with the id of their action.\<close>

datatype CallbackKind = Started | PausedCb | ResumedCb | Cancelled

record 'd ActionEventHandler =
  handled_actions :: "(string, 'd ActionStore) std_map"
  user_calls :: "(CallbackKind \<times> string) list"

section \<open>Validation\<close>

text \<open>The event \<^verbatim>\<open>ActionValidate\<close>: action, context, whether the action is to be kept.\<close>

record ActionValidate =
  av_action :: "Action option"
  av_context :: ActionContext
  av_keep :: bool

type_synonym ('d, 'a) validating = "('d ActionEventHandler \<times> Error list Result, 'a) comp"

definition set_result :: "(Error list Result \<Rightarrow> exn + Error list Result) \<Rightarrow> ('d, unit) validating" where
  "set_result f =
     bindM (gets snd) (\<lambda>r. bindM (liftE (f r)) (\<lambda>r'. modify (\<lambda>(w, _). (w, r'))))"

definition new_store :: "'d ActionHandler \<Rightarrow> Action \<Rightarrow> ParametersMap \<Rightarrow> 'd ActionStore" where
  "new_store h a ps =
     \<lparr>store_action = a, store_state = None, store_handler = h, store_callbacks = None,
      store_parameters = ps\<rparr>"

text \<open>The first handler that matches decides.\<close>

fun validate_with :: "'d ActionHandler list \<Rightarrow> Action \<Rightarrow> ActionContext \<Rightarrow> bool \<Rightarrow> ('d, unit) validating" where
  "validate_with [] a context keep = set_result release"
| "validate_with (h # hs) a context keep =
     bindM (liftE (ah_match h a)) (\<lambda>matches.
     if \<not> matches then validate_with hs a context keep
     else
       case ah_validate h a context of
         Inl x \<Rightarrow>
           if is_VDA5050PPError x then seqM (set_result (setException x)) (throw x) else throw x
       | Inr (errors, ps) \<Rightarrow>
           seqM
             (whenM (errors = [] \<and> keep)
               (modify (\<lambda>(w, r).
                 (w\<lparr>handled_actions :=
                    insert_or_assign (actionId a) (new_store h a ps) (handled_actions w)\<rparr>, r))))
             (set_result (setValue errors)))"

definition handleValidateEvent ::
  "'d ActionHandler list \<Rightarrow> ActionValidate option \<Rightarrow> ('d, unit) validating" where
  "handleValidateEvent hs data =
     (case data of
        None \<Rightarrow> throw VDA5050PPInvalidEventData
      | Some ev \<Rightarrow>
          (case av_action ev of
             None \<Rightarrow> throw VDA5050PPInvalidEventData
           | Some a \<Rightarrow>
               bindM (gets (acquireResultToken \<circ> snd)) (\<lambda>acquired.
               if \<not> acquired then ret ()
               else validate_with hs a (av_context ev) (av_keep ev))))"

section \<open>The life of a kept action\<close>

type_synonym ('d, 'a) aeh = "('d ActionEventHandler, 'a) comp"

definition tryFindHandledAction :: "string \<Rightarrow> ('d, 'd ActionStore option) aeh" where
  "tryFindHandledAction i = gets (\<lambda>w. map_of (handled_actions w) i)"

text \<open>The store is a reference into the map.\<close>

definition update_store :: "string \<Rightarrow> 'd ActionStore \<Rightarrow> ('d, unit) aeh" where
  "update_store i store =
     modify (\<lambda>w. w\<lparr>handled_actions := insert_or_assign i store (handled_actions w)\<rparr>)"

definition handlePrepareEvent :: "Action option option \<Rightarrow> ('d, unit) aeh" where
  "handlePrepareEvent data =
     (case data of
        Some (Some a) \<Rightarrow>
          bindM (tryFindHandledAction (actionId a)) (\<lambda>maybe_store.
          case maybe_store of
            None \<Rightarrow> ret ()
          | Some store \<Rightarrow>
              let store' = store\<lparr>store_state := Some a\<rparr>
              in seqM (update_store (actionId a) store')
                   (bindM (liftE (ah_prepare (store_handler store) a (store_parameters store)))
                     (\<lambda>cbs. update_store (actionId a) (store'\<lparr>store_callbacks := Some cbs\<rparr>))))
      | _ \<Rightarrow> throw VDA5050PPInvalidEventData)"

definition call_callback ::
  "(ActionCallbacks \<Rightarrow> (exn + unit) option) \<Rightarrow> CallbackKind \<Rightarrow> string option \<Rightarrow> ('d, unit) aeh" where
  "call_callback sel kind data =
     (case data of
        None \<Rightarrow> throw VDA5050PPInvalidEventData
      | Some i \<Rightarrow>
          bindM (tryFindHandledAction i) (\<lambda>maybe_store.
          case maybe_store of
            None \<Rightarrow> ret ()
          | Some store \<Rightarrow>
              (case store_callbacks store of
                 None \<Rightarrow> throw VDA5050PPCallbackNotSet
               | Some cbs \<Rightarrow>
                   (case sel cbs of
                      None \<Rightarrow> throw VDA5050PPCallbackNotSet
                    | Some outcome \<Rightarrow>
                        (case store_state store of
                           None \<Rightarrow> throw VDA5050PPNullPointer
                         | Some a \<Rightarrow>
                             seqM (modify (\<lambda>w. w\<lparr>user_calls := user_calls w @ [(kind, actionId a)]\<rparr>))
                               (liftE outcome))))))"

definition handleCancelEvent :: "string option \<Rightarrow> ('d, unit) aeh" where
  "handleCancelEvent data = call_callback on_cancel Cancelled data"

definition handlePauseEvent :: "string option \<Rightarrow> ('d, unit) aeh" where
  "handlePauseEvent data = call_callback on_pause PausedCb data"

definition handleResumeEvent :: "string option \<Rightarrow> ('d, unit) aeh" where
  "handleResumeEvent data = call_callback on_resume ResumedCb data"

definition handleStartEvent :: "string option \<Rightarrow> ('d, unit) aeh" where
  "handleStartEvent data = call_callback on_start Started data"

definition tryRemoveActionStore :: "string \<Rightarrow> ('d, bool) aeh" where
  "tryRemoveActionStore i =
     bindM (gets (\<lambda>w. map_of (handled_actions w) i)) (\<lambda>found.
     if found = None then ret False
     else seqM (modify (\<lambda>w. w\<lparr>handled_actions := map_erase i (handled_actions w)\<rparr>)) (ret True))"

definition handleForgetEvent :: "string option \<Rightarrow> ('d, unit) aeh" where
  "handleForgetEvent data =
     (case data of
        None \<Rightarrow> throw VDA5050PPInvalidEventData
      | Some i \<Rightarrow> bindM (tryRemoveActionStore i) (\<lambda>_. ret ()))"

definition handleActionListEvent ::
  "'d ActionHandler list \<Rightarrow> unit option \<Rightarrow> ('d list Result, unit) comp" where
  "handleActionListEvent hs data =
     (case data of
        None \<Rightarrow> throw VDA5050PPInvalidEventData
      | Some _ \<Rightarrow>
          bindM (gets acquireResultToken) (\<lambda>acquired.
          if \<not> acquired then ret ()
          else bindM (gets (setValue (concat (map ah_description hs)))) (\<lambda>r.
               bindM (liftE r) (\<lambda>v. modify (\<lambda>_. v)))))"

text \<open>The subscriptions of \<^verbatim>\<open>initialize\<close>, as one function of the event.\<close>

fun on_action_event :: "ActionEvent \<Rightarrow> ('d, unit) aeh" where
  "on_action_event (ActionPrepare a) = handlePrepareEvent (Some (Some a))"
| "on_action_event (ActionStart i) = handleStartEvent (Some i)"
| "on_action_event (ActionPause i) = handlePauseEvent (Some i)"
| "on_action_event (ActionResume i) = handleResumeEvent (Some i)"
| "on_action_event (ActionCancel i) = handleCancelEvent (Some i)"
| "on_action_event (ActionForget i) = handleForgetEvent (Some i)"

section \<open>What an action's handler reports back\<close>

text \<open>\<^verbatim>\<open>core/agv_handler/action_state\<close>: the events for the action status manager.\<close>

datatype ActionStatusEvent =
    ActionStatusInitializing string
  | ActionStatusRunning string
  | ActionStatusPaused string
  | ActionStatusFinished string "string option"
  | ActionStatusFailed string "Error list"

definition ActionState_setRunning :: "Action \<Rightarrow> ActionStatusEvent" where
  "ActionState_setRunning a = ActionStatusRunning (actionId a)"

definition ActionState_setPaused :: "Action \<Rightarrow> ActionStatusEvent" where
  "ActionState_setPaused a = ActionStatusPaused (actionId a)"

definition ActionState_setFinished :: "Action \<Rightarrow> string option \<Rightarrow> ActionStatusEvent" where
  "ActionState_setFinished a result_code = ActionStatusFinished (actionId a) result_code"

definition ActionState_setFailed :: "Action \<Rightarrow> Error list \<Rightarrow> ActionStatusEvent" where
  "ActionState_setFailed a errors = ActionStatusFailed (actionId a) errors"

section \<open>Queries\<close>

record QueryPauseResumeResult =
  qr_errors :: "Error list"
  qr_notify :: bool

text \<open>\<open>None\<close> is a virtual function that the user did not override.\<close>

record QueryHandler =
  queryPauseable :: "QueryPauseResumeResult option"
  queryResumable :: "QueryPauseResumeResult option"
  queryAcceptZoneSet :: "(string \<Rightarrow> Error list) option"

text \<open>
  The base class detects its own implementation by a flag: it is set before the virtual call, and the
  base implementation resets it.
\<close>

definition call_wrapped :: "'r \<Rightarrow> 'r option \<Rightarrow> 'r option" where
  "call_wrapped base overridden =
     (let (result, overwrite) = (case overridden of Some r \<Rightarrow> (r, True) | None \<Rightarrow> (base, False))
      in if overwrite then Some result else None)"

definition callQueryPauseable :: "QueryHandler \<Rightarrow> QueryPauseResumeResult option" where
  "callQueryPauseable h = call_wrapped \<lparr>qr_errors = [], qr_notify = True\<rparr> (queryPauseable h)"

definition callQueryResumable :: "QueryHandler \<Rightarrow> QueryPauseResumeResult option" where
  "callQueryResumable h = call_wrapped \<lparr>qr_errors = [], qr_notify = True\<rparr> (queryResumable h)"

definition callQueryAcceptZoneSet :: "QueryHandler \<Rightarrow> string \<Rightarrow> Error list option" where
  "callQueryAcceptZoneSet h i =
     call_wrapped [] (case queryAcceptZoneSet h of None \<Rightarrow> None | Some f \<Rightarrow> Some (f i))"

record QueryConfig =
  default_pauseable_success :: "bool option"
  default_resumable_success :: "bool option"
  default_accept_zone_set_success :: "bool option"
  default_accept_zone_sets :: "string list option"

definition default_true :: "bool option \<Rightarrow> bool" where
  "default_true v = (case v of None \<Rightarrow> True | Some b \<Rightarrow> b)"

definition default_error :: "string \<Rightarrow> Error" where
  "default_error d = \<lparr>errorType = ''controlError'', errorReferences = None, errorDescription = d,
     errorLevel = Some WARNING\<rparr>"

definition default_answer :: "bool option \<Rightarrow> string \<Rightarrow> QueryPauseResumeResult" where
  "default_answer success d =
     (if default_true success then \<lparr>qr_errors = [], qr_notify = True\<rparr>
      else \<lparr>qr_errors = [default_error d], qr_notify = True\<rparr>)"

definition answer_query :: "'r \<Rightarrow> unit option \<Rightarrow> ('r Result, unit) comp" where
  "answer_query v data =
     (case data of
        None \<Rightarrow> throw VDA5050PPInvalidEventData
      | Some _ \<Rightarrow>
          bindM (gets acquireResultToken) (\<lambda>acquired.
          if \<not> acquired then ret ()
          else bindM (gets (setValue v)) (\<lambda>r. bindM (liftE r) (\<lambda>x. modify (\<lambda>_. x)))))"

definition handleQueryPauseableEvent ::
  "QueryHandler option \<Rightarrow> QueryConfig \<Rightarrow> unit option \<Rightarrow> (QueryPauseResumeResult Result, unit) comp" where
  "handleQueryPauseableEvent handler cfg =
     answer_query
       (case Option.bind handler callQueryPauseable of
          Some r \<Rightarrow> r
        | None \<Rightarrow> default_answer (default_pauseable_success cfg)
            ''Cannot pause order by configured default.'')"

definition handleQueryResumableEvent ::
  "QueryHandler option \<Rightarrow> QueryConfig \<Rightarrow> unit option \<Rightarrow> (QueryPauseResumeResult Result, unit) comp" where
  "handleQueryResumableEvent handler cfg =
     answer_query
       (case Option.bind handler callQueryResumable of
          Some r \<Rightarrow> r
        | None \<Rightarrow> default_answer (default_resumable_success cfg)
            ''Cannot resume order by configured default.'')"

definition accept_zone_set ::
  "(string list \<Rightarrow> string) \<Rightarrow> QueryHandler option \<Rightarrow> QueryConfig \<Rightarrow> string \<Rightarrow> Error list" where
  "accept_zone_set fmt handler cfg zone =
     (case Option.bind handler (\<lambda>h. callQueryAcceptZoneSet h zone) of
        Some errors \<Rightarrow> errors
      | None \<Rightarrow>
          (case default_accept_zone_sets cfg of
             Some sets \<Rightarrow>
               if zone \<in> set sets then []
               else [mk_error ''orderError'' [(''order.zoneSetId'', zone)]
                 (''Cannot accept zone set \"'' @ zone @ ''\". Allowed sets: '' @ fmt sets)]
           | None \<Rightarrow>
               if default_true (default_accept_zone_set_success cfg) then []
               else [default_error ''Cannot accept zone set order by configured default.'']))"

definition handleQueryAcceptZoneSet ::
  "(string list \<Rightarrow> string) \<Rightarrow> QueryHandler option \<Rightarrow> QueryConfig \<Rightarrow> string option \<Rightarrow>
   (Error list Result, unit) comp" where
  "handleQueryAcceptZoneSet fmt handler cfg data =
     (case data of
        None \<Rightarrow> throw VDA5050PPInvalidEventData
      | Some zone \<Rightarrow> answer_query (accept_zone_set fmt handler cfg zone) (Some ()))"

end
