(* ===== verification/ControlActions.thy ===== *)
theory ControlActions
  imports AgvHandlers InterpreterRun
begin

text \<open>
  \<^verbatim>\<open>core/interpreter/control_instant_actions\<close> and \<^verbatim>\<open>core/events/event_control_blocks\<close>: the five instant
  actions that the library handles itself, and the blocks that follow such an action until it is
  done. A block is enabled, waits for order status events, and tears itself down; a chain does
  one block after the other, an alternative waits for the first of its blocks.
\<close>

section \<open>Declarations\<close>

definition control_declaration :: "string \<Rightarrow> string \<Rightarrow> BlockingType \<Rightarrow> ActionDeclaration" where
  "control_declaration t d b =
     \<lparr>ad_action_type = t, ad_description = Some d, ad_result_description = None, ad_parameter = [],
      ad_optional_parameter = [], ad_blocking_types = [b], ad_instant = True, ad_node = False,
      ad_edge = False\<rparr>"

definition cancelOrder_declaration :: ActionDeclaration where
  "cancelOrder_declaration =
     control_declaration ''cancelOrder'' ''Request the AGV to cancel the Order.'' HARD"

definition startPause_declaration :: ActionDeclaration where
  "startPause_declaration =
     control_declaration ''startPause'' ''Request the AGV to pause the Order.'' HARD"

definition stopPause_declaration :: ActionDeclaration where
  "stopPause_declaration =
     control_declaration ''stopPause'' ''Request the AGV to resume the Order.'' HARD"

definition factsheetRequest_declaration :: ActionDeclaration where
  "factsheetRequest_declaration =
     control_declaration ''factsheetRequest'' ''Request the factsheet from the AGV.'' NONE"

definition stateRequest_declaration :: ActionDeclaration where
  "stateRequest_declaration =
     control_declaration ''stateRequest'' ''Request the AGV to send a new state report.'' NONE"

text \<open>A \<^verbatim>\<open>std::set\<close>, ordered by the action type.\<close>

definition control_declarations :: "ActionDeclaration list" where
  "control_declarations =
     [cancelOrder_declaration, factsheetRequest_declaration, startPause_declaration,
      stateRequest_declaration, stopPause_declaration]"

definition isControlInstantAction :: "Action \<Rightarrow> bool" where
  "isControlInstantAction a \<longleftrightarrow> (\<exists>d \<in> set control_declarations. matchActionType d a)"

definition validateControlInstantAction ::
  "externals \<Rightarrow> OrderManager \<Rightarrow> Action \<Rightarrow> ActionContext \<Rightarrow> exn + Error list" where
  "validateControlInstantAction ext om a context =
     (case List.find (\<lambda>d. matchActionType d a) control_declarations of
        None \<Rightarrow> Inl VDA5050PPInvalidArgument
      | Some d \<Rightarrow>
          (case fst (validateActionWithDeclaration ext a context d None) of
             Inl x \<Rightarrow> Inl x
           | Inr errors \<Rightarrow> Inr (errors @ controlActionFeasible om a)))"

text \<open>\<^verbatim>\<open>InterpreterEventHandler::handleActionValidateEvent\<close>.\<close>

definition handleActionValidateEvent ::
  "externals \<Rightarrow> OrderManager \<Rightarrow> ActionValidate option \<Rightarrow> ('d, unit) validating" where
  "handleActionValidateEvent ext om data =
     (case Option.bind data (\<lambda>ev. Option.bind (av_action ev) (\<lambda>a. Some (a, av_context ev))) of
        None \<Rightarrow> throw VDA5050PPInvalidEventData
      | Some (a, context) \<Rightarrow>
          bindM (gets (acquireResultToken \<circ> snd)) (\<lambda>acquired.
          if \<not> acquired then ret ()
          else if \<not> isControlInstantAction a then set_result release
          else
            bindM (liftE (validateControlInstantAction ext om a context)) (\<lambda>errors.
            set_result (setValue errors))))"

section \<open>Control blocks\<close>

text \<open>
  A latch is armed once it has subscribed to the order status. A block's owner sees its teardown as
  the result \<open>True\<close>. On an exception the block stays as it is, and what it had armed stays
  armed.
\<close>

datatype 'w Block =
    FunctionBlock "('w, unit) comp"
  | Latch bool "OrderStatus \<Rightarrow> bool" "('w, unit) comp"
  | Chain "'w Block list"
  | Alternative "'w Block list"

text \<open>
  Enabling an alternative enables all of its blocks. One that is torn down at once would clear the
  list that the loop runs over.
\<close>

function (sequential) enable :: "'w Block \<Rightarrow> 'w \<Rightarrow> (exn + bool) \<times> 'w Block \<times> 'w" where
  "enable (FunctionBlock f) w =
     (case f w of (Inl x, w') \<Rightarrow> (Inl x, FunctionBlock f, w') | (Inr _, w') \<Rightarrow> (Inr True, FunctionBlock f, w'))"
| "enable (Latch armed p d) w = (Inr False, Latch True p d, w)"
| "enable (Chain []) w = (Inl VDA5050PPInvalidState, Chain [], w)"
| "enable (Chain (b # bs)) w =
     (case enable b w of
        (Inl x, b', w') \<Rightarrow> (Inl x, Chain (b' # bs), w')
      | (Inr False, b', w') \<Rightarrow> (Inr False, Chain (b' # bs), w')
      | (Inr True, b', w') \<Rightarrow> if bs = [] then (Inr True, Chain [], w') else enable (Chain bs) w')"
| "enable (Alternative []) w = (Inl VDA5050PPInvalidState, Alternative [], w)"
| "enable (Alternative [b]) w =
     (case enable b w of
        (Inl x, b', w') \<Rightarrow> (Inl x, Alternative [b'], w')
      | (Inr False, b', w') \<Rightarrow> (Inr False, Alternative [b'], w')
      | (Inr True, b', w') \<Rightarrow> (Inl UndefinedBehaviour, Alternative [], w'))"
| "enable (Alternative (b # bs)) w =
     (case enable b w of
        (Inl x, b', w') \<Rightarrow> (Inl x, Alternative (b' # bs), w')
      | (Inr True, b', w') \<Rightarrow> (Inl UndefinedBehaviour, Alternative [], w')
      | (Inr False, b', w') \<Rightarrow>
          (case enable (Alternative bs) w' of
             (r, Alternative bs', w'') \<Rightarrow> (r, Alternative (b' # bs'), w'')
           | (r, c, w'') \<Rightarrow> (r, Alternative [b', c], w'')))"
  by pat_completeness auto
termination by (relation "measure (\<lambda>(b, w). size b)") auto

text \<open>
  An order status event, as the latches of a block see it. In a chain only the first block is
  enabled; when it is torn down, the next one is enabled. In an alternative the first block that is
  torn down ends the others. There the code destroys the running latch and its teardown function, by
  \<^verbatim>\<open>setTeardown(nullptr)\<close> and \<^verbatim>\<open>blocks_.clear()\<close>, and reads the captured pointer afterwards, which the
  language leaves undefined; the model has the intended effect. The reports come before that point.
\<close>

function (sequential) on_status :: "OrderStatus \<Rightarrow> 'w Block \<Rightarrow> 'w \<Rightarrow> (exn + bool) \<times> 'w Block \<times> 'w" where
  "on_status s (FunctionBlock f) w = (Inr False, FunctionBlock f, w)"
| "on_status s (Latch armed p d) w =
     (if armed \<and> p s
      then (case d w of (Inl x, w') \<Rightarrow> (Inl x, Latch armed p d, w') | (Inr _, w') \<Rightarrow> (Inr True, Latch armed p d, w'))
      else (Inr False, Latch armed p d, w))"
| "on_status s (Chain []) w = (Inr False, Chain [], w)"
| "on_status s (Chain (b # bs)) w =
     (case on_status s b w of
        (Inl x, b', w') \<Rightarrow> (Inl x, Chain (b' # bs), w')
      | (Inr False, b', w') \<Rightarrow> (Inr False, Chain (b' # bs), w')
      | (Inr True, b', w') \<Rightarrow> if bs = [] then (Inr True, Chain [], w') else enable (Chain bs) w')"
| "on_status s (Alternative []) w = (Inr False, Alternative [], w)"
| "on_status s (Alternative (b # bs)) w =
     (case on_status s b w of
        (Inl x, b', w') \<Rightarrow> (Inl x, Alternative (b' # bs), w')
      | (Inr True, b', w') \<Rightarrow> (Inr True, Alternative [], w')
      | (Inr False, b', w') \<Rightarrow>
          (case on_status s (Alternative bs) w' of
             (Inr False, Alternative bs', w'') \<Rightarrow> (Inr False, Alternative (b' # bs'), w'')
           | (Inl x, Alternative bs', w'') \<Rightarrow> (Inl x, Alternative (b' # bs'), w'')
           | r \<Rightarrow> r))"
  by pat_completeness auto
termination by (relation "measure (\<lambda>(s, b, w). size b)") auto

section \<open>The blocks of the control actions\<close>

text \<open>What a block does. The factsheet is opaque here.\<close>

datatype 'f ControlOut =
    DispatchOrderControl ControlStatus Action
  | SyncOrderEvent OrderEvent
  | SendFactsheet 'f

text \<open>
  How the dispatched events take effect on the world is an argument: with asynchronous managers they
  are queued, with synchronous ones the subscribers run at once. \<open>gathered\<close> is the answer to the
  event that gathers the factsheet, if anybody answers: the factsheet, or an exception that \<^verbatim>\<open>get\<close> rethrows.
\<close>

definition set_status :: "('f ControlOut \<Rightarrow> ('w, unit) comp) \<Rightarrow> Action \<Rightarrow> ActionStatus \<Rightarrow> ('w, unit) comp" where
  "set_status out a s = out (SyncOrderEvent (OrderActionStatusChanged (actionId a) s None))"

definition isOrderStatus :: "OrderStatus \<Rightarrow> OrderStatus \<Rightarrow> bool" where
  "isOrderStatus status evt \<longleftrightarrow> evt = status"

definition makeCancelControlBlock :: "('f ControlOut \<Rightarrow> ('w, unit) comp) \<Rightarrow> Action \<Rightarrow> 'w Block" where
  "makeCancelControlBlock out a =
     Chain
       [FunctionBlock (seqM (out (DispatchOrderControl ctl_cancel a)) (set_status out a RUNNING)),
        Latch False (isOrderStatus k_order_idle)
          (seqM (out (SyncOrderEvent (OrderClearAfterCancel a))) (set_status out a FINISHED))]"

definition makePauseControlBlock :: "('f ControlOut \<Rightarrow> ('w, unit) comp) \<Rightarrow> Action \<Rightarrow> 'w Block" where
  "makePauseControlBlock out a =
     Chain
       [FunctionBlock (out (DispatchOrderControl ctl_pause a)),
        Alternative
          [Latch False (isOrderStatus k_order_idle_paused) (set_status out a FINISHED),
           Chain
             [Latch False (isOrderStatus k_order_pausing) (set_status out a RUNNING),
              Latch False (isOrderStatus k_order_paused) (set_status out a FINISHED)]]]"

definition makeResumeControlBlock :: "('f ControlOut \<Rightarrow> ('w, unit) comp) \<Rightarrow> Action \<Rightarrow> 'w Block" where
  "makeResumeControlBlock out a =
     Chain
       [FunctionBlock (out (DispatchOrderControl ctl_resume a)),
        Alternative
          [Latch False (isOrderStatus k_order_idle) (set_status out a FINISHED),
           Chain
             [Latch False (isOrderStatus k_order_resuming) (set_status out a RUNNING),
              Latch False (isOrderStatus k_order_active) (set_status out a FINISHED)]]]"

definition makeFactsheetRequestControlBlock ::
  "('f ControlOut \<Rightarrow> ('w, unit) comp) \<Rightarrow> (exn + 'f) option \<Rightarrow> Action \<Rightarrow> 'w Block" where
  "makeFactsheetRequestControlBlock out gathered a =
     Chain
       [FunctionBlock
          (case gathered of
             None \<Rightarrow> throw VDA5050PPSynchronizedEventTimedOut
           | Some (Inl e) \<Rightarrow> throw e
           | Some (Inr f) \<Rightarrow> out (SendFactsheet f)),
        FunctionBlock (set_status out a FINISHED)]"

definition makeStateRequestControlBlock :: "('f ControlOut \<Rightarrow> ('w, unit) comp) \<Rightarrow> Action \<Rightarrow> 'w Block" where
  "makeStateRequestControlBlock out a = FunctionBlock (set_status out a FINISHED)"

definition makeControlInstantActionControlBlock ::
  "('f ControlOut \<Rightarrow> ('w, unit) comp) \<Rightarrow> (exn + 'f) option \<Rightarrow> Action option \<Rightarrow> exn + 'w Block" where
  "makeControlInstantActionControlBlock out gathered action =
     (case action of
        None \<Rightarrow> Inl VDA5050PPNullPointer
      | Some a \<Rightarrow>
          if actionType a = ''cancelOrder'' then Inr (makeCancelControlBlock out a)
          else if actionType a = ''startPause'' then Inr (makePauseControlBlock out a)
          else if actionType a = ''stopPause'' then Inr (makeResumeControlBlock out a)
          else if actionType a = ''factsheetRequest''
          then Inr (makeFactsheetRequestControlBlock out gathered a)
          else if actionType a = ''stateRequest'' then Inr (makeStateRequestControlBlock out a)
          else Inl VDA5050PPInvalidArgument)"

section \<open>Instant actions\<close>

text \<open>The blocks that wait, by the id of their action, and the state the events act on.\<close>

record 'w Controlled =
  active_control_blocks :: "(string, 'w Block) std_map"
  controlled :: 'w

text \<open>The teardown of the outermost block takes it out of the map.\<close>

definition settle_block ::
  "string \<Rightarrow> (exn + bool) \<times> 'w Block \<times> 'w \<Rightarrow> 'w Controlled \<Rightarrow> (exn + unit) \<times> 'w Controlled" where
  "settle_block i r c =
     (case r of (res, b, w) \<Rightarrow>
        ((case res of Inl x \<Rightarrow> Inl x | Inr _ \<Rightarrow> Inr ()),
         c\<lparr>active_control_blocks :=
             (if res = Inr True then map_erase i (active_control_blocks c)
              else insert_or_assign i b (active_control_blocks c)),
           controlled := w\<rparr>))"

definition start_control ::
  "('f ControlOut \<Rightarrow> ('w, unit) comp) \<Rightarrow> (exn + 'f) option \<Rightarrow> Action \<Rightarrow> ('w Controlled, unit) comp" where
  "start_control out gathered a =
     bindM (liftE (makeControlInstantActionControlBlock out gathered (Some a))) (\<lambda>b c.
     settle_block (actionId a) (enable b (controlled c)) c)"

definition raise_ceiling :: "BlockingType \<Rightarrow> BlockingType \<Rightarrow> BlockingType" where
  "raise_ceiling ceil b =
     (if b = HARD then HARD else if b = SOFT \<and> ceil \<noteq> HARD then SOFT else ceil)"

definition on_controlled :: "('w, unit) comp \<Rightarrow> ('w Controlled, unit) comp" where
  "on_controlled m c = (case m (controlled c) of (r, w) \<Rightarrow> (r, c\<lparr>controlled := w\<rparr>))"

text \<open>
  \<open>new_action\<close> is the synchronous dispatch of \<^verbatim>\<open>YieldNewAction\<close>, \<open>yield_group\<close> the dispatch of the group of the other
  actions with their ceiling.
\<close>

fun instant_actions ::
  "('f ControlOut \<Rightarrow> ('w, unit) comp) \<Rightarrow> (exn + 'f) option \<Rightarrow> (Action \<Rightarrow> ('w, unit) comp) \<Rightarrow>
   Action list \<Rightarrow> Action list \<times> BlockingType \<Rightarrow> ('w Controlled, Action list \<times> BlockingType) comp" where
  "instant_actions out gathered new_action [] acc = ret acc"
| "instant_actions out gathered new_action (a # as) (grp, bound) =
     seqM (on_controlled (new_action a))
       (if isControlInstantAction a
        then seqM (start_control out gathered a)
               (instant_actions out gathered new_action as (grp, bound))
        else instant_actions out gathered new_action as
               (grp @ [a], raise_ceiling bound (blockingType a)))"

definition handleValidInstantActions ::
  "('f ControlOut \<Rightarrow> ('w, unit) comp) \<Rightarrow> (exn + 'f) option \<Rightarrow> (Action \<Rightarrow> ('w, unit) comp) \<Rightarrow>
   (Action list \<Rightarrow> BlockingType \<Rightarrow> ('w, unit) comp) \<Rightarrow> Action list option \<Rightarrow>
   ('w Controlled, unit) comp" where
  "handleValidInstantActions out gathered new_action yield_group data =
     (case data of
        None \<Rightarrow> throw VDA5050PPInvalidEventData
      | Some as \<Rightarrow>
          bindM (instant_actions out gathered new_action as ([], NONE)) (\<lambda>(grp, bound).
          whenM (grp \<noteq> []) (on_controlled (yield_group grp bound))))"

text \<open>An order status event goes to the armed latches of all waiting blocks.\<close>

fun notify_blocks :: "OrderStatus \<Rightarrow> string list \<Rightarrow> ('w Controlled, unit) comp" where
  "notify_blocks s [] = ret ()"
| "notify_blocks s (i # is) =
     seqM
       (\<lambda>c. case map_of (active_control_blocks c) i of
          None \<Rightarrow> (Inr (), c)
        | Some b \<Rightarrow> settle_block i (on_status s b (controlled c)) c)
       (notify_blocks s is)"

definition order_status_event :: "OrderStatus \<Rightarrow> ('w Controlled, unit) comp" where
  "order_status_event s c = notify_blocks s (map fst (active_control_blocks c)) c"

end
