(* ===== verification/Messages.thy ===== *)
theory Messages
  imports ControlActions
begin

text \<open>
  \<^verbatim>\<open>core/validation/validation_event_handler\<close> and \<^verbatim>\<open>core/messages/message_event_handler\<close>: what happens
  to a received order or a list of instant actions until it is either reported as an error or
  handed to the interpreter. All checks run, the user's handlers and the interpreter are asked about
  every action, and the errors are collected.
\<close>

section \<open>Validation\<close>

text \<open>
  What the validation reads besides the order manager: the user's action handlers, the configured
  vehicle, the answer to a zone set query.
\<close>

record 'd Environment =
  env_handlers :: "'d ActionHandler list"
  env_ext :: externals
  env_fmt_set :: "string set \<Rightarrow> string"
  env_manufacturer :: string
  env_serial :: string
  env_zone_set :: "string \<Rightarrow> Error list Result"

text \<open>
  The synchronous dispatch of \<^verbatim>\<open>ActionValidate\<close>: the action event handler subscribes before the
  interpreter does, as the modules are initialized in the order of their names.
\<close>

definition dispatch_validate ::
  "'d Environment \<Rightarrow> OrderManager \<Rightarrow> ActionValidate \<Rightarrow> ('d, unit) validating" where
  "dispatch_validate env om ev =
     seqM (handleValidateEvent (env_handlers env) (Some ev))
       (handleActionValidateEvent (env_ext env) om (Some ev))"

text \<open>An event of its own for each action, with its future.\<close>

definition ask_validation ::
  "'d Environment \<Rightarrow> OrderManager \<Rightarrow> Action \<times> ActionContext \<times> bool \<Rightarrow>
   ('d ActionEventHandler, Action \<times> Error list Result) comp" where
  "ask_validation env om = (\<lambda>(a, context, keep) w.
     case dispatch_validate env om \<lparr>av_action = Some a, av_context = context, av_keep = keep\<rparr> (w, Live) of
       (Inl x, (w', r)) \<Rightarrow> (Inl x, w')
     | (Inr _, (w', r)) \<Rightarrow> (Inr (a, r), w'))"

fun ask_all ::
  "'d Environment \<Rightarrow> OrderManager \<Rightarrow> (Action \<times> ActionContext \<times> bool) list \<Rightarrow>
   ('d ActionEventHandler, (Action \<times> Error list Result) list) comp" where
  "ask_all env om [] = ret []"
| "ask_all env om (q # qs) =
     bindM (ask_validation env om q) (\<lambda>r. bindM (ask_all env om qs) (\<lambda>rs. ret (r # rs)))"

definition unknown_action :: "Action \<Rightarrow> Error" where
  "unknown_action a =
     mk_error ''unknownActionType''
       [(''action.actionType'', actionType a), (''action.actionId'', actionId a)]
       (''Unknown action Type '' @ actionType a @ '' encountered'')"

text \<open>An action about which nobody has answered is unknown.\<close>

fun gather_results :: "(Action \<times> Error list Result) list \<Rightarrow> exn + Error list" where
  "gather_results [] = Inr []"
| "gather_results ((a, r) # rs) =
     (case (case future_get r of None \<Rightarrow> Inr [unknown_action a] | Some v \<Rightarrow> v) of
        Inl x \<Rightarrow> Inl x
      | Inr es \<Rightarrow> (case gather_results rs of Inl x \<Rightarrow> Inl x | Inr es' \<Rightarrow> Inr (es @ es')))"

definition queryAcceptZoneSet :: "'d Environment \<Rightarrow> string \<Rightarrow> exn + Error list" where
  "queryAcceptZoneSet env i =
     (case future_get (env_zone_set env i) of
        None \<Rightarrow> Inl VDA5050PPSynchronizedEventTimedOut
      | Some r \<Rightarrow> r)"

definition order_checks :: "'d Environment \<Rightarrow> OrderManager \<Rightarrow> Order \<Rightarrow> exn + Error list" where
  "order_checks env om order =
     (case checkOrderAppend om order of
        Inl x \<Rightarrow> Inl x
      | Inr append_errors \<Rightarrow>
          (case (case o_zoneSetId order of None \<Rightarrow> Inr [] | Some i \<Rightarrow> queryAcceptZoneSet env i) of
             Inl x \<Rightarrow> Inl x
           | Inr zone_errors \<Rightarrow>
               Inr (checkHeader (env_fmt_set env) (env_manufacturer env) (env_serial env) (o_header order) @
                    checkOrderId om order @ checkOrderGraphConsistency order @ append_errors @
                    checkOrderActionIds om order @ zone_errors)))"

text \<open>The actions of the nodes, then those of the edges; an action is kept when its element is released.\<close>

definition order_queries :: "Order \<Rightarrow> (Action \<times> ActionContext \<times> bool) list" where
  "order_queries order =
     concat (map (\<lambda>n. map (\<lambda>a. (a, ctx_node, n_released n)) (n_actions n)) (o_nodes order)) @
     concat (map (\<lambda>e. map (\<lambda>a. (a, ctx_edge, e_released e)) (e_actions e)) (o_edges order))"

definition on_aeh :: "('d ActionEventHandler, 'a) comp \<Rightarrow> ('d, 'a) validating" where
  "on_aeh m = (\<lambda>(w, r). case m w of (res, w') \<Rightarrow> (res, (w', r)))"

lemma run_on_aeh [run_simps]: "on_aeh m (w, r) = (case m w of (res, w') \<Rightarrow> (res, (w', r)))"
  by (simp add: on_aeh_def)

definition handleValidateOrder ::
  "'d Environment \<Rightarrow> OrderManager \<Rightarrow> Order option option \<Rightarrow> ('d, unit) validating" where
  "handleValidateOrder env om data =
     (case data of
        Some (Some order) \<Rightarrow>
          bindM (gets (acquireResultToken \<circ> snd)) (\<lambda>acquired.
          if \<not> acquired then ret ()
          else
            bindM (liftE (order_checks env om order)) (\<lambda>errors.
            bindM (on_aeh (ask_all env om (order_queries order))) (\<lambda>results.
            bindM (liftE (gather_results results)) (\<lambda>action_errors.
            set_result (setValue (errors @ action_errors))))))
      | _ \<Rightarrow> throw VDA5050PPInvalidEventData)"

text \<open>The test for unique ids and the question about the action alternate.\<close>

fun ask_instant ::
  "'d Environment \<Rightarrow> OrderManager \<Rightarrow> Action list \<Rightarrow> string set \<Rightarrow>
   ('d ActionEventHandler, Error list \<times> (Action \<times> Error list Result) list) comp" where
  "ask_instant env om [] seen = ret ([], [])"
| "ask_instant env om (a # as) seen =
     (case uniqueActionId om a seen of (errs, seen') \<Rightarrow>
        bindM (ask_validation env om (a, ctx_instant, False)) (\<lambda>r.
        bindM (ask_instant env om as seen') (\<lambda>(errs', rs). ret (errs @ errs', r # rs))))"

definition handleValidateInstantActions ::
  "'d Environment \<Rightarrow> OrderManager \<Rightarrow> Action list option option \<Rightarrow> ('d, unit) validating" where
  "handleValidateInstantActions env om data =
     (case data of
        Some (Some as) \<Rightarrow>
          bindM (gets (acquireResultToken \<circ> snd)) (\<lambda>acquired.
          if \<not> acquired then ret ()
          else
            bindM (on_aeh (ask_instant env om as {})) (\<lambda>(errors, results).
            bindM (liftE (gather_results results)) (\<lambda>action_errors.
            set_result (setValue (errors @ action_errors)))))
      | _ \<Rightarrow> throw VDA5050PPInvalidEventData)"

section \<open>Messages\<close>

datatype MessageOut =
    ErrorAdd Error
  | ValidOrderMessage Order
  | ValidInstantActionMessage "Action list"

record 'd MessageWorld =
  mw_actions :: "'d ActionEventHandler"
  mw_out :: "MessageOut list"

text \<open>
  The dispatch of a validation event and the wait for its result. With asynchronous managers an
  exception of the subscriber stays in its thread, and the wait times out.
\<close>

definition validated ::
  "bool \<Rightarrow> ('d, unit) validating \<Rightarrow> ('d MessageWorld, Error list) comp" where
  "validated synchronous m w =
     (case m (mw_actions w, Live) of
        (res, (h, r)) \<Rightarrow>
          ((case (res, synchronous) of
              (Inl x, True) \<Rightarrow> Inl x
            | _ \<Rightarrow> (case future_get r of
                     None \<Rightarrow> Inl VDA5050PPSynchronizedEventTimedOut
                   | Some v \<Rightarrow> v)),
           w\<lparr>mw_actions := h\<rparr>))"

definition post :: "MessageOut list \<Rightarrow> ('d MessageWorld, unit) comp" where
  "post xs = modify (\<lambda>w. w\<lparr>mw_out := mw_out w @ xs\<rparr>)"

definition handleOrderMessage ::
  "bool \<Rightarrow> 'd Environment \<Rightarrow> OrderManager \<Rightarrow> Order option option \<Rightarrow> ('d MessageWorld, unit) comp" where
  "handleOrderMessage synchronous env om data =
     (case data of
        Some (Some order) \<Rightarrow>
          if o_orderId order = order_id om \<and> o_orderUpdateId order = order_update_id om then ret ()
          else
            bindM (validated synchronous (handleValidateOrder env om (Some (Some order)))) (\<lambda>errors.
            if errors \<noteq> [] then post (map ErrorAdd errors) else post [ValidOrderMessage order])
      | _ \<Rightarrow> throw VDA5050PPInvalidEventData)"

definition handleInstantActionsMessage ::
  "'d Environment \<Rightarrow> OrderManager \<Rightarrow> Action list option option \<Rightarrow> ('d MessageWorld, unit) comp" where
  "handleInstantActionsMessage env om data =
     (case data of
        Some (Some as) \<Rightarrow>
          bindM (validated True (handleValidateInstantActions env om (Some (Some as)))) (\<lambda>errors.
          if errors \<noteq> [] then post (map ErrorAdd errors) else post [ValidInstantActionMessage as])
      | _ \<Rightarrow> throw VDA5050PPInvalidEventData)"

end
