(* ===== verification/ActionChecksProps.thy ===== *)
theory ActionChecksProps
  imports ActionChecks Samples
begin

text \<open>
  Properties of the validation of actions: the parsed parameters have the declared types, and
  which actions are accepted.
\<close>

section \<open>What is stored\<close>

fun value_type :: "ParameterValue \<Rightarrow> ParameterValueType" where
  "value_type (PV_string _) = k_string"
| "value_type (PV_int _) = k_integer"
| "value_type (PV_float _) = k_float"
| "value_type (PV_bool _) = k_boolean"

lemma convert_value_type: "convert_value ext t v = Inr pv \<Longrightarrow> value_type pv = t"
  by (induction ext t v rule: convert_value.induct) (auto split: sum.splits)

lemma check_value_set_Inr: "check_value_set ext p value t = Inr v \<Longrightarrow> v = t"
  by (auto simp: check_value_set_def split: option.splits if_splits)

lemma ensure_converted:
  "ensureParameterConstraints ext t p value = Inr (Inr v) \<Longrightarrow> convert_value ext t value = Inr v"
  "ensureParameterConstraints_bool ext p value = Inr (Inr v) \<Longrightarrow> convert_value ext k_boolean value = Inr v"
  by (auto simp: ensureParameterConstraints_def ensureParameterConstraints_bool_def
      split: sum.splits option.splits dest: check_value_set_Inr)

lemma doInsert_state:
  assumes "doInsert ext t p decl s = (r, s')"
  shows "s' = s \<or> (\<exists>v. convert_value ext t (snd p) = Inr v \<and> s' = map_option (insert_or_assign (fst p) v) s)"
  using assms ensure_converted
  by (cases "t = k_boolean") (fastforce simp: doInsert_def run_simps split: sum.splits)+

text \<open>A stored value is that of a parameter of the action, read as its declaration says.\<close>

definition declared_value :: "externals \<Rightarrow> Action \<Rightarrow> ActionDeclaration \<Rightarrow> string \<Rightarrow> ParameterValue \<Rightarrow> bool" where
  "declared_value ext action decl k v \<longleftrightarrow>
     (\<exists>r raw. r \<in> set (ad_parameter decl @ ad_optional_parameter decl) \<and> pr_key r = k \<and>
        (k, raw) \<in> set (actionParameters action) \<and> convert_value ext (pr_type r) raw = Inr v \<and>
        value_type v = pr_type r)"

definition all_declared :: "externals \<Rightarrow> Action \<Rightarrow> ActionDeclaration \<Rightarrow> ParametersMap option \<Rightarrow> bool" where
  "all_declared ext action decl pm \<longleftrightarrow>
     (\<forall>m k v. pm = Some m \<longrightarrow> (k, v) \<in> set m \<longrightarrow> declared_value ext action decl k v)"

lemma extract_range_Some:
  "extract_range k rs = Some (r, rest) \<Longrightarrow> r \<in> set rs \<and> pr_key r = k \<and> set rest \<subseteq> set rs"
  by (auto simp: extract_range_def find_Some_iff split: option.splits)

lemma all_declared_insert:
  assumes "all_declared ext action decl s" and "declared_value ext action decl k v"
  shows "all_declared ext action decl (map_option (insert_or_assign k v) s)"
  using assms set_insert_or_assign_subset [of k v] by (fastforce simp: all_declared_def)

lemma check_parameters_declared:
  assumes "all_declared ext action decl s" and "set ps \<subseteq> set (actionParameters action)"
    and "set tbf \<union> set mbf \<subseteq> set (ad_parameter decl @ ad_optional_parameter decl)"
  shows "all_declared ext action decl (snd (check_parameters ext action ps tbf mbf errs s))"
  using assms
proof (induction ps arbitrary: tbf mbf errs s)
  case Nil
  then show ?case by (simp add: run_simps)
next
  case (Cons p ps)
  let ?found = "case extract_range (fst p) tbf of
      Some (r, rest) \<Rightarrow> Some (r, rest, mbf)
    | None \<Rightarrow> (case extract_range (fst p) mbf of Some (r, rest) \<Rightarrow> Some (r, tbf, rest) | None \<Rightarrow> None)"
  show ?case
  proof (cases ?found)
    case None
    then show ?thesis using Cons by simp
  next
    case (Some f)
    obtain r tbf' mbf' where f [simp]: "f = (r, tbf', mbf')" by (cases f)
    have r: "r \<in> set (ad_parameter decl @ ad_optional_parameter decl)" "pr_key r = fst p"
      "set tbf' \<union> set mbf' \<subseteq> set (ad_parameter decl @ ad_optional_parameter decl)"
      using Some Cons.prems(3) by (auto split: option.splits dest!: extract_range_Some)
    obtain res s' where d: "doInsert ext (pr_type r) p r s = (res, s')" by force
    have "declared_value ext action decl (fst p) v" if "convert_value ext (pr_type r) (snd p) = Inr v" for v
      using that r Cons.prems(2) convert_value_type [OF that]
      unfolding declared_value_def by (metis list.set_intros(1) prod.collapse subsetD)
    then have s': "all_declared ext action decl s'"
      using doInsert_state [OF d] Cons.prems(1) all_declared_insert by blast
    show ?thesis
      using Some d s' Cons.prems Cons.IH [OF s' _ r(3)]
      by (auto simp: run_simps split: sum.split)
  qed
qed

section \<open>When an action is accepted\<close>

definition param_ok :: "externals \<Rightarrow> ParameterRange \<Rightarrow> string \<Rightarrow> bool" where
  "param_ok ext r raw \<longleftrightarrow>
     pr_type r \<noteq> k_custom \<and>
     (\<exists>v. (if pr_type r = k_boolean then ensureParameterConstraints_bool ext r raw
           else ensureParameterConstraints ext (pr_type r) r raw) = Inr (Inr v))"

lemma doInsert_result:
  assumes "t = pr_type r" and "t \<noteq> k_custom"
  shows "fst (doInsert ext t p r s) = Inr None \<longleftrightarrow> param_ok ext r (snd p)"
  using assms by (auto simp: doInsert_def run_simps param_ok_def split: sum.splits)

lemma check_parameters_errors:
  "fst (check_parameters ext action ps tbf mbf errs s) = Inr (errs', missing) \<Longrightarrow>
     \<exists>more. errs' = errs @ more"
proof (induction ps arbitrary: tbf mbf errs s)
  case Nil
  then show ?case by (simp add: run_simps)
next
  case (Cons p ps)
  from Cons.prems show ?case
    by (fastforce simp: run_simps split: option.splits sum.splits prod.splits if_splits dest!: Cons.IH)
qed

lemma check_parameters_nonempty:
  "errs \<noteq> [] \<Longrightarrow> fst (check_parameters ext action ps tbf mbf errs s) \<noteq> Inr ([], missing)"
  using check_parameters_errors by fastforce

text \<open>The range found for a key, and what the two sets hold after it was taken out.\<close>

lemma extract_range_absent: "k \<notin> pr_key ` set rs \<Longrightarrow> extract_range k rs = None"
  by (auto simp: extract_range_def find_None_iff split: option.split)

lemma extract_range_present:
  assumes "distinct (map pr_key rs)" and "r \<in> set rs" and "pr_key r = k"
  shows "extract_range k rs = Some (r, filter (\<lambda>r. pr_key r \<noteq> k) rs)"
proof -
  have "List.find (\<lambda>r. pr_key r = k) rs = Some r"
    using assms by (induction rs) auto
  then show ?thesis by (simp add: extract_range_def)
qed

lemma filter_absent: "k \<notin> pr_key ` set rs \<Longrightarrow> filter (\<lambda>r. pr_key r \<noteq> k) rs = rs"
  by (auto simp: filter_id_conv)

lemma extract_either:
  assumes "distinct (map pr_key (tbf @ mbf))" and "r \<in> set (tbf @ mbf)" and "pr_key r = k"
  shows "(case extract_range k tbf of
      Some (r, rest) \<Rightarrow> Some (r, rest, mbf)
    | None \<Rightarrow> (case extract_range k mbf of Some (r, rest) \<Rightarrow> Some (r, tbf, rest) | None \<Rightarrow> None)) =
    Some (r, filter (\<lambda>r. pr_key r \<noteq> k) tbf, filter (\<lambda>r. pr_key r \<noteq> k) mbf)"
proof (cases "r \<in> set tbf")
  case True
  then have "k \<notin> pr_key ` set mbf" using assms by auto
  then show ?thesis
    using True assms extract_range_present [of tbf r k] by (simp add: filter_absent)
next
  case False
  then have r: "r \<in> set mbf" "k \<notin> pr_key ` set tbf" using assms by auto
  then show ?thesis
    using assms extract_range_present [of mbf r k] by (simp add: filter_absent extract_range_absent)
qed

lemma check_parameters_step:
  assumes "distinct (map pr_key (tbf @ mbf))" and "r \<in> set (tbf @ mbf)" and "pr_key r = fst p"
  shows "fst (check_parameters ext action (p # ps) tbf mbf [] s) = Inr ([], []) \<longleftrightarrow>
    param_ok ext r (snd p) \<and>
    (\<exists>t. fst (check_parameters ext action ps (filter (\<lambda>r. pr_key r \<noteq> fst p) tbf)
      (filter (\<lambda>r. pr_key r \<noteq> fst p) mbf) [] t) = Inr ([], []) \<and> t = snd (doInsert ext (pr_type r) p r s))"
proof (cases "pr_type r = k_custom")
  case True
  then show ?thesis using extract_either [OF assms] by (simp add: run_simps param_ok_def)
next
  case False
  obtain res t where d: "doInsert ext (pr_type r) p r s = (res, t)" by force
  have ok: "res = Inr None \<longleftrightarrow> param_ok ext r (snd p)" using doInsert_result [OF refl False, of ext p s] d by simp
  show ?thesis
  proof (cases res)
    case (Inl e)
    then show ?thesis using False extract_either [OF assms] d ok by (simp add: run_simps)
  next
    case (Inr m)
    then show ?thesis
      using False extract_either [OF assms] d ok
      by (cases m) (simp_all add: run_simps check_parameters_nonempty)
  qed
qed

lemma check_parameters_accepts:
  assumes "distinct (map pr_key (tbf @ mbf))"
  shows "fst (check_parameters ext action ps tbf mbf [] s) = Inr ([], []) \<longleftrightarrow>
    distinct (map fst ps) \<and>
    (\<forall>p \<in> set ps. \<exists>r \<in> set (tbf @ mbf). pr_key r = fst p \<and> param_ok ext r (snd p)) \<and>
    (\<forall>r \<in> set tbf. pr_key r \<in> fst ` set ps)"
  using assms
proof (induction ps arbitrary: tbf mbf s)
  case Nil
  then show ?case by (auto simp: run_simps)
next
  case (Cons p ps)
  let ?P = "\<lambda>r. pr_key r \<noteq> fst p"
  show ?case
  proof (cases "\<exists>r \<in> set (tbf @ mbf). pr_key r = fst p")
    case False
    then have "extract_range (fst p) tbf = None" "extract_range (fst p) mbf = None"
      by (auto intro!: extract_range_absent)
    then have "fst (check_parameters ext action (p # ps) tbf mbf [] s) \<noteq> Inr ([], [])"
      by (simp add: check_parameters_nonempty)
    then show ?thesis using False by auto
  next
    case True
    then obtain r where r: "r \<in> set (tbf @ mbf)" "pr_key r = fst p" by blast
    have uniq: "x = r" if "x \<in> set (tbf @ mbf)" "pr_key x = fst p" for x
      using that r Cons.prems unfolding distinct_map inj_on_def by metis
    have dist: "distinct (map pr_key (filter ?P tbf @ filter ?P mbf))"
      unfolding filter_append [symmetric] using Cons.prems by (rule distinct_map_filter)
    have IH: "fst (check_parameters ext action ps (filter ?P tbf) (filter ?P mbf) [] t) = Inr ([], []) \<longleftrightarrow>
        distinct (map fst ps) \<and>
        (\<forall>q \<in> set ps. \<exists>r \<in> set (filter ?P (tbf @ mbf)). pr_key r = fst q \<and> param_ok ext r (snd q)) \<and>
        (\<forall>r \<in> set (filter ?P tbf). pr_key r \<in> fst ` set ps)" for t
      using Cons.IH [OF dist] by simp
    have head: "(\<exists>r \<in> set (tbf @ mbf). pr_key r = fst p \<and> param_ok ext r (snd p)) \<longleftrightarrow>
        param_ok ext r (snd p)"
      using r uniq by blast
    have "(\<exists>r \<in> set (filter ?P (tbf @ mbf)). pr_key r = fst q \<and> param_ok ext r (snd q)) \<longleftrightarrow>
        fst q \<noteq> fst p \<and> (\<exists>r \<in> set (tbf @ mbf). pr_key r = fst q \<and> param_ok ext r (snd q))" for q
      by auto
    then have tail: "distinct (map fst ps) \<and>
        (\<forall>q \<in> set ps. \<exists>r \<in> set (filter ?P (tbf @ mbf)). pr_key r = fst q \<and> param_ok ext r (snd q)) \<longleftrightarrow>
        distinct (map fst (p # ps)) \<and>
        (\<forall>q \<in> set ps. \<exists>r \<in> set (tbf @ mbf). pr_key r = fst q \<and> param_ok ext r (snd q))"
      by (simp only: list.map distinct.simps set_map image_iff) metis
    have all: "(\<forall>r \<in> set (filter ?P tbf). pr_key r \<in> fst ` set ps) \<longleftrightarrow>
        (\<forall>r \<in> set tbf. pr_key r \<in> fst ` set (p # ps))"
      by auto
    show ?thesis
      unfolding check_parameters_step [OF Cons.prems r] IH all [symmetric]
      using head tail by auto
  qed
qed

definition parameters_accepted :: "externals \<Rightarrow> Action \<Rightarrow> ActionDeclaration \<Rightarrow> bool" where
  "parameters_accepted ext action decl \<longleftrightarrow>
     distinct (map fst (actionParameters action)) \<and>
     (\<forall>p \<in> set (actionParameters action).
        \<exists>r \<in> set (ad_parameter decl @ ad_optional_parameter decl).
          pr_key r = fst p \<and> param_ok ext r (snd p)) \<and>
     (\<forall>r \<in> set (ad_parameter decl). pr_key r \<in> fst ` set (actionParameters action))"

definition sample_declaration :: ActionDeclaration where
  "sample_declaration =
     \<lparr>ad_action_type = ''pick'', ad_description = None, ad_result_description = None,
      ad_parameter = [\<lparr>pr_key = ''height'', pr_type = k_integer, pr_description = None,
        pr_ordinal_min = Some ''0'', pr_ordinal_max = Some ''200'', pr_value_set = None\<rparr>],
      ad_optional_parameter = [], ad_blocking_types = [HARD], ad_instant = False, ad_node = True,
      ad_edge = False\<rparr>"

definition sample_externals :: externals where
  "sample_externals =
     \<lparr>ext_stod = (\<lambda>_. Inl std_invalid_argument), ext_double_less = (<), ext_fmt_list = concat,
      ext_fmt_value = (\<lambda>_. []), ext_what = (\<lambda>_ v. v)\<rparr>"

text \<open>Validating an action stores only parsed parameters of the declared types: every value
  in the map that the handler is given belongs to a parameter that the declaration lists and the
  action carries, and is that parameter's text read as the declared type. This holds on the error
  and exception paths too.\<close>

theorem parsed_parameters_typed:
  "all_declared ext action decl
     (snd (validateActionWithDeclaration ext action context decl (Some [])))"
proof -
  let ?c = "check_parameters ext action (actionParameters action) (ad_parameter decl)
    (ad_optional_parameter decl)"
  have "all_declared ext action decl (snd (?c errs (Some [])))" for errs
    by (rule check_parameters_declared) (auto simp: all_declared_def)
  then show ?thesis
    by (simp add: validateActionWithDeclaration_def Let_def run_simps split_beta split: sum.split)
qed

lemma validation_accepts_iff:
  assumes "distinct (map pr_key (ad_parameter decl @ ad_optional_parameter decl))"
  shows "fst (validateActionWithDeclaration ext action context decl pm) = Inr [] \<longleftrightarrow>
    ad_action_type decl = actionType action \<and> context_allowed context decl \<and>
    blockingType action \<in> set (ad_blocking_types decl) \<and> parameters_accepted ext action decl"
proof -
  let ?c = "\<lambda>errs. check_parameters ext action (actionParameters action) (ad_parameter decl)
    (ad_optional_parameter decl) errs pm"
  have params: "parameters_accepted ext action decl \<longleftrightarrow> fst (?c []) = Inr ([], [])"
    unfolding check_parameters_accepts [OF assms] parameters_accepted_def ..
  define errs where "errs =
    (if ad_action_type decl \<noteq> actionType action
     then [mk_error ''ActionTypeMismatch''
       [(''action.actionType'', actionType action), (''requiredActionType'', ad_action_type decl)]
       (''The action type \"'' @ actionType action @ ''\" does not match required action type \"'' @
        ad_action_type decl @ ''\"'')] else []) @
    contextCheck ext action context decl @
    (if blockingType action \<notin> set (ad_blocking_types decl)
     then [mk_error ''ActionBlockingTypeMismatch''
       [(''action.blockingType'', blocking_name (blockingType action)),
        (''allowedBlockingTypes'', ext_fmt_list ext (map blocking_name (ad_blocking_types decl)))]
       (''BlockingType \"'' @ blocking_name (blockingType action) @
        ''\" is not allowed, expected one of '' @
        ext_fmt_list ext (map blocking_name (ad_blocking_types decl)))] else [])"
  have errs: "errs = [] \<longleftrightarrow> ad_action_type decl = actionType action \<and>
      context_allowed context decl \<and> blockingType action \<in> set (ad_blocking_types decl)"
    by (simp add: errs_def contextCheck_def Let_def)
  have "fst (validateActionWithDeclaration ext action context decl pm) = Inr [] \<longleftrightarrow>
      fst (?c errs) = Inr ([], [])"
    unfolding validateActionWithDeclaration_def Let_def errs_def [symmetric] run_bindM
    by (auto simp: run_simps split: prod.splits sum.splits)
  also have "\<dots> \<longleftrightarrow> errs = [] \<and> fst (?c []) = Inr ([], [])"
    using check_parameters_nonempty by (cases "errs = []") simp_all
  finally show ?thesis unfolding params errs by simp
qed

text \<open>C22: An action passes the validation, with no error and no exception, exactly when its type
  is the declared one, its context and blocking type are allowed, no parameter is given twice, every
  parameter is declared and its text satisfies the declaration, and every mandatory parameter is
  given. The declaration must not list a key twice.\<close>

theorem action_accepted_iff:
  assumes "distinct (map pr_key (ad_parameter decl @ ad_optional_parameter decl))"
  shows "fst (validateActionWithDeclaration ext action context decl pm) = Inr [] \<longleftrightarrow>
    ad_action_type decl = actionType action \<and> context_allowed context decl \<and>
    blockingType action \<in> set (ad_blocking_types decl) \<and> parameters_accepted ext action decl"
  by (rule validation_accepts_iff [OF assms])

theorem action_accepted_iff_witness:
  "fst (validateActionWithDeclaration sample_externals
     (sample_action\<lparr>actionParameters := [(''height'', ''150'')]\<rparr>) ctx_node sample_declaration None) = Inr []"
proof -
  have "distinct (map pr_key (ad_parameter sample_declaration @ ad_optional_parameter sample_declaration))"
    by (simp add: sample_declaration_def)
  moreover have "ensureParameterConstraints sample_externals k_integer (hd (ad_parameter sample_declaration))
      ''150'' = Inr (Inr (PV_int 150))"
    by code_simp
  then have "parameters_accepted sample_externals (sample_action\<lparr>actionParameters := [(''height'', ''150'')]\<rparr>)
      sample_declaration"
    by (simp add: parameters_accepted_def param_ok_def sample_declaration_def)
  ultimately show ?thesis
    by (simp add: action_accepted_iff context_allowed_def) (simp add: sample_declaration_def sample_action_def)
qed

end
