(* ===== verification/MessagesProps.thy ===== *)
theory MessagesProps
  imports Messages OrderChecksProps ActionChecksProps
begin

text \<open>
  What the validation decides and what it leaves behind, for user handlers that do not throw: the
  verdict on an order is a function of the order and the state, and every released action of an
  accepted order is kept for its handler. A rejected order may take away the callbacks of an
  action that is already known; an instant action is never kept.
\<close>

section \<open>The verdict\<close>

text \<open>The user's handlers return from the functions the validation calls.\<close>

definition calm :: "'d Environment \<Rightarrow> bool" where
  "calm env \<longleftrightarrow>
     (\<forall>h \<in> set (env_handlers env). \<forall>a ctx.
        (\<exists>b. ah_match h a = Inr b) \<and> (\<exists>v. ah_validate h a ctx = Inr v))"

text \<open>The answer of the first handler that matches.\<close>

fun user_answer ::
  "'d ActionHandler list \<Rightarrow> Action \<Rightarrow> ActionContext \<Rightarrow> ('d ActionHandler \<times> ValidationResult) option" where
  "user_answer [] a ctx = None"
| "user_answer (h # hs) a ctx =
     (if ah_match h a = Inr True
      then (case ah_validate h a ctx of Inl _ \<Rightarrow> None | Inr v \<Rightarrow> Some (h, v))
      else user_answer hs a ctx)"

definition verdict :: "'d Environment \<Rightarrow> OrderManager \<Rightarrow> Action \<Rightarrow> ActionContext \<Rightarrow> Error list" where
  "verdict env om a ctx =
     (case user_answer (env_handlers env) a ctx of
        Some (_, errors, _) \<Rightarrow> errors
      | None \<Rightarrow>
          if isControlInstantAction a
          then (case validateControlInstantAction (env_ext env) om a ctx of Inl _ \<Rightarrow> [] | Inr es \<Rightarrow> es)
          else [unknown_action a])"

text \<open>What an accepted action leaves with the action event handler.\<close>

definition keep_action ::
  "'d Environment \<Rightarrow> Action \<times> ActionContext \<times> bool \<Rightarrow> 'd ActionEventHandler \<Rightarrow> 'd ActionEventHandler" where
  "keep_action env = (\<lambda>(a, ctx, keep) w.
     case user_answer (env_handlers env) a ctx of
       Some (h, errors, ps) \<Rightarrow>
         if errors = [] \<and> keep
         then w\<lparr>handled_actions := insert_or_assign (actionId a) (new_store h a ps) (handled_actions w)\<rparr>
         else w
     | None \<Rightarrow> w)"

lemma run_set_result [run_simps]:
  "set_result f (w, r) = (case f r of Inl x \<Rightarrow> (Inl x, (w, r)) | Inr r' \<Rightarrow> (Inr (), (w, r')))"
  by (simp add: set_result_def run_simps split: sum.split)

lemma run_validate_with:
  assumes "\<forall>h \<in> set hs. \<forall>a ctx. (\<exists>b. ah_match h a = Inr b) \<and> (\<exists>v. ah_validate h a ctx = Inr v)"
  shows "validate_with hs a ctx keep (w, Live) =
    (case user_answer hs a ctx of
       None \<Rightarrow> (Inr (), (w, Live))
     | Some (h, errors, ps) \<Rightarrow>
         (Inr (),
          (if errors = [] \<and> keep
           then w\<lparr>handled_actions := insert_or_assign (actionId a) (new_store h a ps) (handled_actions w)\<rparr>
           else w, ResultValue errors)))"
  using assms
proof (induction hs)
  case Nil
  then show ?case by (simp add: run_simps release_def)
next
  case (Cons h hs)
  obtain b v where h: "ah_match h a = Inr b" "ah_validate h a ctx = Inr v"
    using Cons.prems by (meson list.set_intros(1))
  show ?case
  proof (cases b)
    case True
    then show ?thesis using h by (cases v) (simp add: run_simps setValue_def)
  next
    case False
    then show ?thesis using h Cons by (simp add: run_simps)
  qed
qed

text \<open>The declarations of the control actions have no parameters, so their check does not throw.\<close>

lemma check_no_parameters:
  "\<exists>es. check_parameters ext a ps [] [] errors m = (Inr (es, []), m)"
  by (induction ps arbitrary: errors) (simp_all add: run_simps extract_range_def)

lemma control_declaration_simps [simp]:
  "ad_parameter (control_declaration t d b) = []" "ad_optional_parameter (control_declaration t d b) = []"
  "ad_node (control_declaration t d b) = False" "ad_edge (control_declaration t d b) = False"
  by (simp_all add: control_declaration_def)

lemmas control_declaration_defs = cancelOrder_declaration_def startPause_declaration_def
  stopPause_declaration_def factsheetRequest_declaration_def stateRequest_declaration_def

lemma control_declaration_shape:
  "d \<in> set control_declarations \<Longrightarrow> \<exists>t s b. d = control_declaration t s b"
  unfolding control_declarations_def control_declaration_defs list.set by blast

lemma control_declaration_fields:
  assumes "d \<in> set control_declarations"
  shows "ad_parameter d = []" "ad_optional_parameter d = []" "\<not> ad_node d" "\<not> ad_edge d"
  using control_declaration_shape [OF assms] by auto

lemma find_control:
  assumes "isControlInstantAction a"
  obtains d where "List.find (\<lambda>d. matchActionType d a) control_declarations = Some d"
    and "d \<in> set control_declarations" and "matchActionType d a"
proof (cases "List.find (\<lambda>d. matchActionType d a) control_declarations")
  case None
  then show ?thesis using assms by (auto simp: isControlInstantAction_def find_None_iff)
next
  case (Some d)
  then have "d \<in> set control_declarations" "matchActionType d a" by (auto simp: find_Some_iff)
  then show ?thesis using that Some by simp
qed

lemma check_parameters_keeps:
  "check_parameters ext a ps [] [] errors m = (Inr (es, []), m) \<Longrightarrow> set errors \<subseteq> set es"
proof (induction ps arbitrary: errors)
  case (Cons p ps)
  then show ?case by (fastforce simp: extract_range_def)
qed (simp add: run_simps)

lemma validate_control:
  assumes "isControlInstantAction a"
  obtains es where "validateControlInstantAction ext om a ctx = Inr es"
    and "ctx = ctx_node \<or> ctx = ctx_edge \<Longrightarrow> es \<noteq> []"
proof -
  obtain d where d: "List.find (\<lambda>d. matchActionType d a) control_declarations = Some d"
    "d \<in> set control_declarations" by (rule find_control [OF assms])
  note fields = control_declaration_fields [OF d(2)]
  define start where "start =
    (if ad_action_type d \<noteq> actionType a
     then [mk_error ''ActionTypeMismatch''
       [(''action.actionType'', actionType a), (''requiredActionType'', ad_action_type d)]
       (''The action type \"'' @ actionType a @ ''\" does not match required action type \"'' @
        ad_action_type d @ ''\"'')]
     else []) @ contextCheck ext a ctx d @
    (if blockingType a \<notin> set (ad_blocking_types d)
     then [mk_error ''ActionBlockingTypeMismatch''
       [(''action.blockingType'', blocking_name (blockingType a)),
        (''allowedBlockingTypes'', ext_fmt_list ext (map blocking_name (ad_blocking_types d)))]
       (''BlockingType \"'' @ blocking_name (blockingType a) @
        ''\" is not allowed, expected one of '' @ ext_fmt_list ext (map blocking_name (ad_blocking_types d)))]
     else [])"
  obtain es where es: "check_parameters ext a (actionParameters a) [] [] start None = (Inr (es, []), None)"
    using check_no_parameters by blast
  have val: "validateActionWithDeclaration ext a ctx d None = (Inr es, None)"
    using es unfolding validateActionWithDeclaration_def Let_def fields start_def
    by (simp add: run_simps)
  show thesis
  proof
    show "validateControlInstantAction ext om a ctx = Inr (es @ controlActionFeasible om a)"
      by (simp add: validateControlInstantAction_def d(1) val)
  next
    assume "ctx = ctx_node \<or> ctx = ctx_edge"
    then have "contextCheck ext a ctx d \<noteq> []"
      using fields by (auto simp: contextCheck_def context_allowed_def Let_def)
    then have "start \<noteq> []" by (simp add: start_def)
    then show "es @ controlActionFeasible om a \<noteq> []"
      using check_parameters_keeps [OF es] by (cases start) auto
  qed
qed

lemma dispatch_validate_eq:
  assumes "calm env"
  shows "\<exists>r. ask_validation env om (a, ctx, keep) w =
     (Inr (a, r), keep_action env (a, ctx, keep) w) \<and>
     (case future_get r of None \<Rightarrow> Inr [unknown_action a] | Some v \<Rightarrow> v) = Inr (verdict env om a ctx)"
proof (cases "user_answer (env_handlers env) a ctx")
  case (Some v)
  then obtain h errors ps where "user_answer (env_handlers env) a ctx = Some (h, errors, ps)"
    by (cases v) auto
  then show ?thesis
    using run_validate_with [of "env_handlers env" a ctx keep w] assms
    by (simp add: ask_validation_def dispatch_validate_def handleValidateEvent_def
        handleActionValidateEvent_def run_simps acquireResultToken_def keep_action_def verdict_def calm_def)
next
  case None
  show ?thesis
  proof (cases "isControlInstantAction a")
    case True
    obtain es where "validateControlInstantAction (env_ext env) om a ctx = Inr es"
      using validate_control [OF True] by blast
    then show ?thesis
      using None True run_validate_with [of "env_handlers env" a ctx keep w] assms
      by (simp add: ask_validation_def dispatch_validate_def handleValidateEvent_def
          handleActionValidateEvent_def run_simps acquireResultToken_def keep_action_def verdict_def
          calm_def setValue_def)
  next
    case False
    then show ?thesis
      using None run_validate_with [of "env_handlers env" a ctx keep w] assms
      by (simp add: ask_validation_def dispatch_validate_def handleValidateEvent_def
          handleActionValidateEvent_def run_simps acquireResultToken_def keep_action_def verdict_def
          calm_def release_def)
  qed
qed

lemma ask_all_eq:
  assumes "calm env"
  shows "\<exists>rs. ask_all env om qs w = (Inr rs, fold (keep_action env) qs w) \<and>
     gather_results rs = Inr (concat (map (\<lambda>(a, ctx, _). verdict env om a ctx) qs))"
proof (induction qs arbitrary: w)
  case Nil
  then show ?case by (simp add: run_simps)
next
  case (Cons q qs)
  obtain a ctx keep where q [simp]: "q = (a, ctx, keep)" by (cases q) auto
  obtain r where r: "ask_validation env om q w = (Inr (a, r), keep_action env q w)"
    "(case future_get r of None \<Rightarrow> Inr [unknown_action a] | Some v \<Rightarrow> v) = Inr (verdict env om a ctx)"
    using dispatch_validate_eq [OF assms] by fastforce
  obtain rs where rs: "ask_all env om qs (keep_action env q w) = (Inr rs, fold (keep_action env) qs (keep_action env q w))"
    "gather_results rs = Inr (concat (map (\<lambda>(a, ctx, _). verdict env om a ctx) qs))"
    using Cons by blast
  show ?case
    by (rule exI [of _ "(a, r) # rs"]) (use r rs in \<open>simp add: run_simps\<close>)
qed

definition order_verdict :: "'d Environment \<Rightarrow> OrderManager \<Rightarrow> Order \<Rightarrow> Error list" where
  "order_verdict env om order = concat (map (\<lambda>(a, ctx, _). verdict env om a ctx) (order_queries order))"

lemma handleValidateOrder_eq:
  assumes "calm env" and "order_checks env om order = Inr errs"
  shows "handleValidateOrder env om (Some (Some order)) (w, Live) =
    (Inr (), (fold (keep_action env) (order_queries order) w,
       ResultValue (errs @ order_verdict env om order)))"
proof -
  obtain rs where "ask_all env om (order_queries order) w =
      (Inr rs, fold (keep_action env) (order_queries order) w)"
    "gather_results rs = Inr (order_verdict env om order)"
    using ask_all_eq [OF assms(1), of om "order_queries order" w] by (auto simp: order_verdict_def)
  then show ?thesis
    using assms(2) by (simp add: handleValidateOrder_def run_simps acquireResultToken_def setValue_def)
qed

lemma handleOrderMessage_eq:
  assumes "calm env" and "order_checks env om order = Inr errs"
    and "\<not> (o_orderId order = order_id om \<and> o_orderUpdateId order = order_update_id om)"
  shows "handleOrderMessage sync env om (Some (Some order)) w =
    (Inr (), w\<lparr>mw_actions := fold (keep_action env) (order_queries order) (mw_actions w),
       mw_out := mw_out w @
         (if errs @ order_verdict env om order = [] then [ValidOrderMessage order]
          else map ErrorAdd (errs @ order_verdict env om order))\<rparr>)"
  using assms(3) handleValidateOrder_eq [OF assms(1,2)]
  by (cases sync) (auto simp: handleOrderMessage_def validated_def post_def run_simps)

section \<open>What is kept\<close>

lemma keep_action_wf:
  "wf_map (handled_actions w) \<Longrightarrow> wf_map (handled_actions (keep_action env q w))"
  by (cases q) (simp add: keep_action_def wf_insert_or_assign split: option.split)

lemma fold_keep_wf:
  "wf_map (handled_actions w) \<Longrightarrow> wf_map (handled_actions (fold (keep_action env) qs w))"
  by (induction qs arbitrary: w) (simp_all add: keep_action_wf)

lemma keep_action_other:
  "wf_map (handled_actions w) \<Longrightarrow> i \<noteq> actionId (fst q) \<Longrightarrow>
     map_of (handled_actions (keep_action env q w)) i = map_of (handled_actions w) i"
  by (cases q) (simp add: keep_action_def map_of_insert_or_assign split: option.split)

lemma fold_keep_other:
  "wf_map (handled_actions w) \<Longrightarrow> i \<notin> actionId ` fst ` set qs \<Longrightarrow>
     map_of (handled_actions (fold (keep_action env) qs w)) i = map_of (handled_actions w) i"
  by (induction qs arbitrary: w) (simp_all add: keep_action_wf keep_action_other)

lemma order_queries_actions: "map fst (order_queries order) = order_actions order"
  by (simp add: order_queries_def order_actions_def map_concat comp_def)

lemma fold_keep_new:
  assumes "wf_map (handled_actions w)" and "distinct (map (actionId \<circ> fst) qs)"
    and "(a, ctx, True) \<in> set qs" and "user_answer (env_handlers env) a ctx = Some (h, [], ps)"
  shows "map_of (handled_actions (fold (keep_action env) qs w)) (actionId a) = Some (new_store h a ps)"
  using assms
proof (induction qs arbitrary: w)
  case (Cons q qs)
  show ?case
  proof (cases "q = (a, ctx, True)")
    case True
    then have "actionId a \<notin> actionId ` fst ` set qs" using Cons.prems(2) by (auto simp: image_comp)
    then show ?thesis
      using True Cons.prems
      by (simp add: fold_keep_other keep_action_wf)
        (simp add: keep_action_def map_of_insert_or_assign)
  next
    case False
    then show ?thesis using Cons by (simp add: keep_action_wf)
  qed
qed simp

text \<open>Whatever the order of the questions, a kept action has no callbacks yet.\<close>

lemma fold_keep_fresh:
  assumes "wf_map (handled_actions w)"
    and "(a, ctx, True) \<in> set qs" and "user_answer (env_handlers env) a ctx = Some (h, [], ps)"
  shows "\<exists>store. map_of (handled_actions (fold (keep_action env) qs w)) (actionId a) = Some store \<and>
    store_callbacks store = None"
proof -
  let ?P = "\<lambda>w. \<exists>store. map_of (handled_actions w) (actionId a) = Some store \<and> store_callbacks store = None"
  have step: "?P (keep_action env q w)" if "wf_map (handled_actions w)" "?P w \<or> q = (a, ctx, True)" for q w
    using that assms(3)
    by (cases q) (auto simp: keep_action_def map_of_insert_or_assign new_store_def split: option.split)
  have keep: "?P (fold (keep_action env) qs w)" if "wf_map (handled_actions w)" "?P w" for qs w
    using that by (induction qs arbitrary: w) (simp_all add: keep_action_wf step)
  show ?thesis
    using assms(1,2)
    by (induction qs arbitrary: w) (auto simp: keep_action_wf step keep)
qed

lemma order_query_context:
  "(a, ctx, keep) \<in> set (order_queries order) \<Longrightarrow> ctx = ctx_node \<or> ctx = ctx_edge"
  by (auto simp: order_queries_def)

lemma user_answer_handler:
  "user_answer hs a ctx = Some (h, v) \<Longrightarrow> h \<in> set hs \<and> ah_match h a = Inr True \<and> ah_validate h a ctx = Inr v"
  by (induction hs) (auto split: if_splits sum.splits)

text \<open>An action of an order that raises no error was accepted by one of the user's handlers.\<close>

lemma accepted_action:
  assumes "verdict env om a ctx = []" and "ctx = ctx_node \<or> ctx = ctx_edge"
  obtains h ps where "user_answer (env_handlers env) a ctx = Some (h, [], ps)"
proof (cases "user_answer (env_handlers env) a ctx")
  case None
  show ?thesis
  proof (cases "isControlInstantAction a")
    case True
    obtain es where "validateControlInstantAction (env_ext env) om a ctx = Inr es" "es \<noteq> []"
      using validate_control [OF True] assms(2) by metis
    then show ?thesis using assms(1) None True by (simp add: verdict_def)
  qed (use assms(1) None in \<open>simp add: verdict_def\<close>)
next
  case (Some v)
  then show ?thesis using that assms(1) by (cases v) (auto simp: verdict_def)
qed

section \<open>Instant actions\<close>

lemma validate_with_not_kept:
  "fst (snd (validate_with hs a ctx False (w, r))) = w"
  by (induction hs)
    (auto simp: run_simps release_def setValue_def setException_def split: sum.split prod.split)

lemma ask_instant_not_kept: "snd (ask_instant env om as seen w) = w"
proof (induction as arbitrary: seen w)
  case (Cons a as)
  have "snd (ask_validation env om (a, ctx_instant, False) w) = w"
    using validate_with_not_kept [of "env_handlers env" a ctx_instant w Live]
    by (auto simp: ask_validation_def dispatch_validate_def handleValidateEvent_def
        handleActionValidateEvent_def run_simps acquireResultToken_def release_def setValue_def
        split: sum.splits prod.splits)
  moreover obtain es seen' where "uniqueActionId om a seen = (es, seen')" by force
  moreover obtain r where "ask_instant env om as seen' w = (r, w)"
    using Cons by (metis prod.collapse)
  ultimately show ?case by (auto simp: run_simps split: sum.split prod.split)
qed (simp add: run_simps)

lemma instant_validation_not_kept:
  "mw_actions (snd (validated True (handleValidateInstantActions env om data) w)) = mw_actions w"
proof (cases data)
  case (Some d)
  show ?thesis
  proof (cases d)
    case (Some as)
    obtain res w' where "ask_instant env om as {} (mw_actions w) = (res, w')" by force
    then show ?thesis
      using Some \<open>data = Some d\<close> ask_instant_not_kept [of env om as "{}" "mw_actions w"]
      by (auto simp: validated_def handleValidateInstantActions_def run_simps acquireResultToken_def
          setValue_def split: sum.split prod.split)
  qed (simp add: \<open>data = Some d\<close> validated_def handleValidateInstantActions_def run_simps)
qed (simp add: validated_def handleValidateInstantActions_def run_simps)

section \<open>A sample\<close>

definition sample_handler :: "unit ActionHandler" where
  "sample_handler =
     \<lparr>ah_match = (\<lambda>a. Inr (actionType a = ''pick'')), ah_validate = (\<lambda>a ctx. Inr ([], [])),
      ah_prepare = (\<lambda>a ps. Inr \<lparr>on_start = Some (Inr ()), on_pause = Some (Inr ()),
        on_resume = Some (Inr ()), on_cancel = Some (Inr ())\<rparr>),
      ah_description = []\<rparr>"

definition sample_env :: "unit Environment" where
  "sample_env =
     \<lparr>env_handlers = [sample_handler], env_ext = sample_externals, env_fmt_set = (\<lambda>_. []),
      env_manufacturer = ''m'', env_serial = ''s'', env_zone_set = (\<lambda>_. Live)\<rparr>"

definition pick_order :: "uint32 \<Rightarrow> Order" where
  "pick_order u =
     \<lparr>o_header = \<lparr>headerId = 0, version = ''2.0.0'', manufacturer = ''m'', serialNumber = ''s''\<rparr>,
      o_orderId = ''o'', o_orderUpdateId = u, o_zoneSetId = None,
      o_nodes = [(sample_node 0 True)\<lparr>n_actions := [sample_action]\<rparr>], o_edges = []\<rparr>"

definition empty_message_world :: "unit MessageWorld" where
  "empty_message_world = \<lparr>mw_actions = \<lparr>handled_actions = [], user_calls = []\<rparr>, mw_out = []\<rparr>"

lemmas sample_message_defs = sample_env_def sample_handler_def empty_message_world_def

lemma calm_sample [simp]: "calm sample_env"
  by (simp add: calm_def sample_message_defs)

lemma pick_order_ok: "checkOrderGraphConsistency (pick_order u) = []"
  by (rule order_ok_consistent) (simp_all add: order_ok_def pick_order_def sample_defs)

lemma pick_order_queries [simp]: "order_queries (pick_order u) = [(sample_action, ctx_node, True)]"
  by (simp add: order_queries_def pick_order_def sample_defs)

lemma pick_order_answer [simp]:
  "user_answer (env_handlers sample_env) sample_action ctx_node = Some (sample_handler, [], [])"
  by (simp add: sample_message_defs sample_defs)

lemma pick_order_checks:
  "order_checks sample_env OrderManager_new (pick_order u) = Inr []"
proof -
  note defs = pick_order_def sample_defs OrderManager_new_def
  have "checkOrderAppend OrderManager_new (pick_order u) = Inr []"
    by (simp add: checkOrderAppend_def defs)
  moreover have "checkHeader (env_fmt_set sample_env) (env_manufacturer sample_env)
      (env_serial sample_env) (o_header (pick_order u)) = []"
    by (simp add: checkHeader_def defs sample_env_def compatible_versions_def current_version_def)
  moreover have "checkOrderId OrderManager_new (pick_order u) = []"
    by (simp add: checkOrderId_def defs)
  moreover have "checkOrderActionIds OrderManager_new (pick_order u) = []"
    by (simp add: checkOrderActionIds_def order_actions_def uniqueActionId_def defs)
  moreover have "o_zoneSetId (pick_order u) = None" by (simp add: pick_order_def)
  ultimately show ?thesis by (simp add: order_checks_def pick_order_ok)
qed

text \<open>Later, the action of the order is known and running; an update repeats its id.\<close>

definition pick_manager :: OrderManager where
  "pick_manager = OrderManager_new\<lparr>order_id := ''o'', action_by_id := [(''a'', sample_action)]\<rparr>"

lemma pick_update_checks: "\<exists>errs. order_checks sample_env pick_manager (pick_order 1) = Inr errs"
proof -
  have "\<exists>errs. checkOrderAppend pick_manager (pick_order 1) = Inr errs"
    by (simp add: checkOrderAppend_def pick_manager_def pick_order_def OrderManager_new_def Let_def)
  moreover have "o_zoneSetId (pick_order 1) = None" by (simp add: pick_order_def)
  ultimately show ?thesis by (auto simp: order_checks_def)
qed

section \<open>Properties\<close>



text \<open>C23: When no handler of the user throws, every released action of an accepted order is kept for the
  handler that accepted it, with the parameters that this handler has parsed.\<close>

theorem accepted_order_actions_are_kept:
  assumes "calm env" and "wf_map (handled_actions (mw_actions w))"
    and "mw_out (snd (handleOrderMessage sync env om (Some (Some order)) w)) =
      mw_out w @ [ValidOrderMessage order]"
    and "order_checks env om order = Inr []"
    and "(a, ctx, True) \<in> set (order_queries order)"
  shows "\<exists>h \<in> set (env_handlers env). \<exists>ps.
    ah_match h a = Inr True \<and> ah_validate h a ctx = Inr ([], ps) \<and>
    map_of (handled_actions (mw_actions (snd (handleOrderMessage sync env om (Some (Some order)) w))))
      (actionId a) = Some (new_store h a ps)"
proof -
  have new: "\<not> (o_orderId order = order_id om \<and> o_orderUpdateId order = order_update_id om)"
    using assms(3) by (auto simp: handleOrderMessage_def run_simps)
  note eq = handleOrderMessage_eq [OF assms(1,4) new]
  have "order_verdict env om order = []"
    using assms(3) unfolding eq by (cases "order_verdict env om order") simp_all
  then have "verdict env om a ctx = []" using assms(5) by (auto simp: order_verdict_def)
  then obtain h ps where h: "user_answer (env_handlers env) a ctx = Some (h, [], ps)"
    by (rule accepted_action [OF _ order_query_context [OF assms(5)]])
  have "checkOrderActionIds om order = []"
    using assms(4) by (auto simp: order_checks_def split: sum.splits)
  then have "distinct (map (actionId \<circ> fst) (order_queries order))"
    using checkOrderActionIds_ok(1) by (metis map_map order_queries_actions)
  from fold_keep_new [OF assms(2) this assms(5) h] user_answer_handler [OF h]
  show ?thesis unfolding eq by auto
qed

theorem accepted_order_actions_are_kept_witness:
  "\<exists>h \<in> set (env_handlers sample_env). \<exists>ps.
    ah_match h sample_action = Inr True \<and> ah_validate h sample_action ctx_node = Inr ([], ps) \<and>
    map_of (handled_actions (mw_actions (snd (handleOrderMessage True sample_env OrderManager_new
      (Some (Some (pick_order 0))) empty_message_world)))) (actionId sample_action) =
    Some (new_store h sample_action ps)"
proof (rule accepted_order_actions_are_kept [OF calm_sample _ _ pick_order_checks])
  show "wf_map (handled_actions (mw_actions empty_message_world))" by (simp add: empty_message_world_def)
  have "order_verdict sample_env OrderManager_new (pick_order 0) = []"
    by (simp add: order_verdict_def verdict_def)
  moreover have "\<not> (o_orderId (pick_order 0) = order_id OrderManager_new \<and>
      o_orderUpdateId (pick_order 0) = order_update_id OrderManager_new)"
    by (simp add: pick_order_def OrderManager_new_def)
  ultimately show "mw_out (snd (handleOrderMessage True sample_env OrderManager_new
      (Some (Some (pick_order 0))) empty_message_world)) = mw_out empty_message_world @ [ValidOrderMessage (pick_order 0)]"
    by (simp add: handleOrderMessage_eq [OF calm_sample pick_order_checks])
qed simp

text \<open>A rejected order can disable a running action. When an order repeats the id of an action
  that is already known, with an action that its handler accepts, the order is rejected and only
  errors are reported; but the validation has replaced what was kept under that id, with its
  callbacks. Whatever was prepared for the running action, cancelling or pausing it now throws.\<close>

theorem rejected_order_drops_callbacks:
  assumes "calm env" and "wf_map (handled_actions (mw_actions w))"
    and "order_checks env om order = Inr errs"
    and "\<not> (o_orderId order = order_id om \<and> o_orderUpdateId order = order_update_id om)"
    and "(a, ctx, True) \<in> set (order_queries order)"
    and "user_answer (env_handlers env) a ctx = Some (h, [], ps)"
    and "map_of (action_by_id om) (actionId a) = Some running"
  shows "case handleOrderMessage sync env om (Some (Some order)) w of (r, w') \<Rightarrow>
    (\<exists>es. es \<noteq> [] \<and> mw_out w' = mw_out w @ map ErrorAdd es) \<and>
    fst (handleCancelEvent (Some (actionId a)) (mw_actions w')) = Inl VDA5050PPCallbackNotSet \<and>
    fst (handlePauseEvent (Some (actionId a)) (mw_actions w')) = Inl VDA5050PPCallbackNotSet"
proof -
  have "a \<in> set (order_actions order)"
    using assms(5) unfolding order_queries_actions [symmetric] by force
  then have "checkOrderActionIds om order \<noteq> []"
    using known_action_rejected assms(7) by (metis option.distinct(1))
  then have "errs \<noteq> []" using assms(3) by (auto simp: order_checks_def split: sum.splits)
  moreover obtain store where
    "map_of (handled_actions (fold (keep_action env) (order_queries order) (mw_actions w))) (actionId a) = Some store"
    "store_callbacks store = None"
    using fold_keep_fresh [OF assms(2,5,6)] by blast
  ultimately show ?thesis
    unfolding handleOrderMessage_eq [OF assms(1,3,4)]
    by (simp add: handleCancelEvent_def handlePauseEvent_def call_callback_def tryFindHandledAction_def
        run_simps) (rule exI [of _ "errs @ order_verdict env om order"], simp)
qed

theorem rejected_order_drops_callbacks_witness:
  "case handleOrderMessage False sample_env pick_manager (Some (Some (pick_order 1))) empty_message_world of
     (r, w') \<Rightarrow>
    (\<exists>es. es \<noteq> [] \<and> mw_out w' = mw_out empty_message_world @ map ErrorAdd es) \<and>
    fst (handleCancelEvent (Some (actionId sample_action)) (mw_actions w')) = Inl VDA5050PPCallbackNotSet \<and>
    fst (handlePauseEvent (Some (actionId sample_action)) (mw_actions w')) = Inl VDA5050PPCallbackNotSet"
proof -
  obtain errs where errs: "order_checks sample_env pick_manager (pick_order 1) = Inr errs"
    using pick_update_checks by blast
  have wf: "wf_map (handled_actions (mw_actions empty_message_world))"
    by (simp add: empty_message_world_def)
  have new: "\<not> (o_orderId (pick_order 1) = order_id pick_manager \<and>
      o_orderUpdateId (pick_order 1) = order_update_id pick_manager)"
    by (simp add: pick_order_def pick_manager_def OrderManager_new_def)
  have known: "map_of (action_by_id pick_manager) (actionId sample_action) = Some sample_action"
    by (simp add: pick_manager_def sample_action_def)
  have query: "(sample_action, ctx_node, True) \<in> set (order_queries (pick_order 1))" by simp
  show ?thesis
    by (rule rejected_order_drops_callbacks [OF calm_sample wf errs new query pick_order_answer known])
qed

text \<open>An instant action of the user never reaches the user's handler. The validation keeps
  no instant action, whoever accepts it; so unless its id is in use already, preparing, starting,
  pausing, resuming and cancelling it are all skipped, and no callback is called.\<close>

theorem instant_action_is_never_started:
  assumes "map_of (handled_actions (mw_actions w)) (actionId a) = None"
  shows "case handleInstantActionsMessage env om (Some (Some as)) w of (r, w') \<Rightarrow>
    (\<forall>ev \<in> {ActionPrepare a, ActionStart (actionId a), ActionPause (actionId a),
        ActionResume (actionId a), ActionCancel (actionId a)}.
      on_action_event ev (mw_actions w') = (Inr (), mw_actions w))"
proof -
  obtain r w' where run: "handleInstantActionsMessage env om (Some (Some as)) w = (r, w')" by force
  have "mw_actions w' = mw_actions w"
    using instant_validation_not_kept [of env om "Some (Some as)" w] run
    by (auto simp: handleInstantActionsMessage_def post_def run_simps split: prod.splits sum.splits if_splits)
  then show ?thesis
    using assms run
    by (simp add: handlePrepareEvent_def handleStartEvent_def handlePauseEvent_def handleResumeEvent_def
        handleCancelEvent_def call_callback_def tryFindHandledAction_def run_simps)
qed

theorem instant_action_is_never_started_witness:
  "case handleInstantActionsMessage sample_env OrderManager_new (Some (Some [sample_action])) empty_message_world of
    (r, w') \<Rightarrow>
    (\<forall>ev \<in> {ActionPrepare sample_action, ActionStart (actionId sample_action), ActionPause (actionId sample_action),
        ActionResume (actionId sample_action), ActionCancel (actionId sample_action)}.
      on_action_event ev (mw_actions w') = (Inr (), mw_actions empty_message_world))"
  by (rule instant_action_is_never_started) (simp add: empty_message_world_def)

end
