(* ===== verification/OrderHandler.thy ===== *)
theory OrderHandler
  imports SchedulerOps AgvHandlers
begin

text \<open>
  \<^verbatim>\<open>core/order/order_event_handler\<close>: the subscriber that drives the scheduler. The interpreter's events
  fill its queues, the reports of the action and navigation handlers become transitions, and a
  control action pauses, resumes or cancels. The handlers catch the library's exceptions and log
  them, except for the control actions.
\<close>

datatype OrderOut =
    PrepareAction Action
  | AddError Error
  | SyncActionStatus string ActionStatus

record OrderWorld =
  ow_scheduler :: Scheduler
  ow_out :: "OrderOut list"

type_synonym 'a oeh = "(OrderWorld, 'a) comp"

definition on_scheduler :: "'a sched \<Rightarrow> 'a oeh" where
  "on_scheduler m w = (case m (ow_scheduler w) of (r, s) \<Rightarrow> (r, w\<lparr>ow_scheduler := s\<rparr>))"

definition order_out :: "OrderOut \<Rightarrow> unit oeh" where
  "order_out x = modify (\<lambda>w. w\<lparr>ow_out := ow_out w @ [x]\<rparr>)"

lemma run_on_scheduler [run_simps]:
  "on_scheduler m w = (case m (ow_scheduler w) of (r, s) \<Rightarrow> (r, w\<lparr>ow_scheduler := s\<rparr>))"
  by (simp add: on_scheduler_def)

lemma run_order_out [run_simps]: "order_out x w = (Inr (), w\<lparr>ow_out := ow_out w @ [x]\<rparr>)"
  by (simp add: order_out_def run_simps)

text \<open>The common shape: test the pointer, then call the scheduler and log what it throws.\<close>

definition logged :: "'e option \<Rightarrow> ('e \<Rightarrow> unit sched) \<Rightarrow> unit oeh" where
  "logged data f =
     (case data of
        None \<Rightarrow> throw VDA5050PPInvalidEventData
      | Some e \<Rightarrow> try_log (on_scheduler (f e)))"

section \<open>Interpreter events\<close>

definition handleYieldNormal :: "InterpreterEvent option \<Rightarrow> unit oeh" where
  "handleYieldNormal data = logged data enqueue"

definition handleYieldInstantActionGroup ::
  "order_subscribers \<Rightarrow> InstantActionGroup option \<Rightarrow> unit oeh" where
  "handleYieldInstantActionGroup subs data = logged data (enqueueInterruptActions subs)"

definition handleYieldNewAction :: "Action option option \<Rightarrow> unit oeh" where
  "handleYieldNewAction data =
     (case data of
        Some (Some a) \<Rightarrow> order_out (PrepareAction a)
      | _ \<Rightarrow> throw VDA5050PPInvalidEventData)"

definition handleInterpreterDone :: "order_subscribers \<Rightarrow> unit option \<Rightarrow> unit oeh" where
  "handleInterpreterDone subs data = logged data (\<lambda>_. commitQueue subs)"

section \<open>Action and navigation status\<close>

definition handleActionFailed :: "order_subscribers \<Rightarrow> string option \<Rightarrow> unit oeh" where
  "handleActionFailed subs data =
     logged data (\<lambda>i. actionTransition subs i ActionTransition_isFailed)"

definition handleActionFinished :: "order_subscribers \<Rightarrow> (string \<times> string option) option \<Rightarrow> unit oeh" where
  "handleActionFinished subs data =
     logged data (\<lambda>(i, result). actionTransition subs i (ActionTransition_isFinished result))"

definition handleActionInitializing :: "order_subscribers \<Rightarrow> string option \<Rightarrow> unit oeh" where
  "handleActionInitializing subs data =
     logged data (\<lambda>i. actionTransition subs i ActionTransition_isInitializing)"

definition handleActionPaused :: "order_subscribers \<Rightarrow> string option \<Rightarrow> unit oeh" where
  "handleActionPaused subs data =
     logged data (\<lambda>i. actionTransition subs i ActionTransition_isPaused)"

definition handleActionRunning :: "order_subscribers \<Rightarrow> string option \<Rightarrow> unit oeh" where
  "handleActionRunning subs data =
     logged data (\<lambda>i. actionTransition subs i ActionTransition_isRunning)"

text \<open>\<^verbatim>\<open>NavigationStatusControlType\<close>; \<open>None\<close> is any other value.\<close>

datatype NavigationStatusControlType = ns_failed | ns_paused | ns_resumed

fun control_transition :: "NavigationStatusControlType option \<Rightarrow> exn + NavigationTransition" where
  "control_transition (Some ns_failed) = Inr nk_is_failed"
| "control_transition (Some ns_paused) = Inr nk_is_paused"
| "control_transition (Some ns_resumed) = Inr nk_is_resumed"
| "control_transition None = Inl VDA5050PPInvalidArgument"

definition handleNavigationControl ::
  "order_subscribers \<Rightarrow> NavigationStatusControlType option option \<Rightarrow> unit oeh" where
  "handleNavigationControl subs data =
     (case data of
        None \<Rightarrow> throw VDA5050PPInvalidEventData
      | Some t \<Rightarrow>
          bindM (liftE (control_transition t)) (\<lambda>tr.
          try_log (on_scheduler (navigationTransition subs tr))))"

definition handleNavigationNode :: "order_subscribers \<Rightarrow> seq_id option option \<Rightarrow> unit oeh" where
  "handleNavigationNode subs data =
     (case data of
        None \<Rightarrow> throw VDA5050PPInvalidEventData
      | Some None \<Rightarrow> ret ()
      | Some (Some seq) \<Rightarrow> try_log (on_scheduler (navigationTransition subs (nk_to_seq_id seq))))"

section \<open>Control\<close>

text \<open>The answer to the query event, which is dispatched synchronously; nothing is a timeout.\<close>

definition queryPauseResume ::
  "QueryPauseResumeResult Result \<Rightarrow> exn + QueryPauseResumeResult" where
  "queryPauseResume answer =
     (case future_get answer of
        None \<Rightarrow> Inl VDA5050PPSynchronizedEventTimedOut
      | Some r \<Rightarrow> r)"

definition dispatchErrors :: "Error list \<Rightarrow> unit oeh" where
  "dispatchErrors errors = forM errors (\<lambda>e. order_out (AddError e))"

definition setFailed :: "string \<Rightarrow> unit oeh" where
  "setFailed i = order_out (SyncActionStatus i FAILED)"

definition pause_or_resume ::
  "QueryPauseResumeResult Result \<Rightarrow> Action \<Rightarrow> unit sched \<Rightarrow> unit oeh" where
  "pause_or_resume answer a op =
     bindM (liftE (queryPauseResume answer)) (\<lambda>result.
     if qr_errors result \<noteq> []
     then seqM (dispatchErrors (qr_errors result)) (setFailed (actionId a))
     else on_scheduler op)"

definition handleOrderControl ::
  "order_subscribers \<Rightarrow> QueryPauseResumeResult Result \<Rightarrow> QueryPauseResumeResult Result \<Rightarrow>
   (Action \<times> ControlStatus) option \<Rightarrow> unit oeh" where
  "handleOrderControl subs pauseable resumable data =
     (case data of
        None \<Rightarrow> throw VDA5050PPInvalidEventData
      | Some (a, ctl_cancel) \<Rightarrow> on_scheduler (Scheduler_cancel subs)
      | Some (a, ctl_pause) \<Rightarrow> pause_or_resume pauseable a (Scheduler_pause subs)
      | Some (a, ctl_resume) \<Rightarrow> pause_or_resume resumable a (Scheduler_resume subs))"

section \<open>The subscriber\<close>

fun order_on_interpreter ::
  "order_subscribers \<Rightarrow> QueryPauseResumeResult Result \<Rightarrow> QueryPauseResumeResult Result \<Rightarrow>
   InterpreterEvent \<Rightarrow> unit oeh" where
  "order_on_interpreter subs p r (YieldActionGroupEvent as c) =
     handleYieldNormal (Some (YieldActionGroupEvent as c))"
| "order_on_interpreter subs p r (YieldNavigationStepEvent n e stop) =
     handleYieldNormal (Some (YieldNavigationStepEvent n e stop))"
| "order_on_interpreter subs p r (YieldInstantActionGroup g) = handleYieldInstantActionGroup subs (Some g)"
| "order_on_interpreter subs p r (YieldNewAction a) = handleYieldNewAction (Some (Some a))"
| "order_on_interpreter subs p r InterpreterDone = handleInterpreterDone subs (Some ())"
| "order_on_interpreter subs p r (InterpreterOrderControl a c) = handleOrderControl subs p r (Some (a, c))"
| "order_on_interpreter subs p r _ = ret ()"

fun order_on_action_status :: "order_subscribers \<Rightarrow> ActionStatusEvent \<Rightarrow> unit oeh" where
  "order_on_action_status subs (ActionStatusFailed i errors) = handleActionFailed subs (Some i)"
| "order_on_action_status subs (ActionStatusFinished i result) = handleActionFinished subs (Some (i, result))"
| "order_on_action_status subs (ActionStatusInitializing i) = handleActionInitializing subs (Some i)"
| "order_on_action_status subs (ActionStatusPaused i) = handleActionPaused subs (Some i)"
| "order_on_action_status subs (ActionStatusRunning i) = handleActionRunning subs (Some i)"

end
