(* ===== verification/EventManager.thy ===== *)
theory EventManager
  imports Prelude
begin

text \<open>
  The event managers: \<^verbatim>\<open>core/generic_event_manager.h\<close> and the six hand-written managers of
  \<^verbatim>\<open>core/*_manager.cpp\<close>. Each owns a queue, the callbacks subscribed to each event id, and a thread
  that takes the events out of the queue and calls the subscribers. With
  \<^verbatim>\<open>synchronous_event_dispatch\<close> the thread is not needed and the dispatching thread calls them.

  The queue itself is \<^verbatim>\<open>eventpp::EventQueue\<close>, which is not part of the repository. What is used of
  it: \<^verbatim>\<open>enqueue\<close> appends, \<^verbatim>\<open>processUntil\<close> takes the events out in order, \<^verbatim>\<open>dispatch\<close> calls the callbacks
  of the event's id in the order in which they were appended, and it catches no exception.
\<close>

section \<open>State\<close>

text \<open>
  The thread of a manager processes events until it returns from its task. An exception that
  leaves a function declared \<^verbatim>\<open>noexcept\<close> terminates the program.
\<close>

datatype ThreadState = Processing | Returned | Terminated

record ('t, 'e, 'w) EventManager =
  synchronous_event_dispatch :: bool
  noexcept_task :: bool
  noexcept_dispatch :: bool
  listeners :: "(nat \<times> 't \<times> ('e \<Rightarrow> ('w, unit) comp)) list"
  event_queue :: "('t \<times> 'e) list"
  thread :: ThreadState

text \<open>A manager and the state its subscribers work on.\<close>

type_synonym ('t, 'e, 'w) managed = "('t, 'e, 'w) EventManager \<times> 'w"

text \<open>The task returns at once when events are dispatched synchronously.\<close>

definition EventManager_new :: "bool \<Rightarrow> bool \<Rightarrow> bool \<Rightarrow> ('t, 'e, 'w) EventManager" where
  "EventManager_new sync task_noexcept disp_noexcept =
     \<lparr>synchronous_event_dispatch = sync, noexcept_task = task_noexcept,
      noexcept_dispatch = disp_noexcept, listeners = [], event_queue = [],
      thread = (if sync then Returned else Processing)\<rparr>"

section \<open>Operations\<close>

text \<open>A scoped subscriber removes its callbacks when it is destroyed; the number identifies it.\<close>

definition subscribe ::
  "nat \<Rightarrow> 't \<Rightarrow> ('e \<Rightarrow> ('w, unit) comp) \<Rightarrow> ('t, 'e, 'w) EventManager \<Rightarrow> ('t, 'e, 'w) EventManager" where
  "subscribe owner t callback m = m\<lparr>listeners := listeners m @ [(owner, t, callback)]\<rparr>"

definition unsubscribe :: "nat \<Rightarrow> ('t, 'e, 'w) EventManager \<Rightarrow> ('t, 'e, 'w) EventManager" where
  "unsubscribe owner m = m\<lparr>listeners := filter (\<lambda>l. fst l \<noteq> owner) (listeners m)\<rparr>"

definition callbacks :: "('t, 'e, 'w) EventManager \<Rightarrow> 't \<Rightarrow> ('e \<Rightarrow> ('w, unit) comp) list" where
  "callbacks m t = map (\<lambda>(_, _, callback). callback) (filter (\<lambda>(_, t', _). t' = t) (listeners m))"

definition call_listeners :: "('t, 'e, 'w) EventManager \<Rightarrow> 't \<Rightarrow> 'e \<Rightarrow> ('w, unit) comp" where
  "call_listeners m t e = forM (callbacks m t) (\<lambda>callback. callback e)"

definition synchronousDispatch :: "'t \<Rightarrow> 'e \<Rightarrow> (('t, 'e, 'w) managed, unit) comp" where
  "synchronousDispatch t e = (\<lambda>(m, w). case call_listeners m t e w of (r, w') \<Rightarrow> (r, (m, w')))"

definition dispatch :: "bool \<Rightarrow> 't \<Rightarrow> 'e \<Rightarrow> (('t, 'e, 'w) managed, unit) comp" where
  "dispatch synchronous t e = (\<lambda>(m, w).
     if synchronous_event_dispatch m \<or> synchronous
     then (case synchronousDispatch t e (m, w) of
             (Inl x, (m', w')) \<Rightarrow>
               if noexcept_dispatch m then (Inl UndefinedBehaviour, (m'\<lparr>thread := Terminated\<rparr>, w'))
               else (Inl x, (m', w'))
           | (Inr u, s) \<Rightarrow> (Inr u, s))
     else (Inr (), (m\<lparr>event_queue := event_queue m @ [(t, e)]\<rparr>, w)))"

text \<open>
  The thread takes the next event. Its loop stands inside of the \<^verbatim>\<open>try\<close>: an exception of a subscriber
  leaves the loop, and the task returns. One that the clause does not catch ends up in the task's
  future, or terminates the program where the task is \<^verbatim>\<open>noexcept\<close>.
\<close>

definition threadTask :: "('t, 'e, 'w) managed \<Rightarrow> ('t, 'e, 'w) managed" where
  "threadTask = (\<lambda>(m, w).
     if thread m \<noteq> Processing then (m, w)
     else case event_queue m of
       [] \<Rightarrow> (m, w)
     | (t, e) # rest \<Rightarrow>
         (case call_listeners m t e w of
            (Inr _, w') \<Rightarrow> (m\<lparr>event_queue := rest\<rparr>, w')
          | (Inl x, w') \<Rightarrow>
              (m\<lparr>event_queue := rest,
                 thread := (if is_VDA5050PPError x \<or> \<not> noexcept_task m then Returned else Terminated)\<rparr>,
               w')))"

section \<open>The managers\<close>

definition GenericEventManager :: "bool \<Rightarrow> ('t, 'e, 'w) EventManager" where
  "GenericEventManager sync = EventManager_new sync False False"

definition ActionEventManager :: "bool \<Rightarrow> ('t, 'e, 'w) EventManager" where
  "ActionEventManager sync = EventManager_new sync True False"

definition ActionStatusManager :: "bool \<Rightarrow> ('t, 'e, 'w) EventManager" where
  "ActionStatusManager sync = EventManager_new sync True True"

definition NavigationEventManager :: "bool \<Rightarrow> ('t, 'e, 'w) EventManager" where
  "NavigationEventManager sync = EventManager_new sync True True"

definition NavigationStatusManager :: "bool \<Rightarrow> ('t, 'e, 'w) EventManager" where
  "NavigationStatusManager sync = EventManager_new sync True True"

definition QueryEventManager :: "bool \<Rightarrow> ('t, 'e, 'w) EventManager" where
  "QueryEventManager sync = EventManager_new sync True True"

text \<open>The status event manager tests the event before it dispatches it; \<open>None\<close> is a null pointer,
  and the type \<open>None\<close> stands for \<^verbatim>\<open>k_none\<close>.\<close>

definition StatusEventManager :: "bool \<Rightarrow> ('t, 'e, 'w) EventManager" where
  "StatusEventManager sync = EventManager_new sync True False"

definition StatusEventManager_dispatch ::
  "('t option \<times> 'e) option \<Rightarrow> bool \<Rightarrow> (('t, 'e, 'w) managed, unit) comp" where
  "StatusEventManager_dispatch data synchronous =
     (case data of
        Some (Some t, e) \<Rightarrow> dispatch synchronous t e
      | _ \<Rightarrow> throw VDA5050PPInvalidEventData)"

section \<open>Runs\<close>

text \<open>Other threads dispatch and the manager's thread processes, in any order.\<close>

datatype ('t, 'e) ManagerOp = Dispatch 't 'e | Process

fun manager_step :: "('t, 'e) ManagerOp \<Rightarrow> ('t, 'e, 'w) managed \<Rightarrow> ('t, 'e, 'w) managed" where
  "manager_step (Dispatch t e) s = snd (dispatch False t e s)"
| "manager_step Process s = threadTask s"

fun dispatched :: "('t, 'e) ManagerOp list \<Rightarrow> ('t \<times> 'e) list" where
  "dispatched [] = []"
| "dispatched (Dispatch t e # ops) = (t, e) # dispatched ops"
| "dispatched (Process # ops) = dispatched ops"

text \<open>What calling the subscribers of some events, one event after the other, makes of the state.\<close>

definition delivered :: "('t, 'e, 'w) EventManager \<Rightarrow> ('t \<times> 'e) list \<Rightarrow> 'w \<Rightarrow> 'w" where
  "delivered m es w = fold (\<lambda>(t, e) w. snd (call_listeners m t e w)) es w"

text \<open>No subscriber throws.\<close>

definition quiet :: "('t, 'e, 'w) EventManager \<Rightarrow> bool" where
  "quiet m \<longleftrightarrow> (\<forall>(_, _, callback) \<in> set (listeners m). \<forall>e w. fst (callback e w) = Inr ())"

lemma quiet_call:
  assumes "quiet m"
  shows "fst (call_listeners m t e w) = Inr ()"
proof -
  have "fst (forM cs (\<lambda>c. c e) w) = Inr ()"
    if "\<forall>c \<in> set cs. \<forall>e w. fst (c e w) = Inr ()" for cs and w :: 'c
    using that
  proof (induction cs arbitrary: w)
    case (Cons c cs)
    have "fst (c e w) = Inr ()" using Cons.prems by simp
    then have "forM (c # cs) (\<lambda>c. c e) w = forM cs (\<lambda>c. c e) (snd (c e w))"
      by (cases "c e w") (simp add: run_seqM)
    then show ?case using Cons by simp
  qed (simp add: run_simps)
  moreover have "\<forall>c \<in> set (callbacks m t). \<forall>e w. fst (c e w) = Inr ()"
    using assms by (auto simp: quiet_def callbacks_def)
  ultimately show ?thesis by (simp add: call_listeners_def)
qed

lemma call_listeners_cong: "listeners m = listeners n \<Longrightarrow> call_listeners m = call_listeners n"
  by (simp add: call_listeners_def callbacks_def fun_eq_iff)

lemma delivered_cong: "listeners m = listeners n \<Longrightarrow> delivered m = delivered n"
  unfolding delivered_def by (drule call_listeners_cong) simp

lemma delivered_simps [simp]:
  "delivered m [] w = w" "delivered m ((t, e) # es) w = delivered m es (snd (call_listeners m t e w))"
  "delivered m (es @ fs) w = delivered m fs (delivered m es w)"
  by (simp_all add: delivered_def)

text \<open>A quiet manager whose thread runs: a turn of the thread delivers the first event of the queue.\<close>

lemma quiet_turn:
  assumes "quiet m" and "thread m = Processing"
  shows "threadTask (m\<lparr>event_queue := q\<rparr>, w) =
    (m\<lparr>event_queue := tl q\<rparr>, delivered m (take 1 q) w)"
proof (cases q)
  case (Cons te rest)
  obtain t e where te [simp]: "te = (t, e)" by force
  have "call_listeners (m\<lparr>event_queue := q\<rparr>) = call_listeners m" by (rule call_listeners_cong) simp
  moreover obtain w' where "call_listeners m t e w = (Inr (), w')"
    using quiet_call [OF assms(1), of t e w] by (cases "call_listeners m t e w") simp
  ultimately show ?thesis using assms(2) Cons by (simp add: threadTask_def)
qed (use assms(2) in \<open>simp add: threadTask_def\<close>)

text \<open>A run delivers some of the events first, in their order, and the others stay queued.\<close>

lemma quiet_run:
  assumes "quiet m" and "\<not> synchronous_event_dispatch m" and "thread m = Processing"
  shows "\<exists>k \<le> length (q @ dispatched ops).
    run_ops manager_step ops (m\<lparr>event_queue := q\<rparr>, w) =
      (m\<lparr>event_queue := drop k (q @ dispatched ops)\<rparr>, delivered m (take k (q @ dispatched ops)) w)"
proof (induction ops arbitrary: q w)
  case Nil
  show ?case by (rule exI [of _ 0]) simp
next
  case (Cons p ops)
  show ?case
  proof (cases p)
    case (Dispatch t e)
    have "snd (dispatch False t e (m\<lparr>event_queue := q\<rparr>, w)) = (m\<lparr>event_queue := q @ [(t, e)]\<rparr>, w)"
      using assms(2) by (simp add: dispatch_def)
    then show ?thesis using Cons.IH [of "q @ [(t, e)]" w] Dispatch by simp
  next
    case Process
    show ?thesis
    proof (cases q)
      case Nil
      then show ?thesis using Cons.IH [of "[]" w] quiet_turn [OF assms(1,3), of "[]" w] Process by simp
    next
      case (Cons te rest)
      obtain t e where te: "te = (t, e)" by force
      define w1 where "w1 = snd (call_listeners m t e w)"
      have turn: "threadTask (m\<lparr>event_queue := q\<rparr>, w) = (m\<lparr>event_queue := rest\<rparr>, w1)"
        using quiet_turn [OF assms(1,3), of q w] Cons te by (simp add: w1_def)
      have first: "delivered m (take (Suc k) (q @ es)) w = delivered m (take k (rest @ es)) w1" for k es
        using Cons te by (simp add: w1_def)
      obtain k where "k \<le> length (rest @ dispatched ops)"
        and "run_ops manager_step ops (m\<lparr>event_queue := rest\<rparr>, w1) =
          (m\<lparr>event_queue := drop k (rest @ dispatched ops)\<rparr>, delivered m (take k (rest @ dispatched ops)) w1)"
        using Cons.IH [of rest w1] by blast
      then show ?thesis
        using Process Cons turn first by (intro exI [of _ "Suc k"]) simp
    qed
  qed
qed

text \<open>As many turns of the thread as events in the queue empty it.\<close>

lemma quiet_turns:
  assumes "quiet m" and "thread m = Processing"
  shows "run_ops manager_step (replicate (length q) Process) (m\<lparr>event_queue := q\<rparr>, w) =
    (m\<lparr>event_queue := []\<rparr>, delivered m q w)"
proof (induction q arbitrary: w)
  case (Cons te q)
  then show ?case using quiet_turn [OF assms, of "te # q" w] by (cases te) simp
qed simp

text \<open>Once the task has returned, nothing is delivered any more.\<close>

lemma ended_run:
  "\<not> synchronous_event_dispatch m \<Longrightarrow> thread m \<noteq> Processing \<Longrightarrow>
     snd (run_ops manager_step ops (m, w)) = w"
proof (induction ops arbitrary: m)
  case (Cons p ops)
  have IH: "snd (run_ops manager_step ops (n, w)) = w"
    if "\<not> synchronous_event_dispatch n" "thread n \<noteq> Processing" for n :: "('a, 'b, 'c) EventManager"
    using Cons.IH that by blast
  show ?case
    using Cons.prems IH by (cases p) (simp_all add: dispatch_def threadTask_def)
qed simp

text \<open>Events that are dispatched one after the other, and processed without an exception.\<close>

lemma run_ops_append: "run_ops exec (ps @ qs) s = run_ops exec qs (run_ops exec ps s)"
  by (induction ps arbitrary: s) simp_all

lemma dispatch_all:
  assumes "\<not> synchronous_event_dispatch m"
  shows "run_ops manager_step (map (\<lambda>(t, e). Dispatch t e) es) (m, w) =
    (m\<lparr>event_queue := event_queue m @ es\<rparr>, w)"
proof -
  have "run_ops manager_step (map (\<lambda>(t, e). Dispatch t e) es) (m\<lparr>event_queue := q\<rparr>, w) =
      (m\<lparr>event_queue := q @ es\<rparr>, w)" for q
    using assms by (induction es arbitrary: q) (auto simp: dispatch_def)
  from this [of "event_queue m"] show ?thesis by simp
qed

lemma process_all:
  assumes "thread m = Processing"
    and "forM es (\<lambda>(t, e). call_listeners m t e) w = (Inr (), w')"
  shows "run_ops manager_step (replicate (length es) Process) (m\<lparr>event_queue := es @ rest\<rparr>, w) =
    (m\<lparr>event_queue := rest\<rparr>, w')"
  using assms(2)
proof (induction es arbitrary: w)
  case (Cons te es)
  obtain t e where te [simp]: "te = (t, e)" by force
  obtain w1 where w1: "call_listeners m t e w = (Inr (), w1)"
    and rest: "forM es (\<lambda>(t, e). call_listeners m t e) w1 = (Inr (), w')"
    using Cons.prems by (auto simp: run_simps split: prod.splits sum.splits)
  have "call_listeners (m\<lparr>event_queue := q\<rparr>) t e w = (Inr (), w1)" for q
    using w1 call_listeners_cong [of "m\<lparr>event_queue := q\<rparr>" m] by simp
  then show ?case
    using Cons.IH [OF rest] assms(1) by (simp add: threadTask_def)
qed (simp add: run_simps)

section \<open>Properties\<close>

text \<open>C4: An event manager whose subscribers do not throw implements synchronous delivery: the queue
  and the thread lose, double and swap nothing. However the dispatching threads and its own thread
  interleave, the subscribers have then been called for the first \<open>k\<close> of the dispatched events, in the order of
  the dispatches, and the queue holds exactly the others. As many turns of the thread as events are
  queued then empty the queue, and the state is the one that calling the subscribers of each event
  directly would have reached.\<close>

theorem manager_refines_synchronous_delivery:
  assumes "quiet m" and "\<not> synchronous_event_dispatch m" and "thread m = Processing"
    and "event_queue m = []"
  shows "\<exists>k \<le> length (dispatched ops).
    run_ops manager_step ops (m, w) =
      (m\<lparr>event_queue := drop k (dispatched ops)\<rparr>, delivered m (take k (dispatched ops)) w) \<and>
    run_ops manager_step (ops @ replicate (length (dispatched ops) - k) Process) (m, w) =
      (m, delivered m (dispatched ops) w)"
proof -
  let ?es = "dispatched ops"
  have same: "m\<lparr>event_queue := []\<rparr> = m" using assms(4) by simp
  obtain k where "k \<le> length ?es"
    and run: "run_ops manager_step ops (m, w) = (m\<lparr>event_queue := drop k ?es\<rparr>, delivered m (take k ?es) w)"
    using quiet_run [OF assms(1-3), of "[]" ops w] same by auto
  moreover have "run_ops manager_step (replicate (length ?es - k) Process)
      (m\<lparr>event_queue := drop k ?es\<rparr>, delivered m (take k ?es) w) = (m, delivered m ?es w)"
    using quiet_turns [OF assms(1,3), of "drop k ?es" "delivered m (take k ?es) w"] same
      delivered_simps(3) [of m "take k ?es" "drop k ?es" w] by simp
  ultimately show ?thesis by (auto simp: run_ops_append)
qed

definition sample_manager :: "(unit, nat, nat list) EventManager" where
  "sample_manager =
     subscribe 0 () (\<lambda>e. if e = 0 then throw VDA5050PPInvalidArgument else ret ())
       (subscribe 1 () (\<lambda>e. modify (\<lambda>w. w @ [e])) (GenericEventManager False))"

definition quiet_manager :: "(unit, nat, nat list) EventManager" where
  "quiet_manager = unsubscribe 0 sample_manager"

lemmas sample_manager_defs = quiet_manager_def sample_manager_def subscribe_def unsubscribe_def
  GenericEventManager_def EventManager_new_def

theorem manager_refines_synchronous_delivery_witness:
  "\<exists>k \<le> 2. snd (run_ops manager_step [Dispatch () 1, Process, Dispatch () 2] (quiet_manager, [])) = take k [1, 2] \<and>
     snd (run_ops manager_step ([Dispatch () 1, Process, Dispatch () 2] @ replicate (2 - k) Process)
       (quiet_manager, [])) = [1, 2]"
proof -
  let ?ops = "[Dispatch () 1, Process, Dispatch () 2]" and ?es = "[((), 1), ((), 2)] :: (unit \<times> nat) list"
  have quiet: "quiet quiet_manager" by (simp add: quiet_def sample_manager_defs run_simps)
  have call: "call_listeners quiet_manager t e w = (Inr (), w @ [e])" for t e w
    by (simp add: call_listeners_def callbacks_def sample_manager_defs run_simps)
  have delivers: "delivered quiet_manager es w = w @ map snd es" for es w
    by (induction es arbitrary: w) (auto simp: call)
  have start: "\<not> synchronous_event_dispatch quiet_manager" "thread quiet_manager = Processing"
    "event_queue quiet_manager = []" by (simp_all add: sample_manager_defs)
  obtain k where "k \<le> length ?es"
    and "run_ops manager_step ?ops (quiet_manager, []) =
      (quiet_manager\<lparr>event_queue := drop k ?es\<rparr>, delivered quiet_manager (take k ?es) [])"
    and "run_ops manager_step (?ops @ replicate (length ?es - k) Process) (quiet_manager, []) =
      (quiet_manager, delivered quiet_manager ?es [])"
    using manager_refines_synchronous_delivery [OF quiet start, of ?ops "[]"]
    unfolding dispatched.simps by blast
  then show ?thesis
    using take_map [of k snd ?es] by (intro exI [of _ k]) (simp add: delivers call numeral_2_eq_2 del: run_ops.simps)
qed

text \<open>The first exception of a subscriber ends the event processing of its manager for
  good: when the event at the head of the queue makes a subscriber throw, then whatever is
  dispatched afterwards and however often the thread is scheduled, no subscriber is called any
  more; not for the events behind it in the queue, and not for later ones.\<close>

theorem first_exception_ends_processing:
  assumes "\<not> synchronous_event_dispatch m" and "thread m = Processing"
    and "event_queue m = (t, e) # rest" and "call_listeners m t e w = (Inl x, w')"
  shows "snd (run_ops manager_step (Process # ops) (m, w)) = w'"
  using assms by (simp add: threadTask_def ended_run)

theorem first_exception_ends_processing_witness:
  "snd (run_ops manager_step [Process, Dispatch () 3, Process, Process]
     (sample_manager\<lparr>event_queue := [((), 0), ((), 2)]\<rparr>, [])) = [0]"
  by (rule first_exception_ends_processing [of _ "()" 0 "[((), 2)]" _ VDA5050PPInvalidArgument])
    (simp_all add: sample_manager_defs call_listeners_def callbacks_def run_simps)

end
