(* ===== verification/OrderFlow.thy ===== *)
theory OrderFlow
  imports StateProps InterpreterProps MessagesProps OrderHandler EventManager
begin

text \<open>
  From an accepted order to the state and the scheduler: the events that the interpreter dispatches
  go through the interpreter's event manager to two subscribers, the order event handler and the
  state event handler. What they make of the whole plan, and what happens when one of
  them throws.
\<close>

section \<open>The subscribers of the interpreter's events\<close>

text \<open>The id of an event's class.\<close>

datatype InterpreterEventType =
    k_yield_navigation_step | k_yield_action_group | k_yield_instant_action_group | k_yield_graph_extension | k_yield_graph_replacement
  | k_yield_new_action | k_yield_clear_actions | k_done | k_order_control

fun event_id :: "InterpreterEvent \<Rightarrow> InterpreterEventType" where
  "event_id (YieldNavigationStepEvent n e stop) = k_yield_navigation_step"
| "event_id (YieldActionGroupEvent as c) = k_yield_action_group"
| "event_id (YieldInstantActionGroup g) = k_yield_instant_action_group"
| "event_id (YieldGraphExtension u g) = k_yield_graph_extension"
| "event_id (YieldGraphReplacement i g) = k_yield_graph_replacement"
| "event_id (YieldNewAction a) = k_yield_new_action"
| "event_id YieldClearActions = k_yield_clear_actions"
| "event_id InterpreterDone = k_done"
| "event_id (InterpreterOrderControl a c) = k_order_control"

type_synonym SystemWorld = "StateWorld \<times> OrderWorld"

definition on_state :: "'a seh \<Rightarrow> (SystemWorld, 'a) comp" where
  "on_state m = (\<lambda>(ws, wo). case m ws of (r, ws') \<Rightarrow> (r, (ws', wo)))"

definition on_order :: "'a oeh \<Rightarrow> (SystemWorld, 'a) comp" where
  "on_order m = (\<lambda>(ws, wo). case m wo of (r, wo') \<Rightarrow> (r, (ws, wo')))"

lemma run_on_state [run_simps]: "on_state m (ws, wo) = (case m ws of (r, ws') \<Rightarrow> (r, (ws', wo)))"
  by (simp add: on_state_def)

lemma run_on_order [run_simps]: "on_order m (ws, wo) = (case m wo of (r, wo') \<Rightarrow> (r, (ws, wo')))"
  by (simp add: on_order_def)

text \<open>
  The subscriptions of \<^verbatim>\<open>OrderEventHandler::initialize\<close>, then those of
  \<^verbatim>\<open>StateEventHandler::initialize\<close>. The synchronous subscribers of the scheduler and the answers to its
  queries are arguments.
\<close>

definition subscribe_all ::
  "nat \<Rightarrow> 't list \<Rightarrow> ('e \<Rightarrow> ('w, unit) comp) \<Rightarrow> ('t, 'e, 'w) EventManager \<Rightarrow> ('t, 'e, 'w) EventManager" where
  "subscribe_all owner ts callback m = fold (\<lambda>t. subscribe owner t callback) ts m"

definition order_subscriptions :: "InterpreterEventType list" where
  "order_subscriptions =
     [k_yield_action_group, k_yield_navigation_step, k_yield_instant_action_group, k_yield_new_action, k_done, k_order_control]"

definition state_subscriptions :: "InterpreterEventType list" where
  "state_subscriptions = [k_yield_graph_extension, k_yield_graph_replacement, k_yield_new_action, k_yield_clear_actions]"

definition interpreter_manager ::
  "bool \<Rightarrow> order_subscribers \<Rightarrow> QueryPauseResumeResult Result \<Rightarrow> QueryPauseResumeResult Result \<Rightarrow>
   (InterpreterEventType, InterpreterEvent, SystemWorld) EventManager" where
  "interpreter_manager synchronous subs p q =
     subscribe_all 1 state_subscriptions (\<lambda>ev. on_state (state_on_interpreter ev))
       (subscribe_all 0 order_subscriptions (\<lambda>ev. on_order (order_on_interpreter subs p q ev))
         (GenericEventManager synchronous))"

lemma interpreter_manager_simps [simp]:
  "synchronous_event_dispatch (interpreter_manager sync subs p q) = sync"
  "thread (interpreter_manager sync subs p q) = (if sync then Returned else Processing)"
  "event_queue (interpreter_manager sync subs p q) = []"
  by (simp_all add: interpreter_manager_def subscribe_all_def subscribe_def state_subscriptions_def
      order_subscriptions_def GenericEventManager_def EventManager_new_def)

text \<open>An event as both subscribers see it; a handler that is not subscribed to it does nothing.\<close>

definition both_handle ::
  "order_subscribers \<Rightarrow> QueryPauseResumeResult Result \<Rightarrow> QueryPauseResumeResult Result \<Rightarrow>
   InterpreterEvent \<Rightarrow> (SystemWorld, unit) comp" where
  "both_handle subs p q ev =
     seqM (on_order (order_on_interpreter subs p q ev)) (on_state (state_on_interpreter ev))"

lemma seqM_ret [simp]: "seqM m (ret ()) = m"
  by (rule ext) (auto simp: run_simps split: prod.split sum.split)

lemma on_ret [simp]: "on_order (ret ()) = ret ()" "on_state (ret ()) = ret ()"
  by (auto simp: fun_eq_iff run_simps)

lemma ret_seqM [simp]: "seqM (ret ()) m = m"
  by (rule ext) (simp add: run_simps)

lemma call_interpreter_listeners:
  "call_listeners (interpreter_manager sync subs p q) (event_id ev) ev = both_handle subs p q ev"
  by (cases ev)
    (simp_all add: call_listeners_def callbacks_def interpreter_manager_def subscribe_all_def
      subscribe_def state_subscriptions_def order_subscriptions_def GenericEventManager_def
      EventManager_new_def both_handle_def)

section \<open>The graph of an order\<close>

lemma interleave_keys:
  "p \<in> set (interleave rest) \<longleftrightarrow>
     (\<exists>(e, n) \<in> set rest. p = (e_sequenceId e, EdgeElement e) \<or> p = (n_sequenceId n, NodeElement n))"
  by (induction rest rule: interleave.induct) auto

lemma chain_graph:
  assumes "chain_ok s r rest"
  shows "wf_map ((s, x) # interleave rest)" and "contiguous ((s, x) # interleave rest)"
  using assms
proof (induction s r rest arbitrary: x rule: chain_ok.induct)
  case (2 s r e n rest)
  {
    case 1
    have rest: "chain_ok (s + 2) (n_released n) rest" and seq: "s < s + 1" "s + 1 < s + 2"
      "e_sequenceId e = s + 1" "n_sequenceId n = s + 2"
      using 1 by simp_all
    have "s + 2 < fst p" if "p \<in> set (interleave rest)" for p
      using that chain_above [OF rest] by (auto simp: interleave_keys)
    then have "\<forall>p \<in> set (interleave rest). s < fst p \<and> s + 1 < fst p"
      using seq by (meson less_trans)
    then show ?case
      using "2.IH"(1) [OF rest, of "NodeElement n"] seq less_trans [OF seq(1,2)]
      by (simp add: wf_map_Cons)
  next
    case 2
    have rest: "chain_ok (s + 2) (n_released n) rest" and seq: "e_sequenceId e = s + 1" "n_sequenceId n = s + 2"
      using 2 by simp_all
    note IH = "2.IH"(2) [OF rest, of "NodeElement n"]
    let ?m = "(s + 2, NodeElement n) # interleave rest"
    have last: "last ((s, x) # (s + 1, EdgeElement e) # ?m) = last ?m" by simp
    have "fst p + 1 \<in> fst ` set ((s, x) # (s + 1, EdgeElement e) # ?m)"
      if "p \<in> set ((s, x) # (s + 1, EdgeElement e) # ?m)" "fst p \<noteq> fst (last ?m)" for p
    proof -
      have "p = (s, x) \<or> p = (s + 1, EdgeElement e) \<or> p \<in> set ?m" using that(1) by auto
      then show ?thesis
      proof (elim disjE)
        assume "p \<in> set ?m"
        then show ?thesis using contiguousD [OF IH _ that(2)] by force
      qed (auto simp: add.assoc)
    qed
    then show ?case using seq last by (intro contiguousI) simp
  }
qed (simp_all add: contiguous_def wf_map_def)

lemma order_graph_ok:
  assumes "order_ok order" and "base_below_horizon order"
  shows "graph_inv (order_graph order)" and "contiguous (graph_map (order_graph order))"
    and "fst (hd (graph_map (order_graph order))) = n_sequenceId (hd (o_nodes order))"
    and "n_released (hd (o_nodes order)) \<Longrightarrow> base_part (graph_map (order_graph order)) \<noteq> []"
proof -
  obtain n ns where nodes: "o_nodes order = n # ns"
    using assms(1) by (cases "o_nodes order") (simp_all add: order_ok_def)
  have chain: "chain_ok (n_sequenceId n) (n_released n) (legs order)"
    and len: "length (o_edges order) = length ns"
    using assms(1) nodes by (simp_all add: order_ok_def legs_def)
  have m: "graph_map (order_graph order) = (n_sequenceId n, NodeElement n) # interleave (legs order)"
    using nodes by (simp add: order_graph_def Let_def)
  have proj: "map fst (legs order) = o_edges order" "map snd (legs order) = ns"
    using nodes len by (simp_all add: legs_def)
  note ids = order_ids_legs [OF nodes proj]
  have base: "fst p \<in> (if isHorizon (snd p) then horizon_ids order else base_ids order)"
    if "p \<in> set (graph_map (order_graph order))" for p
    using that unfolding m ids leg_ids_def by (auto simp: interleave_keys image_iff) (force+)
  show "graph_inv (order_graph order)"
    unfolding graph_inv_def
  proof (intro conjI)
    show "wf_map (graph_map (order_graph order))" unfolding m by (rule chain_graph [OF chain])
    show "keys_ok (graph_map (order_graph order))" unfolding m by (auto simp: keys_ok_def interleave_keys)
    show "base_before_horizon (graph_map (order_graph order))"
      unfolding base_before_horizon_def
      using base assms(2) unfolding base_below_horizon_def by (metis less_asym)
  qed (simp add: m)
  show "contiguous (graph_map (order_graph order))" unfolding m by (rule chain_graph [OF chain])
  show "fst (hd (graph_map (order_graph order))) = n_sequenceId (hd (o_nodes order))"
    by (simp add: m nodes)
  show "base_part (graph_map (order_graph order)) \<noteq> []" if "n_released (hd (o_nodes order))"
    using that by (simp add: m nodes)
qed

section \<open>The scheduler's part of a plan\<close>

definition is_task :: "InterpreterEvent \<Rightarrow> bool" where
  "is_task ev \<longleftrightarrow> event_id ev = k_yield_navigation_step \<or> event_id ev = k_yield_action_group"

definition plan_event :: "InterpreterEvent \<Rightarrow> bool" where
  "plan_event ev \<longleftrightarrow>
     event_id ev \<noteq> k_done \<and> event_id ev \<noteq> k_yield_instant_action_group \<and> event_id ev \<noteq> k_order_control"

definition new_actions :: "InterpreterEvent list \<Rightarrow> Action list" where
  "new_actions evs = concat (map (\<lambda>ev. case ev of YieldNewAction a \<Rightarrow> [a] | _ \<Rightarrow> []) evs)"

text \<open>The order event handler queues the tasks in the staging area and has the actions prepared.\<close>

definition staged :: "InterpreterEvent list \<Rightarrow> OrderWorld \<Rightarrow> OrderWorld" where
  "staged evs wo =
     wo\<lparr>ow_scheduler := (ow_scheduler wo)\<lparr>rcv_evt_queue_staging :=
          rcv_evt_queue_staging (ow_scheduler wo) @ filter is_task evs\<rparr>,
        ow_out := ow_out wo @ map PrepareAction (new_actions evs)\<rparr>"

lemma staged_Nil [simp]: "staged [] wo = wo"
  by (simp add: staged_def new_actions_def)

lemma staged_Cons: "staged (ev # evs) wo = staged evs (staged [ev] wo)"
  by (simp add: staged_def new_actions_def)

lemma order_handles_plan_event:
  "plan_event ev \<Longrightarrow> order_on_interpreter subs p q ev wo = (Inr (), staged [ev] wo)"
  by (cases ev)
    (simp_all add: plan_event_def staged_def is_task_def new_actions_def handleYieldNormal_def
      handleYieldNewAction_def logged_def try_log_def enqueue_def run_simps)

lemma both_handle_plan:
  assumes "\<forall>ev \<in> set evs. plan_event ev" and "forM evs state_on_interpreter ws = (Inr (), ws')"
  shows "forM evs (both_handle subs p q) (ws, wo) = (Inr (), (ws', staged evs wo))"
  using assms
proof (induction evs arbitrary: ws wo)
  case (Cons ev evs)
  obtain ws1 where "state_on_interpreter ev ws = (Inr (), ws1)"
    "forM evs state_on_interpreter ws1 = (Inr (), ws')"
    using Cons.prems(2) by (auto simp: run_simps split: prod.splits sum.splits)
  moreover have "plan_event ev" using Cons.prems(1) by simp
  ultimately have "forM (ev # evs) (both_handle subs p q) (ws, wo) =
      forM evs (both_handle subs p q) (ws1, staged [ev] wo)"
    by (simp add: both_handle_def run_simps order_handles_plan_event)
  also have "... = (Inr (), (ws', staged evs (staged [ev] wo)))"
    using Cons.prems(1) \<open>forM evs state_on_interpreter ws1 = (Inr (), ws')\<close> by (intro Cons.IH) simp_all
  finally show ?case by (simp only: staged_Cons [of ev evs wo])
qed (simp add: run_simps)

section \<open>The state's part of a plan\<close>

definition state_event :: "InterpreterEvent \<Rightarrow> bool" where
  "state_event ev \<longleftrightarrow> event_id ev \<in> set state_subscriptions"

lemma state_ignores: "\<not> state_event ev \<Longrightarrow> state_on_interpreter ev ws = (Inr (), ws)"
  by (cases ev) (simp_all add: state_event_def state_subscriptions_def run_simps)

lemma state_run_filter:
  "forM evs state_on_interpreter ws = forM (filter state_event evs) state_on_interpreter ws"
  by (induction evs arbitrary: ws) (auto simp: run_simps state_ignores split: prod.split sum.split)

lemma filter_state_event [simp]:
  "filter state_event (map YieldNewAction as) = map YieldNewAction as"
  "filter state_event (nav_event goal as) = []" "filter state_event (group_events as) = []"
proof -
  show "filter state_event (map YieldNewAction as) = map YieldNewAction as"
    by (induction as) (simp_all add: state_event_def state_subscriptions_def)
  show "filter state_event (nav_event goal as) = []"
    by (cases "(goal, as)" rule: nav_event.cases) (simp_all add: state_event_def state_subscriptions_def)
  show "filter state_event (group_events as) = []"
    by (simp add: group_events_def filter_empty_iff state_event_def state_subscriptions_def)
qed

lemma filter_state_raise [simp]: "filter state_event (raise_first b evs) = filter state_event evs"
  by (induction b evs rule: raise_first.induct) (simp_all add: state_event_def state_subscriptions_def)

lemma state_event_simps [simp]:
  "state_event (graph_event u i g)" "state_event YieldClearActions"
  by (simp_all add: graph_event_def state_event_def state_subscriptions_def)

lemma filter_plan_rest:
  "chain_ok s r rest \<Longrightarrow> filter state_event (plan_rest goal acts rest) =
     map YieldNewAction (concat (map (\<lambda>(e, n). if e_released e then e_actions e @ n_actions n else []) rest))"
proof (induction rest arbitrary: s r goal acts)
  case (Cons leg rest)
  obtain e n where leg [simp]: "leg = (e, n)" by force
  show ?case
  proof (cases "e_released e")
    case False
    then have "chain_ok (s + 2) False rest" using Cons.prems by (cases "n_released n") simp_all
    then have "concat (map (\<lambda>(e, n). if e_released e then e_actions e @ n_actions n else []) rest) = []"
      using chain_unreleased by fastforce
    then show ?thesis using False by simp
  next
    case True
    have "chain_ok (s + 2) (n_released n) rest" using Cons.prems by simp
    from Cons.IH [OF this] show ?thesis using True by simp
  qed
qed simp

lemma filter_order_plan:
  assumes "order_ok order"
  shows "filter state_event (order_plan order) =
    (if o_orderUpdateId order = 0 then [YieldClearActions] else []) @
    map YieldNewAction (base_actions order) @
    [graph_event (o_orderUpdateId order) (o_orderId order) (order_graph order)]"
proof -
  obtain n ns where "o_nodes order = n # ns" "chain_ok (n_sequenceId n) (n_released n) (legs order)"
    using assms by (cases "o_nodes order") (simp_all add: order_ok_def legs_def)
  then show ?thesis using filter_plan_rest by (simp add: order_plan_def base_actions_def)
qed

text \<open>Actions with new ids are added one after the other.\<close>

definition add_actions :: "Action list \<Rightarrow> OrderManager \<Rightarrow> OrderManager" where
  "add_actions as om = fold (\<lambda>a m. snd (addNewAction (Some a) m)) as om"

lemma addNewAction_fields:
  "om_graph (snd (addNewAction x m)) = om_graph m" "order_id (snd (addNewAction x m)) = order_id m"
  "order_update_id (snd (addNewAction x m)) = order_update_id m"
  "order_status (snd (addNewAction x m)) = order_status m"
  by (auto simp: addNewAction_def addNewAction_locked_def run_simps split: option.split)

lemma add_actions_fields [simp]:
  "om_graph (add_actions as m) = om_graph m" "order_id (add_actions as m) = order_id m"
  "order_update_id (add_actions as m) = order_update_id m"
  "order_status (add_actions as m) = order_status m"
  by (induction as arbitrary: m) (simp_all add: add_actions_def addNewAction_fields)

lemma add_one:
  assumes "om_inv (w_om ws)" and "distinct (map actionId (b # bs))"
    and "\<forall>a \<in> set (b # bs). map_of (action_by_id (w_om ws)) (actionId a) = None"
  defines "ws' \<equiv> ws\<lparr>w_om := snd (addNewAction (Some b) (w_om ws))\<rparr>"
  shows "state_on_interpreter (YieldNewAction b) ws = (Inr (), ws')" and "om_inv (w_om ws')"
    and "distinct (map actionId bs)"
    and "\<forall>a \<in> set bs. map_of (action_by_id (w_om ws')) (actionId a) = None"
    and "map_of (action_state_by_id (w_om ws')) =
      (map_of (action_state_by_id (w_om ws)))(actionId b \<mapsto> new_action_state b)"
    and "add_actions (b # bs) (w_om ws) = add_actions bs (w_om ws')"
proof -
  have none: "map_of (action_by_id (w_om ws)) (actionId b) = None" using assms(3) by simp
  note new = addNewAction_new [OF assms(1) none]
  show "state_on_interpreter (YieldNewAction b) ws = (Inr (), ws')"
    by (simp add: handleNewActionEvent_def run_simps new(1) ws'_def)
  show "om_inv (w_om ws')" using new(1,2) by (simp add: ws'_def)
  show "distinct (map actionId bs)" using assms(2) by simp
  show "\<forall>a \<in> set bs. map_of (action_by_id (w_om ws')) (actionId a) = None"
    using assms(2,3) new(1,3) by (auto simp: image_iff ws'_def)
  show "map_of (action_state_by_id (w_om ws')) =
      (map_of (action_state_by_id (w_om ws)))(actionId b \<mapsto> new_action_state b)"
    using new(1,4) by (simp add: ws'_def)
  show "add_actions (b # bs) (w_om ws) = add_actions bs (w_om ws')"
    by (simp add: add_actions_def ws'_def)
qed

lemma add_actions_run:
  assumes "om_inv (w_om ws)" and "distinct (map actionId as)"
    and "\<forall>a \<in> set as. map_of (action_by_id (w_om ws)) (actionId a) = None"
  shows "forM (map YieldNewAction as) state_on_interpreter ws = (Inr (), ws\<lparr>w_om := add_actions as (w_om ws)\<rparr>) \<and>
    om_inv (add_actions as (w_om ws)) \<and>
    (\<forall>i. map_of (action_state_by_id (add_actions as (w_om ws))) i =
       (case List.find (\<lambda>a. actionId a = i) as of
          Some a \<Rightarrow> Some (new_action_state a)
        | None \<Rightarrow> map_of (action_state_by_id (w_om ws)) i))"
  using assms
proof (induction as arbitrary: ws)
  case (Cons b bs)
  note one = add_one [OF Cons.prems]
  note IH = Cons.IH [OF one(2-4)]
  have "List.find (\<lambda>a. actionId a = actionId b) bs = None"
    using Cons.prems(2) unfolding find_None_iff by (metis distinct.simps(2) image_eqI list.set_map list.simps(9))
  then show ?case
    using IH one(1,5,6) by (auto simp: run_simps split: option.split)
qed (simp add: add_actions_def run_simps)

end
