(* ===== verification/OrderFlowProps.thy ===== *)
theory OrderFlowProps
  imports OrderFlow "HOL-Library.Multiset"
begin

text \<open>
  End to end: an accepted order update reaches the state and the scheduler as a whole, and accepted
  orders that stop the vehicle, because the graph they carry does not fit and the exception
  ends the event processing.
\<close>

section \<open>The base actions of an order\<close>

lemma distinct_sub:
  assumes "mset xs \<subseteq># mset ys" and "distinct (map f ys)"
  shows "distinct (map f xs)"
proof -
  obtain zs where "mset ys = mset xs + mset zs"
    using assms(1) by (metis ex_mset mset_subset_eq_exists_conv)
  then have "mset (map f ys) = mset (map f xs @ map f zs)" by simp
  then show ?thesis using assms(2) mset_eq_imp_distinct_iff by (metis distinct_append)
qed

lemma leg_actions:
  "mset (concat (map (\<lambda>(e, n). if e_released e then e_actions e @ n_actions n else []) (zip es ns))) \<subseteq>#
     mset (concat (map n_actions ns)) + mset (concat (map e_actions es))"
proof (induction es ns rule: list_induct2')
  case (4 e es n ns)
  let ?A = "mset (concat (map n_actions ns)) + mset (concat (map e_actions es))"
  have "mset (e_actions e) + mset (n_actions n) +
      mset (concat (map (\<lambda>(e, n). if e_released e then e_actions e @ n_actions n else []) (zip es ns))) \<subseteq>#
      mset (e_actions e) + mset (n_actions n) + ?A"
    using 4 by (intro mset_subset_eq_mono_add) simp_all
  moreover have "mset (concat (map (\<lambda>(e, n). if e_released e then e_actions e @ n_actions n else []) (zip es ns))) \<subseteq>#
      mset (e_actions e) + mset (n_actions n) + ?A"
    using 4 by (rule subset_mset.order_trans) simp
  ultimately show ?case by (simp add: ac_simps)
qed simp_all

lemma base_actions_sub:
  assumes "o_nodes order \<noteq> []"
  shows "mset (base_actions order) \<subseteq># mset (order_actions order)"
proof -
  obtain n ns where nodes: "o_nodes order = n # ns" using assms by (cases "o_nodes order") auto
  have "mset (first_actions order) \<subseteq># mset (n_actions n)"
    using nodes by (simp add: first_actions_def Let_def)
  from mset_subset_eq_mono_add [OF this leg_actions [of "o_edges order" ns]]
  show ?thesis using nodes
    by (simp add: base_actions_def order_actions_def legs_def ac_simps)
qed

lemma base_actions_subset: "o_nodes order \<noteq> [] \<Longrightarrow> set (base_actions order) \<subseteq> set (order_actions order)"
  using set_mset_mono [OF base_actions_sub] by simp

lemma base_actions_distinct:
  "o_nodes order \<noteq> [] \<Longrightarrow> distinct (map f (order_actions order)) \<Longrightarrow> distinct (map f (base_actions order))"
  by (rule distinct_sub [OF base_actions_sub])

section \<open>An update that passes the checks extends the base\<close>

text \<open>A graph that can be extended: no gap, a base, and room behind it.\<close>

definition extendable :: "Graph \<Rightarrow> bool" where
  "extendable g \<longleftrightarrow>
     graph_inv g \<and> contiguous (graph_map g) \<and> base_part (graph_map g) \<noteq> [] \<and>
     fst (last (base_part (graph_map g))) < fst (last (base_part (graph_map g))) + 1"

text \<open>What the checks leave open: the order of the nodes and edges, and what belongs to the base.\<close>

definition regular_order :: "Order \<Rightarrow> bool" where
  "regular_order order \<longleftrightarrow>
     sorted_order order \<and> base_ends_with_node order \<and> n_released (hd (o_nodes order))"

lemma min_node_first: "\<forall>x \<in> set ns. n_sequenceId n < n_sequenceId x \<Longrightarrow> min_node n ns = n"
  by (induction ns) auto

lemma regular_min_node:
  assumes "sorted_order order" and "o_nodes order = n # ns"
  shows "min_node n ns = n"
  using assms by (intro min_node_first) (simp add: sorted_order_def)

lemma checked_order_ok:
  assumes "regular_order order" and "checkOrderGraphConsistency order = []"
  shows "order_ok order" and "base_below_horizon order" and "o_nodes order \<noteq> []"
  using assms consistent_order_ok(1) [of order] checkOrderGraphConsistency_eq [of order]
  by (auto simp: regular_order_def base_below_horizon_def)

lemma accepted_update_extends:
  assumes "om_graph m = Some g" and "extendable g"
    and "o_orderId order = order_id m" and "order_update_id m < o_orderUpdateId order"
    and "order_status m \<noteq> k_order_idle" and "order_status m \<noteq> k_order_idle_paused"
    and "checkOrderAppend m order = Inr []" and "checkOrderGraphConsistency order = []"
    and "regular_order order"
  shows "extends_base g (order_graph order)"
proof -
  note ok = checked_order_ok [OF assms(9,8)]
  obtain n ns where nodes: "o_nodes order = n # ns" using ok(3) by (cases "o_nodes order") auto
  have g: "graph_map g \<noteq> []" "base_part (graph_map g) \<noteq> []"
    using assms(2) by (auto simp: extendable_def graph_inv_def)
  have sorted: "sorted_order order" using assms(9) by (simp add: regular_order_def)
  have "baseBounds g = Inr (fst (hd (graph_map g)), fst (last (base_part (graph_map g))))"
    using baseBounds_eq [OF g(1)] g(2) by simp
  then have "fst (last (base_part (graph_map g))) = n_sequenceId n"
    using assms(1,3-7) nodes regular_min_node [OF sorted nodes]
    by (auto simp: checkOrderAppend_def Let_def not_le split: if_splits)
  then show ?thesis
    using assms(2,9) order_graph_ok [OF ok(1,2)] nodes
    by (auto simp: extends_base_def extendable_def regular_order_def Let_def order_graph_def)
qed

section \<open>The state after the whole plan\<close>

definition announcement :: "Graph \<Rightarrow> Graph \<Rightarrow> StateOut list" where
  "announcement g x =
     (let new = base_behind (fst (last (base_part (graph_map g)))) x
      in if graph_map new = [] then []
         else [NavDispatch (NavigationBaseIncreased (getNodes new) (getEdges new))])"

lemma forM_append:
  "forM (xs @ ys) f s = (case forM xs f s of (Inl x, t) \<Rightarrow> (Inl x, t) | (Inr _, t) \<Rightarrow> forM ys f t)"
  by (induction xs arbitrary: s) (auto simp: run_simps split: prod.split sum.split)

lemma find_key: "distinct (map f xs) \<Longrightarrow> a \<in> set xs \<Longrightarrow> List.find (\<lambda>x. f x = f a) xs = Some a"
  by (induction xs) auto

lemma fresh_base_actions:
  assumes "checkOrderActionIds m order = []" and "o_nodes order \<noteq> []"
  shows "distinct (map actionId (base_actions order))"
    and "\<forall>a \<in> set (base_actions order). map_of (action_by_id m) (actionId a) = None"
  using checkOrderActionIds_ok [OF assms(1)] base_actions_distinct [OF assms(2)]
    base_actions_subset [OF assms(2)]
  by auto

lemma update_state:
  assumes "om_inv (w_om ws)" and "om_graph (w_om ws) = Some g" and "extends_base g (order_graph order)"
    and "order_ok order" and "o_orderUpdateId order \<noteq> 0" and "checkOrderActionIds (w_om ws) order = []"
  shows "forM (raise_first b (order_plan order)) state_on_interpreter ws =
    (Inr (), ws\<lparr>w_om := (add_actions (base_actions order) (w_om ws))
         \<lparr>order_update_id := o_orderUpdateId order, om_graph := Some (extended (order_graph order) g)\<rparr>,
       w_out := w_out ws @ announcement g (order_graph order)\<rparr>)"
proof -
  have nodes: "o_nodes order \<noteq> []" using assms(4) by (auto simp: order_ok_def)
  let ?ws = "ws\<lparr>w_om := add_actions (base_actions order) (w_om ws)\<rparr>"
  have "forM (map YieldNewAction (base_actions order)) state_on_interpreter ws = (Inr (), ?ws)"
    using add_actions_run [OF assms(1) fresh_base_actions [OF assms(6) nodes]] by simp
  moreover have "state_on_interpreter (graph_event (o_orderUpdateId order) (o_orderId order) (order_graph order)) ?ws =
    (Inr (), ws\<lparr>w_om := (add_actions (base_actions order) (w_om ws))
         \<lparr>order_update_id := o_orderUpdateId order, om_graph := Some (extended (order_graph order) g)\<rparr>,
       w_out := w_out ws @ announcement g (order_graph order)\<rparr>)"
  proof -
    have "om_graph (w_om ?ws) = Some g" using assms(2) by simp
    note ext = handle_extension [OF this assms(3), of "o_orderUpdateId order"]
    have "0 < o_orderUpdateId order" using assms(5) by (simp add: word_neq_0_conv)
    then show ?thesis
      unfolding graph_event_def announcement_def Let_def by (simp only: if_True state_on_interpreter.simps ext) simp
  qed
  ultimately show ?thesis
    using assms(5)
    by (simp add: state_run_filter [of "raise_first b (order_plan order)"] filter_order_plan [OF assms(4)]
        forM_append run_simps)
qed

section \<open>The plan in the event manager\<close>

definition interpreter_events :: "InterpreterOut list \<Rightarrow> InterpreterEvent list" where
  "interpreter_events out = concat (map (\<lambda>x. case x of IDispatch ev \<Rightarrow> [ev] | _ \<Rightarrow> []) out)"

text \<open>The interpreter handles an order; the manager's thread gets as far as the end marker.\<close>

definition order_ops :: "BlockingType \<Rightarrow> Order \<Rightarrow> (InterpreterEventType, InterpreterEvent) ManagerOp list" where
  "order_ops indeterminate order =
     (let evs = interpreter_events (snd (handleValidOrder indeterminate (Some order) []))
      in map (\<lambda>ev. Dispatch (event_id ev) ev) evs @ replicate (length evs - 1) Process)"

lemma interpreter_events_simps [simp]:
  "interpreter_events (map IDispatch evs @ out) = evs @ interpreter_events out"
  "interpreter_events (IDispatch ev # out) = ev # interpreter_events out"
  "interpreter_events [IRequestStateUpdate u] = []"
  by (induction evs) (simp_all add: interpreter_events_def)

lemma order_ops_eq:
  assumes "order_ok order"
  shows "order_ops b order =
    map (\<lambda>(t, ev). Dispatch t ev) (map (\<lambda>ev. (event_id ev, ev)) (raise_first b (order_plan order) @ [InterpreterDone])) @
    replicate (length (raise_first b (order_plan order))) Process"
  by (simp add: order_ops_def handleValidOrder_def interpret_order [OF assms] Let_def comp_def)

lemma plan_event_raise: "(\<forall>ev \<in> set (raise_first b evs). plan_event ev) \<longleftrightarrow> (\<forall>ev \<in> set evs. plan_event ev)"
  by (induction b evs rule: raise_first.induct) (simp_all add: plan_event_def)

lemma plan_event_parts:
  "\<forall>ev \<in> set (group_events as). plan_event ev" "\<forall>ev \<in> set (nav_event goal as). plan_event ev"
  "plan_event (YieldNewAction a)" "plan_event YieldClearActions" "plan_event (graph_event u i g)"
  by (auto simp: group_events_def plan_event_def graph_event_def)
    (cases "(goal, as)" rule: nav_event.cases, simp_all)+

lemma plan_events: "\<forall>ev \<in> set (raise_first b (order_plan order)). plan_event ev"
proof -
  have "\<forall>ev \<in> set (plan_rest goal acts rest). plan_event ev" for goal acts rest
    by (induction goal acts rest rule: plan_rest.induct) (auto simp: plan_event_parts)
  then show ?thesis unfolding plan_event_raise by (auto simp: order_plan_def plan_event_parts)
qed

lemma forM_pairs:
  "forM (map (\<lambda>ev. (event_id ev, ev)) evs)
     (\<lambda>(t, e). call_listeners (interpreter_manager sync subs p q) t e) w = forM evs (both_handle subs p q) w"
  by (induction evs arbitrary: w)
    (simp_all add: run_simps call_interpreter_listeners split: prod.split sum.split)

text \<open>A plan that both subscribers handle.\<close>

lemma run_plan:
  assumes "order_ok order"
    and "forM (raise_first b (order_plan order)) state_on_interpreter ws = (Inr (), ws')"
  shows "run_ops manager_step (order_ops b order) (interpreter_manager False subs p q, (ws, wo)) =
    ((interpreter_manager False subs p q)\<lparr>event_queue := [(k_done, InterpreterDone)]\<rparr>,
     (ws', staged (raise_first b (order_plan order)) wo))"
proof -
  let ?m = "interpreter_manager False subs p q" and ?plan = "raise_first b (order_plan order)"
  let ?es = "map (\<lambda>ev. (event_id ev, ev)) ?plan"
  have "forM ?es (\<lambda>(t, e). call_listeners ?m t e) (ws, wo) = (Inr (), (ws', staged ?plan wo))"
    unfolding forM_pairs by (rule both_handle_plan [OF plan_events assms(2)])
  from process_all [OF _ this, of "[(k_done, InterpreterDone)]"]
  have "run_ops manager_step (replicate (length ?plan) Process)
      (?m\<lparr>event_queue := ?es @ [(k_done, InterpreterDone)]\<rparr>, (ws, wo)) =
    (?m\<lparr>event_queue := [(k_done, InterpreterDone)]\<rparr>, (ws', staged ?plan wo))"
    by simp
  then show ?thesis
    unfolding order_ops_eq [OF assms(1)] run_ops_append
    by (subst dispatch_all) simp_all
qed

text \<open>A plan whose last event makes the state event handler throw.\<close>

lemma run_failing_plan:
  assumes "order_ok order" and "raise_first b (order_plan order) = evs @ [ev]"
    and "forM evs state_on_interpreter ws = (Inr (), ws1)" and "state_on_interpreter ev ws1 = (Inl x, ws2)"
  shows "snd (run_ops manager_step (order_ops b order @ ops) (interpreter_manager False subs p q, (ws, wo))) =
    (ws2, staged (evs @ [ev]) wo)"
proof -
  let ?m = "interpreter_manager False subs p q"
  let ?es = "map (\<lambda>ev. (event_id ev, ev)) evs" and ?rest = "[(event_id ev, ev), (k_done, InterpreterDone)]"
  have plan: "\<forall>e \<in> set evs. plan_event e" "plan_event ev"
    using plan_events [of b order] unfolding assms(2) by simp_all
  have "forM ?es (\<lambda>(t, e). call_listeners ?m t e) (ws, wo) = (Inr (), (ws1, staged evs wo))"
    unfolding forM_pairs by (rule both_handle_plan [OF plan(1) assms(3)])
  from process_all [OF _ this, of ?rest]
  have "run_ops manager_step (replicate (length evs) Process) (?m\<lparr>event_queue := ?es @ ?rest\<rparr>, (ws, wo)) =
      (?m\<lparr>event_queue := ?rest\<rparr>, (ws1, staged evs wo))" by simp
  then have "run_ops manager_step (order_ops b order) (?m, (ws, wo)) =
      threadTask (?m\<lparr>event_queue := ?rest\<rparr>, (ws1, staged evs wo))"
    unfolding order_ops_eq [OF assms(1)] run_ops_append assms(2)
    by (subst dispatch_all) (simp_all add: replicate_append_same [symmetric] run_ops_append)
  moreover have "staged [ev] (staged evs wo) = staged (evs @ [ev]) wo"
    by (simp add: staged_def new_actions_def)
  moreover have "call_listeners (?m\<lparr>event_queue := ?rest\<rparr>) (event_id ev) ev (ws1, staged evs wo) =
      both_handle subs p q ev (ws1, staged evs wo)"
    using call_listeners_cong [of "?m\<lparr>event_queue := ?rest\<rparr>" ?m] by (simp add: call_interpreter_listeners)
  ultimately show ?thesis
    using assms(4) order_handles_plan_event [OF plan(2)]
    unfolding run_ops_append
    by (simp add: threadTask_def both_handle_def run_simps ended_run)
qed

section \<open>A vehicle on its way\<close>

text \<open>The sample graph is being driven; an update appends a node that has an action.\<close>

definition driving_manager :: OrderManager where
  "driving_manager = OrderManager_new
     \<lparr>order_id := ''o'', om_graph := Some sample_graph, order_status := k_order_active\<rparr>"

definition update_order :: Order where
  "update_order = (pick_order 1)
     \<lparr>o_nodes := [sample_node 2 True, (sample_node 4 True)\<lparr>n_actions := [sample_action]\<rparr>],
      o_edges := [sample_edge 3 True]\<rparr>"

lemma update_order_regular: "regular_order update_order"
  by (simp add: regular_order_def sorted_order_def base_ends_with_node_def update_order_def)
    (simp add: sample_defs)

lemma sample_graph_extendable: "extendable sample_graph"
  by (simp add: extendable_def) (simp add: sample_graph_defs)

lemma update_order_checks: "order_checks sample_env driving_manager update_order = Inr []"
proof -
  have "baseBounds sample_graph = Inr (0, 2)"
    by (subst baseBounds_eq) (simp_all, simp_all add: sample_graph_defs)
  then have "checkOrderAppend driving_manager update_order = Inr []"
    by (simp add: checkOrderAppend_def driving_manager_def update_order_def pick_order_def
        OrderManager_new_def sample_defs)
  moreover have "checkHeader (env_fmt_set sample_env) (env_manufacturer sample_env)
      (env_serial sample_env) (o_header update_order) = []"
    by (simp add: checkHeader_def update_order_def pick_order_def sample_env_def compatible_versions_def
        current_version_def)
  moreover have "checkOrderId driving_manager update_order = []"
    by (simp add: checkOrderId_def driving_manager_def update_order_def pick_order_def OrderManager_new_def)
  moreover have "checkOrderActionIds driving_manager update_order = []"
    by (simp add: checkOrderActionIds_def order_actions_def uniqueActionId_def update_order_def
        driving_manager_def OrderManager_new_def sample_defs)
  moreover have "checkOrderGraphConsistency update_order = []"
    by (rule order_ok_consistent)
      (simp_all add: order_ok_def update_order_def pick_order_def sample_defs legs_def)
  moreover have "o_zoneSetId update_order = None" by (simp add: update_order_def pick_order_def)
  ultimately show ?thesis by (simp add: order_checks_def)
qed

text \<open>Nobody has subscribed to the scheduler's reports.\<close>

definition silent_subscribers :: order_subscribers where
  "silent_subscribers = (\<lambda>_. None)"

definition idle_order_world :: OrderWorld where
  "idle_order_world = \<lparr>ow_scheduler = Scheduler_new, ow_out = []\<rparr>"

section \<open>Properties\<close>

text \<open>C1: An accepted update of the running order takes effect as a whole. When the graph of the
  order can be extended, the update passes all checks and is regular, then interpreting it and
  processing the events leads to the extended graph and the new update id, every action of the new
  base is known and waiting, the navigation is told about exactly the new part of the base, and
  the scheduler has been given exactly the navigation steps and action groups of the order's plan;
  the manager goes on, with the commit as its next event.\<close>

theorem accepted_update_takes_effect:
  assumes "w_inv ws" and "om_graph (w_om ws) = Some g" and "extendable g"
    and "o_orderId order = order_id (w_om ws)" and "order_update_id (w_om ws) < o_orderUpdateId order"
    and "order_status (w_om ws) \<noteq> k_order_idle" and "order_status (w_om ws) \<noteq> k_order_idle_paused"
    and "order_checks env (w_om ws) order = Inr []" and "regular_order order"
  shows "case run_ops manager_step (order_ops b order) (interpreter_manager False subs p q, (ws, wo)) of
    (m, (ws', wo')) \<Rightarrow>
      thread m = Processing \<and> event_queue m = [(k_done, InterpreterDone)] \<and>
      om_graph (w_om ws') = Some (extended (order_graph order) g) \<and>
      order_update_id (w_om ws') = o_orderUpdateId order \<and>
      (\<forall>a \<in> set (base_actions order).
         map_of (action_state_by_id (w_om ws')) (actionId a) = Some (new_action_state a)) \<and>
      w_out ws' = w_out ws @ announcement g (order_graph order) \<and>
      wo' = staged (raise_first b (order_plan order)) wo"
proof -
  have checks: "checkOrderAppend (w_om ws) order = Inr []" "checkOrderGraphConsistency order = []"
    "checkOrderActionIds (w_om ws) order = []"
    using assms(8) by (auto simp: order_checks_def split: sum.splits)
  note ok = checked_order_ok [OF assms(9) checks(2)]
  have "extends_base g (order_graph order)"
    by (rule accepted_update_extends [OF assms(2-7) checks(1,2) assms(9)])
  moreover have "o_orderUpdateId order \<noteq> 0" using assms(5) by auto
  moreover have inv: "om_inv (w_om ws)" using assms(1) by (simp add: w_inv_def)
  ultimately have run: "forM (raise_first b (order_plan order)) state_on_interpreter ws =
    (Inr (), ws\<lparr>w_om := (add_actions (base_actions order) (w_om ws))
         \<lparr>order_update_id := o_orderUpdateId order, om_graph := Some (extended (order_graph order) g)\<rparr>,
       w_out := w_out ws @ announcement g (order_graph order)\<rparr>)"
    using update_state [OF _ assms(2) _ ok(1) _ checks(3)] by blast
  note fresh = fresh_base_actions [OF checks(3) ok(3)]
  have "map_of (action_state_by_id (add_actions (base_actions order) (w_om ws))) (actionId a) = Some (new_action_state a)"
    if a: "a \<in> set (base_actions order)" for a
    using find_key [OF fresh(1) a] add_actions_run [OF inv fresh] by simp
  then show ?thesis unfolding run_plan [OF ok(1) run] by simp
qed

theorem accepted_update_takes_effect_witness:
  "\<exists>m ws' wo'. run_ops manager_step (order_ops HARD update_order)
      (interpreter_manager False silent_subscribers Live Live,
       (empty_state_world\<lparr>w_om := driving_manager\<rparr>, idle_order_world)) = (m, (ws', wo')) \<and>
     thread m = Processing \<and> om_graph (w_om ws') = Some (extended (order_graph update_order) sample_graph) \<and>
     order_update_id (w_om ws') = 1"
proof -
  let ?ws = "empty_state_world\<lparr>w_om := driving_manager\<rparr>"
  have m: "w_inv ?ws" "om_graph (w_om ?ws) = Some sample_graph"
    by (simp_all add: w_inv_def om_inv_def driving_manager_def OrderManager_new_def)
  have o: "o_orderId update_order = order_id (w_om ?ws)" "order_update_id (w_om ?ws) < o_orderUpdateId update_order"
    "order_status (w_om ?ws) \<noteq> k_order_idle" "order_status (w_om ?ws) \<noteq> k_order_idle_paused"
    "o_orderUpdateId update_order = 1"
    by (simp_all add: driving_manager_def OrderManager_new_def update_order_def pick_order_def)
  have chk: "order_checks sample_env (w_om ?ws) update_order = Inr []" using update_order_checks by simp
  from accepted_update_takes_effect [OF m sample_graph_extendable o(1-4) chk update_order_regular,
    where b = HARD and subs = silent_subscribers and p = Live and q = Live and wo = idle_order_world]
  show ?thesis using o(5) by (auto split: prod.splits)
qed

text \<open>An accepted order that begins with a positive update id on a vehicle that has no
  order stops the vehicle for good. All checks accept it, and its actions are announced; but there is
  no graph that could be extended, the state event handler throws, and the interpreter's event
  manager ends its processing. The order is never committed to the scheduler, the state message
  keeps the old order id, and nothing that is dispatched later, no matter how many valid orders
  follow, has any effect.\<close>

theorem accepted_order_stops_vehicle:
  assumes "w_inv ws" and "om_graph (w_om ws) = None"
    and "order_checks env (w_om ws) order = Inr []" and "regular_order order"
    and "o_orderUpdateId order \<noteq> 0"
  shows "\<exists>ws' wo'.
    om_graph (w_om ws') = None \<and> order_id (w_om ws') = order_id (w_om ws) \<and>
    order_update_id (w_om ws') = o_orderUpdateId order \<and> w_out ws' = w_out ws \<and>
    rcv_evt_queue (ow_scheduler wo') = rcv_evt_queue (ow_scheduler wo) \<and>
    sc_state (ow_scheduler wo') = sc_state (ow_scheduler wo) \<and>
    (\<forall>ops. snd (run_ops manager_step (order_ops b order @ ops)
       (interpreter_manager False subs p q, (ws, wo))) = (ws', wo'))"
proof -
  have checks: "checkOrderGraphConsistency order = []" "checkOrderActionIds (w_om ws) order = []"
    using assms(3) by (auto simp: order_checks_def split: sum.splits)
  note ok = checked_order_ok [OF assms(4) checks(1)]
  have inv: "om_inv (w_om ws)" using assms(1) by (simp add: w_inv_def)
  let ?ws = "ws\<lparr>w_om := add_actions (base_actions order) (w_om ws)\<rparr>" and ?u = "o_orderUpdateId order"
  define evs where "evs = map YieldNewAction (first_actions order) @
    raise_first b (plan_rest None (first_actions order) (legs order))"
  have plan: "raise_first b (order_plan order) = evs @ [graph_event ?u (o_orderId order) (order_graph order)]"
    using assms(5) by (simp add: evs_def raise_order_plan)
  have "filter state_event (raise_first b (order_plan order)) = map YieldNewAction (base_actions order) @
      [graph_event ?u (o_orderId order) (order_graph order)]"
    using filter_order_plan [OF ok(1)] assms(5) by simp
  then have "filter state_event evs = map YieldNewAction (base_actions order)"
    unfolding plan by simp
  then have "forM evs state_on_interpreter ws = (Inr (), ?ws)"
    using add_actions_run [OF inv fresh_base_actions [OF checks(2) ok(3)]] state_run_filter by metis
  moreover have "state_on_interpreter (graph_event ?u (o_orderId order) (order_graph order)) ?ws =
      (Inl VDA5050PPInvalidArgument, ?ws\<lparr>w_om := (w_om ?ws)\<lparr>order_update_id := ?u\<rparr>\<rparr>)"
  proof -
    have "graph_map (order_graph order) \<noteq> []" by (simp add: order_graph_def Let_def)
    moreover have "0 < ?u" using assms(5) by (simp add: word_neq_0_conv)
    ultimately show ?thesis
      using assms(2) by (simp add: graph_event_def handleGraphExtensionEvent_def extendGraph_update_def
          extendGraph_update_locked_def extendGraph_locked_def bounds_def run_simps)
  qed
  ultimately have "snd (run_ops manager_step (order_ops b order @ ops) (interpreter_manager False subs p q, (ws, wo))) =
      (?ws\<lparr>w_om := (w_om ?ws)\<lparr>order_update_id := ?u\<rparr>\<rparr>, staged (raise_first b (order_plan order)) wo)" for ops
    unfolding plan by (rule run_failing_plan [OF ok(1) plan])
  then show ?thesis
    using assms(2)
    by (intro exI [of _ "?ws\<lparr>w_om := (w_om ?ws)\<lparr>order_update_id := ?u\<rparr>\<rparr>"]
        exI [of _ "staged (raise_first b (order_plan order)) wo"]) (simp add: staged_def)
qed

theorem accepted_order_stops_vehicle_witness:
  "\<exists>ws' wo'. om_graph (w_om ws') = None \<and> order_update_id (w_om ws') = 1 \<and>
    (\<forall>ops. snd (run_ops manager_step (order_ops HARD (pick_order 1) @ ops)
       (interpreter_manager False silent_subscribers Live Live, (empty_state_world, idle_order_world))) = (ws', wo'))"
proof -
  have m: "w_inv empty_state_world" "om_graph (w_om empty_state_world) = None"
    "order_checks sample_env (w_om empty_state_world) (pick_order 1) = Inr []"
    using pick_order_checks
    by (simp_all add: w_inv_def om_inv_def empty_state_world_def) (simp_all add: OrderManager_new_def)
  have "regular_order (pick_order 1)" "o_orderUpdateId (pick_order 1) \<noteq> 0" "o_orderUpdateId (pick_order 1) = 1"
    by (simp_all add: regular_order_def sorted_order_def base_ends_with_node_def pick_order_def)
      (simp add: sample_defs)
  then show ?thesis using accepted_order_stops_vehicle [OF m(1-3), where b = HARD and subs = silent_subscribers
      and p = Live and q = Live and wo = idle_order_world]
    by metis
qed

end
