(* ===== verification/ControlProps.thy ===== *)
theory ControlProps
  imports ControlActions OrderHandler StateEventHandler Samples
begin

text \<open>
  The control actions from the message to their last status: which of them the scheduler takes, what
  the blocks report about them, and where a report goes wrong.
\<close>

section \<open>What the scheduler takes\<close>

text \<open>The status that a scheduler state announces, and so the order manager knows.\<close>

fun announced_status :: "SchedulerStateType \<Rightarrow> OrderStatus" where
  "announced_status k_idle = k_order_idle"
| "announced_status k_idle_paused = k_order_idle_paused"
| "announced_status k_active = k_order_active"
| "announced_status k_canceling = k_order_canceling"
| "announced_status k_resuming = k_order_resuming"
| "announced_status k_pausing = k_order_pausing"
| "announced_status k_paused = k_order_paused"
| "announced_status k_failed = k_order_failed"
| "announced_status k_interrupting = k_order_interrupting"

fun control_operation ::
  "order_subscribers \<Rightarrow> ControlStatus \<Rightarrow> SchedulerStateType \<Rightarrow> state_result sched" where
  "control_operation subs ctl_pause = state_pause subs"
| "control_operation subs ctl_resume = state_resume subs"
| "control_operation subs ctl_cancel = state_cancel subs"

fun control_type :: "ControlStatus \<Rightarrow> string" where
  "control_type ctl_pause = ''startPause''"
| "control_type ctl_resume = ''stopPause''"
| "control_type ctl_cancel = ''cancelOrder''"

text \<open>The state object rejects the operation, whatever the scheduler holds.\<close>

definition rejects :: "state_result sched \<Rightarrow> bool" where
  "rejects m \<longleftrightarrow> (\<forall>s. m s = (Inl VDA5050PPInvalidState, s))"

lemma rejects_throw [simp]: "rejects (throw VDA5050PPInvalidState)"
  by (simp add: rejects_def run_simps)

lemma not_rejects: "fst (m Scheduler_new) = Inr r \<Longrightarrow> \<not> rejects m"
  unfolding rejects_def by (metis Inl_Inr_False fst_conv)

lemma accepting_states [simp]:
  "\<not> rejects SchedulerIdle_cancel" "\<not> rejects SchedulerIdlePaused_cancel"
  "\<not> rejects (SchedulerActive_cancel subs)" "\<not> rejects (SchedulerPaused_cancel subs)"
  "\<not> rejects SchedulerIdle_pause" "\<not> rejects (SchedulerActive_pause subs)"
  "\<not> rejects SchedulerIdlePaused_resume" "\<not> rejects (SchedulerPaused_resume subs)"
proof -
  note defs = state_cancel_defs state_pause_defs state_resume_defs go_def scheduler_new_defs
    clearQueues_def transition_all_def Scheduler_new_def notify_status_def Scheduler.emit_def run_simps
  show "\<not> rejects SchedulerIdle_cancel" by (rule not_rejects) (simp add: defs)
  show "\<not> rejects SchedulerIdlePaused_cancel" by (rule not_rejects) (simp add: defs)
  show "\<not> rejects (SchedulerActive_cancel subs)" by (rule not_rejects) (simp add: defs)
  show "\<not> rejects (SchedulerPaused_cancel subs)" by (rule not_rejects) (simp add: defs)
  show "\<not> rejects SchedulerIdle_pause" by (rule not_rejects) (simp add: defs)
  show "\<not> rejects (SchedulerActive_pause subs)" by (rule not_rejects) (simp add: defs)
  show "\<not> rejects SchedulerIdlePaused_resume" by (rule not_rejects) (simp add: defs)
  show "\<not> rejects (SchedulerPaused_resume subs)" by (rule not_rejects) (simp add: defs)
qed

section \<open>What a block reports\<close>

text \<open>An asynchronous world: what a block dispatches is queued.\<close>

definition queue_out :: "'f ControlOut \<Rightarrow> ('f ControlOut list, unit) comp" where
  "queue_out x = modify (\<lambda>w. w @ [x])"

text \<open>A block that sees a list of order status events. When it is torn down, the rest is ignored.\<close>

fun run_block :: "OrderStatus list \<Rightarrow> 'w Block \<Rightarrow> 'w \<Rightarrow> (exn + bool) \<times> 'w Block \<times> 'w" where
  "run_block [] b w = (Inr False, b, w)"
| "run_block (s # ss) b w =
     (case on_status s b w of
        (Inr False, b', w') \<Rightarrow> run_block ss b' w'
      | r \<Rightarrow> r)"

text \<open>
  The reference: the action runs from the first \<open>during\<close> status on, and is finished by the first
  \<open>at_rest\<close> status, or by the first \<open>reached\<close> status after it has begun to run.
\<close>

fun reports :: "OrderStatus \<Rightarrow> OrderStatus \<Rightarrow> OrderStatus \<Rightarrow> bool \<Rightarrow> OrderStatus list \<Rightarrow> ActionStatus list" where
  "reports at_rest during reached begun [] = []"
| "reports at_rest during reached begun (s # ss) =
     (if s = at_rest \<or> begun \<and> s = reached then [FINISHED]
      else if \<not> begun \<and> s = during then RUNNING # reports at_rest during reached True ss
      else reports at_rest during reached begun ss)"

definition report_events :: "Action \<Rightarrow> ActionStatus list \<Rightarrow> 'f ControlOut list" where
  "report_events a sts = map (\<lambda>st. SyncOrderEvent (OrderActionStatusChanged (actionId a) st None)) sts"

text \<open>The waiting part of the pause and the resume block, in its two phases.\<close>

definition waiting_block :: "OrderStatus \<Rightarrow> OrderStatus \<Rightarrow> OrderStatus \<Rightarrow> bool \<Rightarrow> Action \<Rightarrow> 'f ControlOut list Block" where
  "waiting_block at_rest during reached begun a =
     Chain
       [Alternative
          [Latch True (isOrderStatus at_rest) (set_status queue_out a FINISHED),
           Chain
             ((if begun then [] else [Latch True (isOrderStatus during) (set_status queue_out a RUNNING)]) @
              [Latch begun (isOrderStatus reached) (set_status queue_out a FINISHED)])]]"

lemma run_set_status [run_simps]:
  "set_status queue_out a st w = (Inr (), w @ [SyncOrderEvent (OrderActionStatusChanged (actionId a) st None)])"
  by (simp add: set_status_def queue_out_def run_simps)

lemma report_events_simps [simp]:
  "report_events a [] = []" "report_events a (st # sts) =
     SyncOrderEvent (OrderActionStatusChanged (actionId a) st None) # report_events a sts"
  by (simp_all add: report_events_def)

lemma run_waiting_block:
  assumes "distinct [at_rest, during, reached]"
  shows "snd (snd (run_block ss (waiting_block at_rest during reached begun a) w)) =
    w @ report_events a (reports at_rest during reached begun ss)"
proof (induction ss arbitrary: begun w)
  case (Cons s ss)
  show ?case
  proof (cases begun)
    case True
    have "on_status s (waiting_block at_rest during reached True a) w =
        (if s = at_rest \<or> s = reached
         then (Inr True, Chain [], w @ report_events a [FINISHED])
         else (Inr False, waiting_block at_rest during reached True a, w))"
      by (simp add: waiting_block_def isOrderStatus_def run_simps)
    then show ?thesis using True Cons by (simp add: Let_def)
  next
    case False
    have "on_status s (waiting_block at_rest during reached False a) w =
        (if s = at_rest then (Inr True, Chain [], w @ report_events a [FINISHED])
         else if s = during
         then (Inr False, waiting_block at_rest during reached True a, w @ report_events a [RUNNING])
         else (Inr False, waiting_block at_rest during reached False a, w))"
      using assms by (simp add: waiting_block_def isOrderStatus_def run_simps)
    then show ?thesis using False Cons
      by (cases "s = at_rest"; cases "s = during") simp_all
  qed
qed simp

lemma enable_pause:
  "enable (makePauseControlBlock queue_out a) w =
     (Inr False, waiting_block k_order_idle_paused k_order_pausing k_order_paused False a,
      w @ [DispatchOrderControl ctl_pause a])"
  by (simp add: makePauseControlBlock_def waiting_block_def queue_out_def run_simps)

lemma enable_resume:
  "enable (makeResumeControlBlock queue_out a) w =
     (Inr False, waiting_block k_order_idle k_order_resuming k_order_active False a,
      w @ [DispatchOrderControl ctl_resume a])"
  by (simp add: makeResumeControlBlock_def waiting_block_def queue_out_def run_simps)

lemma enable_cancel:
  "enable (makeCancelControlBlock queue_out a) w =
     (Inr False,
      Chain [Latch True (isOrderStatus k_order_idle)
        (seqM (queue_out (SyncOrderEvent (OrderClearAfterCancel a))) (set_status queue_out a FINISHED))],
      w @ [DispatchOrderControl ctl_cancel a,
        SyncOrderEvent (OrderActionStatusChanged (actionId a) RUNNING None)])"
  by (simp add: makeCancelControlBlock_def queue_out_def run_simps)

text \<open>A cancel block does nothing until the order is idle.\<close>

lemma run_cancel_block:
  "k_order_idle \<notin> set ss \<Longrightarrow>
     run_block ss (Chain [Latch True (isOrderStatus k_order_idle) d]) w =
       (Inr False, Chain [Latch True (isOrderStatus k_order_idle) d], w)"
  by (induction ss) (auto simp: isOrderStatus_def)

section \<open>From the reports to the state message\<close>

text \<open>The synchronous events of a block, handled by the state event handler.\<close>

definition handle_reports :: "'f ControlOut list \<Rightarrow> StateWorld \<Rightarrow> StateWorld" where
  "handle_reports xs w =
     fold (\<lambda>x w. case x of SyncOrderEvent ev \<Rightarrow> snd (state_on_order ev w) | _ \<Rightarrow> w) xs w"

definition reported_status :: "string \<Rightarrow> StateWorld \<Rightarrow> ActionStatus option" where
  "reported_status i w = map_option as_actionStatus (map_of (action_state_by_id (w_om w)) i)"

lemma map_of_map_value: "map_of (map (\<lambda>(k, v). (k, f k v)) m) i = map_option (f i) (map_of m i)"
  by (induction m) auto

lemma report_reaches_state:
  assumes "reported_status i w \<noteq> None"
  shows "reported_status i (snd (state_on_order (OrderActionStatusChanged i st r) w)) = Some st"
proof -
  obtain s where "map_of (action_state_by_id (w_om w)) i = Some s"
    using assms by (auto simp: reported_status_def)
  then show ?thesis
    by (simp add: reported_status_def handleOrderActionStatusChanged_def getActionState_def
        write_action_state_def run_simps map_of_map_value)
qed

lemma clear_scan_all: "\<exists>ids kept. clear_scan False r q = Inr (ids, kept)"
proof (induction q arbitrary: r)
  case (Cons e q)
  obtain ids kept where "clear_scan False r q = Inr (ids, kept)" using Cons by blast
  then show ?case by (cases e) simp_all
qed simp

lemma cancel_idle_paused:
  assumes "sc_state s = k_idle_paused"
  shows "\<exists>t ids. Scheduler_cancel subs s = (Inr (), t) \<and> sc_state t = k_idle_paused \<and>
    outbox t = outbox s @ map (\<lambda>i. ActionEvt (ActionForget i)) ids"
proof -
  obtain ids kept where "clear_scan False False (rcv_evt_queue s) = Inr (ids, kept)"
    using clear_scan_all by blast
  then show ?thesis
    using assms
    by (intro exI [of _ "snd (Scheduler_cancel subs s)"]
        exI [of _ "ids @ map actionId (concat (map iag_actions (rcv_interrupt_queue s)))"])
      (simp add: Scheduler_cancel_def call_state_def SchedulerIdlePaused_cancel_def clearQueues_def
        SchedulerIdlePaused_new_def go_def Scheduler.emit_def run_simps)
qed

section \<open>Properties\<close>

text \<open>C10: The check of a control action and the scheduler agree: an action that pauses, resumes or
  cancels passes the check of the order status exactly when the scheduler state that has announced this
  status does not reject the operation.\<close>

theorem feasible_iff_scheduler_accepts:
  "controlActionFeasible (om\<lparr>order_status := announced_status st\<rparr>) (a\<lparr>actionType := control_type c\<rparr>) = [] \<longleftrightarrow>
   \<not> rejects (control_operation subs c st)"
  by (cases c; cases st)
    (simp_all add: controlActionFeasible_def isPauseable_def isResumable_def isCancelable_def
      SchedulerIdlePaused_pause_def SchedulerCanceling_pause_def SchedulerResuming_pause_def
      SchedulerPausing_pause_def SchedulerPaused_pause_def SchedulerFailed_pause_def
      SchedulerInterrupting_pause_def SchedulerIdle_resume_def SchedulerActive_resume_def
      SchedulerCanceling_resume_def SchedulerResuming_resume_def SchedulerPausing_resume_def
      SchedulerFailed_resume_def SchedulerInterrupting_resume_def SchedulerCanceling_cancel_def
      SchedulerResuming_cancel_def SchedulerPausing_cancel_def SchedulerFailed_cancel_def
      SchedulerInterrupting_cancel_def)

text \<open>C11: What the blocks of startPause and stopPause report, for every sequence of order
  status events: exactly what the reference says. The action is running once the order is pausing
  (resuming) and finished once it is paused (active) after that, or as soon as an order that is not
  running anything rests; every report comes once, and a finished action reports nothing more.\<close>

theorem pause_and_resume_reports:
  "(case enable (makePauseControlBlock queue_out a) w of (r, b, w') \<Rightarrow>
      r = Inr False \<and>
      snd (snd (run_block ss b w')) = w @ DispatchOrderControl ctl_pause a #
        report_events a (reports k_order_idle_paused k_order_pausing k_order_paused False ss)) \<and>
   (case enable (makeResumeControlBlock queue_out a) w of (r, b, w') \<Rightarrow>
      r = Inr False \<and>
      snd (snd (run_block ss b w')) = w @ DispatchOrderControl ctl_resume a #
        report_events a (reports k_order_idle k_order_resuming k_order_active False ss))"
  by (simp add: enable_pause enable_resume run_waiting_block)

text \<open>A refused pause comes back to life. When the user's query handler refuses to pause, the
  scheduler is not touched and the startPause action is reported as failed. But its block keeps
  waiting: the next time the order is paused, for another reason, the failed action is reported as
  running and then as finished, and the state message says so.\<close>

theorem refused_pause_is_revived:
  assumes "reported_status (actionId a) w \<noteq> None" and "qr_errors result \<noteq> []"
    and "failed = snd (state_on_order (OrderActionStatusChanged (actionId a) FAILED None) w)"
  shows "(case handleOrderControl subs (ResultValue result) q (Some (a, ctl_pause)) ow of (r, ow') \<Rightarrow>
      r = Inr () \<and> ow_scheduler ow' = ow_scheduler ow \<and>
      last (ow_out ow') = SyncActionStatus (actionId a) FAILED) \<and>
    reported_status (actionId a) failed = Some FAILED \<and>
    (case enable (makePauseControlBlock queue_out a) [] of (_, b, sent) \<Rightarrow>
       reported_status (actionId a)
         (handle_reports (snd (snd (run_block [k_order_pausing, k_order_paused] b sent))) failed) =
       Some FINISHED)"
proof (intro conjI)
  have "forM es (\<lambda>e. order_out (AddError e)) ow =
      (Inr (), ow\<lparr>ow_out := ow_out ow @ map AddError es\<rparr>)" for es ow
    by (induction es arbitrary: ow) (simp_all add: run_simps)
  then show "case handleOrderControl subs (ResultValue result) q (Some (a, ctl_pause)) ow of (r, ow') \<Rightarrow>
     r = Inr () \<and> ow_scheduler ow' = ow_scheduler ow \<and>
     last (ow_out ow') = SyncActionStatus (actionId a) FAILED"
    using assms(2)
    by (simp add: handleOrderControl_def pause_or_resume_def queryPauseResume_def dispatchErrors_def
        setFailed_def run_simps)
  show f: "reported_status (actionId a) failed = Some FAILED"
    unfolding assms(3) by (rule report_reaches_state [OF assms(1)])
  have "reported_status (actionId a)
      (snd (state_on_order (OrderActionStatusChanged (actionId a) RUNNING None) failed)) = Some RUNNING"
    by (rule report_reaches_state) (simp add: f)
  then have "reported_status (actionId a)
      (snd (state_on_order (OrderActionStatusChanged (actionId a) FINISHED None)
        (snd (state_on_order (OrderActionStatusChanged (actionId a) RUNNING None) failed)))) = Some FINISHED"
    by (intro report_reaches_state) simp
  then have "reported_status (actionId a) (handle_reports
      (DispatchOrderControl ctl_pause a #
       report_events a (reports k_order_idle_paused k_order_pausing k_order_paused False
         [k_order_pausing, k_order_paused])) failed) = Some FINISHED"
    by (simp add: handle_reports_def del: state_on_order.simps)
  then show "case enable (makePauseControlBlock queue_out a) [] of (_, b, sent) \<Rightarrow>
       reported_status (actionId a)
         (handle_reports (snd (snd (run_block [k_order_pausing, k_order_paused] b sent))) failed) =
       Some FINISHED"
    by (simp add: enable_pause run_waiting_block del: run_block.simps)
qed

definition sample_query_error :: QueryPauseResumeResult where
  "sample_query_error = \<lparr>qr_errors = [mk_error ''controlError'' [] ''no''], qr_notify = True\<rparr>"

definition waiting_state_world :: StateWorld where
  "waiting_state_world =
     \<lparr>w_om = OrderManager_new\<lparr>action_state_by_id := [(''a'', new_action_state sample_action)]\<rparr>,
      w_sm = StatusManager_new (BatteryState []) (SafetyState []) \<lparr>ap_x = 0, ap_y = 0, ap_theta = 0, mapId = [],
        ap_positionInitialized = False, ap_deviationRange = None, position_payload = []\<rparr>,
      w_out = []\<rparr>"

theorem refused_pause_is_revived_witness:
  "case enable (makePauseControlBlock (queue_out :: unit ControlOut \<Rightarrow> _) sample_action) [] of (_, b, sent) \<Rightarrow>
     reported_status (actionId sample_action)
       (handle_reports (snd (snd (run_block [k_order_pausing, k_order_paused] b sent)))
         (snd (state_on_order (OrderActionStatusChanged (actionId sample_action) FAILED None)
            waiting_state_world))) =
     Some FINISHED"
proof -
  have known: "reported_status (actionId sample_action) waiting_state_world \<noteq> None"
    by (simp add: reported_status_def waiting_state_world_def sample_action_def)
  have "qr_errors sample_query_error \<noteq> []" by (simp add: sample_query_error_def)
  note revived = refused_pause_is_revived [OF known this refl]
  show ?thesis by (rule revived [THEN conjunct2, THEN conjunct2])
qed

text \<open>A cancelOrder that arrives while the order is paused in idle is accepted and reported
  as running, but it is not finished. The scheduler drops its queues and stays in its state without
  announcing a status, and the action's block waits for the idle status: until somebody resumes the
  order, nothing clears the order and the action keeps running.\<close>

theorem cancel_when_idle_paused_keeps_running:
  assumes "sc_state (ow_scheduler ow) = k_idle_paused" and "k_order_idle \<notin> set ss"
  shows "controlActionFeasible (om\<lparr>order_status := k_order_idle_paused\<rparr>) (a\<lparr>actionType := ''cancelOrder''\<rparr>) = [] \<and>
    (case handleOrderControl subs p q (Some (a, ctl_cancel)) ow of (r, ow') \<Rightarrow>
       r = Inr () \<and> sc_state (ow_scheduler ow') = k_idle_paused \<and>
       (\<exists>ids. outbox (ow_scheduler ow') = outbox (ow_scheduler ow) @ map (\<lambda>i. ActionEvt (ActionForget i)) ids)) \<and>
    (case enable (makeCancelControlBlock queue_out a) [] of (_, b, sent) \<Rightarrow>
       fst (run_block ss b sent) = Inr False \<and>
       snd (snd (run_block ss b sent)) =
         [DispatchOrderControl ctl_cancel a, SyncOrderEvent (OrderActionStatusChanged (actionId a) RUNNING None)])"
proof (intro conjI)
  show "case handleOrderControl subs p q (Some (a, ctl_cancel)) ow of (r, ow') \<Rightarrow>
       r = Inr () \<and> sc_state (ow_scheduler ow') = k_idle_paused \<and>
       (\<exists>ids. outbox (ow_scheduler ow') = outbox (ow_scheduler ow) @ map (\<lambda>i. ActionEvt (ActionForget i)) ids)"
    using cancel_idle_paused [OF assms(1), of subs]
    by (auto simp: handleOrderControl_def run_simps)
qed (use assms(2) in \<open>simp_all add: enable_cancel run_cancel_block controlActionFeasible_def isCancelable_def\<close>)

theorem cancel_when_idle_paused_keeps_running_witness:
  "fst (run_block [k_order_pausing] (fst (snd (enable (makeCancelControlBlock queue_out sample_action) []))) []) = Inr False"
proof -
  have "sc_state (ow_scheduler \<lparr>ow_scheduler = Scheduler_new\<lparr>sc_state := k_idle_paused\<rparr>, ow_out = []\<rparr>) = k_idle_paused"
    "k_order_idle \<notin> set [k_order_pausing]" by simp_all
  from cancel_when_idle_paused_keeps_running [OF this, where a = sample_action]
  show ?thesis by (simp add: enable_cancel isOrderStatus_def)
qed

end
