(* ===== verification/Threads.thy ===== *)
theory Threads
  imports Prelude
begin

text \<open>
  Threads that share an object: every thread is at a point of a member function, a critical section is
  one step, and the steps of the threads interleave in any way. What is needed to count threads, and
  to carry an invariant over all interleavings.
\<close>

section \<open>Counting threads\<close>

definition nof :: "('p \<Rightarrow> bool) \<Rightarrow> 'p list \<Rightarrow> nat" where
  "nof P ts = length (filter P ts)"

lemma nof_simps [simp]:
  "nof P [] = 0" "nof P (t # ts) = of_bool (P t) + nof P ts"
  by (simp_all add: nof_def)

lemma nof_replicate [simp]: "\<not> P t \<Longrightarrow> nof P (replicate n t) = 0"
  by (induction n) simp_all

lemma nof_update: "i < length ts \<Longrightarrow> nof P (ts[i := t]) + of_bool (P (ts ! i)) = nof P ts + of_bool (P t)"
proof (induction ts arbitrary: i)
  case (Cons x xs)
  then show ?case by (cases i) auto
qed simp

lemma nof_keep: "i < length ts \<Longrightarrow> P t = P (ts ! i) \<Longrightarrow> nof P (ts[i := t]) = nof P ts"
  using nof_update [of i ts P t] by simp

lemma nof_pos: "0 < nof P ts \<longleftrightarrow> (\<exists>i < length ts. P (ts ! i))"
  by (simp add: nof_def filter_empty_conv) (metis in_set_conv_nth)

lemma nof_zeroD: "nof P ts = 0 \<Longrightarrow> i < length ts \<Longrightarrow> \<not> P (ts ! i)"
  using nof_pos [of P ts] by auto

section \<open>Invariants of a step relation\<close>

locale transition_system =
  fixes step :: "'s \<Rightarrow> 's \<Rightarrow> bool"
    and start :: "'s \<Rightarrow> bool"
    and inv :: "'s \<Rightarrow> bool"
  assumes inv_start: "start s \<Longrightarrow> inv s"
    and inv_step: "step s s' \<Longrightarrow> inv s \<Longrightarrow> inv s'"
begin

lemma reachable_inv: "rtranclp step s s' \<Longrightarrow> start s \<Longrightarrow> inv s'"
  by (induction rule: rtranclp_induct) (auto intro: inv_start inv_step)

end

end
