(* ===== verification/Semaphore.thy ===== *)
theory Semaphore
  imports Threads
begin

text \<open>
  \<^verbatim>\<open>core/common/semaphore.h\<close>: a counter with a mutex and a condition variable. The counter has the type
  of the template's argument, a machine word. Every section that holds the mutex is one step. A
  thread that waits on the condition variable may be woken by a notification, by its timeout, or
  for no reason, and then tests the counter again.
\<close>

section \<open>State\<close>

text \<open>
  The points of a thread: outside, at the beginning of a call, asleep, awake but before it holds the
  mutex again, awake because the time is over, and after the mutex is released but before
  \<^verbatim>\<open>notify_one\<close>. The flag of a sleeper tells whether it has a timeout.
\<close>

datatype SemThread =
    Outside
  | Releasing
  | Acquiring bool
  | TryAcquiring
  | Asleep bool
  | Awake bool
  | TimedOut
  | Notifying

record 'n Semaphore =
  avail :: 'n
  sem_threads :: "SemThread list"

definition Semaphore_new :: "'c::len word \<Rightarrow> nat \<Rightarrow> 'c word Semaphore" where
  "Semaphore_new available n = \<lparr>avail = available, sem_threads = replicate n Outside\<rparr>"

definition asleep :: "SemThread \<Rightarrow> bool" where
  "asleep t \<longleftrightarrow> (\<exists>timed. t = Asleep timed)"

definition awake :: "SemThread \<Rightarrow> bool" where
  "awake t \<longleftrightarrow> (\<exists>timed. t = Awake timed) \<or> t = TimedOut \<or> t = Notifying"

lemma asleep_simps [simp]:
  "asleep (Asleep b)" "\<not> asleep Outside" "\<not> asleep Releasing" "\<not> asleep (Acquiring b)"
  "\<not> asleep TryAcquiring" "\<not> asleep (Awake b)" "\<not> asleep TimedOut" "\<not> asleep Notifying"
  by (simp_all add: asleep_def)

lemma awake_simps [simp]:
  "awake (Awake b)" "awake TimedOut" "awake Notifying" "\<not> awake Outside" "\<not> awake Releasing"
  "\<not> awake (Acquiring b)" "\<not> awake TryAcquiring" "\<not> awake (Asleep b)"
  by (simp_all add: awake_def)

section \<open>Steps\<close>

text \<open>What a step does to the resource as a whole.\<close>

datatype SemEvent = Silent | Taken | GivenBack | Refused

definition at :: "'c::len word Semaphore \<Rightarrow> nat \<Rightarrow> SemThread \<Rightarrow> bool" where
  "at s i t \<longleftrightarrow> i < length (sem_threads s) \<and> sem_threads s ! i = t"

definition goto :: "nat \<Rightarrow> SemThread \<Rightarrow> 'c::len word Semaphore \<Rightarrow> 'c word Semaphore" where
  "goto i t s = s\<lparr>sem_threads := (sem_threads s)[i := t]\<rparr>"

inductive sem_step :: "'c::len word Semaphore \<Rightarrow> SemEvent \<Rightarrow> 'c word Semaphore \<Rightarrow> bool" where
  call: "at s i Outside \<Longrightarrow> t \<in> {Releasing, Acquiring False, Acquiring True, TryAcquiring} \<Longrightarrow>
    sem_step s Silent (goto i t s)"
| release: "at s i Releasing \<Longrightarrow>
    sem_step s GivenBack (goto i Notifying (s\<lparr>avail := avail s + 1\<rparr>))"
| take: "at s i t \<Longrightarrow> t \<in> {Acquiring b, Awake b, TimedOut, TryAcquiring} \<Longrightarrow> avail s > 0 \<Longrightarrow>
    sem_step s Taken (goto i Notifying (s\<lparr>avail := avail s - 1\<rparr>))"
| wait: "at s i t \<Longrightarrow> t \<in> {Acquiring b, Awake b} \<Longrightarrow> avail s = 0 \<Longrightarrow>
    sem_step s Silent (goto i (Asleep b) s)"
| spurious: "at s i (Asleep b) \<Longrightarrow> sem_step s Silent (goto i (Awake b) s)"
| timeout: "at s i (Asleep True) \<Longrightarrow> sem_step s Silent (goto i TimedOut s)"
| give_up: "at s i TimedOut \<Longrightarrow> avail s = 0 \<Longrightarrow> sem_step s Refused (goto i Outside s)"
| refuse: "at s i TryAcquiring \<Longrightarrow> sem_step s Refused (goto i Outside s)"
| notify: "at s i Notifying \<Longrightarrow> at s j (Asleep b) \<Longrightarrow>
    sem_step s Silent (goto i Outside (goto j (Awake b) s))"
| notify_nobody: "at s i Notifying \<Longrightarrow> nof asleep (sem_threads s) = 0 \<Longrightarrow>
    sem_step s Silent (goto i Outside s)"

text \<open>
  \<open>refuse\<close> does not look at the counter: \<^verbatim>\<open>try_lock\<close> fails when another thread holds the mutex, and
  \<^verbatim>\<open>try_acquire\<close> then returns false although a resource may be available.
\<close>

definition sem_internal :: "'c::len word Semaphore \<Rightarrow> 'c word Semaphore \<Rightarrow> bool" where
  "sem_internal s s' \<longleftrightarrow> (\<exists>ev. sem_step s ev s')"

section \<open>The counter\<close>

text \<open>The semaphore that its users see: a counter, taken from when it is positive.\<close>

inductive counter_step :: "'c::len word \<Rightarrow> SemEvent \<Rightarrow> 'c word \<Rightarrow> bool" where
  "counter_step n Silent n"
| "n > 0 \<Longrightarrow> counter_step n Taken (n - 1)"
| "counter_step n GivenBack (n + 1)"
| "counter_step n Refused n"

lemma avail_goto [simp]: "avail (goto i t s) = avail s"
  by (simp add: goto_def)

lemma sem_step_refines: "sem_step s ev s' \<Longrightarrow> counter_step (avail s) ev (avail s')"
  by (induction rule: sem_step.induct) (auto intro: counter_step.intros)

text \<open>A run, with what happened to the resources.\<close>

inductive sem_run :: "'c::len word Semaphore \<Rightarrow> SemEvent list \<Rightarrow> 'c word Semaphore \<Rightarrow> bool" where
  sem_start: "sem_run s [] s"
| sem_more: "sem_run s evs s' \<Longrightarrow> sem_step s' ev s'' \<Longrightarrow> sem_run s (evs @ [ev]) s''"

lemma sem_balance:
  fixes s :: "'c::len word Semaphore"
  assumes "sem_run s evs s'" and "unat (avail s) + count_list evs GivenBack < 2 ^ LENGTH('c)"
  shows "unat (avail s') + count_list evs Taken = unat (avail s) + count_list evs GivenBack"
  using assms
proof (induction rule: sem_run.induct)
  case (sem_more s evs s' ev s'')
  note IH = sem_more.IH
  from sem_step_refines [OF sem_more(2)] show ?case
  proof (cases rule: counter_step.cases)
    case 2
    then have "unat (avail s' - 1) = unat (avail s') - 1" "unat (avail s') > 0"
      by (auto simp: unat_minus_one unat_gt_0)
    then show ?thesis using IH sem_more.prems 2 by simp
  next
    case 3
    then have "unat (avail s') + 1 < 2 ^ LENGTH('c)" using IH sem_more.prems by simp
    then have "unat (avail s' + 1) = unat (avail s') + 1" by (simp add: unat_word_ariths(1))
    then show ?thesis using IH sem_more.prems 3 by simp
  qed (use IH sem_more.prems in simp_all)
qed simp

section \<open>No wakeup is lost\<close>

text \<open>
  While somebody sleeps, there are at least as many threads about to test the counter or to notify
  as there are resources.
\<close>

definition sem_inv :: "'c::len word Semaphore \<Rightarrow> bool" where
  "sem_inv s \<longleftrightarrow> nof asleep (sem_threads s) = 0 \<or> unat (avail s) \<le> nof awake (sem_threads s)"

lemma nof_goto:
  assumes "at s i old"
  shows "nof P (sem_threads (goto i t s)) + of_bool (P old) = nof P (sem_threads s) + of_bool (P t)"
  using assms nof_update [of i "sem_threads s" P t] by (auto simp: at_def goto_def)

lemma sem_inv_step: "sem_step s ev s' \<Longrightarrow> sem_inv s \<Longrightarrow> sem_inv s'"
proof (induction rule: sem_step.induct)
  case (call s i t)
  then show ?case
    using nof_goto [OF call(1), of asleep t] nof_goto [OF call(1), of awake t] by (auto simp: sem_inv_def)
next
  case (release s i)
  then have at': "at (s\<lparr>avail := avail s + 1\<rparr>) i Releasing" by (simp add: at_def)
  have "unat (avail s + 1) \<le> Suc (unat (avail s))" by (simp add: unat_word_ariths(1)) 
  then show ?case
    using release nof_goto [OF at', of asleep Notifying] nof_goto [OF at', of awake Notifying]
    by (auto simp: sem_inv_def)
next
  case (take s i t b)
  then have at': "at (s\<lparr>avail := avail s - 1\<rparr>) i t" by (simp add: at_def)
  have "Suc (unat (avail s - 1)) = unat (avail s)"
    using take(3) by (simp add: unat_minus_one unat_gt_0)
  then show ?case
    using take nof_goto [OF at', of asleep Notifying] nof_goto [OF at', of awake Notifying]
    by (auto simp: sem_inv_def)
next
  case (wait s i t b)
  then show ?case by (simp add: sem_inv_def)
next
  case (spurious s i b)
  then show ?case
    using nof_goto [OF spurious(1), of asleep "Awake b"] nof_goto [OF spurious(1), of awake "Awake b"]
    by (auto simp: sem_inv_def)
next
  case (timeout s i)
  then show ?case
    using nof_goto [OF timeout(1), of asleep TimedOut] nof_goto [OF timeout(1), of awake TimedOut]
    by (auto simp: sem_inv_def)
next
  case (refuse s i)
  then show ?case
    using nof_goto [OF refuse(1), of asleep Outside] nof_goto [OF refuse(1), of awake Outside]
    by (auto simp: sem_inv_def)
next
  case (notify s i j b)
  have "i \<noteq> j" using notify(1,2) by (auto simp: at_def)
  then have at': "at (goto j (Awake b) s) i Notifying" using notify(1) by (simp add: at_def goto_def)
  have "nof asleep (sem_threads s) > 0" using notify(2) by (auto simp: nof_pos at_def)
  then show ?case
    using notify nof_goto [OF at', of awake Outside] nof_goto [OF notify(2), of awake "Awake b"]
    by (auto simp: sem_inv_def)
next
  case (notify_nobody s i)
  then show ?case using nof_goto [OF notify_nobody(1), of asleep Outside] by (simp add: sem_inv_def)
qed (simp add: sem_inv_def)

interpretation sem: transition_system sem_internal
  "\<lambda>s. \<exists>available n. s = Semaphore_new available n" sem_inv
proof
  show "sem_inv s'" if "sem_internal s s'" "sem_inv s" for s s'
    using that sem_inv_step by (auto simp: sem_internal_def)
qed (auto simp: sem_inv_def Semaphore_new_def)

text \<open>What a thread that is awake does next: it takes a resource, or it wakes a sleeper.\<close>

lemma awake_makes_progress:
  assumes "at s i t" and "awake t" and "avail s > 0" and "nof asleep (sem_threads s) > 0"
  shows "\<exists>s'. sem_step s Taken s' \<or>
    (\<exists>j b. at s j (Asleep b) \<and> at s' j (Awake b) \<and> sem_step s Silent s')"
proof (cases "t = Notifying")
  case True
  obtain j b where j: "at s j (Asleep b)"
    using assms(4) by (auto simp: nof_pos at_def asleep_def)
  moreover have "i \<noteq> j" using True assms(1) j by (auto simp: at_def)
  then have "at (goto i Outside (goto j (Awake b) s)) j (Awake b)" using j by (simp add: at_def goto_def)
  ultimately show ?thesis using sem_step.notify [of s i j b] True assms(1) by blast
next
  case False
  then obtain b where "t \<in> {Acquiring b, Awake b, TimedOut, TryAcquiring}"
    using assms(2) by (auto simp: awake_def)
  then show ?thesis using sem_step.take [OF assms(1) _ assms(3)] by blast
qed

section \<open>Properties\<close>

text \<open>C24: A semaphore never leaves a thread asleep beside an available resource. In every state that
  the threads can reach, if some thread sleeps and the counter is positive, then a thread is awake, and
  its next step takes a resource or wakes a sleeper. This holds in spite of timeouts, threads that
  wake up for no reason, and threads that come in between and take the resource.\<close>

theorem semaphore_no_lost_wakeup:
  assumes "rtranclp sem_internal (Semaphore_new available n) s"
    and "at s j (Asleep b)" and "avail s > 0"
  shows "\<exists>i t. at s i t \<and> awake t \<and>
    (\<exists>s'. sem_step s Taken s' \<or> (\<exists>k c. at s k (Asleep c) \<and> at s' k (Awake c) \<and> sem_step s Silent s'))"
proof -
  have inv: "sem_inv s" by (rule sem.reachable_inv [OF assms(1)]) blast
  have sleeps: "nof asleep (sem_threads s) > 0" using assms(2) by (auto simp: nof_pos at_def)
  have "0 < unat (avail s)" using assms(3) by (simp add: unat_gt_0)
  then have "nof awake (sem_threads s) > 0" using inv sleeps by (simp add: sem_inv_def)
  then obtain i where "at s i (sem_threads s ! i)" "awake (sem_threads s ! i)"
    by (auto simp: nof_pos at_def)
  then show ?thesis using awake_makes_progress [OF _ _ assms(3) sleeps] by blast
qed

definition sleeper_and_releaser :: "16 word Semaphore" where
  "sleeper_and_releaser = \<lparr>avail = 1, sem_threads = [Asleep False, Notifying]\<rparr>"

lemma sleeper_and_releaser_reachable:
  "rtranclp sem_internal (Semaphore_new 0 2) sleeper_and_releaser"
proof -
  let ?s0 = "Semaphore_new 0 2 :: 16 word Semaphore"
  let ?s1 = "goto 0 (Acquiring False) ?s0"
  let ?s2 = "goto 0 (Asleep False) ?s1"
  let ?s3 = "goto 1 Releasing ?s2"
  note defs = at_def goto_def Semaphore_new_def numeral_2_eq_2
  have "sem_step ?s0 Silent ?s1" by (rule sem_step.call) (simp_all add: defs)
  moreover have "sem_step ?s1 Silent ?s2"
    by (rule sem_step.wait [where t = "Acquiring False"]) (simp_all add: defs)
  moreover have "sem_step ?s2 Silent ?s3" by (rule sem_step.call) (simp_all add: defs)
  ultimately have "sem_internal ?s0 ?s1" "sem_internal ?s1 ?s2" "sem_internal ?s2 ?s3"
    unfolding sem_internal_def by blast+
  moreover have "sem_internal ?s3 sleeper_and_releaser"
  proof -
    have "goto 1 Notifying (?s3\<lparr>avail := avail ?s3 + 1\<rparr>) = sleeper_and_releaser"
      by (simp add: goto_def Semaphore_new_def sleeper_and_releaser_def numeral_2_eq_2)
    moreover have "at ?s3 1 Releasing" by (simp add: at_def goto_def Semaphore_new_def numeral_2_eq_2)
    ultimately show ?thesis unfolding sem_internal_def using sem_step.release by metis
  qed
  ultimately show ?thesis
    by (meson rtranclp.rtrancl_refl rtranclp.rtrancl_into_rtrancl)
qed

theorem semaphore_no_lost_wakeup_witness:
  "\<exists>i t. at sleeper_and_releaser i t \<and> awake t"
  using semaphore_no_lost_wakeup [OF sleeper_and_releaser_reachable, of 0 False]
  by (auto simp: at_def sleeper_and_releaser_def)

text \<open>Resources are neither lost nor invented, as long as their number fits into the counter's type:
  what is available after a run, plus what has been taken, is what was available before, plus what has
  been given back. Without room in the counter, a release loses all resources: the default counter
  has 16 bits, and releasing 65535 resources once more leaves none.\<close>

theorem semaphore_counts:
  fixes s :: "'c::len word Semaphore"
  shows "(sem_run s evs s' \<and> unat (avail s) + count_list evs GivenBack < 2 ^ LENGTH('c) \<longrightarrow>
      unat (avail s') + count_list evs Taken = unat (avail s) + count_list evs GivenBack) \<and>
    (\<exists>s'. sem_step \<lparr>avail = (65535 :: 16 word), sem_threads = [Releasing]\<rparr> GivenBack s' \<and> avail s' = 0)"
proof (intro conjI impI)
  show "\<exists>s'. sem_step \<lparr>avail = (65535 :: 16 word), sem_threads = [Releasing]\<rparr> GivenBack s' \<and> avail s' = 0"
    using sem_step.release [of "\<lparr>avail = (65535 :: 16 word), sem_threads = [Releasing]\<rparr>" 0]
    by (auto simp: at_def)
qed (use sem_balance in blast)

theorem semaphore_counts_witness:
  "unat (avail sleeper_and_releaser) + count_list [GivenBack] Taken = 0 + count_list [GivenBack] GivenBack"
proof -
  let ?s = "\<lparr>avail = 0 :: 16 word, sem_threads = [Asleep False, Releasing]\<rparr>"
  have "sem_step ?s GivenBack (goto 1 Notifying (?s\<lparr>avail := avail ?s + 1\<rparr>))"
    by (rule sem_step.release) (simp add: at_def)
  then have "sem_step ?s GivenBack sleeper_and_releaser" by (simp add: goto_def sleeper_and_releaser_def)
  then have "sem_run ?s ([] @ [GivenBack]) sleeper_and_releaser"
    by (rule sem_run.sem_more [OF sem_run.sem_start])
  then show ?thesis using semaphore_counts [of ?s "[GivenBack]" sleeper_and_releaser] by simp
qed

end
