(* ===== verification/BlockingQueue.thy ===== *)
theory BlockingQueue
  imports Semaphore
begin

text \<open>
  \<^verbatim>\<open>core/common/blocking_queue.h\<close>: a queue with a mutex, and a semaphore that counts its elements. A
  push appends and then gives a resource back; a pop takes a resource and then removes the first
  element. Between the two halves other threads run. The semaphore is used through its counter
  (\<open>counter_step\<close>), which its own steps refine.
\<close>

section \<open>State\<close>

text \<open>
  The points of a thread: outside, before and after the appending of a push, before the semaphore and
  before the removal of a pop. The flag of a pop tells whether it may return without an element.
  The values pushed and popped so far are recorded.
\<close>

datatype 'v QueueThread =
    Idle
  | Pushing 'v
  | Appended
  | Popping bool
  | Granted

record ('v, 'n) BlockingQueue =
  queue :: "'v list"
  semaphore :: 'n
  queue_threads :: "'v QueueThread list"
  pushed :: "'v list"
  popped :: "'v list"

definition BlockingQueue_new :: "nat \<Rightarrow> ('v, 'c::len word) BlockingQueue" where
  "BlockingQueue_new n =
     \<lparr>queue = [], semaphore = 0, queue_threads = replicate n Idle, pushed = [], popped = []\<rparr>"

definition thread_at :: "('v, 'n) BlockingQueue \<Rightarrow> nat \<Rightarrow> 'v QueueThread \<Rightarrow> bool" where
  "thread_at q i t \<longleftrightarrow> i < length (queue_threads q) \<and> queue_threads q ! i = t"

definition move :: "nat \<Rightarrow> 'v QueueThread \<Rightarrow> ('v, 'n) BlockingQueue \<Rightarrow> ('v, 'n) BlockingQueue" where
  "move i t q = q\<lparr>queue_threads := (queue_threads q)[i := t]\<rparr>"

section \<open>Steps\<close>

text \<open>
  The container refuses to grow beyond its \<^verbatim>\<open>max_size\<close>, which fits into its size type: then \<^verbatim>\<open>push\<close>
  throws before it has changed anything. A pop that may fail gives up when the semaphore refuses.
  Taking the front of an empty container is undefined; it has no step here.
\<close>

inductive queue_step ::
  "nat \<Rightarrow> ('v, 'c::len word) BlockingQueue \<Rightarrow> ('v, 'c word) BlockingQueue \<Rightarrow> bool" for max_size where
  call: "thread_at q i Idle \<Longrightarrow> t = Pushing v \<or> t = Popping b \<Longrightarrow> queue_step max_size q (move i t q)"
| append: "thread_at q i (Pushing v) \<Longrightarrow> length (queue q) < max_size \<Longrightarrow>
    queue_step max_size q (move i Appended (q\<lparr>queue := queue q @ [v], pushed := pushed q @ [v]\<rparr>))"
| too_long: "thread_at q i (Pushing v) \<Longrightarrow> length (queue q) \<ge> max_size \<Longrightarrow>
    queue_step max_size q (move i Idle q)"
| give_back: "thread_at q i Appended \<Longrightarrow> counter_step (semaphore q) GivenBack n \<Longrightarrow>
    queue_step max_size q (move i Idle (q\<lparr>semaphore := n\<rparr>))"
| grant: "thread_at q i (Popping b) \<Longrightarrow> counter_step (semaphore q) Taken n \<Longrightarrow>
    queue_step max_size q (move i Granted (q\<lparr>semaphore := n\<rparr>))"
| fail: "thread_at q i (Popping True) \<Longrightarrow> counter_step (semaphore q) Refused n \<Longrightarrow>
    queue_step max_size q (move i Idle q)"
| remove: "thread_at q i Granted \<Longrightarrow> queue q = v # rest \<Longrightarrow>
    queue_step max_size q (move i Idle (q\<lparr>queue := rest, popped := popped q @ [v]\<rparr>))"

section \<open>The queue that its users see\<close>

text \<open>A first-in-first-out queue: an element is appended, or the first one is removed.\<close>

inductive fifo_step :: "'v list \<Rightarrow> 'v list \<Rightarrow> bool" where
  "fifo_step xs (xs @ [x])"
| "fifo_step (x # xs) xs"

section \<open>Invariant\<close>

text \<open>
  Every element belongs to a resource of the semaphore, to a pop that has taken one, or to a push
  that has not given it back yet.
\<close>

definition is_granted :: "'v QueueThread \<Rightarrow> bool" where
  "is_granted t \<longleftrightarrow> t = Granted"

definition is_appended :: "'v QueueThread \<Rightarrow> bool" where
  "is_appended t \<longleftrightarrow> t = Appended"

lemma is_simps [simp]:
  "is_granted Granted" "\<not> is_granted Idle" "\<not> is_granted (Pushing v)" "\<not> is_granted Appended"
  "\<not> is_granted (Popping b)" "is_appended Appended" "\<not> is_appended Idle"
  "\<not> is_appended (Pushing v)" "\<not> is_appended (Popping b)" "\<not> is_appended Granted"
  by (simp_all add: is_granted_def is_appended_def)

definition queue_inv :: "nat \<Rightarrow> ('v, 'c::len word) BlockingQueue \<Rightarrow> bool" where
  "queue_inv max_size q \<longleftrightarrow>
     length (queue q) = unat (semaphore q) + nof is_granted (queue_threads q) + nof is_appended (queue_threads q) \<and>
     length (queue q) \<le> max_size \<and>
     pushed q = popped q @ queue q"

lemma nof_thread:
  assumes "thread_at q i old"
  shows "nof P ((queue_threads q)[i := t]) + of_bool (P old) = nof P (queue_threads q) + of_bool (P t)"
  using assms nof_update [of i "queue_threads q" P t] by (auto simp: thread_at_def)

lemma move_fields [simp]:
  "queue (move i t q) = queue q" "semaphore (move i t q) = semaphore q"
  "pushed (move i t q) = pushed q" "popped (move i t q) = popped q"
  "queue_threads (move i t q) = (queue_threads q)[i := t]"
  by (simp_all add: move_def)

lemma thread_at_update [simp]:
  "thread_at (q\<lparr>queue := a\<rparr>) i t = thread_at q i t" "thread_at (q\<lparr>semaphore := b\<rparr>) i t = thread_at q i t"
  "thread_at (q\<lparr>pushed := c\<rparr>) i t = thread_at q i t" "thread_at (q\<lparr>popped := d\<rparr>) i t = thread_at q i t"
  by (simp_all add: thread_at_def)

lemma queue_inv_step:
  fixes q :: "('v, 'c::len word) BlockingQueue"
  assumes "queue_step max_size q q'" and "max_size < 2 ^ LENGTH('c)" and "queue_inv max_size q"
  shows "queue_inv max_size q'"
  using assms
proof (induction rule: queue_step.induct)
  case (call q i t v b)
  then show ?case
    using nof_thread [OF call(1), of is_granted t] nof_thread [OF call(1), of is_appended t]
    by (auto simp: queue_inv_def)
next
  case (append q i v)
  then show ?case
    using nof_thread [OF append(1), of is_granted Appended] nof_thread [OF append(1), of is_appended Appended]
    by (simp add: queue_inv_def)
next
  case (too_long q i v)
  then show ?case
    using nof_thread [OF too_long(1), of is_granted Idle] nof_thread [OF too_long(1), of is_appended Idle]
    by (simp add: queue_inv_def)
next
  case (give_back q i n)
  have "n = semaphore q + 1" using give_back(2) by (auto elim: counter_step.cases)
  moreover have "0 < nof is_appended (queue_threads q)"
    using give_back(1) by (auto simp: nof_pos thread_at_def)
  then have "unat (semaphore q) + 1 < 2 ^ LENGTH('c)" using give_back by (simp add: queue_inv_def)
  then have "unat (semaphore q + 1) = unat (semaphore q) + 1" by (simp add: unat_word_ariths(1))
  ultimately show ?case
    using give_back nof_thread [OF give_back(1), of is_granted Idle]
      nof_thread [OF give_back(1), of is_appended Idle]
    by (simp add: queue_inv_def)
next
  case (grant q i b n)
  have n: "n = semaphore q - 1" "semaphore q > 0" using grant(2) by (auto elim: counter_step.cases)
  then have "Suc (unat n) = unat (semaphore q)" by (simp add: unat_minus_one unat_gt_0)
  then show ?case
    using grant nof_thread [OF grant(1), of is_granted Granted]
      nof_thread [OF grant(1), of is_appended Granted]
    by (simp add: queue_inv_def)
next
  case (fail q i n)
  then show ?case
    using nof_thread [OF fail(1), of is_granted Idle] nof_thread [OF fail(1), of is_appended Idle]
    by (simp add: queue_inv_def)
next
  case (remove q i v rest)
  then show ?case
    using nof_thread [OF remove(1), of is_granted Idle] nof_thread [OF remove(1), of is_appended Idle]
    by (simp add: queue_inv_def)
qed

section \<open>Refinement\<close>

lemma queue_step_refines: "queue_step max_size q q' \<Longrightarrow> queue q' = queue q \<or> fifo_step (queue q) (queue q')"
  by (induction rule: queue_step.induct) (auto intro: fifo_step.intros)

text \<open>A bound on the size that the counter can hold makes the invariant one of all interleavings.\<close>

definition bounded_step :: "nat \<Rightarrow> ('v, 'c::len word) BlockingQueue \<Rightarrow> ('v, 'c word) BlockingQueue \<Rightarrow> bool" where
  "bounded_step max_size q q' \<longleftrightarrow> max_size < 2 ^ LENGTH('c) \<and> queue_step max_size q q'"

interpretation bq: transition_system "bounded_step max_size"
  "\<lambda>q. \<exists>n. q = BlockingQueue_new n" "queue_inv max_size" for max_size
proof
  show "queue_inv max_size q'" if "bounded_step max_size q q'" "queue_inv max_size q" for q q' :: "('v, 'c::len word) BlockingQueue"
    using that queue_inv_step by (auto simp: bounded_step_def)
qed (auto simp: queue_inv_def BlockingQueue_new_def)

text \<open>The copy constructor takes the elements and counts them anew; threads inside the other object
  do not matter.\<close>

definition BlockingQueue_copy :: "('v, 'c::len word) BlockingQueue \<Rightarrow> nat \<Rightarrow> ('v, 'c word) BlockingQueue" where
  "BlockingQueue_copy other n =
     \<lparr>queue = queue other, semaphore = of_nat (length (queue other)),
      queue_threads = replicate n Idle, pushed = queue other, popped = []\<rparr>"

lemma queue_inv_copy:
  fixes q :: "('v, 'c::len word) BlockingQueue"
  assumes "queue_inv max_size q" and "max_size < 2 ^ LENGTH('c)"
  shows "queue_inv max_size (BlockingQueue_copy q n)"
proof -
  have "length (queue q) < 2 ^ LENGTH('c)" using assms by (simp add: queue_inv_def)
  then have "unat (of_nat (length (queue q)) :: 'c word) = length (queue q)"
    by (simp add: unat_of_nat)
  then show ?thesis using assms(1) by (simp add: queue_inv_def BlockingQueue_copy_def)
qed

section \<open>Properties\<close>

text \<open>C25: The blocking queue is a first-in-first-out queue, however its pushes and pops interleave. Every
  step leaves the queue as it is, appends one element, or removes the first one; what has been
  popped so far, followed by what is in the queue, is what has been pushed, so that no element is
  lost, doubled or overtaken. A pop that has passed the semaphore always finds an element, so that
  it never touches an empty container. When no push and no pop is under way, the semaphore lets
  exactly as many pops pass as there are elements.\<close>

theorem blocking_queue_is_fifo:
  fixes q :: "('v, 'c::len word) BlockingQueue"
  assumes "rtranclp (bounded_step max_size) (BlockingQueue_new n) q"
  shows "(queue_step max_size q q' \<longrightarrow> queue q' = queue q \<or> fifo_step (queue q) (queue q')) \<and>
    pushed q = popped q @ queue q \<and>
    (thread_at q i Granted \<longrightarrow> queue q \<noteq> []) \<and>
    ((\<forall>t \<in> set (queue_threads q). t \<noteq> Granted \<and> t \<noteq> Appended) \<longrightarrow> unat (semaphore q) = length (queue q))"
proof -
  have inv: "queue_inv max_size q" by (rule bq.reachable_inv [OF assms]) blast
  have "queue q \<noteq> []" if "thread_at q i Granted"
  proof -
    have "0 < nof is_granted (queue_threads q)" using that by (auto simp: nof_pos thread_at_def)
    then show ?thesis using inv by (auto simp: queue_inv_def)
  qed
  moreover have "unat (semaphore q) = length (queue q)"
    if "\<forall>t \<in> set (queue_threads q). t \<noteq> Granted \<and> t \<noteq> Appended"
  proof -
    have "nof is_granted (queue_threads q) = 0" "nof is_appended (queue_threads q) = 0"
      using that by (auto simp: nof_def is_granted_def is_appended_def filter_empty_conv)
    then show ?thesis using inv by (simp add: queue_inv_def)
  qed
  ultimately show ?thesis using inv queue_step_refines by (auto simp: queue_inv_def)
qed

definition one_granted :: "(nat, 64 word) BlockingQueue" where
  "one_granted = \<lparr>queue = [7], semaphore = 0, queue_threads = [Idle, Granted], pushed = [7], popped = []\<rparr>"

lemma one_granted_reachable: "rtranclp (bounded_step 10) (BlockingQueue_new 2) one_granted"
proof -
  let ?q = "\<lambda>ts n xs. \<lparr>queue = xs, semaphore = n, queue_threads = ts, pushed = xs, popped = []\<rparr> :: (nat, 64 word) BlockingQueue"
  note defs = thread_at_def move_def bounded_step_def
  have 1: "bounded_step 10 (?q [Idle, Idle] 0 []) (?q [Pushing 7, Idle] 0 [])"
    using queue_step.call [of "?q [Idle, Idle] 0 []" 0 "Pushing 7" 7 False 10] by (simp add: defs)
  have 2: "bounded_step 10 (?q [Pushing 7, Idle] 0 []) (?q [Appended, Idle] 0 [7])"
    using queue_step.append [of "?q [Pushing 7, Idle] 0 []" 0 7 10] by (simp add: defs)
  have 3: "bounded_step 10 (?q [Appended, Idle] 0 [7]) (?q [Idle, Idle] 1 [7])"
    using queue_step.give_back [of "?q [Appended, Idle] 0 [7]" 0 1 10] counter_step.intros(3) [of "0 :: 64 word"]
    by (simp add: defs)
  have 4: "bounded_step 10 (?q [Idle, Idle] 1 [7]) (?q [Idle, Popping False] 1 [7])"
    using queue_step.call [of "?q [Idle, Idle] 1 [7]" 1 "Popping False" 7 False 10] by (simp add: defs)
  have 5: "bounded_step 10 (?q [Idle, Popping False] 1 [7]) (?q [Idle, Granted] 0 [7])"
    using queue_step.grant [of "?q [Idle, Popping False] 1 [7]" 1 False 0 10] counter_step.intros(2) [of "1 :: 64 word"]
    by (simp add: defs)
  have "BlockingQueue_new 2 = ?q [Idle, Idle] 0 []" by (simp add: BlockingQueue_new_def numeral_2_eq_2)
  note chain = converse_rtranclp_into_rtranclp [where r = "bounded_step 10"]
  show ?thesis
    unfolding one_granted_def \<open>BlockingQueue_new 2 = _\<close>
    by (rule chain [OF 1 chain [OF 2 chain [OF 3 chain [OF 4 chain [OF 5 rtranclp.rtrancl_refl [where r = "bounded_step 10"]]]]]])
qed

theorem blocking_queue_is_fifo_witness: "queue one_granted \<noteq> []"
  using blocking_queue_is_fifo [OF one_granted_reachable, of one_granted 1]
  by (simp add: thread_at_def one_granted_def)

end
