(* ===== verification/InterruptableTimer.thy ===== *)
theory InterruptableTimer
  imports Threads
begin

text \<open>
  \<^verbatim>\<open>core/common/interruptable_timer.h\<close>: threads that sleep on a timer, and threads that interrupt all of
  them. A section that holds a mutex is a single step, and so is a notification, which the code
  makes after it has released the mutex. A thread that is blocked on a condition variable goes on only
  when it is notified, wakes up for no reason, or, for a sleep, when its time is over; then it
  tests its condition again.
\<close>

section \<open>State\<close>

datatype InterruptableTimerStatus = k_ok | k_interrupted | k_disabled

text \<open>
  The points of a sleeping thread: before the test whether the timer is disabled, before it is counted,
  before it tests the condition of its wait, blocked on \<^verbatim>\<open>sleep_cv_\<close>, woken but before it
  tests the condition again, awake with the knowledge why, and no longer counted but before it notifies
  \<^verbatim>\<open>waiting_cv_\<close>. Those of an interrupting thread: before the timer is disabled, before \<^verbatim>\<open>sleep_cv_\<close> is
  notified, before it tests whether anybody is counted, blocked on \<^verbatim>\<open>waiting_cv_\<close>, and before the timer is
  enabled. The flags of \<open>Disabling\<close> and \<open>Notifying\<close> tell \<^verbatim>\<open>interruptAll\<close> from \<^verbatim>\<open>disable\<close>, those of \<open>Clearing\<close>
  and \<open>Waiting\<close> tell \<^verbatim>\<open>enable\<close>, called on its own or by \<^verbatim>\<open>interruptAll\<close>, from a
  \<^verbatim>\<open>waitForClearance\<close> alone. The destructor is \<^verbatim>\<open>disable\<close> followed by \<^verbatim>\<open>waitForClearance\<close>. The
  result of the last sleep stays with the thread.
\<close>

datatype TimerThread =
    Free "InterruptableTimerStatus option"
  | SleepCalled
  | SleepChecked
  | SleepCounted
  | Sleeping
  | Woken
  | SleepLeft bool
  | is_SleepDone: SleepDone bool
  | Disabling bool
  | is_Notifying: Notifying bool
  | Clearing bool
  | is_Waiting: Waiting bool
  | Enabling

record Timer =
  terminate :: bool
  num_waiting :: uint32
  timer_threads :: "TimerThread list"

definition InterruptableTimer_new :: "nat \<Rightarrow> Timer" where
  "InterruptableTimer_new n =
     \<lparr>terminate = False, num_waiting = 0, timer_threads = replicate n (Free None)\<rparr>"

definition is_at :: "Timer \<Rightarrow> nat \<Rightarrow> TimerThread \<Rightarrow> bool" where
  "is_at s i t \<longleftrightarrow> i < length (timer_threads s) \<and> timer_threads s ! i = t"

definition go_on :: "nat \<Rightarrow> TimerThread \<Rightarrow> Timer \<Rightarrow> Timer" where
  "go_on i t s = s\<lparr>timer_threads := (timer_threads s)[i := t]\<rparr>"

text \<open>\<^verbatim>\<open>sleep_cv_.notify_all\<close> and \<^verbatim>\<open>waiting_cv_.notify_all\<close>: every blocked thread goes on.\<close>

fun wake_sleeper :: "TimerThread \<Rightarrow> TimerThread" where
  "wake_sleeper Sleeping = Woken"
| "wake_sleeper t = t"

fun wake_waiter :: "TimerThread \<Rightarrow> TimerThread" where
  "wake_waiter (Waiting b) = Clearing b"
| "wake_waiter t = t"

definition notify_all :: "(TimerThread \<Rightarrow> TimerThread) \<Rightarrow> Timer \<Rightarrow> Timer" where
  "notify_all wake_up s = s\<lparr>timer_threads := map wake_up (timer_threads s)\<rparr>"

lemma timer_fields [simp]:
  "terminate (go_on i t s) = terminate s" "num_waiting (go_on i t s) = num_waiting s"
  "timer_threads (go_on i t s) = (timer_threads s)[i := t]"
  "terminate (notify_all f s) = terminate s" "num_waiting (notify_all f s) = num_waiting s"
  "timer_threads (notify_all f s) = map f (timer_threads s)"
  by (simp_all add: go_on_def notify_all_def)

section \<open>Steps\<close>

text \<open>
  A step is made by the code of the class, or by its environment: a new call, a wake-up
  for no reason, or the end of a sleep's time.
\<close>

datatype Cause = Code | Environment

inductive timer_step :: "Cause \<Rightarrow> Timer \<Rightarrow> Timer \<Rightarrow> bool" where
  call: "is_at s i (Free r) \<Longrightarrow>
    t \<in> {SleepCalled, Disabling True, Disabling False, Clearing True, Clearing False} \<Longrightarrow>
    timer_step Environment s (go_on i t s)"
| check_disabled: "is_at s i SleepCalled \<Longrightarrow> terminate s \<Longrightarrow>
    timer_step Code s (go_on i (Free (Some k_disabled)) s)"
| check_enabled: "is_at s i SleepCalled \<Longrightarrow> \<not> terminate s \<Longrightarrow> timer_step Code s (go_on i SleepChecked s)"
| count: "is_at s i SleepChecked \<Longrightarrow>
    timer_step Code s (go_on i SleepCounted (s\<lparr>num_waiting := num_waiting s + 1\<rparr>))"
| fall_asleep: "is_at s i t \<Longrightarrow> t \<in> {SleepCounted, Woken} \<Longrightarrow> \<not> terminate s \<Longrightarrow>
    timer_step Code s (go_on i Sleeping s)"
| leave: "is_at s i t \<Longrightarrow> t \<in> {SleepCounted, Woken} \<Longrightarrow> terminate s \<Longrightarrow>
    timer_step Code s (go_on i (SleepLeft True) s)"
| sleep_spurious: "is_at s i Sleeping \<Longrightarrow> timer_step Environment s (go_on i Woken s)"
| time_over: "is_at s i Sleeping \<Longrightarrow> timer_step Environment s (go_on i (SleepLeft (terminate s)) s)"
| uncount: "is_at s i (SleepLeft b) \<Longrightarrow>
    timer_step Code s (go_on i (SleepDone b) (s\<lparr>num_waiting := num_waiting s - 1\<rparr>))"
| notify_waiting: "is_at s i (SleepDone b) \<Longrightarrow>
    timer_step Code s (go_on i (Free (Some (if b then k_interrupted else k_ok))) (notify_all wake_waiter s))"
| disable: "is_at s i (Disabling all) \<Longrightarrow>
    timer_step Code s (go_on i (Notifying all) (s\<lparr>terminate := True\<rparr>))"
| notify_sleeping: "is_at s i (Notifying all) \<Longrightarrow>
    timer_step Code s (go_on i (if all then Clearing True else Free None) (notify_all wake_sleeper s))"
| clear: "is_at s i (Clearing b) \<Longrightarrow> num_waiting s = 0 \<Longrightarrow>
    timer_step Code s (go_on i (if b then Enabling else Free None) s)"
| not_clear: "is_at s i (Clearing b) \<Longrightarrow> num_waiting s \<noteq> 0 \<Longrightarrow> timer_step Code s (go_on i (Waiting b) s)"
| clear_spurious: "is_at s i (Waiting b) \<Longrightarrow> timer_step Environment s (go_on i (Clearing b) s)"
| enable: "is_at s i Enabling \<Longrightarrow> timer_step Code s (go_on i (Free None) (s\<lparr>terminate := False\<rparr>))"

definition any_step :: "Timer \<Rightarrow> Timer \<Rightarrow> bool" where
  "any_step s s' \<longleftrightarrow> (\<exists>c. timer_step c s s')"

section \<open>The counter and the notifications\<close>

definition counted :: "TimerThread \<Rightarrow> bool" where
  "counted t \<longleftrightarrow> t = SleepCounted \<or> t = Sleeping \<or> t = Woken \<or> t = SleepLeft True \<or> t = SleepLeft False"

lemma counted_simps [simp]:
  "counted SleepCounted" "counted Sleeping" "counted Woken" "counted (SleepLeft b)" "\<not> counted (Free r)"
  "\<not> counted SleepCalled" "\<not> counted SleepChecked" "\<not> counted (SleepDone b)" "\<not> counted (Disabling a)"
  "\<not> counted (Notifying a)" "\<not> counted (Clearing a)" "\<not> counted (Waiting a)" "\<not> counted Enabling"
  by (cases b) (simp_all add: counted_def)

lemma counted_wake [simp]: "counted (wake_sleeper t) = counted t" "counted (wake_waiter t) = counted t"
  by (cases t; simp)+

text \<open>
  The counter is the number of the counted threads. While a sleeper is blocked on a disabled timer, or
  a waiter although nobody is counted, some thread is about to notify it.
\<close>

definition counter_inv :: "Timer \<Rightarrow> bool" where
  "counter_inv s \<longleftrightarrow>
     unat (num_waiting s) = nof counted (timer_threads s) \<and> length (timer_threads s) < 2 ^ 32"

definition anyone :: "(TimerThread \<Rightarrow> bool) \<Rightarrow> TimerThread list \<Rightarrow> bool" where
  "anyone P ts \<longleftrightarrow> (\<exists>t \<in> set ts. P t)"

definition sleepers_inv :: "Timer \<Rightarrow> bool" where
  "sleepers_inv s \<longleftrightarrow> (terminate s \<longrightarrow> anyone (\<lambda>t. t = Sleeping) (timer_threads s) \<longrightarrow>
     anyone is_Notifying (timer_threads s))"

definition waiters_inv :: "Timer \<Rightarrow> bool" where
  "waiters_inv s \<longleftrightarrow> (num_waiting s = 0 \<longrightarrow> anyone is_Waiting (timer_threads s) \<longrightarrow>
     anyone is_SleepDone (timer_threads s))"

definition timer_inv :: "Timer \<Rightarrow> bool" where
  "timer_inv s \<longleftrightarrow> counter_inv s \<and> sleepers_inv s \<and> waiters_inv s"

lemma nof_at:
  assumes "is_at s i old"
  shows "nof P ((timer_threads s)[i := t]) + of_bool (P old) = nof P (timer_threads s) + of_bool (P t)"
  using assms nof_update [of i "timer_threads s" P t] by (auto simp: is_at_def)

lemma nof_le_length: "nof P ts \<le> length ts"
  by (simp add: nof_def)

lemma nof_map: "(\<And>t. P (f t) = P t) \<Longrightarrow> nof P (map f ts) = nof P ts"
  by (induction ts) simp_all

lemma nof_wake [simp]:
  "nof counted (map wake_sleeper ts) = nof counted ts" "nof counted (map wake_waiter ts) = nof counted ts"
  by (simp_all add: nof_map)

lemma is_at_update [simp]:
  "is_at (s\<lparr>num_waiting := n\<rparr>) i t = is_at s i t" "is_at (s\<lparr>terminate := b\<rparr>) i t = is_at s i t"
  by (simp_all add: is_at_def)

lemma anyone_nth: "anyone P ts \<longleftrightarrow> (\<exists>k < length ts. P (ts ! k))"
  unfolding anyone_def by (metis in_set_conv_nth)

lemma anyone_new: "i < length ts \<Longrightarrow> P t \<Longrightarrow> anyone P (ts[i := t])"
  unfolding anyone_def by (blast intro: set_update_memI)

lemma anyone_keep:
  assumes "anyone P ts" and "i < length ts" and "\<not> P (ts ! i) \<or> P t"
  shows "anyone P (ts[i := t])"
proof -
  obtain k where k: "k < length ts" "P (ts ! k)" using assms(1) by (auto simp: anyone_nth)
  show ?thesis
  proof (cases "k = i")
    case True
    then show ?thesis using k assms by (auto intro: anyone_new)
  next
    case False
    then have "ts[i := t] ! k = ts ! k" by simp
    then show ?thesis unfolding anyone_nth using k by (intro exI [of _ k]) simp
  qed
qed

lemma anyone_old: "anyone P (ts[i := t]) \<Longrightarrow> \<not> P t \<Longrightarrow> anyone P ts"
  unfolding anyone_def using set_update_subset_insert [of ts i t] by blast

lemma anyone_simps [simp]:
  "anyone P (map f ts) = anyone (\<lambda>t. P (f t)) ts" "\<not> anyone (\<lambda>t. False) ts"
  "\<not> P t \<Longrightarrow> \<not> anyone P (replicate n t)"
  by (auto simp: anyone_def)

lemma woken [simp]:
  "wake_sleeper t \<noteq> Sleeping" "is_Waiting (wake_sleeper t) = is_Waiting t"
  "is_SleepDone (wake_sleeper t) = is_SleepDone t" "is_Notifying (wake_sleeper t) = is_Notifying t"
  "\<not> is_Waiting (wake_waiter t)" "wake_waiter t = Sleeping \<longleftrightarrow> t = Sleeping"
  "is_Notifying (wake_waiter t) = is_Notifying t"
  by (cases t; simp)+

lemma counter_inv_step: "timer_step c s s' \<Longrightarrow> counter_inv s \<Longrightarrow> counter_inv s'"
proof (induction rule: timer_step.induct)
  case (call s i r t)
  then have "\<not> counted t" by auto
  then show ?case using call nof_at [OF call(1), of counted t] by (simp add: counter_inv_def)
next
  case (count s i)
  have "Suc (nof counted (timer_threads s)) = nof counted ((timer_threads s)[i := SleepCounted])"
    using nof_at [OF count(1), of counted SleepCounted] by simp
  then have "unat (num_waiting s) + 1 < 2 ^ LENGTH(32)"
    using count(2) nof_le_length [of counted "(timer_threads s)[i := SleepCounted]"]
    by (simp add: counter_inv_def)
  then have "unat (num_waiting s + 1) = unat (num_waiting s) + 1" by (simp add: unat_word_ariths(1))
  then show ?case using count nof_at [OF count(1), of counted SleepCounted] by (simp add: counter_inv_def)
next
  case (uncount s i b)
  have "0 < nof counted (timer_threads s)" using uncount(1) by (auto simp: nof_pos is_at_def)
  then have "num_waiting s \<noteq> 0" using uncount(2) by (auto simp: counter_inv_def)
  then have "Suc (unat (num_waiting s - 1)) = unat (num_waiting s)"
    by (simp add: unat_minus_one unat_gt_0)
  then show ?case
    using uncount nof_at [OF uncount(1), of counted "SleepDone b"] by (simp add: counter_inv_def)
qed (auto simp: counter_inv_def is_at_def nof_keep)

lemma sleepers_inv_step: "timer_step c s s' \<Longrightarrow> sleepers_inv s \<Longrightarrow> sleepers_inv s'"
  unfolding sleepers_inv_def
  by (induction rule: timer_step.induct)
    (auto simp: is_at_def intro: anyone_new anyone_keep dest!: anyone_old)

lemma waiters_inv_step:
  "timer_step c s s' \<Longrightarrow> counter_inv s' \<Longrightarrow> waiters_inv s \<Longrightarrow> waiters_inv s'"
  unfolding waiters_inv_def
proof (induction rule: timer_step.induct)
  case (count s i)
  have "0 < nof counted (timer_threads (go_on i SleepCounted s))"
    using count(1) by (auto simp: nof_pos is_at_def)
  then have "num_waiting s + 1 \<noteq> 0" using count(2) by (auto simp: counter_inv_def)
  then show ?case by simp
qed (auto simp: is_at_def intro: anyone_new anyone_keep dest!: anyone_old)

interpretation timer: transition_system any_step
  "\<lambda>s. \<exists>n < 2 ^ 32. s = InterruptableTimer_new n" timer_inv
proof
  show "timer_inv s'" if "any_step s s'" "timer_inv s" for s s'
    using that counter_inv_step sleepers_inv_step waiters_inv_step
    unfolding any_step_def timer_inv_def by blast
qed (auto simp: timer_inv_def counter_inv_def sleepers_inv_def waiters_inv_def InterruptableTimer_new_def)

section \<open>The code comes to rest\<close>

text \<open>
  A bound on the steps that a thread causes, with \<open>n\<close> threads altogether, when nothing is called, no
  thread wakes up for no reason, and no sleep ends. A notification makes every blocked thread
  test its condition once more.
\<close>

fun steps_left :: "nat \<Rightarrow> TimerThread \<Rightarrow> nat" where
  "steps_left n (Free r) = 0"
| "steps_left n Enabling = 1"
| "steps_left n (Waiting b) = 2"
| "steps_left n (Clearing b) = 3"
| "steps_left n (SleepDone b) = n + 1"
| "steps_left n (SleepLeft b) = n + 2"
| "steps_left n Sleeping = n + 3"
| "steps_left n Woken = n + 4"
| "steps_left n SleepCounted = n + 5"
| "steps_left n SleepChecked = n + 6"
| "steps_left n SleepCalled = n + 7"
| "steps_left n (Notifying b) = n + 4"
| "steps_left n (Disabling b) = n + 5"

definition work_left :: "Timer \<Rightarrow> nat" where
  "work_left s = sum_list (map (steps_left (length (timer_threads s))) (timer_threads s))"

lemma steps_left_woken:
  "steps_left n (wake_sleeper t) \<le> Suc (steps_left n t)" "steps_left n (wake_waiter t) \<le> Suc (steps_left n t)"
  by (cases t; simp)+

lemma sum_woken:
  assumes "\<And>t. f (g t) \<le> Suc (f t)"
  shows "sum_list (map (f \<circ> g) ts) \<le> sum_list (map f ts) + length ts"
proof (induction ts)
  case (Cons t ts)
  then show ?case using assms [of t] by simp
qed simp

lemma sum_at:
  "i < length ts \<Longrightarrow> sum_list (map f (ts[i := t])) + f (ts ! i) = sum_list (map f ts) + (f t :: nat)"
proof (induction ts arbitrary: i)
  case (Cons x xs)
  then show ?case by (cases i) auto
qed simp

lemma work_left_go_on:
  assumes "is_at s i old" and "steps_left (length (timer_threads s)) t < steps_left (length (timer_threads s)) old"
    and "timer_threads s' = timer_threads s"
  shows "work_left (go_on i t s') < work_left s"
  using assms sum_at [of i "timer_threads s" "steps_left (length (timer_threads s))" t]
  by (simp add: work_left_def is_at_def)

lemma work_left_notify:
  assumes "is_at s i old" and "f old = old" and "\<And>n u. steps_left n (f u) \<le> Suc (steps_left n u)"
    and "steps_left (length (timer_threads s)) t + length (timer_threads s) <
      steps_left (length (timer_threads s)) old"
  shows "work_left (go_on i t (notify_all f s)) < work_left s"
proof -
  let ?ts = "timer_threads s" and ?f = "steps_left (length (timer_threads s))"
  have i: "i < length (map f ?ts)" "map f ?ts ! i = old" using assms(1,2) by (simp_all add: is_at_def)
  have "sum_list (map ?f ((map f ?ts)[i := t])) + ?f old = sum_list (map ?f (map f ?ts)) + ?f t"
    using sum_at [OF i(1), of ?f t] i(2) by simp
  moreover have "sum_list (map ?f (map f ?ts)) \<le> sum_list (map ?f ?ts) + length ?ts"
    using sum_woken [of ?f f ?ts] assms(3) by simp
  ultimately show ?thesis using assms(4) by (simp add: work_left_def)
qed

lemma work_left_decreases: "timer_step c s s' \<Longrightarrow> c = Code \<Longrightarrow> work_left s' < work_left s"
proof (induction rule: timer_step.induct)
  case (notify_waiting s i b)
  show ?case by (rule work_left_notify [OF notify_waiting(1)]) (simp_all add: steps_left_woken)
next
  case (notify_sleeping s i all)
  show ?case by (rule work_left_notify [OF notify_sleeping(1)]) (simp_all add: steps_left_woken)
qed (auto intro: work_left_go_on)

text \<open>A thread at rest sleeps, or it waits for the counted threads, or it is outside.\<close>

definition at_rest :: "Timer \<Rightarrow> bool" where
  "at_rest s \<longleftrightarrow> (\<nexists>s'. timer_step Code s s')"

lemma at_rest_thread:
  assumes "at_rest s" and "is_at s i t"
  shows "(\<exists>r. t = Free r) \<or> t = Sleeping \<or> is_Waiting t"
proof -
  have no: "\<not> timer_step Code s s'" for s' using assms(1) by (simp add: at_rest_def)
  have at: "is_at s i t" by (rule assms(2))
  show ?thesis
  proof (cases t)
    case (Clearing b)
    then show ?thesis using at no timer_step.clear [of s i b] timer_step.not_clear [of s i b] by auto
  qed (use at no timer_step.check_disabled [of s i] timer_step.check_enabled [of s i] timer_step.count [of s i]
      timer_step.fall_asleep [of s i t] timer_step.leave [of s i t] timer_step.uncount [of s i]
      timer_step.notify_waiting [of s i] timer_step.disable [of s i] timer_step.notify_sleeping [of s i]
      timer_step.enable [of s i] in \<open>auto\<close>)
qed

lemma at_rest_outcome:
  assumes "at_rest s" and "timer_inv s"
  shows "(\<forall>t \<in> set (timer_threads s). \<exists>r. t = Free r) \<or>
    \<not> terminate s \<and> Sleeping \<in> set (timer_threads s) \<and>
    (\<forall>t \<in> set (timer_threads s). (\<exists>r. t = Free r) \<or> t = Sleeping \<or> is_Waiting t)"
proof -
  let ?ts = "timer_threads s"
  have rest: "(\<exists>r. t = Free r) \<or> t = Sleeping \<or> is_Waiting t" if "t \<in> set ?ts" for t
    using at_rest_thread [OF assms(1)] that unfolding in_set_conv_nth is_at_def by blast
  have quiet: "\<not> anyone is_Notifying ?ts" "\<not> anyone is_SleepDone ?ts"
    using rest unfolding anyone_def by fastforce+
  have sleeping: "Sleeping \<in> set ?ts" if "is_Waiting t" "t \<in> set ?ts" for t
  proof -
    have "num_waiting s \<noteq> 0"
      using that quiet assms(2) by (auto simp: timer_inv_def waiters_inv_def anyone_def)
    then have "0 < nof counted ?ts"
      using assms(2) unat_gt_0 [of "num_waiting s"] by (simp add: timer_inv_def counter_inv_def)
    then obtain u where u: "u \<in> set ?ts" "counted u" unfolding nof_pos by (meson nth_mem)
    moreover have "u = Sleeping" using rest [OF u(1)] u(2) by (cases u) simp_all
    ultimately show ?thesis by simp
  qed
  have "\<not> terminate s" if "Sleeping \<in> set ?ts"
    using that quiet assms(2) by (auto simp: timer_inv_def sleepers_inv_def anyone_def)
  then show ?thesis using rest sleeping by blast
qed

lemma code_run_terminates: "\<not> (f (0 :: nat) = s \<and> (\<forall>k. timer_step Code (f k) (f (Suc k))))"
proof (intro notI, elim conjE)
  assume run: "\<forall>k. timer_step Code (f k) (f (Suc k))"
  have "work_left (f k) + k \<le> work_left (f 0)" for k
  proof (induction k)
    case (Suc k)
    then show ?case using work_left_decreases [of Code "f k" "f (Suc k)"] run by auto
  qed simp
  from this [of "Suc (work_left (f 0))"] show False by simp
qed

lemma any_step_code: "rtranclp (timer_step Code) s s' \<Longrightarrow> rtranclp any_step s s'"
  by (rule mono_rtranclp [rule_format]) (auto simp: any_step_def)

section \<open>One interrupting thread\<close>

fun interrupting :: "TimerThread \<Rightarrow> bool" where
  "interrupting (Disabling a) = True"
| "interrupting (Notifying a) = True"
| "interrupting (Clearing b) = b"
| "interrupting (Waiting b) = b"
| "interrupting Enabling = True"
| "interrupting _ = False"

lemma interrupting_wake [simp]:
  "interrupting (wake_sleeper t) = interrupting t" "interrupting (wake_waiter t) = interrupting t"
  by (cases t; simp)+

text \<open>The points of a sleeper that will report that it was interrupted, and those where it is no longer
  counted.\<close>

definition gone :: "TimerThread \<Rightarrow> bool" where
  "gone u \<longleftrightarrow> u = SleepDone True \<or> u = Free (Some k_interrupted)"

definition going :: "TimerThread \<Rightarrow> bool" where
  "going u \<longleftrightarrow> gone u \<or> u = SleepCounted \<or> u = Sleeping \<or> u = Woken \<or> u = SleepLeft True"

text \<open>The interrupting thread, whether the timer is disabled, and a thread that has been counted before.\<close>

definition phase :: "TimerThread \<Rightarrow> bool \<Rightarrow> TimerThread \<Rightarrow> bool" where
  "phase t disabled u \<longleftrightarrow>
     t = Disabling True \<and> going u \<or>
     (t = Notifying True \<or> t = Clearing True \<or> t = Waiting True) \<and> disabled \<and> going u \<or>
     (t = Enabling \<or> t = Free None \<and> \<not> disabled) \<and> gone u"

definition interruption :: "nat \<Rightarrow> nat \<Rightarrow> Timer \<Rightarrow> bool" where
  "interruption i j s \<longleftrightarrow> i \<noteq> j \<and> i < length (timer_threads s) \<and> j < length (timer_threads s) \<and>
     (\<forall>k < length (timer_threads s). k \<noteq> i \<longrightarrow> \<not> interrupting (timer_threads s ! k)) \<and>
     phase (timer_threads s ! i) (terminate s) (timer_threads s ! j)"

lemma interruption_update:
  assumes "interruption i j s" and "is_at s k old" and "timer_threads s' = (timer_threads s)[k := new]"
    and "k \<noteq> i \<Longrightarrow> \<not> interrupting new \<and> terminate s' = terminate s"
    and "k = i \<Longrightarrow> phase old (terminate s) (timer_threads s ! j) \<Longrightarrow> phase new (terminate s') (timer_threads s ! j)"
    and "k = j \<Longrightarrow> phase (timer_threads s ! i) (terminate s) old \<Longrightarrow> phase (timer_threads s ! i) (terminate s) new"
  shows "interruption i j s'"
  using assms by (cases "k = i"; cases "k = j") (auto simp: interruption_def is_at_def nth_list_update)

lemma phase_wake:
  "phase t b u \<Longrightarrow> phase (wake_sleeper t) b (wake_sleeper u)"
  "phase t b u \<Longrightarrow> phase (wake_waiter t) b (wake_waiter u)"
  by (auto simp: phase_def going_def gone_def)

lemma interruption_wake:
  "interruption i j s \<Longrightarrow> interruption i j (notify_all wake_sleeper s)"
  "interruption i j s \<Longrightarrow> interruption i j (notify_all wake_waiter s)"
  by (simp_all add: interruption_def phase_wake)

lemma interruption_step:
  assumes "timer_step c s s'" and "c = Code" and "interruption i j s" and "counter_inv s"
  shows "interruption i j s'"
  using assms
proof (induction rule: timer_step.induct)
  case (notify_waiting s k b)
  have "is_at (notify_all wake_waiter s) k (SleepDone b)" using notify_waiting(1) by (simp add: is_at_def)
  then show ?case
    by (rule interruption_update [OF interruption_wake(2) [OF notify_waiting(3)]])
      (auto simp: phase_def going_def gone_def)
next
  case (notify_sleeping s k all)
  have "k = i" using notify_sleeping(1,3) by (auto simp: interruption_def is_at_def)
  have "is_at (notify_all wake_sleeper s) k (Notifying all)"
    using notify_sleeping(1) by (simp add: is_at_def)
  then show ?case
    by (rule interruption_update [OF interruption_wake(1) [OF notify_sleeping(3)]])
      (use \<open>k = i\<close> in \<open>auto simp: phase_def going_def gone_def\<close>)
next
  case (clear s k b)
  have "\<not> counted (timer_threads s ! j)"
    using clear(2-5) nof_zeroD [of counted "timer_threads s" j]
    by (simp add: counter_inv_def interruption_def)
  moreover have "\<not> b" if "k \<noteq> i"
    using clear(1,4) that by (auto simp: interruption_def is_at_def)
  ultimately show ?case
    by - (rule interruption_update [OF clear(4,1)], auto simp: phase_def going_def gone_def)
next
  case (not_clear s k b)
  have "\<not> b" if "k \<noteq> i"
    using not_clear(1,4) that by (auto simp: interruption_def is_at_def)
  then show ?case
    by - (rule interruption_update [OF not_clear(4,1)], auto simp: phase_def going_def gone_def)
next
  case (disable s k all)
  then have "k = i" by (auto simp: interruption_def is_at_def)
  then show ?case
    by - (rule interruption_update [OF disable(3,1)], auto simp: phase_def going_def gone_def)
next
  case (enable s k)
  then have "k = i" by (auto simp: interruption_def is_at_def)
  then show ?case
    by - (rule interruption_update [OF enable(3,1)], auto simp: phase_def going_def gone_def)
qed ((simp; fail) | (erule interruption_update, assumption, simp, (auto simp: phase_def going_def gone_def)[3]))+

lemma interruption_run:
  assumes "rtranclp (timer_step Code) s s'" and "interruption i j s" and "timer_inv s"
  shows "interruption i j s' \<and> timer_inv s'"
  using assms
proof (induction rule: rtranclp_induct)
  case (step s1 s2)
  then have "interruption i j s1" "timer_inv s1" by blast+
  then show ?case
    using interruption_step [OF step(2) refl] timer.inv_step [of s1 s2] step(2)
    by (auto simp: timer_inv_def any_step_def)
qed simp

lemma timer_length: "rtranclp any_step (InterruptableTimer_new n) s \<Longrightarrow> length (timer_threads s) = n"
proof (induction rule: rtranclp_induct)
  case (step s1 s2)
  then obtain c where "timer_step c s1 s2" by (auto simp: any_step_def)
  then have "length (timer_threads s2) = length (timer_threads s1)"
    by (induction rule: timer_step.induct) simp_all
  then show ?case using step by simp
qed (simp add: InterruptableTimer_new_def)

text \<open>A run of two threads, up to the call of \<^verbatim>\<open>interruptAll\<close> and from there until both have returned.\<close>

abbreviation timer_state :: "bool \<Rightarrow> uint32 \<Rightarrow> TimerThread list \<Rightarrow> Timer" where
  "timer_state b n ts \<equiv> \<lparr>terminate = b, num_waiting = n, timer_threads = ts\<rparr>"

lemmas timer_run_defs = is_at_def go_on_def notify_all_def InterruptableTimer_new_def numeral_2_eq_2

lemma any_run_step: "timer_step c s s' \<Longrightarrow> rtranclp any_step s' t \<Longrightarrow> rtranclp any_step s t"
  by (rule converse_rtranclp_into_rtranclp) (auto simp: any_step_def)

lemma code_run_step: "timer_step Code s s' \<Longrightarrow> rtranclp (timer_step Code) s' t \<Longrightarrow> rtranclp (timer_step Code) s t"
  by (rule converse_rtranclp_into_rtranclp)

lemma run_to_interruption:
  "rtranclp any_step (InterruptableTimer_new 2) (timer_state False 1 [Sleeping, Disabling True])"
proof -
  have 1: "timer_step Environment (InterruptableTimer_new 2) (timer_state False 0 [SleepCalled, Free None])"
    using timer_step.call [of "InterruptableTimer_new 2" 0 None SleepCalled] by (simp add: timer_run_defs)
  have 2: "timer_step Code (timer_state False 0 [SleepCalled, Free None]) (timer_state False 0 [SleepChecked, Free None])"
    using timer_step.check_enabled [of "timer_state False 0 [SleepCalled, Free None]" 0] by (simp add: timer_run_defs)
  have 3: "timer_step Code (timer_state False 0 [SleepChecked, Free None]) (timer_state False 1 [SleepCounted, Free None])"
    using timer_step.count [of "timer_state False 0 [SleepChecked, Free None]" 0] by (simp add: timer_run_defs)
  have 4: "timer_step Code (timer_state False 1 [SleepCounted, Free None]) (timer_state False 1 [Sleeping, Free None])"
    using timer_step.fall_asleep [of "timer_state False 1 [SleepCounted, Free None]" 0 SleepCounted] by (simp add: timer_run_defs)
  have 5: "timer_step Environment (timer_state False 1 [Sleeping, Free None]) (timer_state False 1 [Sleeping, Disabling True])"
    using timer_step.call [of "timer_state False 1 [Sleeping, Free None]" 1 None "Disabling True"] by (simp add: timer_run_defs)
  show ?thesis
    by (rule any_run_step [OF 1], rule any_run_step [OF 2], rule any_run_step [OF 3], rule any_run_step [OF 4], rule any_run_step [OF 5], rule rtranclp.rtrancl_refl)
qed

lemma run_to_rest:
  "rtranclp (timer_step Code) (timer_state False 1 [Sleeping, Disabling True]) (timer_state False 0 [Free (Some k_interrupted), Free None])"
proof -
  have 1: "timer_step Code (timer_state False 1 [Sleeping, Disabling True]) (timer_state True 1 [Sleeping, Notifying True])"
    using timer_step.disable [of "timer_state False 1 [Sleeping, Disabling True]" 1 True] by (simp add: timer_run_defs)
  have 2: "timer_step Code (timer_state True 1 [Sleeping, Notifying True]) (timer_state True 1 [Woken, Clearing True])"
    using timer_step.notify_sleeping [of "timer_state True 1 [Sleeping, Notifying True]" 1 True] by (simp add: timer_run_defs)
  have 3: "timer_step Code (timer_state True 1 [Woken, Clearing True]) (timer_state True 1 [SleepLeft True, Clearing True])"
    using timer_step.leave [of "timer_state True 1 [Woken, Clearing True]" 0 Woken] by (simp add: timer_run_defs)
  have 4: "timer_step Code (timer_state True 1 [SleepLeft True, Clearing True]) (timer_state True 0 [SleepDone True, Clearing True])"
    using timer_step.uncount [of "timer_state True 1 [SleepLeft True, Clearing True]" 0 True] by (simp add: timer_run_defs)
  have 5: "timer_step Code (timer_state True 0 [SleepDone True, Clearing True]) (timer_state True 0 [Free (Some k_interrupted), Clearing True])"
    using timer_step.notify_waiting [of "timer_state True 0 [SleepDone True, Clearing True]" 0 True] by (simp add: timer_run_defs)
  have 6: "timer_step Code (timer_state True 0 [Free (Some k_interrupted), Clearing True]) (timer_state True 0 [Free (Some k_interrupted), Enabling])"
    using timer_step.clear [of "timer_state True 0 [Free (Some k_interrupted), Clearing True]" 1 True] by (simp add: timer_run_defs)
  have 7: "timer_step Code (timer_state True 0 [Free (Some k_interrupted), Enabling]) (timer_state False 0 [Free (Some k_interrupted), Free None])"
    using timer_step.enable [of "timer_state True 0 [Free (Some k_interrupted), Enabling]" 1] by (simp add: timer_run_defs)
  show ?thesis
    by (rule code_run_step [OF 1], rule code_run_step [OF 2], rule code_run_step [OF 3], rule code_run_step [OF 4], rule code_run_step [OF 5], rule code_run_step [OF 6], rule code_run_step [OF 7], rule rtranclp.rtrancl_refl)
qed

lemma free_at_rest:
  "\<nexists>s''. timer_step Code (timer_state False 0 [Free (Some k_interrupted), Free None]) s''"
  by (auto elim!: timer_step.cases simp: is_at_def less_Suc_eq)

lemma run_to_missed:
  "rtranclp any_step (InterruptableTimer_new 2) (timer_state False 0 [SleepChecked, Disabling True])"
proof -
  have 1: "timer_step Environment (InterruptableTimer_new 2) (timer_state False 0 [SleepCalled, Free None])"
    using timer_step.call [of "InterruptableTimer_new 2" 0 None SleepCalled] by (simp add: timer_run_defs)
  have 2: "timer_step Code (timer_state False 0 [SleepCalled, Free None]) (timer_state False 0 [SleepChecked, Free None])"
    using timer_step.check_enabled [of "timer_state False 0 [SleepCalled, Free None]" 0] by (simp add: timer_run_defs)
  have 3: "timer_step Environment (timer_state False 0 [SleepChecked, Free None]) (timer_state False 0 [SleepChecked, Disabling True])"
    using timer_step.call [of "timer_state False 0 [SleepChecked, Free None]" 1 None "Disabling True"] by (simp add: timer_run_defs)
  show ?thesis
    by (rule any_run_step [OF 1], rule any_run_step [OF 2], rule any_run_step [OF 3], rule rtranclp.rtrancl_refl)
qed

lemma run_past:
  "rtranclp (timer_step Code) (timer_state False 0 [SleepChecked, Disabling True]) (timer_state False 1 [Sleeping, Free None])"
proof -
  have 1: "timer_step Code (timer_state False 0 [SleepChecked, Disabling True]) (timer_state True 0 [SleepChecked, Notifying True])"
    using timer_step.disable [of "timer_state False 0 [SleepChecked, Disabling True]" 1 True] by (simp add: timer_run_defs)
  have 2: "timer_step Code (timer_state True 0 [SleepChecked, Notifying True]) (timer_state True 0 [SleepChecked, Clearing True])"
    using timer_step.notify_sleeping [of "timer_state True 0 [SleepChecked, Notifying True]" 1 True] by (simp add: timer_run_defs)
  have 3: "timer_step Code (timer_state True 0 [SleepChecked, Clearing True]) (timer_state True 0 [SleepChecked, Enabling])"
    using timer_step.clear [of "timer_state True 0 [SleepChecked, Clearing True]" 1 True] by (simp add: timer_run_defs)
  have 4: "timer_step Code (timer_state True 0 [SleepChecked, Enabling]) (timer_state False 0 [SleepChecked, Free None])"
    using timer_step.enable [of "timer_state True 0 [SleepChecked, Enabling]" 1] by (simp add: timer_run_defs)
  have 5: "timer_step Code (timer_state False 0 [SleepChecked, Free None]) (timer_state False 1 [SleepCounted, Free None])"
    using timer_step.count [of "timer_state False 0 [SleepChecked, Free None]" 0] by (simp add: timer_run_defs)
  have 6: "timer_step Code (timer_state False 1 [SleepCounted, Free None]) (timer_state False 1 [Sleeping, Free None])"
    using timer_step.fall_asleep [of "timer_state False 1 [SleepCounted, Free None]" 0 SleepCounted] by (simp add: timer_run_defs)
  show ?thesis
    by (rule code_run_step [OF 1], rule code_run_step [OF 2], rule code_run_step [OF 3], rule code_run_step [OF 4], rule code_run_step [OF 5], rule code_run_step [OF 6], rule rtranclp.rtrancl_refl)
qed

section \<open>Properties\<close>

text \<open>C26: No notification of the timer is lost, whatever its threads do. From every state that any number of
  threads can reach, by any interleaving of calls, wake-ups without a reason and ends of sleeps,
  the code alone makes only finitely many steps. When it has come to rest, either
  every thread has returned, or the timer is enabled and some thread sleeps on it, and all others sleep as well,
  wait for the sleepers, or have returned. So no thread stays asleep on a timer that has been
  disabled, and none waits for sleepers that have left.\<close>

theorem timer_comes_to_rest:
  assumes "rtranclp any_step (InterruptableTimer_new n) s" and "n < 2 ^ 32"
  shows "(\<nexists>f. f (0 :: nat) = s \<and> (\<forall>k. timer_step Code (f k) (f (Suc k)))) \<and>
    (\<forall>s'. rtranclp (timer_step Code) s s' \<and> (\<nexists>s''. timer_step Code s' s'') \<longrightarrow>
      (\<forall>t \<in> set (timer_threads s'). \<exists>r. t = Free r) \<or>
      \<not> terminate s' \<and> Sleeping \<in> set (timer_threads s') \<and>
      (\<forall>t \<in> set (timer_threads s'). (\<exists>r. t = Free r) \<or> t = Sleeping \<or> (\<exists>b. t = Waiting b)))"
proof (intro conjI allI impI)
  show "\<nexists>f. f (0 :: nat) = s \<and> (\<forall>k. timer_step Code (f k) (f (Suc k)))"
    using code_run_terminates by blast
next
  fix s'
  assume s': "rtranclp (timer_step Code) s s' \<and> (\<nexists>s''. timer_step Code s' s'')"
  have "timer_inv s'"
    by (rule timer.reachable_inv [OF rtranclp_trans [OF assms(1) any_step_code]]) (use s' assms(2) in blast)+
  with s' show "(\<forall>t \<in> set (timer_threads s'). \<exists>r. t = Free r) \<or>
      \<not> terminate s' \<and> Sleeping \<in> set (timer_threads s') \<and>
      (\<forall>t \<in> set (timer_threads s'). (\<exists>r. t = Free r) \<or> t = Sleeping \<or> (\<exists>b. t = Waiting b))"
    using at_rest_outcome [of s'] by (simp add: at_rest_def is_Waiting_def)
qed

theorem timer_comes_to_rest_witness:
  "\<nexists>f. f (0 :: nat) = timer_state False 1 [Sleeping, Disabling True] \<and>
     (\<forall>k. timer_step Code (f k) (f (Suc k)))"
  using timer_comes_to_rest [OF run_to_interruption] by simp

text \<open>C27: Interrupting all sleeps interrupts every sleep that has begun and returns. Let a thread call
  \<^verbatim>\<open>interruptAll\<close> while no other thread disables or enables the timer, and let another thread be counted,
  its time not over. Then every run of the code that comes to rest, without new calls and without the end
  of a sleep, ends with the interrupting thread returned and the timer enabled, and
  the other thread has returned with the result that it was interrupted.\<close>

theorem interruptAll_interrupts_sleepers:
  assumes "rtranclp any_step (InterruptableTimer_new n) s" and "n < 2 ^ 32"
    and "is_at s i (Disabling True)" and "is_at s j t" and "t \<in> {SleepCounted, Sleeping, Woken}"
    and "\<forall>k < n. k \<noteq> i \<longrightarrow> \<not> interrupting (timer_threads s ! k)"
    and "rtranclp (timer_step Code) s s'" and "\<nexists>s''. timer_step Code s' s''"
  shows "is_at s' i (Free None) \<and> \<not> terminate s' \<and> is_at s' j (Free (Some k_interrupted))"
proof -
  have inv: "timer_inv s" by (rule timer.reachable_inv [OF assms(1)]) (use assms(2) in blast)
  have len: "length (timer_threads s) = n" by (rule timer_length [OF assms(1)])
  have "interruption i j s"
    using assms(3-6) len by (auto simp: interruption_def phase_def going_def is_at_def)
  then have run: "interruption i j s'" "timer_inv s'" using interruption_run [OF assms(7)] inv by blast+
  have rest: "at_rest s'" using assms(8) by (simp add: at_rest_def)
  let ?ts = "timer_threads s'"
  have at: "is_at s' i (?ts ! i)" "is_at s' j (?ts ! j)" and ph: "phase (?ts ! i) (terminate s') (?ts ! j)"
    using run(1) by (simp_all add: interruption_def is_at_def)
  have "?ts ! i \<in> set ?ts" using at(1) by (simp add: is_at_def)
  then have "\<not> is_Waiting (?ts ! i)"
    using at_rest_outcome [OF rest run(2)] ph by (auto simp: phase_def)
  then have "?ts ! i = Free None \<and> \<not> terminate s' \<and> gone (?ts ! j)"
    using at_rest_thread [OF rest at(1)] ph by (auto simp: phase_def)
  moreover from this have "?ts ! j = Free (Some k_interrupted)"
    using at_rest_thread [OF rest at(2)] by (auto simp: gone_def)
  ultimately show ?thesis using at by simp
qed

theorem interruptAll_interrupts_sleepers_witness:
  "is_at (timer_state False 0 [Free (Some k_interrupted), Free None]) 0 (Free (Some k_interrupted))"
proof -
  have "\<forall>k < 2. k \<noteq> 1 \<longrightarrow> \<not> interrupting ([Sleeping, Disabling True] ! k)" by (simp add: less_Suc_eq numeral_2_eq_2)
  then show ?thesis
    using interruptAll_interrupts_sleepers [OF run_to_interruption _ _ _ _ _ run_to_rest free_at_rest, of 1 0 Sleeping]
    by (simp add: is_at_def)
qed

text \<open>A sleep that has begun can miss an interruption. There is a run with two threads in which one has called
  the sleep and found the timer enabled, and then the other one goes through the whole of
  \<^verbatim>\<open>interruptAll\<close> and returns, before the first one is counted: it falls asleep afterwards on an enabled timer, and
  the code of the class alone does not wake it up.\<close>

theorem interruption_can_be_missed:
  "\<exists>s s'. rtranclp any_step (InterruptableTimer_new 2) s \<and> is_at s 0 SleepChecked \<and> is_at s 1 (Disabling True) \<and>
    rtranclp (timer_step Code) s s' \<and> is_at s' 0 Sleeping \<and> is_at s' 1 (Free None) \<and> \<not> terminate s' \<and>
    (\<nexists>s''. timer_step Code s' s'')"
proof (intro exI conjI)
  let ?s = "timer_state False 0 [SleepChecked, Disabling True]" and ?s' = "timer_state False 1 [Sleeping, Free None]"
  show "rtranclp any_step (InterruptableTimer_new 2) ?s" by (rule run_to_missed)
  show "rtranclp (timer_step Code) ?s ?s'" by (rule run_past)
  show "\<nexists>s''. timer_step Code ?s' s''" by (auto elim!: timer_step.cases simp: is_at_def less_Suc_eq)
qed (simp_all add: is_at_def)

end
