(* ===== verification/StateTimers.thy ===== *)
theory StateTimers
  imports StateEventHandler AgvHandlers InterruptableTimer
begin

text \<open>
  \<^verbatim>\<open>core/state/state_update_timer\<close> and \<^verbatim>\<open>visualization_timer\<close>: the threads that send the state and the
  visualization. The first sends periodically, and earlier when an update has been requested. Times
  are milliseconds; the clock is an argument. The last section has the timer thread and a
  requesting thread interleaved.
\<close>

section \<open>The state update timer\<close>

record UpdateTimer =
  max_update_period :: int
  last_sent :: int
  next_scheduled_update :: "int option"
  timer_disabled :: bool
  interrupted_sleeps :: nat

record TimerWorld =
  tw_timer :: UpdateTimer
  tw_state :: StateWorld
  tw_sent :: "(OrderPart \<times> StatusPart) list"

type_synonym 'a timed = "(TimerWorld, 'a) comp"

definition on_state_world :: "'a seh \<Rightarrow> 'a timed" where
  "on_state_world m w = (case m (tw_state w) of (r, s) \<Rightarrow> (r, w\<lparr>tw_state := s\<rparr>))"

definition set_timer :: "(UpdateTimer \<Rightarrow> UpdateTimer) \<Rightarrow> unit timed" where
  "set_timer f = modify (\<lambda>w. w\<lparr>tw_timer := f (tw_timer w)\<rparr>)"

lemma run_on_state_world [run_simps]:
  "on_state_world m w = (case m (tw_state w) of (r, s) \<Rightarrow> (r, w\<lparr>tw_state := s\<rparr>))"
  by (simp add: on_state_world_def)

lemma run_set_timer [run_simps]: "set_timer f w = (Inr (), w\<lparr>tw_timer := f (tw_timer w)\<rparr>)"
  by (simp add: set_timer_def run_simps)

definition empty_order_part :: OrderPart where
  "empty_order_part =
     \<lparr>st_orderId = [], st_orderUpdateId = 0, st_paused = False, st_lastNodeId = [],
      st_lastNodeSequenceId = 0, st_actionStates = [], st_nodeStates = [], st_edgeStates = []\<rparr>"

text \<open>A new message; both managers write their part.\<close>

definition doStateUpdate :: "unit timed" where
  "doStateUpdate =
     bindM (on_state_world (on_om (OrderManager_dumpTo empty_order_part))) (\<lambda>p.
     bindM (on_state_world (on_sm StatusManager_dumpTo)) (\<lambda>q.
     modify (\<lambda>w. w\<lparr>tw_sent := tw_sent w @ [(p, q)]\<rparr>)))"

text \<open>\<^verbatim>\<open>interruptAll\<close> leaves the timer enabled.\<close>

definition interrupt_timer :: "UpdateTimer \<Rightarrow> UpdateTimer" where
  "interrupt_timer t = t\<lparr>timer_disabled := False, interrupted_sleeps := interrupted_sleeps t + 1\<rparr>"

text \<open>The two readings of the clock are at the beginning and after the message has been dispatched.\<close>

definition requestUpdate :: "int \<Rightarrow> int \<Rightarrow> StateUpdateUrgency \<Rightarrow> unit timed" where
  "requestUpdate now later urgency =
     bindM (gets tw_timer) (\<lambda>t.
     let update_time_point = now + getMaxDelay urgency;
         update_time_point = (case next_scheduled_update t of
           None \<Rightarrow> update_time_point | Some n \<Rightarrow> min update_time_point n)
     in if isImmediate urgency
        then seqM doStateUpdate
               (set_timer (\<lambda>t. interrupt_timer (t\<lparr>last_sent := later, next_scheduled_update := None\<rparr>)))
        else set_timer (\<lambda>t. interrupt_timer (t\<lparr>next_scheduled_update := Some update_time_point\<rparr>)))"

text \<open>The event of a request; the result token is set only for an immediate one.\<close>

definition handleRequestStateUpdateEvent ::
  "int \<Rightarrow> int \<Rightarrow> StateUpdateUrgency option \<Rightarrow> unit Result \<Rightarrow> (unit Result) timed" where
  "handleRequestStateUpdateEvent now later data token =
     (case data of
        None \<Rightarrow> throw VDA5050PPInvalidEventData
      | Some urgency \<Rightarrow>
          seqM (requestUpdate now later urgency)
            (if acquireResultToken token \<and> isImmediate urgency then liftE (setValue () token)
             else ret token))"

section \<open>The timer's thread\<close>

definition wakeup_time_point :: "UpdateTimer \<Rightarrow> int" where
  "wakeup_time_point t =
     (case next_scheduled_update t of
        None \<Rightarrow> last_sent t + max_update_period t
      | Some n \<Rightarrow> min (last_sent t + max_update_period t) n)"

text \<open>One turn of the loop, by the result of the sleep.\<close>

definition timer_turn :: "int \<Rightarrow> InterruptableTimerStatus \<Rightarrow> unit timed" where
  "timer_turn later status =
     whenM (status = k_ok)
       (seqM doStateUpdate (set_timer (\<lambda>t. t\<lparr>last_sent := later, next_scheduled_update := None\<rparr>)))"

text \<open>How a sleep ends for a thread alone on a timer.\<close>

definition sleep_result :: "UpdateTimer \<Rightarrow> bool \<Rightarrow> InterruptableTimerStatus" where
  "sleep_result t interrupted =
     (if timer_disabled t then k_disabled else if interrupted then k_interrupted else k_ok)"

fun timer_turns :: "(int \<times> bool) list \<Rightarrow> unit timed" where
  "timer_turns [] = ret ()"
| "timer_turns ((later, interrupted) # rest) =
     bindM (gets tw_timer) (\<lambda>t. seqM (timer_turn later (sleep_result t interrupted)) (timer_turns rest))"

text \<open>
  \<^verbatim>\<open>initialize\<close> and \<^verbatim>\<open>deinitialize\<close>. Stopping the thread calls its stop callback, which disables the timer;
  the thread has set the callback when it began.
\<close>

definition StateUpdateTimer_initialize :: "int \<Rightarrow> UpdateTimer \<Rightarrow> UpdateTimer" where
  "StateUpdateTimer_initialize now t = t\<lparr>last_sent := now\<rparr>"

definition StateUpdateTimer_deinitialize :: "bool \<Rightarrow> UpdateTimer \<Rightarrow> UpdateTimer" where
  "StateUpdateTimer_deinitialize thread_began t =
     t\<lparr>last_sent := 0, next_scheduled_update := Some 0, timer_disabled := timer_disabled t \<or> thread_began\<rparr>"

definition StateUpdateTimer_new :: "int \<Rightarrow> UpdateTimer" where
  "StateUpdateTimer_new period =
     \<lparr>max_update_period = period, last_sent = 0, next_scheduled_update = None, timer_disabled = False,
      interrupted_sleeps = 0\<rparr>"

section \<open>The visualization timer\<close>

record VisualizationTimer =
  update_period :: int
  vis_disabled :: bool
  vis_sent :: "(AGVPosition \<times> Velocity option) list"
  vis_exited :: bool

text \<open>The velocity is sent once.\<close>

definition sendVisualization :: "(VisualizationTimer \<times> StatusManager, unit) comp" where
  "sendVisualization = (\<lambda>(v, sm).
     case getAGVPosition sm of
       (Inl x, sm1) \<Rightarrow> (Inl x, (v, sm1))
     | (Inr pos, sm1) \<Rightarrow>
         (case getVelocity sm1 of
            (Inl x, sm2) \<Rightarrow> (Inl x, (v, sm2))
          | (Inr vel, sm2) \<Rightarrow>
              (Inr (), (v\<lparr>vis_sent := vis_sent v @ [(pos, vel)]\<rparr>,
                 (if vel \<noteq> None then snd (resetVelocity sm2) else sm2)))))"

definition visualization_turn :: "InterruptableTimerStatus \<Rightarrow> (VisualizationTimer \<times> StatusManager, unit) comp" where
  "visualization_turn status =
     (case status of
        k_ok \<Rightarrow> sendVisualization
      | k_interrupted \<Rightarrow> ret ()
      | k_disabled \<Rightarrow> modify (\<lambda>(v, sm). (v\<lparr>vis_exited := True\<rparr>, sm)))"

definition VisualizationTimer_initialize :: "int \<Rightarrow> VisualizationTimer \<Rightarrow> VisualizationTimer" where
  "VisualizationTimer_initialize period v = v\<lparr>update_period := period, vis_disabled := False, vis_exited := False\<rparr>"

definition VisualizationTimer_deinitialize :: "VisualizationTimer \<Rightarrow> VisualizationTimer" where
  "VisualizationTimer_deinitialize v = v\<lparr>vis_disabled := True, vis_exited := True\<rparr>"

section \<open>The timer thread and a requesting thread\<close>

text \<open>
  The timer thread computes its wake-up time, falls asleep, sends, and forgets the requests. The
  requesting thread sets the requested time, without a mutex, and interrupts the sleep if there
  is one: a thread that has not fallen asleep yet is not interrupted (see
  \<^verbatim>\<open>interruptable_timer.h\<close>).
\<close>

datatype Routine = Computing | Computed int | Asleep int | Sending | SentState

datatype Requester = Quiet | Requested

record Race =
  clock :: int
  race_last_sent :: int
  race_next :: "int option"
  routine :: Routine
  requester :: Requester
  sent_at :: "int list"

definition earliest :: "int \<Rightarrow> int option \<Rightarrow> int" where
  "earliest t n = (case n of None \<Rightarrow> t | Some k \<Rightarrow> min t k)"

inductive race_step :: "int \<Rightarrow> Race \<Rightarrow> Race \<Rightarrow> bool" for period where
  tick: "race_step period s (s\<lparr>clock := clock s + 1\<rparr>)"
| compute: "routine s = Computing \<Longrightarrow>
    race_step period s (s\<lparr>routine := Computed (earliest (race_last_sent s + period) (race_next s))\<rparr>)"
| fall_asleep: "routine s = Computed t \<Longrightarrow> race_step period s (s\<lparr>routine := Asleep t\<rparr>)"
| time_over: "routine s = Asleep t \<Longrightarrow> t \<le> clock s \<Longrightarrow> race_step period s (s\<lparr>routine := Sending\<rparr>)"
| send: "routine s = Sending \<Longrightarrow>
    race_step period s (s\<lparr>routine := SentState, sent_at := sent_at s @ [clock s]\<rparr>)"
| forget: "routine s = SentState \<Longrightarrow>
    race_step period s (s\<lparr>routine := Computing, race_last_sent := clock s, race_next := None\<rparr>)"
| request: "requester s = Quiet \<Longrightarrow> 0 < delay \<Longrightarrow>
    race_step period s
      (s\<lparr>requester := Requested, race_next := Some (earliest (clock s + delay) (race_next s))\<rparr>)"
| interrupt: "requester s = Requested \<Longrightarrow>
    race_step period s
      (s\<lparr>requester := Quiet, routine := (case routine s of Asleep t \<Rightarrow> Computing | r \<Rightarrow> r)\<rparr>)"

definition Race_new :: Race where
  "Race_new = \<lparr>clock = 0, race_last_sent = 0, race_next = None, routine = Computing, requester = Quiet,
     sent_at = []\<rparr>"

end
