(* ===== verification/StateTimersProps.thy ===== *)
theory StateTimersProps
  imports StateTimers StateProps
begin

text \<open>
  Properties of the state update timer: requests only ever bring the next message forward, what the
  unsynchronised threads make of them, and what is left of the timer after a restart.
\<close>

section \<open>Requests in sequence\<close>

lemma doStateUpdate_keeps:
  "fst (doStateUpdate w) = Inr ()" "tw_timer (snd (doStateUpdate w)) = tw_timer w"
  "tw_state (snd (doStateUpdate w)) = tw_state w"
  "length (tw_sent (snd (doStateUpdate w))) = Suc (length (tw_sent w))"
  by (simp_all add: doStateUpdate_def run_simps OrderManager_dumpTo_def StatusManager_dumpTo_def)

lemma request_wakeup:
  assumes "\<not> isImmediate urgency"
  shows "requestUpdate now later urgency w =
    (Inr (), w\<lparr>tw_timer := interrupt_timer ((tw_timer w)\<lparr>next_scheduled_update :=
       Some (earliest (now + getMaxDelay urgency) (next_scheduled_update (tw_timer w)))\<rparr>)\<rparr>)"
  using assms by (simp add: requestUpdate_def run_simps Let_def earliest_def)

lemma request_brings_forward:
  assumes "\<not> isImmediate urgency"
  shows "wakeup_time_point (tw_timer (snd (requestUpdate now later urgency w))) =
    min (wakeup_time_point (tw_timer w)) (now + getMaxDelay urgency)"
  unfolding request_wakeup [OF assms]
  by (auto simp: wakeup_time_point_def interrupt_timer_def earliest_def split: option.split)

text \<open>
  What happens to the sleeping thread of the timer: a request, whose interruption ends the sleep, or
  the end of the sleep's time. The thread then makes its turn and sleeps again.
\<close>

datatype TimerInput = RequestUpdate StateUpdateUrgency | SleepEnds

definition turn_after :: "int \<Rightarrow> bool \<Rightarrow> unit timed" where
  "turn_after now interrupted =
     bindM (gets tw_timer) (\<lambda>t. timer_turn now (sleep_result t interrupted))"

fun timer_input :: "int \<Rightarrow> TimerInput \<Rightarrow> TimerWorld \<Rightarrow> TimerWorld" where
  "timer_input now (RequestUpdate urgency) w = snd (seqM (requestUpdate now now urgency) (turn_after now True) w)"
| "timer_input now SleepEnds w = snd (turn_after now False w)"

fun timed_run :: "(int \<times> TimerInput) list \<Rightarrow> TimerWorld \<Rightarrow> TimerWorld" where
  "timed_run [] w = w"
| "timed_run ((now, i) # es) w = timed_run es (timer_input now i w)"

text \<open>The times at which messages are sent.\<close>

fun sent_times :: "(int \<times> TimerInput) list \<Rightarrow> TimerWorld \<Rightarrow> int list" where
  "sent_times [] w = []"
| "sent_times ((now, i) # es) w =
     (let w' = timer_input now i w
      in replicate (length (tw_sent w') - length (tw_sent w)) now @ sent_times es w')"

text \<open>The clock does not go back, and the sleep ends when its time has come, at most \<open>late\<close> afterwards.\<close>

fun punctual :: "int \<Rightarrow> int \<Rightarrow> (int \<times> TimerInput) list \<Rightarrow> TimerWorld \<Rightarrow> bool" where
  "punctual late t [] w \<longleftrightarrow> True"
| "punctual late t ((now, i) # es) w \<longleftrightarrow>
     t \<le> now \<and> now \<le> wakeup_time_point (tw_timer w) + late \<and>
     (i = SleepEnds \<longrightarrow> wakeup_time_point (tw_timer w) \<le> now) \<and> punctual late now es (timer_input now i w)"

text \<open>The specification: a single time at which the next message is due.\<close>

fun due :: "int \<Rightarrow> (int \<times> TimerInput) list \<Rightarrow> int \<Rightarrow> int" where
  "due period [] d = d"
| "due period ((now, SleepEnds) # es) d = due period es (now + period)"
| "due period ((now, RequestUpdate u) # es) d =
     due period es (if isImmediate u then now + period else min d (now + getMaxDelay u))"

definition sends :: "TimerInput \<Rightarrow> bool" where
  "sends i \<longleftrightarrow> (case i of SleepEnds \<Rightarrow> True | RequestUpdate u \<Rightarrow> isImmediate u)"

lemma timer_input_spec:
  assumes "\<not> timer_disabled (tw_timer w)"
  shows "\<not> timer_disabled (tw_timer (timer_input now i w))"
    and "max_update_period (tw_timer (timer_input now i w)) = max_update_period (tw_timer w)"
    and "wakeup_time_point (tw_timer (timer_input now i w)) =
      due (max_update_period (tw_timer w)) [(now, i)] (wakeup_time_point (tw_timer w))"
    and "length (tw_sent (timer_input now i w)) = length (tw_sent w) + of_bool (sends i)"
proof -
  have "\<not> timer_disabled (tw_timer (timer_input now i w)) \<and>
    max_update_period (tw_timer (timer_input now i w)) = max_update_period (tw_timer w) \<and>
    wakeup_time_point (tw_timer (timer_input now i w)) =
      due (max_update_period (tw_timer w)) [(now, i)] (wakeup_time_point (tw_timer w)) \<and>
    length (tw_sent (timer_input now i w)) = length (tw_sent w) + of_bool (sends i)"
  proof (cases i)
    case SleepEnds
    obtain w1 where "doStateUpdate w = (Inr (), w1)" "tw_timer w1 = tw_timer w"
      "length (tw_sent w1) = Suc (length (tw_sent w))"
      using doStateUpdate_keeps [of w] by (cases "doStateUpdate w") simp
    then show ?thesis
      using assms SleepEnds
      by (simp add: turn_after_def timer_turn_def sleep_result_def run_simps wakeup_time_point_def sends_def)
  next
    case (RequestUpdate u)
    note defs = turn_after_def timer_turn_def sleep_result_def run_simps interrupt_timer_def sends_def
    show ?thesis
    proof (cases "isImmediate u")
      case True
      obtain w1 where "doStateUpdate w = (Inr (), w1)" "tw_timer w1 = tw_timer w"
        "length (tw_sent w1) = Suc (length (tw_sent w))"
        using doStateUpdate_keeps [of w] by (cases "doStateUpdate w") simp
      then show ?thesis
        using True RequestUpdate
        by (simp add: requestUpdate_def Let_def defs wakeup_time_point_def)
    next
      case False
      then show ?thesis
        using request_brings_forward [OF False, of now now w] RequestUpdate
        by (simp add: request_wakeup [OF False] defs)
    qed
  qed
  then show "\<not> timer_disabled (tw_timer (timer_input now i w))"
    and "max_update_period (tw_timer (timer_input now i w)) = max_update_period (tw_timer w)"
    and "wakeup_time_point (tw_timer (timer_input now i w)) =
      due (max_update_period (tw_timer w)) [(now, i)] (wakeup_time_point (tw_timer w))"
    and "length (tw_sent (timer_input now i w)) = length (tw_sent w) + of_bool (sends i)" by blast+
qed

lemma due_step: "due p (e # es) d = due p es (due p [e] d)"
  by (cases e rule: prod.exhaust, cases "snd e") auto

lemma due_run:
  "\<not> timer_disabled (tw_timer w) \<Longrightarrow>
     \<not> timer_disabled (tw_timer (timed_run es w)) \<and>
     max_update_period (tw_timer (timed_run es w)) = max_update_period (tw_timer w) \<and>
     wakeup_time_point (tw_timer (timed_run es w)) =
       due (max_update_period (tw_timer w)) es (wakeup_time_point (tw_timer w)) \<and>
     sent_times es w = map fst (filter (\<lambda>e. sends (snd e)) es)"
proof (induction es arbitrary: w)
  case (Cons e es)
  obtain now i where e: "e = (now, i)" by force
  note step = timer_input_spec [OF Cons.prems, of now i]
  show ?case
    using Cons.IH [OF step(1)] step(2-4) due_step [of "max_update_period (tw_timer w)" e es] e
    by (simp add: Let_def)
qed simp

lemma punctual_suffix: "punctual late t (pre @ post) w \<Longrightarrow> \<exists>t'. punctual late t' post (timed_run pre w)"
  by (induction pre arbitrary: t w) auto

text \<open>Once a message is due, it is sent in time.\<close>

lemma sent_in_time:
  assumes "punctual late t es w" and "\<not> timer_disabled (tw_timer w)" and "wakeup_time_point (tw_timer w) \<le> d"
  shows "(\<exists>x \<in> set (sent_times es w). t \<le> x \<and> x \<le> d + late) \<or> (\<forall>(x, i) \<in> set es. x \<le> d + late)"
  using assms
proof (induction es arbitrary: t w)
  case (Cons e es)
  obtain now i where e: "e = (now, i)" by force
  note step = timer_input_spec [OF Cons.prems(2), of now i]
  have now: "t \<le> now" "now \<le> d + late" and rest: "punctual late now es (timer_input now i w)"
    using Cons.prems(1,3) e by simp_all
  show ?case
  proof (cases "sends i")
    case True
    then have "now \<in> set (sent_times (e # es) w)" using e step(4) by (simp add: Let_def)
    then show ?thesis using now by blast
  next
    case False
    then have "wakeup_time_point (tw_timer (timer_input now i w)) \<le> d"
      using step(3) Cons.prems(3) by (cases i) (auto simp: sends_def)
    from Cons.IH [OF rest step(1) this] show ?thesis using now e by (auto simp: Let_def)
  qed
qed simp

text \<open>C28: State messages are sent in time. Let the requests come while the timer's thread sleeps on an enabled
  timer, immediate ones included, and let every sleep end at most \<open>late\<close> after its time.
  The thread always sleeps until the time at which the next message is due: at first the regular time, a
  period after the last message, brought forward by every request to the end of its delay, and
  reset by every message. So each request is followed by a message before its delay and \<open>late\<close> are over, if
  the run goes on that long; and at no time the next message comes later than a period and \<open>late\<close> after the
  last one. Messages are sent by immediate requests, at once, and by the ends of sleeps, and by nothing
  else. A request that comes while the thread does not sleep can be lost.\<close>

theorem requests_are_served_in_time:
  assumes "\<not> timer_disabled (tw_timer w)" and "punctual late t0 es w" and "0 \<le> late"
  shows "wakeup_time_point (tw_timer (timed_run es w)) =
      due (max_update_period (tw_timer w)) es (wakeup_time_point (tw_timer w)) \<and>
    sent_times es w = map fst (filter (\<lambda>e. sends (snd e)) es) \<and>
    (\<forall>pre now u post. es = pre @ (now, RequestUpdate u) # post \<longrightarrow>
      (\<exists>t \<in> set (sent_times ((now, RequestUpdate u) # post) (timed_run pre w)).
         now \<le> t \<and> t \<le> now + getMaxDelay u + late) \<or>
      (\<forall>(t, i) \<in> set post. t \<le> now + getMaxDelay u + late)) \<and>
    (\<forall>pre post. es = pre @ post \<longrightarrow>
      (let due_by = last_sent (tw_timer (timed_run pre w)) + max_update_period (tw_timer w) + late
       in (\<exists>t \<in> set (sent_times post (timed_run pre w)). t \<le> due_by) \<or> (\<forall>(t, i) \<in> set post. t \<le> due_by)))"
proof (intro conjI allI impI)
  show "wakeup_time_point (tw_timer (timed_run es w)) =
      due (max_update_period (tw_timer w)) es (wakeup_time_point (tw_timer w))"
    and "sent_times es w = map fst (filter (\<lambda>e. sends (snd e)) es)" using due_run [OF assms(1)] by blast+
next
  fix pre now u post
  assume es: "es = pre @ (now, RequestUpdate u) # post"
  let ?w = "timed_run pre w" and ?i = "RequestUpdate u"
  have on: "\<not> timer_disabled (tw_timer ?w)" using due_run [OF assms(1)] by blast
  note step = timer_input_spec [OF on, of now ?i]
  have rest: "punctual late now post (timer_input now ?i ?w)"
    using punctual_suffix [of late t0 pre "(now, ?i) # post" w] assms(2) es by auto
  show "(\<exists>t \<in> set (sent_times ((now, ?i) # post) ?w).
         now \<le> t \<and> t \<le> now + getMaxDelay u + late) \<or>
      (\<forall>(t, i) \<in> set post. t \<le> now + getMaxDelay u + late)"
  proof (cases "isImmediate u")
    case True
    then show ?thesis using step(4) assms(3) by (auto simp: Let_def sends_def isImmediate_def)
  next
    case False
    then have "wakeup_time_point (tw_timer (timer_input now ?i ?w)) \<le> now + getMaxDelay u"
      using step(3) by simp
    from sent_in_time [OF rest step(1) this] show ?thesis using False by (auto simp: Let_def)
  qed
next
  fix pre post
  assume es: "es = pre @ post"
  let ?w = "timed_run pre w"
  have on: "\<not> timer_disabled (tw_timer ?w)"
    and period: "max_update_period (tw_timer ?w) = max_update_period (tw_timer w)"
    using due_run [OF assms(1)] by blast+
  obtain t where "punctual late t post ?w" using punctual_suffix assms(2) es by blast
  moreover have "wakeup_time_point (tw_timer ?w) \<le> last_sent (tw_timer ?w) + max_update_period (tw_timer w)"
    using period by (auto simp: wakeup_time_point_def split: option.split)
  ultimately show "let due_by = last_sent (tw_timer ?w) + max_update_period (tw_timer w) + late
       in (\<exists>t \<in> set (sent_times post ?w). t \<le> due_by) \<or> (\<forall>(t, i) \<in> set post. t \<le> due_by)"
    using sent_in_time [OF _ on] by (fastforce simp: Let_def)
qed

definition sample_timer_world :: TimerWorld where
  "sample_timer_world = \<lparr>tw_timer = StateUpdateTimer_new 30000, tw_state = empty_state_world, tw_sent = []\<rparr>"

definition sample_timed_inputs :: "(int \<times> TimerInput) list" where
  "sample_timed_inputs = [(10, RequestUpdate urgency_low), (20, RequestUpdate urgency_high), (121, SleepEnds), (30121, SleepEnds)]"

theorem requests_are_served_in_time_witness:
  "sent_times sample_timed_inputs sample_timer_world = [121, 30121] \<and>
   wakeup_time_point (tw_timer (timed_run sample_timed_inputs sample_timer_world)) = 60121"
proof -
  have on: "\<not> timer_disabled (tw_timer sample_timer_world)" and start: "wakeup_time_point (tw_timer sample_timer_world) = 30000"
    and period: "max_update_period (tw_timer sample_timer_world) = 30000"
    by (simp_all add: sample_timer_world_def StateUpdateTimer_new_def wakeup_time_point_def)
  note urgencies = isImmediate_def urgency_low_def urgency_high_def
  have "punctual 5 0 sample_timed_inputs sample_timer_world"
    by (simp add: sample_timed_inputs_def timer_input_spec on start period urgencies del: timer_input.simps)
  from requests_are_served_in_time [OF on this] show ?thesis
    by (simp add: sample_timed_inputs_def start period urgencies sends_def)
qed

section \<open>Requests against the timer's thread\<close>

lemma ticks: "rtranclp (race_step period) s (s\<lparr>clock := clock s + int n\<rparr>)"
proof (induction n)
  case (Suc n)
  have "race_step period (s\<lparr>clock := clock s + int n\<rparr>) (s\<lparr>clock := clock s + int (Suc n)\<rparr>)"
    using race_step.tick [of period "s\<lparr>clock := clock s + int n\<rparr>"] by (simp add: algebra_simps)
  then show ?case by (rule rtranclp.rtrancl_into_rtrancl [OF Suc])
qed simp

lemma ticks_to: "clock s \<le> t \<Longrightarrow> rtranclp (race_step period) s (s\<lparr>clock := t\<rparr>)"
  using ticks [of period s "nat (t - clock s)"] by simp

abbreviation race :: "int \<Rightarrow> int \<Rightarrow> int option \<Rightarrow> Routine \<Rightarrow> Requester \<Rightarrow> int list \<Rightarrow> Race" where
  "race c l n r q xs \<equiv> \<lparr>clock = c, race_last_sent = l, race_next = n, routine = r, requester = q, sent_at = xs\<rparr>"

text \<open>The steps, as moves of the six components.\<close>

lemma race_moves:
  "race_step p (race c l n Computing q xs) (race c l n (Computed (earliest (l + p) n)) q xs)"
  "race_step p (race c l n (Computed t) q xs) (race c l n (Asleep t) q xs)"
  "t \<le> c \<Longrightarrow> race_step p (race c l n (Asleep t) q xs) (race c l n Sending q xs)"
  "race_step p (race c l n Sending q xs) (race c l n SentState q (xs @ [c]))"
  "race_step p (race c l n SentState q xs) (race c c None Computing q xs)"
  "0 < d \<Longrightarrow> race_step p (race c l n r Quiet xs) (race c l (Some (earliest (c + d) n)) r Requested xs)"
  "\<forall>t. r \<noteq> Asleep t \<Longrightarrow> race_step p (race c l n r Requested xs) (race c l n r Quiet xs)"
  using race_step.compute [of "race c l n Computing q xs" p] race_step.fall_asleep [of "race c l n (Computed t) q xs" t p]
    race_step.time_over [of "race c l n (Asleep t) q xs" t p] race_step.send [of "race c l n Sending q xs" p]
    race_step.forget [of "race c l n SentState q xs" p] race_step.request [of "race c l n r Quiet xs" d p]
    race_step.interrupt [of "race c l n r Requested xs" p]
  by (auto split: Routine.splits)

lemma race_ticks: "c \<le> c' \<Longrightarrow> rtranclp (race_step p) (race c l n r q xs) (race c' l n r q xs)"
  using ticks_to [of "race c l n r q xs" c' p] by simp

lemma late_request:
  assumes "0 < delay" and "0 \<le> t"
  shows "rtranclp (race_step period) Race_new (race t 0 (Some delay) (Asleep period) Quiet [])"
proof -
  let ?r = "rtranclp (race_step period)"
  have 1: "?r Race_new (race 0 0 None (Computed period) Quiet [])"
    using race_moves(1) [of period 0 0 None Quiet "[]"] by (simp add: Race_new_def earliest_def r_into_rtranclp)
  have 2: "?r (race 0 0 None (Computed period) Quiet []) (race 0 0 (Some delay) (Computed period) Requested [])"
    using race_moves(6) [OF assms(1), of period 0 0 None "Computed period" "[]"]
    by (simp add: earliest_def r_into_rtranclp)
  have 3: "?r (race 0 0 (Some delay) (Computed period) Requested []) (race 0 0 (Some delay) (Computed period) Quiet [])"
    using race_moves(7) [of "Computed period" period 0 0 "Some delay" "[]"] by (simp add: r_into_rtranclp)
  have 4: "?r (race 0 0 (Some delay) (Computed period) Quiet []) (race 0 0 (Some delay) (Asleep period) Quiet [])"
    using race_moves(2) by (rule r_into_rtranclp)
  show ?thesis
    by (rule rtranclp_trans [OF 1 rtranclp_trans [OF 2 rtranclp_trans [OF 3 rtranclp_trans [OF 4 race_ticks]]]])
      (rule assms(2))
qed

lemma forgotten_request:
  assumes "0 < (delay :: int)" and "0 < period"
  shows "rtranclp (race_step period) Race_new
    (race (2 * period - 1) period None (Asleep (2 * period)) Quiet [period])"
proof -
  let ?r = "rtranclp (race_step period)"
  have 1: "?r Race_new (race 0 0 None (Computed period) Quiet [])"
    using race_moves(1) [of period 0 0 None Quiet "[]"] by (simp add: Race_new_def earliest_def r_into_rtranclp)
  have 2: "?r (race 0 0 None (Computed period) Quiet []) (race 0 0 None (Asleep period) Quiet [])"
    using race_moves(2) by (rule r_into_rtranclp)
  have 3: "?r (race 0 0 None (Asleep period) Quiet []) (race period 0 None (Asleep period) Quiet [])"
    using assms(2) by (intro race_ticks) simp
  have 4: "?r (race period 0 None (Asleep period) Quiet []) (race period 0 None Sending Quiet [])"
    using race_moves(3) [of period period] by (simp add: r_into_rtranclp)
  have 5: "?r (race period 0 None Sending Quiet []) (race period 0 None SentState Quiet [period])"
    using race_moves(4) [of period period 0 None Quiet "[]"] by (simp add: r_into_rtranclp)
  have 6: "?r (race period 0 None SentState Quiet [period])
      (race period 0 (Some (period + delay)) SentState Requested [period])"
    using race_moves(6) [OF assms(1), of period period 0 None SentState "[period]"]
    by (simp add: earliest_def r_into_rtranclp)
  have 7: "?r (race period 0 (Some (period + delay)) SentState Requested [period])
      (race period 0 (Some (period + delay)) SentState Quiet [period])"
    using race_moves(7) [of SentState period period] by (simp add: r_into_rtranclp)
  have 8: "?r (race period 0 (Some (period + delay)) SentState Quiet [period])
      (race period period None Computing Quiet [period])"
    using race_moves(5) by (rule r_into_rtranclp)
  have 9: "?r (race period period None Computing Quiet [period]) (race period period None (Computed (2 * period)) Quiet [period])"
    using race_moves(1) [of period period period None Quiet "[period]"]
    by (simp add: earliest_def r_into_rtranclp)
  have 10: "?r (race period period None (Computed (2 * period)) Quiet [period])
      (race period period None (Asleep (2 * period)) Quiet [period])"
    using race_moves(2) by (rule r_into_rtranclp)
  have 11: "?r (race period period None (Asleep (2 * period)) Quiet [period])
      (race (2 * period - 1) period None (Asleep (2 * period)) Quiet [period])"
    using assms(2) by (intro race_ticks) simp
  show ?thesis by (intro rtranclp_trans [OF 1] rtranclp_trans [OF 2] rtranclp_trans [OF 3] rtranclp_trans [OF 4]
      rtranclp_trans [OF 5] rtranclp_trans [OF 6] rtranclp_trans [OF 7] rtranclp_trans [OF 8] rtranclp_trans [OF 9]
      rtranclp_trans [OF 10] 11)
qed

section \<open>The timer after a restart\<close>

lemma disabled_turns:
  assumes "timer_disabled (tw_timer w)"
  shows "timer_turns turns w = (Inr (), w)"
  using assms
  by (induction turns) (auto simp: run_simps timer_turn_def sleep_result_def)

section \<open>Properties of the threads\<close>

text \<open>The timer's thread and a requesting thread share the requested time without a mutex, and a request
  can get lost in two ways. First, when it comes after the thread has computed its wake-up time and
  before it sleeps: it has set its deadline and returned, and still nothing is sent until the regular
  period is over. Second, when it comes after a message has been sent, and before the thread forgets
  the requests that the message has served: it is forgotten too.\<close>

theorem update_requests_can_be_lost:
  assumes "0 < delay" and "delay < period"
  shows "rtranclp (race_step period) Race_new (race (period - 1) 0 (Some delay) (Asleep period) Quiet []) \<and>
    rtranclp (race_step period) Race_new
      (race (2 * period - 1) period None (Asleep (2 * period)) Quiet [period])"
  using late_request [OF assms(1), of "period - 1" period] forgotten_request [OF assms(1), of period] assms
  by simp

theorem update_requests_can_be_lost_witness:
  "rtranclp (race_step 30000) Race_new (race 29999 0 (Some 100) (Asleep 30000) Quiet [])"
  using update_requests_can_be_lost [of 100 30000] by simp

text \<open>After the modules have been deinitialized and initialized again, the state update timer stays
  disabled: stopping its thread disables the timer, and nothing enables it again. The new thread finds
  the timer disabled in every turn, sends nothing, and turns around at once, until a request
  interrupts it. The visualization timer enables its timer when it is initialized.\<close>

theorem restarted_timer_is_silent:
  "timer_turns turns (w\<lparr>tw_timer := StateUpdateTimer_initialize now (StateUpdateTimer_deinitialize True t)\<rparr>) =
     (Inr (), w\<lparr>tw_timer := StateUpdateTimer_initialize now (StateUpdateTimer_deinitialize True t)\<rparr>) \<and>
   \<not> timer_disabled (interrupt_timer t) \<and>
   \<not> vis_disabled (VisualizationTimer_initialize period (VisualizationTimer_deinitialize v))"
  by (subst disabled_turns)
    (simp_all add: StateUpdateTimer_initialize_def StateUpdateTimer_deinitialize_def interrupt_timer_def
      VisualizationTimer_initialize_def)

end
