(* ===== verification/SubConfigs.thy ===== *)
theory SubConfigs
  imports StateTimers "HOL-Library.Signed_Division"
begin

text \<open>
  The configurations of the modules, \<^verbatim>\<open>vda5050++/config/*_subconfig.cpp\<close>: \<open>putTo\<close> writes a configuration
  into a TOML table, \<open>getFrom\<close> reads it from a node that may be missing. The TOML library itself is not
  part of the repository: nodes are values, and its typed access \<^verbatim>\<open>node.value<T>()\<close> is an argument.
\<close>

section \<open>TOML nodes\<close>

type_synonym int64 = "64 word"
type_synonym int32 = "32 word"

datatype Toml =
    TString string
  | TInteger int64
  | TFloating double
  | TBoolean bool
  | TArray "Toml list"
  | TTable "(string, Toml) std_map"

type_synonym toml_table = "(string, Toml) std_map"

text \<open>
  \<^verbatim>\<open>node["key"]\<close>: empty for a missing node, for a node that is not a table, and for a key the table does
  not have. The key is taken as it is; dots have no meaning. \<^verbatim>\<open>table.insert\<close> is \<open>try_emplace\<close>.
\<close>

fun node_at :: "Toml option \<Rightarrow> string \<Rightarrow> Toml option" where
  "node_at (Some (TTable t)) k = map_of t k"
| "node_at _ k = None"

text \<open>The typed readings, and \<^verbatim>\<open>double\<close> to \<^verbatim>\<open>uint32_t\<close>, empty where that is undefined.\<close>

record TomlReads =
  value_string :: "Toml \<Rightarrow> string option"
  value_int64 :: "Toml \<Rightarrow> int64 option"
  value_int :: "Toml \<Rightarrow> int32 option"
  value_uint32 :: "Toml \<Rightarrow> uint32 option"
  value_double :: "Toml \<Rightarrow> double option"
  value_bool :: "Toml \<Rightarrow> bool option"
  double_to_uint32 :: "double \<Rightarrow> uint32 option"

text \<open>
  What the documentation of the library says of a node that has the requested type. A narrower
  integer is read if it can hold the value, and an integer is read as a floating point number that
  represents it.
\<close>

definition in_int :: "int64 \<Rightarrow> bool" where
  "in_int i \<longleftrightarrow> - (2 ^ 31) \<le> sint i \<and> sint i < 2 ^ 31"

definition reads_own :: "TomlReads \<Rightarrow> bool" where
  "reads_own tv \<longleftrightarrow>
     (\<forall>s. value_string tv (TString s) = Some s) \<and>
     (\<forall>i. value_int64 tv (TInteger i) = Some i) \<and>
     (\<forall>i. value_int tv (TInteger i) = (if in_int i then Some (ucast i) else None)) \<and>
     (\<forall>n. value_uint32 tv (TInteger (ucast n)) = Some n) \<and>
     (\<forall>d. value_double tv (TFloating d) = Some d) \<and>
     (\<forall>b. value_bool tv (TBoolean b) = Some b) \<and>
     (\<forall>n. Option.bind (value_double tv (TInteger (ucast n))) (double_to_uint32 tv) = Some n)"

lemma reads_own_simps:
  assumes "reads_own tv"
  shows "value_string tv (TString s) = Some s" "value_int64 tv (TInteger i) = Some i"
    "value_int tv (TInteger i) = (if in_int i then Some (ucast i) else None)"
    "value_uint32 tv (TInteger (ucast n)) = Some n" "value_double tv (TFloating d) = Some d"
    "value_bool tv (TBoolean b) = Some b"
  using assms by (simp_all add: reads_own_def)

definition read :: "(Toml \<Rightarrow> 'v option) \<Rightarrow> Toml option \<Rightarrow> string \<Rightarrow> 'v option" where
  "read val node k = Option.bind (node_at node k) val"

definition read_or :: "(Toml \<Rightarrow> 'v option) \<Rightarrow> Toml option \<Rightarrow> string \<Rightarrow> 'v \<Rightarrow> 'v" where
  "read_or val node k d = (case read val node k of None \<Rightarrow> d | Some v \<Rightarrow> v)"

text \<open>An optional member is written when it is engaged.\<close>

definition put :: "string \<Rightarrow> Toml \<Rightarrow> toml_table \<Rightarrow> toml_table" where
  "put k v t = try_emplace k v t"

definition put_opt :: "string \<Rightarrow> ('v \<Rightarrow> Toml) \<Rightarrow> 'v option \<Rightarrow> toml_table \<Rightarrow> toml_table" where
  "put_opt k f v t = (case v of None \<Rightarrow> t | Some x \<Rightarrow> put k (f x) t)"

lemma map_of_assign: "map_of (insert_or_assign k v t) j = (if j = k then Some v else map_of t j)"
  by (induction k v t rule: insert_or_assign.induct) auto

lemma map_of_put:
  "map_of (put k v t) j = (case map_of t j of Some w \<Rightarrow> Some w | None \<Rightarrow> if j = k then Some v else None)"
  by (auto simp: put_def try_emplace_def map_of_assign split: option.splits)

lemma map_of_put_opt:
  "map_of (put_opt k f v t) j =
     (case map_of t j of Some w \<Rightarrow> Some w | None \<Rightarrow> if j = k then map_option f v else None)"
  by (auto simp: put_opt_def map_of_put split: option.splits)

definition on_fst :: "('a, unit) comp \<Rightarrow> ('a \<times> 'b, unit) comp" where
  "on_fst m = (\<lambda>(a, b). case m a of (r, a') \<Rightarrow> (r, (a', b)))"

lemma run_on_fst [run_simps]: "on_fst m (a, b) = (case m a of (r, a') \<Rightarrow> (r, (a', b)))"
  by (simp add: on_fst_def)

definition set_own :: "('b \<Rightarrow> 'b) \<Rightarrow> ('a \<times> 'b, unit) comp" where
  "set_own f = modify (\<lambda>(a, b). (a, f b))"

lemma run_set_own [run_simps]: "set_own f (a, b) = (Inr (), (a, f b))"
  by (simp add: set_own_def run_simps)

section \<open>Logging\<close>

datatype LogLevel = k_debug | k_info | k_warn | k_error | k_off

definition logLevelFromString :: "string \<Rightarrow> exn + LogLevel" where
  "logLevelFromString str =
     (if str = ''debug'' then Inr k_debug
      else if str = ''info'' then Inr k_info
      else if str = ''warn'' then Inr k_warn
      else if str = ''error'' then Inr k_error
      else if str = ''off'' then Inr k_off
      else Inl VDA5050PPTOMLError)"

fun logLevelToString :: "LogLevel \<Rightarrow> string" where
  "logLevelToString k_debug = ''debug''"
| "logLevelToString k_info = ''info''"
| "logLevelToString k_warn = ''warn''"
| "logLevelToString k_error = ''error''"
| "logLevelToString k_off = ''off''"

lemma logLevel_roundtrip [simp]: "logLevelFromString (logLevelToString l) = Inr l"
  by (cases l) (simp_all add: logLevelFromString_def)

record LoggingSubConfig =
  log_level :: "LogLevel option"
  log_file_name :: "string option"
  log_file_timestamp_suffix :: bool

definition LoggingSubConfig_new :: LoggingSubConfig where
  "LoggingSubConfig_new = \<lparr>log_level = None, log_file_name = None, log_file_timestamp_suffix = True\<rparr>"

definition LoggingSubConfig_getFrom :: "TomlReads \<Rightarrow> Toml option \<Rightarrow> (LoggingSubConfig, unit) comp" where
  "LoggingSubConfig_getFrom tv node =
     seqM (case read (value_string tv) node ''log_level'' of
             None \<Rightarrow> ret ()
           | Some s \<Rightarrow> bindM (liftE (logLevelFromString s)) (\<lambda>ll. modify (\<lambda>c. c\<lparr>log_level := Some ll\<rparr>)))
       (modify (\<lambda>c. c\<lparr>log_file_name := read (value_string tv) node ''log_file_name'',
          log_file_timestamp_suffix := read_or (value_bool tv) node ''log_file_timestamp_suffix'' True\<rparr>))"

definition LoggingSubConfig_putTo :: "LoggingSubConfig \<Rightarrow> toml_table \<Rightarrow> toml_table" where
  "LoggingSubConfig_putTo c t =
     put ''log_file_timestamp_suffix'' (TBoolean (log_file_timestamp_suffix c))
       (put_opt ''log_file_name'' TString (log_file_name c)
         (put_opt ''log_level'' (TString \<circ> logLevelToString) (log_level c) t))"

text \<open>\<^verbatim>\<open>ModuleSubConfig\<close> adds nothing.\<close>

definition ModuleSubConfig_getFrom :: "TomlReads \<Rightarrow> Toml option \<Rightarrow> (LoggingSubConfig, unit) comp" where
  "ModuleSubConfig_getFrom = LoggingSubConfig_getFrom"

definition ModuleSubConfig_putTo :: "LoggingSubConfig \<Rightarrow> toml_table \<Rightarrow> toml_table" where
  "ModuleSubConfig_putTo = LoggingSubConfig_putTo"

section \<open>The global configuration\<close>

text \<open>A \<^verbatim>\<open>std::set\<close> of strings is its ascending list.\<close>

record GlobalConfig =
  global_logging :: LoggingSubConfig
  sync_event_dispatch :: bool
  is_black_list :: bool
  module_bw_list :: "string list"

definition GlobalConfig_new :: GlobalConfig where
  "GlobalConfig_new = \<lparr>global_logging = LoggingSubConfig_new, sync_event_dispatch = False,
     is_black_list = True, module_bw_list = []\<rparr>"

fun insert_strings :: "Toml list \<Rightarrow> string list \<Rightarrow> string list" where
  "insert_strings [] s = s"
| "insert_strings (TString v # vs) s = insert_strings vs (insort_insert v s)"
| "insert_strings (v # vs) s = insert_strings vs s"

definition GlobalConfig_getFrom :: "TomlReads \<Rightarrow> Toml option \<Rightarrow> (GlobalConfig, unit) comp" where
  "GlobalConfig_getFrom tv node c =
     (case LoggingSubConfig_getFrom tv node (global_logging c) of
        (Inl e, l) \<Rightarrow> (Inl e, c\<lparr>global_logging := l\<rparr>)
      | (Inr _, l) \<Rightarrow>
          (let c = c\<lparr>global_logging := l, sync_event_dispatch :=
                 read_or (value_bool tv) node ''event_manager_options.synchronous_event_dispatch'' False\<rparr>;
               bl = node_at node ''module_black_list'';
               wl = node_at node ''module_white_list''
           in if bl \<noteq> None \<and> wl \<noteq> None then (Inl VDA5050PPInvalidConfiguration, c)
              else (case (if bl \<noteq> None then bl else wl) of
                  Some (TArray vs) \<Rightarrow>
                    (Inr (), c\<lparr>is_black_list := True, module_bw_list := insert_strings vs (module_bw_list c)\<rparr>)
                | _ \<Rightarrow> (Inr (), c))))"

definition GlobalConfig_putTo :: "GlobalConfig \<Rightarrow> toml_table \<Rightarrow> toml_table" where
  "GlobalConfig_putTo c t =
     (let t = LoggingSubConfig_putTo (global_logging c) t;
          t = put ''event_manager_options''
                (TTable [(''synchronous_event_dispatch'', TBoolean (sync_event_dispatch c))]) t
      in if module_bw_list c = [] then t
         else put (if is_black_list c then ''module_black_list'' else ''module_white_list'')
                (TArray (map TString (module_bw_list c))) t)"

definition isListedModule :: "GlobalConfig \<Rightarrow> string \<Rightarrow> bool" where
  "isListedModule c key \<longleftrightarrow> is_black_list c \<noteq> (key \<in> set (module_bw_list c))"

definition useBlackList :: "GlobalConfig \<Rightarrow> GlobalConfig" where
  "useBlackList c = c\<lparr>is_black_list := True\<rparr>"

definition useWhiteList :: "GlobalConfig \<Rightarrow> GlobalConfig" where
  "useWhiteList c = c\<lparr>is_black_list := False\<rparr>"

definition bwListModule :: "string \<Rightarrow> GlobalConfig \<Rightarrow> GlobalConfig" where
  "bwListModule key c = c\<lparr>module_bw_list := insort_insert key (module_bw_list c)\<rparr>"

definition bwUnListModule :: "string \<Rightarrow> GlobalConfig \<Rightarrow> GlobalConfig" where
  "bwUnListModule key c = c\<lparr>module_bw_list := filter (\<lambda>k. k \<noteq> key) (module_bw_list c)\<rparr>"

section \<open>Durations\<close>

text \<open>
  \<^verbatim>\<open>system_clock::duration\<close> counts nanoseconds in 64 bits. Turning milliseconds into nanoseconds may overflow,
  which is undefined; \<^verbatim>\<open>duration_cast\<close> to milliseconds rounds towards zero.
\<close>

definition applyMS :: "int64 option \<Rightarrow> exn + int option" where
  "applyMS value =
     (case value of
        None \<Rightarrow> Inr None
      | Some i \<Rightarrow>
          (let ns = sint i * 1000000
           in if - (2 ^ 63) \<le> ns \<and> ns < 2 ^ 63 then Inr (Some ns) else Inl UndefinedBehaviour))"

definition count_ms :: "int \<Rightarrow> int64" where
  "count_ms ns = word_of_int (ns sdiv 1000000)"

definition put_ms :: "string \<Rightarrow> int option \<Rightarrow> toml_table \<Rightarrow> toml_table" where
  "put_ms k d = put_opt k (TInteger \<circ> count_ms) d"

section \<open>MQTT\<close>

record MqttOptions =
  username :: "string option"
  password :: "string option"
  version_overwrite :: "string option"
  mqtt_server :: string
  mqtt_interface :: string
  enable_cert_check :: bool
  use_ssl :: bool
  min_retry_interval :: "int option"
  max_retry_interval :: "int option"
  keep_alive_interval :: "int option"
  connect_timeout :: "int option"

definition MqttSubConfig_getFrom :: "TomlReads \<Rightarrow> Toml option \<Rightarrow> (LoggingSubConfig \<times> MqttOptions, unit) comp" where
  "MqttSubConfig_getFrom tv node =
     seqM (on_fst (ModuleSubConfig_getFrom tv node))
    (seqM (set_own (\<lambda>c. c\<lparr>
        username := read (value_string tv) node ''username'',
        password := read (value_string tv) node ''password'',
        version_overwrite := read (value_string tv) node ''version_overwrite'',
        mqtt_server := read_or (value_string tv) node ''server'' ''tcp://localhost:1883'',
        mqtt_interface := read_or (value_string tv) node ''interface'' ''uagv'',
        enable_cert_check := read_or (value_bool tv) node ''enable_cert_check'' False,
        use_ssl := read_or (value_bool tv) node ''use_ssl'' False\<rparr>))
    (bindM (liftE (applyMS (read (value_int64 tv) node ''min_retry_interval_ms''))) (\<lambda>d.
     seqM (set_own (\<lambda>c. c\<lparr>min_retry_interval := d\<rparr>))
    (bindM (liftE (applyMS (read (value_int64 tv) node ''max_retry_interval_ms''))) (\<lambda>d.
     seqM (set_own (\<lambda>c. c\<lparr>max_retry_interval := d\<rparr>))
    (bindM (liftE (applyMS (read (value_int64 tv) node ''keep_alive_interval_ms''))) (\<lambda>d.
     seqM (set_own (\<lambda>c. c\<lparr>keep_alive_interval := d\<rparr>))
    (bindM (liftE (applyMS (read (value_int64 tv) node ''connect_timeout_ms''))) (\<lambda>d.
     set_own (\<lambda>c. c\<lparr>connect_timeout := d\<rparr>))))))))))"

definition MqttSubConfig_putTo :: "LoggingSubConfig \<times> MqttOptions \<Rightarrow> toml_table \<Rightarrow> toml_table" where
  "MqttSubConfig_putTo = (\<lambda>(l, c) t.
     put_ms ''connect_timeout_ms'' (connect_timeout c)
    (put_ms ''keep_alive_interval_ms'' (keep_alive_interval c)
    (put_ms ''max_retry_interval_ms'' (max_retry_interval c)
    (put_ms ''min_retry_interval_ms'' (min_retry_interval c)
    (put ''use_ssl'' (TBoolean (use_ssl c))
    (put ''enable_cert_check'' (TBoolean (enable_cert_check c))
    (put ''interface'' (TString (mqtt_interface c))
    (put ''server'' (TString (mqtt_server c))
    (put_opt ''version_overwrite'' TString (version_overwrite c)
    (put_opt ''password'' TString (password c)
    (put_opt ''username'' TString (username c)
    (ModuleSubConfig_putTo l t))))))))))))"

section \<open>Query event handler\<close>

text \<open>The loop over the zone sets; what has been read before an entry that is no string stays.\<close>

fun read_zone_sets :: "TomlReads \<Rightarrow> Toml list \<Rightarrow> string list \<Rightarrow> (LoggingSubConfig \<times> QueryConfig, unit) comp" where
  "read_zone_sets tv [] zs = set_own (\<lambda>c. c\<lparr>default_accept_zone_sets := Some zs\<rparr>)"
| "read_zone_sets tv (v # vs) zs =
     (case value_string tv v of
        Some z \<Rightarrow> read_zone_sets tv vs (insort_insert z zs)
      | None \<Rightarrow> seqM (set_own (\<lambda>c. c\<lparr>default_accept_zone_sets := Some zs\<rparr>)) (throw VDA5050PPTOMLError))"

definition QueryEventHandlerSubConfig_getFrom ::
  "TomlReads \<Rightarrow> Toml option \<Rightarrow> (LoggingSubConfig \<times> QueryConfig, unit) comp" where
  "QueryEventHandlerSubConfig_getFrom tv node =
     seqM (on_fst (ModuleSubConfig_getFrom tv node))
    (seqM (set_own (\<lambda>c. c\<lparr>
        default_pauseable_success := read (value_bool tv) node ''default_pauseable_success'',
        default_resumable_success := read (value_bool tv) node ''default_resumable_success'',
        default_accept_zone_set_success := read (value_bool tv) node ''default_zone_set_success''\<rparr>))
    (case node_at node ''default_zone_sets'' of
        Some (TArray vs) \<Rightarrow> read_zone_sets tv vs []
      | _ \<Rightarrow> set_own (\<lambda>c. c\<lparr>default_accept_zone_sets := None\<rparr>)))"

definition QueryEventHandlerSubConfig_putTo :: "LoggingSubConfig \<times> QueryConfig \<Rightarrow> toml_table \<Rightarrow> toml_table" where
  "QueryEventHandlerSubConfig_putTo = (\<lambda>(l, c) t.
     put_opt ''default_zone_sets'' (TArray \<circ> map TString) (default_accept_zone_sets c)
    (put_opt ''default_accept_zone_set_success'' TBoolean (default_accept_zone_set_success c)
    (put_opt ''default_resumable_success'' TBoolean (default_resumable_success c)
    (put_opt ''default_pauseable_success'' TBoolean (default_pauseable_success c)
    (ModuleSubConfig_putTo l t)))))"

section \<open>State event handler\<close>

definition StateSubConfig_getFrom :: "TomlReads \<Rightarrow> Toml option \<Rightarrow> (LoggingSubConfig \<times> StateConfig, unit) comp" where
  "StateSubConfig_getFrom tv node =
     seqM (on_fst (ModuleSubConfig_getFrom tv node))
    (set_own (\<lambda>c. c\<lparr>
        default_agv_position_map := read (value_string tv) node ''defaut_agv_position_map'',
        use_agv_position_from_order := read_or (value_bool tv) node ''use_agv_position_from_order'' False\<rparr>))"

definition StateSubConfig_putTo :: "LoggingSubConfig \<times> StateConfig \<Rightarrow> toml_table \<Rightarrow> toml_table" where
  "StateSubConfig_putTo = (\<lambda>(l, c) t.
     put ''use_agv_position_from_order'' (TBoolean (use_agv_position_from_order c))
    (put_opt ''default_agv_position_map'' TString (default_agv_position_map c)
    (ModuleSubConfig_putTo l t)))"

section \<open>Timers\<close>

text \<open>Both timers have one setting, a period in nanoseconds; they differ in its key.\<close>

definition period_getFrom :: "string \<Rightarrow> TomlReads \<Rightarrow> Toml option \<Rightarrow> (LoggingSubConfig \<times> int, unit) comp" where
  "period_getFrom key tv node =
     seqM (on_fst (ModuleSubConfig_getFrom tv node))
    (case read (value_int tv) node key of
        None \<Rightarrow> ret ()
      | Some ms \<Rightarrow> set_own (\<lambda>_. sint ms * 1000000))"

definition period_putTo :: "string \<Rightarrow> LoggingSubConfig \<times> int \<Rightarrow> toml_table \<Rightarrow> toml_table" where
  "period_putTo key = (\<lambda>(l, d) t. put key (TInteger (count_ms d)) (ModuleSubConfig_putTo l t))"

definition StateUpdateTimerSubConfig_getFrom where
  "StateUpdateTimerSubConfig_getFrom = period_getFrom ''max_update_period_ms''"

definition StateUpdateTimerSubConfig_putTo where
  "StateUpdateTimerSubConfig_putTo = period_putTo ''max_update_period_ms''"

definition VisualizationTimerSubConfig_getFrom where
  "VisualizationTimerSubConfig_getFrom = period_getFrom ''visualization_period_ms''"

definition VisualizationTimerSubConfig_putTo where
  "VisualizationTimerSubConfig_putTo = period_putTo ''visualization_period_ms''"

section \<open>Node reached handler\<close>

record NodeReachedOptions =
  default_node_deviation_xy :: double
  default_node_deviation_theta :: double
  overwrite_node_deviation_xy :: "double option"
  overwrite_node_deviation_theta :: "double option"

definition NodeReachedSubConfig_getFrom ::
  "TomlReads \<Rightarrow> Toml option \<Rightarrow> (LoggingSubConfig \<times> NodeReachedOptions, unit) comp" where
  "NodeReachedSubConfig_getFrom tv node =
     seqM (on_fst (ModuleSubConfig_getFrom tv node))
    (set_own (\<lambda>c. c\<lparr>
        default_node_deviation_xy :=
          read_or (value_double tv) node ''default_node_deviation_xy'' (default_node_deviation_xy c),
        default_node_deviation_theta :=
          read_or (value_double tv) node ''default_node_deviation_theta'' (default_node_deviation_theta c),
        overwrite_node_deviation_xy := read (value_double tv) node ''overwrite_node_deviation_xy'',
        overwrite_node_deviation_theta := read (value_double tv) node ''overwrite_node_deviation_theta''\<rparr>))"

definition NodeReachedSubConfig_putTo :: "LoggingSubConfig \<times> NodeReachedOptions \<Rightarrow> toml_table \<Rightarrow> toml_table" where
  "NodeReachedSubConfig_putTo = (\<lambda>(l, c) t.
     put_opt ''overwrite_node_deviation_theta'' TFloating (overwrite_node_deviation_theta c)
    (put_opt ''overwrite_node_deviation_xy'' TFloating (overwrite_node_deviation_xy c)
    (put ''default_node_deviation_theta'' (TFloating (default_node_deviation_theta c))
    (put ''default_node_deviation_xy'' (TFloating (default_node_deviation_xy c))
    (ModuleSubConfig_putTo l t)))))"

section \<open>Any module\<close>

text \<open>The classes derived from \<^verbatim>\<open>ModuleSubConfig\<close>, and the call of their virtual functions.\<close>

datatype ModuleConfig =
    ModuleSubConfig LoggingSubConfig
  | MqttSubConfig "LoggingSubConfig \<times> MqttOptions"
  | QueryEventHandlerSubConfig "LoggingSubConfig \<times> QueryConfig"
  | StateSubConfig "LoggingSubConfig \<times> StateConfig"
  | StateUpdateTimerSubConfig "LoggingSubConfig \<times> int"
  | VisualizationTimerSubConfig "LoggingSubConfig \<times> int"
  | NodeReachedSubConfig "LoggingSubConfig \<times> NodeReachedOptions"

definition within :: "('a \<Rightarrow> 'b) \<Rightarrow> (exn + unit) \<times> 'a \<Rightarrow> (exn + unit) \<times> 'b" where
  "within f p = (fst p, f (snd p))"

fun ModuleConfig_getFrom :: "TomlReads \<Rightarrow> Toml option \<Rightarrow> (ModuleConfig, unit) comp" where
  "ModuleConfig_getFrom tv n (ModuleSubConfig c) = within ModuleSubConfig (ModuleSubConfig_getFrom tv n c)"
| "ModuleConfig_getFrom tv n (MqttSubConfig c) = within MqttSubConfig (MqttSubConfig_getFrom tv n c)"
| "ModuleConfig_getFrom tv n (QueryEventHandlerSubConfig c) =
     within QueryEventHandlerSubConfig (QueryEventHandlerSubConfig_getFrom tv n c)"
| "ModuleConfig_getFrom tv n (StateSubConfig c) = within StateSubConfig (StateSubConfig_getFrom tv n c)"
| "ModuleConfig_getFrom tv n (StateUpdateTimerSubConfig c) =
     within StateUpdateTimerSubConfig (StateUpdateTimerSubConfig_getFrom tv n c)"
| "ModuleConfig_getFrom tv n (VisualizationTimerSubConfig c) =
     within VisualizationTimerSubConfig (VisualizationTimerSubConfig_getFrom tv n c)"
| "ModuleConfig_getFrom tv n (NodeReachedSubConfig c) =
     within NodeReachedSubConfig (NodeReachedSubConfig_getFrom tv n c)"

fun ModuleConfig_putTo :: "ModuleConfig \<Rightarrow> toml_table \<Rightarrow> toml_table" where
  "ModuleConfig_putTo (ModuleSubConfig c) = ModuleSubConfig_putTo c"
| "ModuleConfig_putTo (MqttSubConfig c) = MqttSubConfig_putTo c"
| "ModuleConfig_putTo (QueryEventHandlerSubConfig c) = QueryEventHandlerSubConfig_putTo c"
| "ModuleConfig_putTo (StateSubConfig c) = StateSubConfig_putTo c"
| "ModuleConfig_putTo (StateUpdateTimerSubConfig c) = StateUpdateTimerSubConfig_putTo c"
| "ModuleConfig_putTo (VisualizationTimerSubConfig c) = VisualizationTimerSubConfig_putTo c"
| "ModuleConfig_putTo (NodeReachedSubConfig c) = NodeReachedSubConfig_putTo c"

end
