(* ===== verification/AgvDescription.thy ===== *)
theory AgvDescription
  imports SubConfigs
begin

text \<open>
  \<^verbatim>\<open>config/agv_description_subconfig.cpp\<close>: the description of the vehicle. Five of its parts are JSON
  documents, given in the TOML text or in a file of their own. The JSON library is an argument, and
  one type stands for the five structures; the file system is a map from paths to contents.
\<close>

section \<open>Data\<close>

record Battery =
  max_reach :: "uint32 option"
  max_charge :: double
  max_voltage :: double
  charge_type :: string

record SimpleProtocolLimits =
  max_id_len :: "uint32 option"
  id_numerical_only :: "bool option"
  max_load_id_len :: "uint32 option"
  max_loads :: "uint32 option"

record 'j AGVDescription =
  agv_id :: string
  manufacturer :: string
  serial_number :: string
  description :: "string option"
  battery :: Battery
  type_specification :: 'j
  physical_parameters :: 'j
  agv_geometry :: 'j
  load_specification :: 'j
  localization_parameters :: 'j
  simple_protocol_limits :: SimpleProtocolLimits

record JSONFile =
  overwrite :: bool
  json_file :: string

record 'j AGVDescriptionSubConfig =
  agv_description :: "'j AGVDescription"
  type_specification_mode :: "JSONFile option"
  physical_parameters_mode :: "JSONFile option"
  agv_geometry_mode :: "JSONFile option"
  load_specifications_mode :: "JSONFile option"
  localization_parameters_mode :: "JSONFile option"

text \<open>Reading and writing JSON, by the name of the structure; \<open>None\<close> is a \<^verbatim>\<open>json::exception\<close>.\<close>

record 'j Json =
  json_parse :: "string \<Rightarrow> string \<Rightarrow> 'j option"
  json_dump :: "'j \<Rightarrow> string"
  json_default :: "string \<Rightarrow> 'j"

type_synonym files = "string \<rightharpoonup> string"

definition signaling_NaN :: double where
  "signaling_NaN = 0x7FF4000000000000"

section \<open>Battery and limits\<close>

definition fromBatteryTable :: "TomlReads \<Rightarrow> Toml option \<Rightarrow> exn + Battery" where
  "fromBatteryTable tv node =
     (let b = \<lparr>max_reach = None,
          max_charge = read_or (value_double tv) node ''max_charge'' signaling_NaN,
          max_voltage = read_or (value_double tv) node ''max_voltage'' signaling_NaN,
          charge_type = read_or (value_string tv) node ''charge_type'' []\<rparr>
      in case read (value_double tv) node ''max_reach'' of
           None \<Rightarrow> Inr b
         | Some d \<Rightarrow>
             (case double_to_uint32 tv d of
                None \<Rightarrow> Inl UndefinedBehaviour
              | Some n \<Rightarrow> Inr (b\<lparr>max_reach := Some n\<rparr>)))"

definition toBatteryTable :: "Battery \<Rightarrow> toml_table" where
  "toBatteryTable b =
     put ''max_voltage'' (TFloating (max_voltage b))
    (put_opt ''max_reach'' (\<lambda>n. TInteger (ucast n)) (max_reach b)
    (put ''max_charge'' (TFloating (max_charge b))
    (put ''charge_type'' (TString (charge_type b)) [])))"

definition fromSimpleProtocolLimitsTable :: "TomlReads \<Rightarrow> Toml option \<Rightarrow> SimpleProtocolLimits" where
  "fromSimpleProtocolLimitsTable tv node =
     \<lparr>max_id_len = read (value_uint32 tv) node ''max_id_len'',
      id_numerical_only = read (value_bool tv) node ''id_numerical_only'',
      max_load_id_len = read (value_uint32 tv) node ''max_load_id_len'',
      max_loads = read (value_uint32 tv) node ''max_loads''\<rparr>"

definition toSimpleProtocolLimitsTable :: "SimpleProtocolLimits \<Rightarrow> toml_table" where
  "toSimpleProtocolLimitsTable l =
     put_opt ''max_id_len'' (\<lambda>n. TInteger (ucast n)) (max_id_len l)
    (put_opt ''max_load_id_len'' (\<lambda>n. TInteger (ucast n)) (max_load_id_len l)
    (put_opt ''id_numerical_only'' TBoolean (id_numerical_only l)
    (put_opt ''max_id_len'' (\<lambda>n. TInteger (ucast n)) (max_id_len l) [])))"

section \<open>JSON parts\<close>

text \<open>
  The state is the mode of the part, which tells where it came from. A stream that could not be opened
  throws as soon as its exceptions are switched on, which is before the \<^verbatim>\<open>try\<close> block.
\<close>

definition fromJSONTable ::
  "'j Json \<Rightarrow> files \<Rightarrow> TomlReads \<Rightarrow> Toml option \<Rightarrow> string \<Rightarrow> (JSONFile option, 'j) comp" where
  "fromJSONTable js fs tv node name =
     (case read (value_string tv) node ''json'' of
        Some s \<Rightarrow>
          (case json_parse js name s of
             None \<Rightarrow> throw VDA5050PPInvalidConfiguration
           | Some j \<Rightarrow> seqM (modify (\<lambda>_. None)) (ret j))
      | None \<Rightarrow>
          (case read (value_string tv) node ''json_file'' of
             None \<Rightarrow> ret (json_default js name)
           | Some path \<Rightarrow>
               (case fs path of
                  None \<Rightarrow> throw StdIosFailure
                | Some s \<Rightarrow>
                    (case json_parse js name s of
                       None \<Rightarrow> throw VDA5050PPInvalidConfiguration
                     | Some j \<Rightarrow>
                         seqM (modify (\<lambda>_. Some \<lparr>overwrite =
                             read_or (value_bool tv) node ''json_file_overwrite'' False, json_file = path\<rparr>))
                           (ret j)))))"

text \<open>Writing may write the file; \<open>writable\<close> tells which files can be opened.\<close>

definition toJSONTable ::
  "'j Json \<Rightarrow> (string \<Rightarrow> bool) \<Rightarrow> 'j \<Rightarrow> JSONFile option \<Rightarrow> (files, toml_table) comp" where
  "toJSONTable js writable target file =
     (case file of
        None \<Rightarrow> ret (put ''json'' (TString (json_dump js target)) [])
      | Some f \<Rightarrow>
          (let table = put ''json_file'' (TString (json_file f))
                 (put ''json_file_overwrite'' (TBoolean (overwrite f)) [])
           in if overwrite f
              then if writable (json_file f)
                   then seqM (modify (\<lambda>fs. fs(json_file f \<mapsto> json_dump js target))) (ret table)
                   else throw StdIosFailure
              else ret table))"

section \<open>The whole description\<close>

text \<open>One part: it is read only when its table is there.\<close>

definition get_json ::
  "'j Json \<Rightarrow> files \<Rightarrow> TomlReads \<Rightarrow> Toml option \<Rightarrow> string \<Rightarrow> string \<Rightarrow>
   ('j AGVDescriptionSubConfig \<Rightarrow> JSONFile option) \<Rightarrow>
   ('j \<Rightarrow> JSONFile option \<Rightarrow> 'j AGVDescriptionSubConfig \<Rightarrow> 'j AGVDescriptionSubConfig) \<Rightarrow>
   ('j AGVDescriptionSubConfig, unit) comp" where
  "get_json js fs tv node key name mode upd c =
     (case node_at node key of
        None \<Rightarrow> (Inr (), c)
      | Some n \<Rightarrow>
          (case fromJSONTable js fs tv (Some n) name (mode c) of
             (Inl e, _) \<Rightarrow> (Inl e, c)
           | (Inr j, f) \<Rightarrow> (Inr (), upd j f c)))"

definition on_description ::
  "('j AGVDescription \<Rightarrow> 'j AGVDescription) \<Rightarrow> 'j AGVDescriptionSubConfig \<Rightarrow> 'j AGVDescriptionSubConfig" where
  "on_description f c = c\<lparr>agv_description := f (agv_description c)\<rparr>"

definition AGVDescriptionSubConfig_getFrom ::
  "'j Json \<Rightarrow> files \<Rightarrow> TomlReads \<Rightarrow> Toml option \<Rightarrow> ('j AGVDescriptionSubConfig, unit) comp" where
  "AGVDescriptionSubConfig_getFrom js fs tv node =
     seqM (modify (on_description (\<lambda>d. d\<lparr>
        agv_id := read_or (value_string tv) node ''agv_id'' [],
        manufacturer := read_or (value_string tv) node ''manufacturer'' [],
        serial_number := read_or (value_string tv) node ''serial_number'' [],
        description := read (value_string tv) node ''description''\<rparr>)))
    (seqM (case node_at node ''battery'' of
        None \<Rightarrow> ret ()
      | Some n \<Rightarrow> bindM (liftE (fromBatteryTable tv (Some n)))
          (\<lambda>b. modify (on_description (\<lambda>d. d\<lparr>battery := b\<rparr>))))
    (seqM (get_json js fs tv node ''type_specification'' ''TypeSpecification'' type_specification_mode
        (\<lambda>j f c. on_description (\<lambda>d. d\<lparr>type_specification := j\<rparr>) (c\<lparr>type_specification_mode := f\<rparr>)))
    (seqM (get_json js fs tv node ''physical_parameters'' ''PhysicalParameters'' physical_parameters_mode
        (\<lambda>j f c. on_description (\<lambda>d. d\<lparr>physical_parameters := j\<rparr>) (c\<lparr>physical_parameters_mode := f\<rparr>)))
    (seqM (get_json js fs tv node ''agv_geometry'' ''AgvGeometry'' agv_geometry_mode
        (\<lambda>j f c. on_description (\<lambda>d. d\<lparr>agv_geometry := j\<rparr>) (c\<lparr>agv_geometry_mode := f\<rparr>)))
    (seqM (get_json js fs tv node ''load_specification'' ''LoadSpecification'' load_specifications_mode
        (\<lambda>j f c. on_description (\<lambda>d. d\<lparr>load_specification := j\<rparr>) (c\<lparr>load_specifications_mode := f\<rparr>)))
    (seqM (get_json js fs tv node ''localization_parameters'' ''LocalizationParameters'' localization_parameters_mode
        (\<lambda>j f c. on_description (\<lambda>d. d\<lparr>localization_parameters := j\<rparr>) (c\<lparr>localization_parameters_mode := f\<rparr>)))
    (case node_at node ''simple_protocol_limits'' of
        None \<Rightarrow> ret ()
      | Some n \<Rightarrow> modify (on_description
          (\<lambda>d. d\<lparr>simple_protocol_limits := fromSimpleProtocolLimitsTable tv (Some n)\<rparr>)))))))))"

definition AGVDescriptionSubConfig_putTo ::
  "'j Json \<Rightarrow> (string \<Rightarrow> bool) \<Rightarrow> 'j AGVDescriptionSubConfig \<Rightarrow> toml_table \<Rightarrow> (files, toml_table) comp" where
  "AGVDescriptionSubConfig_putTo js writable c t =
     (let d = agv_description c;
          t = put ''agv_id'' (TString (agv_id d)) t;
          t = put ''manufacturer'' (TString (manufacturer d)) t;
          t = put ''serial_number'' (TString (serial_number d)) t;
          t = put_opt ''description'' TString (description d) t;
          t = put ''battery'' (TTable (toBatteryTable (battery d))) t
      in bindM (toJSONTable js writable (type_specification d) (type_specification_mode c)) (\<lambda>ts.
         bindM (toJSONTable js writable (physical_parameters d) (physical_parameters_mode c)) (\<lambda>pp.
         bindM (toJSONTable js writable (agv_geometry d) (agv_geometry_mode c)) (\<lambda>ag.
         bindM (toJSONTable js writable (load_specification d) (load_specifications_mode c)) (\<lambda>ls.
         bindM (toJSONTable js writable (localization_parameters d) (localization_parameters_mode c)) (\<lambda>lp.
         ret (put ''simple_protocol_limits'' (TTable (toSimpleProtocolLimitsTable (simple_protocol_limits d)))
             (put ''localization_parameters'' (TTable lp)
             (put ''load_specification'' (TTable ls)
             (put ''agv_geometry'' (TTable ag)
             (put ''physical_parameters'' (TTable pp)
             (put ''type_specification'' (TTable ts) t)))))))))))) "

end
