(* ===== verification/Config.thy ===== *)
theory Config
  imports AgvDescription
begin

text \<open>
  \<^verbatim>\<open>config/key_value_config.cpp\<close>, the configurations that users build from typed entries, and
  \<^verbatim>\<open>vda5050++/config.cpp\<close>, the whole configuration with its registries, loading and saving. The parser
  and the printer of the TOML library are arguments. Other classes that users derive from
  \<^verbatim>\<open>SubConfig\<close> are their code.
\<close>

section \<open>Key-value configurations\<close>

text \<open>A container tags its variants by a type, which its functions keep in step with them.\<close>

datatype KVType = is_int64 | is_double | is_bool | is_string | is_SubConfig

datatype KVDefault =
    DInteger "int64 option"
  | DFloat "double option"
  | DBoolean "bool option"
  | DString "string option"

datatype KVValidator =
    OfInteger "(int64 \<Rightarrow> bool) option"
  | OfFloat "(double \<Rightarrow> bool) option"
  | OfBoolean "(bool \<Rightarrow> bool) option"
  | OfString "(string \<Rightarrow> bool) option"

datatype SubConfig =
    KeyValueConfig "(string \<times> Container) list"
  | OfModule ModuleConfig
and Container =
    Container (c_type: KVType) (c_required: bool) (c_value: KVValue) (c_default: KVDefault)
      (c_validator: KVValidator)
and KVValue =
    VInteger "int64 option"
  | VFloat "double option"
  | VBoolean "bool option"
  | VString "string option"
  | VSubConfig SubConfig

definition doGetFromTable ::
  "(Toml \<Rightarrow> 'v option) \<Rightarrow> Toml option \<Rightarrow> string \<Rightarrow> 'v option \<Rightarrow> bool \<Rightarrow> ('v \<Rightarrow> bool) option \<Rightarrow> exn + 'v option" where
  "doGetFromTable val node key defaultValue required validator =
     (case read val node key of
        Some v \<Rightarrow>
          (case validator of
             Some f \<Rightarrow> (if \<not> f v then Inl VDA5050PPTOMLError else Inr (Some v))
           | None \<Rightarrow> Inr (Some v))
      | None \<Rightarrow>
          (if defaultValue \<noteq> None then Inr defaultValue
           else if required then Inl VDA5050PPTOMLError
           else Inr None))"

text \<open>The entries that are no sub-configuration: \<^verbatim>\<open>std::get\<close> throws for another alternative.\<close>

fun get_plain :: "TomlReads \<Rightarrow> Toml option \<Rightarrow> string \<Rightarrow> KVType \<Rightarrow> bool \<Rightarrow> KVDefault \<Rightarrow> KVValidator \<Rightarrow> exn + KVValue" where
  "get_plain tv n k is_int64 req (DInteger d) (OfInteger f) =
     map_sum id VInteger (doGetFromTable (value_int64 tv) n k d req f)"
| "get_plain tv n k is_double req (DFloat d) (OfFloat f) =
     map_sum id VFloat (doGetFromTable (value_double tv) n k d req f)"
| "get_plain tv n k is_bool req (DBoolean d) (OfBoolean f) =
     map_sum id VBoolean (doGetFromTable (value_bool tv) n k d req f)"
| "get_plain tv n k is_string req (DString d) (OfString f) =
     map_sum id VString (doGetFromTable (value_string tv) n k d req f)"
| "get_plain tv n k _ req _ _ = Inl StdBadVariantAccess"

fun SubConfig_getFrom :: "TomlReads \<Rightarrow> Toml option \<Rightarrow> SubConfig \<Rightarrow> (exn + unit) \<times> SubConfig"
  and entries_getFrom ::
    "TomlReads \<Rightarrow> Toml option \<Rightarrow> (string \<times> Container) list \<Rightarrow> (exn + unit) \<times> (string \<times> Container) list"
  and Container_getFrom :: "TomlReads \<Rightarrow> Toml option \<Rightarrow> string \<Rightarrow> Container \<Rightarrow> (exn + unit) \<times> Container" where
  "SubConfig_getFrom tv n (KeyValueConfig es) =
     (case entries_getFrom tv n es of (r, es') \<Rightarrow> (r, KeyValueConfig es'))"
| "SubConfig_getFrom tv n (OfModule m) = (case ModuleConfig_getFrom tv n m of (r, m') \<Rightarrow> (r, OfModule m'))"
| "entries_getFrom tv n [] = (Inr (), [])"
| "entries_getFrom tv n ((k, c) # es) =
     (case Container_getFrom tv n k c of
        (Inl e, c') \<Rightarrow> (Inl e, (k, c') # es)
      | (Inr _, c') \<Rightarrow> (case entries_getFrom tv n es of (r, es') \<Rightarrow> (r, (k, c') # es')))"
| "Container_getFrom tv n k (Container is_SubConfig req (VSubConfig s) d f) =
     (case SubConfig_getFrom tv (node_at n k) s of
        (r, s') \<Rightarrow> (r, Container is_SubConfig req (VSubConfig s') d f))"
| "Container_getFrom tv n k (Container ty req v d f) =
     (case get_plain tv n k ty req d f of
        Inl e \<Rightarrow> (Inl e, Container ty req v d f)
      | Inr v' \<Rightarrow> (Inr (), Container ty req v' d f))"

fun put_plain :: "string \<Rightarrow> KVType \<Rightarrow> KVValue \<Rightarrow> toml_table \<Rightarrow> exn + toml_table" where
  "put_plain k is_int64 (VInteger v) t = Inr (put_opt k TInteger v t)"
| "put_plain k is_double (VFloat v) t = Inr (put_opt k TFloating v t)"
| "put_plain k is_bool (VBoolean v) t = Inr (put_opt k TBoolean v t)"
| "put_plain k is_string (VString v) t = Inr (put_opt k TString v t)"
| "put_plain k _ _ t = Inl StdBadVariantAccess"

fun SubConfig_putTo :: "SubConfig \<Rightarrow> toml_table \<Rightarrow> exn + toml_table"
  and entries_putTo :: "(string \<times> Container) list \<Rightarrow> toml_table \<Rightarrow> exn + toml_table"
  and Container_putTo :: "string \<Rightarrow> Container \<Rightarrow> toml_table \<Rightarrow> exn + toml_table" where
  "SubConfig_putTo (KeyValueConfig es) t = entries_putTo es t"
| "SubConfig_putTo (OfModule m) t = Inr (ModuleConfig_putTo m t)"
| "entries_putTo [] t = Inr t"
| "entries_putTo ((k, c) # es) t =
     (case Container_putTo k c t of Inl e \<Rightarrow> Inl e | Inr t' \<Rightarrow> entries_putTo es t')"
| "Container_putTo k (Container is_SubConfig req (VSubConfig s) d f) t =
     (case SubConfig_putTo s [] of Inl e \<Rightarrow> Inl e | Inr st \<Rightarrow> Inr (put k (TTable st) t))"
| "Container_putTo k (Container ty req v d f) t = put_plain k ty v t"

text \<open>The functions that add entries, and those that read and set the values.\<close>

type_synonym entries = "(string, Container) std_map"

definition addIntegerEntry ::
  "string \<Rightarrow> bool \<Rightarrow> int64 option \<Rightarrow> (int64 \<Rightarrow> bool) option \<Rightarrow> entries \<Rightarrow> entries" where
  "addIntegerEntry k req d f = insert_or_assign k (Container is_int64 req (VInteger None) (DInteger d) (OfInteger f))"

definition addFloatEntry ::
  "string \<Rightarrow> bool \<Rightarrow> double option \<Rightarrow> (double \<Rightarrow> bool) option \<Rightarrow> entries \<Rightarrow> entries" where
  "addFloatEntry k req d f = insert_or_assign k (Container is_double req (VFloat None) (DFloat d) (OfFloat f))"

definition addStringEntry ::
  "string \<Rightarrow> bool \<Rightarrow> string option \<Rightarrow> (string \<Rightarrow> bool) option \<Rightarrow> entries \<Rightarrow> entries" where
  "addStringEntry k req d f = insert_or_assign k (Container is_string req (VString None) (DString d) (OfString f))"

definition addBooleanEntry ::
  "string \<Rightarrow> bool \<Rightarrow> bool option \<Rightarrow> (bool \<Rightarrow> bool) option \<Rightarrow> entries \<Rightarrow> entries" where
  "addBooleanEntry k req d f = insert_or_assign k (Container is_bool req (VBoolean None) (DBoolean d) (OfBoolean f))"

definition addSubConfigEntry :: "string \<Rightarrow> SubConfig option \<Rightarrow> (entries, unit) comp" where
  "addSubConfigEntry k sub =
     (case sub of
        None \<Rightarrow> throw VDA5050PPInvalidArgument
      | Some s \<Rightarrow> modify (insert_or_assign k
          (Container is_SubConfig False (VSubConfig s) (DBoolean None) (OfBoolean None))))"

definition entry :: "entries \<Rightarrow> string \<Rightarrow> exn + Container" where
  "entry es k = (case map_of es k of None \<Rightarrow> Inl VDA5050PPInvalidArgument | Some c \<Rightarrow> Inr c)"

definition getInteger :: "entries \<Rightarrow> string \<Rightarrow> exn + int64 option" where
  "getInteger es k =
     (case entry es k of Inl e \<Rightarrow> Inl e | Inr c \<Rightarrow>
       (case c_value c of VInteger v \<Rightarrow> Inr v | _ \<Rightarrow> Inl VDA5050PPInvalidArgument))"

definition getFloat :: "entries \<Rightarrow> string \<Rightarrow> exn + double option" where
  "getFloat es k =
     (case entry es k of Inl e \<Rightarrow> Inl e | Inr c \<Rightarrow>
       (case c_value c of VFloat v \<Rightarrow> Inr v | _ \<Rightarrow> Inl VDA5050PPInvalidArgument))"

definition getString :: "entries \<Rightarrow> string \<Rightarrow> exn + string option" where
  "getString es k =
     (case entry es k of Inl e \<Rightarrow> Inl e | Inr c \<Rightarrow>
       (case c_value c of VString v \<Rightarrow> Inr v | _ \<Rightarrow> Inl VDA5050PPInvalidArgument))"

definition getBoolean :: "entries \<Rightarrow> string \<Rightarrow> exn + bool option" where
  "getBoolean es k =
     (case entry es k of Inl e \<Rightarrow> Inl e | Inr c \<Rightarrow>
       (case c_value c of VBoolean v \<Rightarrow> Inr v | _ \<Rightarrow> Inl VDA5050PPInvalidArgument))"

definition getSubConfig :: "entries \<Rightarrow> string \<Rightarrow> exn + SubConfig" where
  "getSubConfig es k =
     (case entry es k of Inl e \<Rightarrow> Inl e | Inr c \<Rightarrow>
       (case c_value c of VSubConfig s \<Rightarrow> Inr s | _ \<Rightarrow> Inl VDA5050PPInvalidArgument))"

text \<open>A setter tests the type tag, and replaces the value in place.\<close>

fun with_value :: "KVValue \<Rightarrow> Container \<Rightarrow> Container" where
  "with_value v (Container ty req _ d f) = Container ty req v d f"

definition set_entry :: "KVType \<Rightarrow> KVValue \<Rightarrow> string \<Rightarrow> (entries, unit) comp" where
  "set_entry ty v k es =
     (case entry es k of
        Inl e \<Rightarrow> (Inl e, es)
      | Inr c \<Rightarrow>
          (if c_type c = ty then (Inr (), insert_or_assign k (with_value v c) es)
           else (Inl VDA5050PPInvalidArgument, es)))"

definition setInteger :: "string \<Rightarrow> int64 \<Rightarrow> (entries, unit) comp" where
  "setInteger k v = set_entry is_int64 (VInteger (Some v)) k"

definition setFloat :: "string \<Rightarrow> double \<Rightarrow> (entries, unit) comp" where
  "setFloat k v = set_entry is_double (VFloat (Some v)) k"

definition setString :: "string \<Rightarrow> string \<Rightarrow> (entries, unit) comp" where
  "setString k v = set_entry is_string (VString (Some v)) k"

definition setBoolean :: "string \<Rightarrow> bool \<Rightarrow> (entries, unit) comp" where
  "setBoolean k v = set_entry is_bool (VBoolean (Some v)) k"

section \<open>The whole configuration\<close>

record 'j Config =
  agv_description_sub_config :: "'j AGVDescriptionSubConfig"
  global_config :: GlobalConfig
  module_config_registry :: "(string, ModuleConfig) std_map"
  custom_config_registry :: "(string, SubConfig) std_map"

definition registerModuleConfig :: "string \<Rightarrow> ModuleConfig \<Rightarrow> ('j Config, unit) comp" where
  "registerModuleConfig k m c =
     (if map_of (module_config_registry c) k \<noteq> None then (Inl VDA5050PPInvalidArgument, c)
      else (Inr (), c\<lparr>module_config_registry := try_emplace k m (module_config_registry c)\<rparr>))"

definition lookupModuleConfig :: "'j Config \<Rightarrow> string \<Rightarrow> exn + ModuleConfig" where
  "lookupModuleConfig c k =
     (case map_of (module_config_registry c) k of None \<Rightarrow> Inl VDA5050PPInvalidArgument | Some m \<Rightarrow> Inr m)"

definition registerCustomConfig :: "string \<Rightarrow> SubConfig \<Rightarrow> ('j Config, unit) comp" where
  "registerCustomConfig k s c =
     (if map_of (custom_config_registry c) k \<noteq> None then (Inl VDA5050PPInvalidArgument, c)
      else (Inr (), c\<lparr>custom_config_registry := try_emplace k s (custom_config_registry c)\<rparr>))"

definition lookupCustomConfig :: "'j Config \<Rightarrow> string \<Rightarrow> exn + SubConfig" where
  "lookupCustomConfig c k =
     (case map_of (custom_config_registry c) k of None \<Rightarrow> Inl VDA5050PPInvalidArgument | Some s \<Rightarrow> Inr s)"

definition removeCustomConfig :: "string \<Rightarrow> ('j Config, SubConfig) comp" where
  "removeCustomConfig k c =
     (case map_of (custom_config_registry c) k of
        None \<Rightarrow> (Inl VDA5050PPInvalidArgument, c)
      | Some s \<Rightarrow> (Inr s, c\<lparr>custom_config_registry := map_erase k (custom_config_registry c)\<rparr>))"

text \<open>The loop that loads the entries of a registry, each from the node of its key.\<close>

fun load_all :: "(string \<Rightarrow> 'c \<Rightarrow> (exn + unit) \<times> 'c) \<Rightarrow> (string \<times> 'c) list \<Rightarrow> (exn + unit) \<times> (string \<times> 'c) list" where
  "load_all f [] = (Inr (), [])"
| "load_all f ((k, c) # m) =
     (case f k c of
        (Inl e, c') \<Rightarrow> (Inl e, (k, c') # m)
      | (Inr _, c') \<Rightarrow> (case load_all f m of (r, m') \<Rightarrow> (r, (k, c') # m')))"

record 'j ConfigExt =
  toml_reads :: TomlReads
  toml_parse :: "string \<Rightarrow> toml_table option"
  toml_format :: "toml_table \<Rightarrow> string"
  json_lib :: "'j Json"
  can_write :: "string \<Rightarrow> bool"

definition Config_load :: "'j ConfigExt \<Rightarrow> files \<Rightarrow> string \<Rightarrow> ('j Config, unit) comp" where
  "Config_load x fs text c =
     (case toml_parse x text of
        None \<Rightarrow> (Inl VDA5050PPTOMLError, c)
      | Some table \<Rightarrow>
     (case GlobalConfig_getFrom (toml_reads x) (map_of table ''global'') (global_config c) of
        (Inl e, g) \<Rightarrow> (Inl e, c\<lparr>global_config := g\<rparr>)
      | (Inr _, g) \<Rightarrow>
     (case AGVDescriptionSubConfig_getFrom (json_lib x) fs (toml_reads x) (map_of table ''agv_description'')
             (agv_description_sub_config c) of
        (Inl e, a) \<Rightarrow> (Inl e, c\<lparr>global_config := g, agv_description_sub_config := a\<rparr>)
      | (Inr _, a) \<Rightarrow>
     (case load_all (\<lambda>k. ModuleConfig_getFrom (toml_reads x) (node_at (map_of table ''module'') k))
             (module_config_registry c) of
        (Inl e, ms) \<Rightarrow>
          (Inl e, c\<lparr>global_config := g, agv_description_sub_config := a, module_config_registry := ms\<rparr>)
      | (Inr _, ms) \<Rightarrow>
     (case load_all (\<lambda>k. SubConfig_getFrom (toml_reads x) (node_at (map_of table ''custom'') k))
             (custom_config_registry c) of
        (r, cs) \<Rightarrow>
          (r, c\<lparr>global_config := g, agv_description_sub_config := a, module_config_registry := ms,
             custom_config_registry := cs\<rparr>))))))"

text \<open>A sub-table is inserted only when it is not empty.\<close>

definition insert_table :: "string \<Rightarrow> toml_table \<Rightarrow> toml_table \<Rightarrow> toml_table" where
  "insert_table k sub t = (if sub = [] then t else put k (TTable sub) t)"

fun save_modules :: "(string \<times> ModuleConfig) list \<Rightarrow> toml_table \<Rightarrow> toml_table" where
  "save_modules [] t = t"
| "save_modules ((k, m) # ms) t = save_modules ms (insert_table k (ModuleConfig_putTo m []) t)"

fun save_customs :: "(string \<times> SubConfig) list \<Rightarrow> toml_table \<Rightarrow> exn + toml_table" where
  "save_customs [] t = Inr t"
| "save_customs ((k, s) # ss) t =
     (case SubConfig_putTo s [] of Inl e \<Rightarrow> Inl e | Inr st \<Rightarrow> save_customs ss (insert_table k st t))"

definition Config_toml :: "'j ConfigExt \<Rightarrow> 'j Config \<Rightarrow> (files, toml_table) comp" where
  "Config_toml x c =
     (let global_table = GlobalConfig_putTo (global_config c) []
      in bindM (AGVDescriptionSubConfig_putTo (json_lib x) (can_write x) (agv_description_sub_config c) [])
           (\<lambda>agv_description_table.
         let module_table = save_modules (module_config_registry c) []
         in bindM (liftE (save_customs (custom_config_registry c) [])) (\<lambda>custom_table.
         let t = insert_table ''global'' global_table [];
             t = (if global_table \<noteq> [] then put ''agv_description'' (TTable agv_description_table) t else t);
             t = insert_table ''module'' module_table t;
             t = insert_table ''custom'' custom_table t
         in ret t)))"

definition Config_save :: "'j ConfigExt \<Rightarrow> 'j Config \<Rightarrow> (files, string) comp" where
  "Config_save x c = bindM (Config_toml x c) (\<lambda>t. ret (toml_format x t))"

text \<open>Loading from and saving to a file. A file that cannot be opened for reading reads as empty.\<close>

definition Config_load_file :: "'j ConfigExt \<Rightarrow> files \<Rightarrow> string \<Rightarrow> ('j Config, unit) comp" where
  "Config_load_file x fs path = Config_load x fs (case fs path of None \<Rightarrow> [] | Some s \<Rightarrow> s)"

definition Config_save_file :: "'j ConfigExt \<Rightarrow> 'j Config \<Rightarrow> string \<Rightarrow> (files, unit) comp" where
  "Config_save_file x c path fs =
     (if \<not> can_write x path then (Inl StdIosFailure, fs)
      else (case Config_save x c (fs(path \<mapsto> [])) of
              (Inl e, fs') \<Rightarrow> (Inl e, fs')
            | (Inr s, fs') \<Rightarrow> (Inr (), fs'(path \<mapsto> s))))"

end
