(* ===== verification/Instance.thy ===== *)
theory Instance
  imports Config ActionParameters
begin

text \<open>
  \<^verbatim>\<open>core/instance.cpp\<close>, \<^verbatim>\<open>core/logger.cpp\<close> and \<^verbatim>\<open>vda5050++/handle.cpp\<close>: the registry of modules, the
  instance that is built from a configuration, the loggers, and the functions of a user's handle. A
  module is known by the configuration it generates and by the outcome of its two functions; the
  calls of them are recorded. The registry and the instance are static, hence one state.
\<close>

section \<open>State\<close>

record ModuleObj =
  generateSubConfig :: ModuleConfig
  initialize_outcome :: "exn + unit"
  deinitialize_outcome :: "exn + unit"

datatype ModuleCall = Initialize string | Deinitialize string

datatype spd_level = lvl_debug | lvl_info | lvl_warn | lvl_err | lvl_off

datatype Sink = Stdout | BasicFile string

record Logger =
  logger_level :: spd_level
  logger_sinks :: "Sink list"

text \<open>Handlers are known by their addresses, which order the set of action handlers.\<close>

record 'j Instance =
  inst_config :: "'j Config"
  action_handlers :: "nat list"
  navigation_handler :: "nat option"
  query_handler :: "nat option"

datatype Dispatched = Connect | Disconnect | StateRequest StateUpdateUrgency

record 'j Library =
  modules :: "(string, ModuleObj) std_map"
  instance_ptr :: "'j Instance option"
  logger_registry :: "string \<rightharpoonup> Logger"
  module_calls :: "ModuleCall list"
  dispatched :: "Dispatched list"

type_synonym ('j, 'a) lib = "('j Library, 'a) comp"

definition Library_new :: "'j Library" where
  "Library_new = \<lparr>modules = [], instance_ptr = None, logger_registry = Map.empty, module_calls = [], dispatched = []\<rparr>"

section \<open>Loggers\<close>

definition k_logger_by_module :: "(string \<times> string) list" where
  "k_logger_by_module =
     [(''ActionEventHandler'', ''agv_handler''), (''Factsheet'', ''factsheet''),
      (''NavigationEventHandler'', ''agv_handler''), (''MessageEventHandler'', ''messages''),
      (''InterpreterEventHandler'', ''interpreter''), (''Mqtt'', ''mqtt''),
      (''OrderEventHandler'', ''order''), (''StateEventHandler'', ''state''),
      (''StateUpdateTimer'', ''state''), (''ValidationEventHandler'', ''validation'')]"

definition remapModule :: "string \<Rightarrow> string" where
  "remapModule key = (case map_of k_logger_by_module key of Some n \<Rightarrow> n | None \<Rightarrow> key)"

fun convertLogLevel :: "LogLevel \<Rightarrow> spd_level" where
  "convertLogLevel k_debug = lvl_debug"
| "convertLogLevel k_info = lvl_info"
| "convertLogLevel k_warn = lvl_warn"
| "convertLogLevel k_error = lvl_err"
| "convertLogLevel k_off = lvl_off"

text \<open>
  \<^verbatim>\<open>std::filesystem::path\<close>: the file name is what follows the last slash; its extension begins at the last
  dot, unless that is the first character.
\<close>

definition parent_part :: "string \<Rightarrow> string" where
  "parent_part p = rev (dropWhile (\<lambda>c. c \<noteq> CHR ''/'') (rev p))"

definition filename :: "string \<Rightarrow> string" where
  "filename p = rev (takeWhile (\<lambda>c. c \<noteq> CHR ''/'') (rev p))"

definition extension :: "string \<Rightarrow> string" where
  "extension p =
     (let f = filename p; after = rev (takeWhile (\<lambda>c. c \<noteq> CHR ''.'') (rev f))
      in if f = ''.'' \<or> f = ''..'' \<or> length after + 1 \<ge> length f then [] else CHR ''.'' # after)"

definition stem :: "string \<Rightarrow> string" where
  "stem p = (let f = filename p in take (length f - length (extension p)) f)"

definition replace_filename :: "string \<Rightarrow> string \<Rightarrow> string" where
  "replace_filename p f = parent_part p @ f"

definition recreateLogger_sinks :: "string \<Rightarrow> Sink list \<Rightarrow> ('j, unit) lib" where
  "recreateLogger_sinks name ss =
     modify (\<lambda>l. l\<lparr>logger_registry := (logger_registry l)(name \<mapsto> \<lparr>logger_level = lvl_info, logger_sinks = ss\<rparr>)\<rparr>)"

definition recreateLogger :: "int \<Rightarrow> string \<Rightarrow> string option \<Rightarrow> bool \<Rightarrow> ('j, Sink list) lib" where
  "recreateLogger ts name file_name timestamp_suffix =
     (let ss = (case file_name of
          None \<Rightarrow> [Stdout]
        | Some f \<Rightarrow>
            (let f = (if timestamp_suffix
                      then replace_filename f (stem f @ ''_'' @ to_string ts @ extension f) else f)
             in [Stdout, BasicFile f]))
      in seqM (recreateLogger_sinks name ss) (ret ss))"

definition set_level :: "string \<Rightarrow> spd_level \<Rightarrow> ('j, unit) lib" where
  "set_level name lv =
     modify (\<lambda>l. l\<lparr>logger_registry := (case logger_registry l name of
        None \<Rightarrow> logger_registry l
      | Some lg \<Rightarrow> (logger_registry l)(name \<mapsto> lg\<lparr>logger_level := lv\<rparr>))\<rparr>)"

section \<open>The instance\<close>

fun logging_of :: "ModuleConfig \<Rightarrow> LoggingSubConfig" where
  "logging_of (ModuleSubConfig l) = l"
| "logging_of (MqttSubConfig c) = fst c"
| "logging_of (QueryEventHandlerSubConfig c) = fst c"
| "logging_of (StateSubConfig c) = fst c"
| "logging_of (StateUpdateTimerSubConfig c) = fst c"
| "logging_of (VisualizationTimerSubConfig c) = fst c"
| "logging_of (NodeReachedSubConfig c) = fst c"

definition registeredModules :: "'j Library \<Rightarrow> string list" where
  "registeredModules l = map fst (modules l)"

text \<open>One turn of the loop that sets up the loggers of the modules.\<close>

definition setup_logger :: "int \<Rightarrow> 'j Config \<Rightarrow> LogLevel \<Rightarrow> Sink list \<Rightarrow> string \<Rightarrow> ('j, unit) lib" where
  "setup_logger ts cfg global_level global_sinks key =
     bindM (liftE (lookupModuleConfig cfg key)) (\<lambda>m.
     let lc = logging_of m; name = remapModule key
     in seqM (if log_file_name lc \<noteq> None
              then seqM (recreateLogger ts name (log_file_name lc) (log_file_timestamp_suffix lc)) (ret ())
              else recreateLogger_sinks name global_sinks)
          (set_level name (convertLogLevel (case log_level lc of None \<Rightarrow> global_level | Some v \<Rightarrow> v))))"

definition call_module :: "ModuleCall \<Rightarrow> exn + unit \<Rightarrow> ('j, unit) lib" where
  "call_module c outcome = seqM (modify (\<lambda>l. l\<lparr>module_calls := module_calls l @ [c]\<rparr>)) (liftE outcome)"

definition initializeComponents :: "int \<Rightarrow> 'j Config \<Rightarrow> ('j, unit) lib" where
  "initializeComponents ts cfg =
     (let gl = global_logging (global_config cfg);
          global_level = (case log_level gl of None \<Rightarrow> k_info | Some v \<Rightarrow> v)
      in bindM (recreateLogger ts ''instance'' (log_file_name gl) (log_file_timestamp_suffix gl)) (\<lambda>global_sinks.
         seqM (set_level ''instance'' (convertLogLevel global_level))
        (seqM (recreateLogger_sinks ''events'' global_sinks)
        (seqM (set_level ''events'' (convertLogLevel global_level))
        (bindM (gets registeredModules) (\<lambda>keys.
         seqM (forM keys (setup_logger ts cfg global_level global_sinks))
        (bindM (gets modules) (\<lambda>ms.
         forM ms (\<lambda>(name, m). whenM (isListedModule (global_config cfg) name)
           (call_module (Initialize name) (initialize_outcome m)))))))))))"

text \<open>All modules, whether they have been initialized or not.\<close>

definition deInitializeComponents :: "('j, unit) lib" where
  "deInitializeComponents =
     bindM (gets modules) (\<lambda>ms. forM ms (\<lambda>(name, m). call_module (Deinitialize name) (deinitialize_outcome m)))"

text \<open>A function declared \<^verbatim>\<open>noexcept\<close>.\<close>

definition noexcept :: "('s, 'a) comp \<Rightarrow> ('s, 'a) comp" where
  "noexcept m s = (case m s of (Inl _, t) \<Rightarrow> (Inl UndefinedBehaviour, t) | (Inr x, t) \<Rightarrow> (Inr x, t))"

lemma run_noexcept [run_simps]:
  "noexcept m s = (case m s of (Inl _, t) \<Rightarrow> (Inl UndefinedBehaviour, t) | (Inr x, t) \<Rightarrow> (Inr x, t))"
  by (simp add: noexcept_def)

definition Instance_new :: "'j Config \<Rightarrow> 'j Instance" where
  "Instance_new cfg =
     \<lparr>inst_config = cfg, action_handlers = [], navigation_handler = None, query_handler = None\<rparr>"

text \<open>A former instance is replaced.\<close>

definition Instance_init :: "int \<Rightarrow> 'j Config \<Rightarrow> ('j, unit) lib" where
  "Instance_init ts cfg = noexcept
     (seqM (modify (\<lambda>l. l\<lparr>instance_ptr := Some (Instance_new cfg)\<rparr>))
       (initializeComponents ts cfg))"

definition Instance_reset :: "('j, unit) lib" where
  "Instance_reset = noexcept
     (bindM (gets instance_ptr) (\<lambda>i.
      seqM (whenM (i \<noteq> None) deInitializeComponents) (modify (\<lambda>l. l\<lparr>instance_ptr := None\<rparr>))))"

definition Instance_ref :: "('j, 'j Instance) lib" where
  "Instance_ref =
     bindM (gets instance_ptr) (\<lambda>i. case i of None \<Rightarrow> throw VDA5050PPNotInitialized | Some x \<Rightarrow> ret x)"

definition registerModule :: "string \<Rightarrow> ModuleObj option \<Rightarrow> ('j, unit) lib" where
  "registerModule key module_ptr =
     (case module_ptr of
        None \<Rightarrow> throw VDA5050PPNullPointer
      | Some m \<Rightarrow>
          bindM (gets modules) (\<lambda>ms.
          if map_of ms key \<noteq> None then throw VDA5050PPInvalidArgument
          else seqM (modify (\<lambda>l. l\<lparr>modules := try_emplace key m (modules l)\<rparr>))
            (bindM (gets instance_ptr) (\<lambda>i.
             case i of
               None \<Rightarrow> ret ()
             | Some inst \<Rightarrow> whenM (isListedModule (global_config (inst_config inst)) key)
                 (call_module (Initialize key) (initialize_outcome m))))))"

definition unregisterModule :: "string \<Rightarrow> ('j, unit) lib" where
  "unregisterModule key =
     bindM (gets modules) (\<lambda>ms.
     case map_of ms key of
       None \<Rightarrow> throw VDA5050PPInvalidArgument
     | Some m \<Rightarrow>
         seqM (modify (\<lambda>l. l\<lparr>modules := map_erase key (modules l)\<rparr>))
           (bindM (gets instance_ptr) (\<lambda>i.
            whenM (i \<noteq> None) (call_module (Deinitialize key) (deinitialize_outcome m)))))"

definition lookupModule :: "string \<Rightarrow> ('j, ModuleObj) lib" where
  "lookupModule key =
     bindM (gets modules) (\<lambda>ms. case map_of ms key of None \<Rightarrow> throw VDA5050PPInvalidArgument | Some m \<Rightarrow> ret m)"

definition generateConfig :: "string \<Rightarrow> ('j, ModuleConfig) lib" where
  "generateConfig key = bindM (lookupModule key) (\<lambda>m. ret (generateSubConfig m))"

text \<open>The constructor of \<^verbatim>\<open>Config\<close> asks every registered module for its configuration.\<close>

fun generate_all :: "string list \<Rightarrow> 'j Config \<Rightarrow> ('j, 'j Config) lib" where
  "generate_all [] c = ret c"
| "generate_all (k # ks) c =
     bindM (generateConfig k) (\<lambda>m.
     case registerModuleConfig k m c of
       (Inl e, _) \<Rightarrow> throw e
     | (Inr _, c') \<Rightarrow> generate_all ks c')"

definition Config_new :: "'j AGVDescriptionSubConfig \<Rightarrow> ('j, 'j Config) lib" where
  "Config_new agv =
     bindM (gets registeredModules) (\<lambda>keys. generate_all keys
       \<lparr>agv_description_sub_config = agv, global_config = GlobalConfig_new,
        module_config_registry = [], custom_config_registry = []\<rparr>)"

definition on_instance :: "('j Instance \<Rightarrow> 'j Instance) \<Rightarrow> ('j, unit) lib" where
  "on_instance f = modify (\<lambda>l. l\<lparr>instance_ptr := map_option f (instance_ptr l)\<rparr>)"

definition addActionHandler :: "nat option \<Rightarrow> ('j, unit) lib" where
  "addActionHandler h =
     (case h of None \<Rightarrow> ret ()
      | Some a \<Rightarrow> on_instance (\<lambda>i. i\<lparr>action_handlers := insort_insert a (action_handlers i)\<rparr>))"

definition setNavigationHandler :: "nat option \<Rightarrow> ('j, unit) lib" where
  "setNavigationHandler h = on_instance (\<lambda>i. i\<lparr>navigation_handler := h\<rparr>)"

definition setQueryHandler :: "nat option \<Rightarrow> ('j, unit) lib" where
  "setQueryHandler h = on_instance (\<lambda>i. i\<lparr>query_handler := h\<rparr>)"

definition dispatch_to :: "Dispatched \<Rightarrow> ('j, unit) lib" where
  "dispatch_to d = modify (\<lambda>l. l\<lparr>dispatched := dispatched l @ [d]\<rparr>)"

definition Instance_start :: "('j, unit) lib" where
  "Instance_start = seqM (dispatch_to Connect) (dispatch_to (StateRequest urgency_immediate))"

text \<open>Waiting for the disconnection ends after a second at the latest, without consequences.\<close>

definition Instance_stop :: "('j, unit) lib" where
  "Instance_stop = dispatch_to Disconnect"

section \<open>The handle\<close>

definition Handle_initialize :: "int \<Rightarrow> 'j Config \<Rightarrow> ('j, unit) lib" where
  "Handle_initialize ts cfg = noexcept (seqM (Instance_init ts cfg) Instance_start)"

definition with_instance :: "('j, unit) lib \<Rightarrow> ('j, unit) lib" where
  "with_instance m =
     bindM (gets instance_ptr) (\<lambda>i. if i = None then throw VDA5050PPNotInitialized else m)"

definition registerActionHandler :: "nat option \<Rightarrow> ('j, unit) lib" where
  "registerActionHandler h = with_instance (addActionHandler h)"

definition registerNavigationHandler :: "nat option \<Rightarrow> ('j, unit) lib" where
  "registerNavigationHandler h = with_instance (setNavigationHandler h)"

definition registerQueryHandler :: "nat option \<Rightarrow> ('j, unit) lib" where
  "registerQueryHandler h = with_instance (setQueryHandler h)"

definition Handle_shutdown :: "('j, unit) lib" where
  "Handle_shutdown =
     bindM (gets instance_ptr) (\<lambda>i. seqM (whenM (i \<noteq> None) Instance_stop) Instance_reset)"

end
