(* ===== verification/ConfigProps.thy ===== *)
theory ConfigProps
  imports Config
begin

text \<open>
  Properties of the configuration: what comes back when a saved configuration is loaded, the type
  safety of the key-value configurations, and what happens to the files when something fails.
\<close>

section \<open>Tables\<close>

lemma put_not_Nil [simp]: "put k v t \<noteq> []"
proof
  assume "put k v t = []"
  then have "map_of (put k v t) k = None" by simp
  then show False by (simp add: map_of_put split: option.splits)
qed

lemma put_opt_Some: "put_opt k f (Some v) t = put k (f v) t"
  by (simp add: put_opt_def)

lemma lookups [simp]:
  "j \<noteq> k \<Longrightarrow> map_of (put k v t) j = map_of t j"
  "j \<noteq> k \<Longrightarrow> map_of (put_opt k f w t) j = map_of t j"
  "map_of t k = None \<Longrightarrow> map_of (put k v t) k = Some v"
  "map_of t k = None \<Longrightarrow> map_of (put_opt k f w t) k = map_option f w"
  by (auto simp: map_of_put map_of_put_opt split: option.splits)

definition logging_keys :: "string list" where
  "logging_keys = [''log_level'', ''log_file_name'', ''log_file_timestamp_suffix'']"

lemma logging_keeps [simp]:
  "k \<notin> set logging_keys \<Longrightarrow> map_of (LoggingSubConfig_putTo l t) k = map_of t k"
  by (simp add: LoggingSubConfig_putTo_def logging_keys_def)

section \<open>Logging\<close>

definition restored_logging :: "LoggingSubConfig \<Rightarrow> LoggingSubConfig \<Rightarrow> LoggingSubConfig" where
  "restored_logging l0 l = l\<lparr>log_level := (case log_level l of None \<Rightarrow> log_level l0 | Some x \<Rightarrow> Some x)\<rparr>"

lemma read_simps:
  "read val (Some (TTable t)) k = Option.bind (map_of t k) val"
  "read_or val (Some (TTable t)) k d = (case Option.bind (map_of t k) val of None \<Rightarrow> d | Some v \<Rightarrow> v)"
  by (simp_all add: read_def read_or_def)

text \<open>Reading the logging part depends on its three keys only.\<close>

lemma logging_restored:
  assumes "reads_own tv" and "\<And>k. k \<in> set logging_keys \<Longrightarrow> map_of t k = map_of (LoggingSubConfig_putTo l []) k"
  shows "LoggingSubConfig_getFrom tv (Some (TTable t)) l0 = (Inr (), restored_logging l0 l)"
proof -
  have "map_of t ''log_level'' = map_option (TString \<circ> logLevelToString) (log_level l)"
    "map_of t ''log_file_name'' = map_option TString (log_file_name l)"
    "map_of t ''log_file_timestamp_suffix'' = Some (TBoolean (log_file_timestamp_suffix l))"
    using assms(2) by (simp_all add: logging_keys_def LoggingSubConfig_putTo_def)
  then show ?thesis
    by (cases "log_level l"; cases "log_file_name l")
      (auto simp: LoggingSubConfig_getFrom_def run_simps read_simps reads_own_simps [OF assms(1)]
        restored_logging_def)
qed

section \<open>Durations\<close>

definition whole_ms :: "int \<Rightarrow> int" where
  "whole_ms d = (d sdiv 1000000) * 1000000"

definition duration_ok :: "int \<Rightarrow> bool" where
  "duration_ok d \<longleftrightarrow> - (2 ^ 63) \<le> d \<and> d < 2 ^ 63"

lemma sdiv_bounds:
  assumes "duration_ok d"
  shows "- (2 ^ 44) \<le> d sdiv 1000000" "d sdiv 1000000 < 2 ^ 44"
    "- (2 ^ 63) \<le> whole_ms d" "whole_ms d < 2 ^ 63"
  using assms
  by (cases "0 \<le> d"; simp add: duration_ok_def whole_ms_def signed_divide_int_def sgn_if; arith)+

lemma sint_count_ms:
  assumes "duration_ok d"
  shows "sint (count_ms d) = d sdiv 1000000"
  using sdiv_bounds(1,2) [OF assms]
  by (simp add: count_ms_def sint_sbintrunc' signed_take_bit_int_eq_self)

lemma applyMS_count:
  assumes "duration_ok d"
  shows "applyMS (Some (count_ms d)) = Inr (Some (whole_ms d))"
  using sdiv_bounds(3,4) [OF assms]
  by (simp add: applyMS_def sint_count_ms [OF assms] whole_ms_def Let_def)

lemma sint_narrow:
  assumes "in_int i"
  shows "sint (ucast i :: int32) = sint i"
proof -
  have "sint (ucast i :: int32) = signed_take_bit 31 (uint i)"
    by (simp add: sint_uint unsigned_ucast_eq signed_take_bit_take_bit)
  also have "\<dots> = signed_take_bit 31 (signed_take_bit 63 (uint i))"
    by (simp add: signed_take_bit_signed_take_bit)
  also have "\<dots> = signed_take_bit 31 (sint i)"
    by (simp add: sint_uint)
  finally show ?thesis using assms by (simp add: in_int_def signed_take_bit_int_eq_self)
qed

section \<open>Modules\<close>

text \<open>What a module's configuration is after it has been written, and read into another of its class.\<close>

fun same_class :: "ModuleConfig \<Rightarrow> ModuleConfig \<Rightarrow> bool" where
  "same_class (ModuleSubConfig _) (ModuleSubConfig _) = True"
| "same_class (MqttSubConfig _) (MqttSubConfig _) = True"
| "same_class (QueryEventHandlerSubConfig _) (QueryEventHandlerSubConfig _) = True"
| "same_class (StateSubConfig _) (StateSubConfig _) = True"
| "same_class (StateUpdateTimerSubConfig _) (StateUpdateTimerSubConfig _) = True"
| "same_class (VisualizationTimerSubConfig _) (VisualizationTimerSubConfig _) = True"
| "same_class (NodeReachedSubConfig _) (NodeReachedSubConfig _) = True"
| "same_class _ _ = False"

definition restored_period :: "int \<Rightarrow> int \<Rightarrow> int" where
  "restored_period d0 d = (if in_int (count_ms d) then whole_ms d else d0)"

fun restored_module :: "ModuleConfig \<Rightarrow> ModuleConfig \<Rightarrow> ModuleConfig" where
  "restored_module (MqttSubConfig (l0, _)) (MqttSubConfig (l, c)) =
     MqttSubConfig (restored_logging l0 l, c\<lparr>
       min_retry_interval := map_option whole_ms (min_retry_interval c),
       max_retry_interval := map_option whole_ms (max_retry_interval c),
       keep_alive_interval := map_option whole_ms (keep_alive_interval c),
       connect_timeout := map_option whole_ms (connect_timeout c)\<rparr>)"
| "restored_module (QueryEventHandlerSubConfig (l0, _)) (QueryEventHandlerSubConfig (l, c)) =
     QueryEventHandlerSubConfig (restored_logging l0 l, c\<lparr>default_accept_zone_set_success := None\<rparr>)"
| "restored_module (StateSubConfig (l0, _)) (StateSubConfig (l, c)) =
     StateSubConfig (restored_logging l0 l, c\<lparr>default_agv_position_map := None\<rparr>)"
| "restored_module (StateUpdateTimerSubConfig (l0, d0)) (StateUpdateTimerSubConfig (l, d)) =
     StateUpdateTimerSubConfig (restored_logging l0 l, restored_period d0 d)"
| "restored_module (VisualizationTimerSubConfig (l0, d0)) (VisualizationTimerSubConfig (l, d)) =
     VisualizationTimerSubConfig (restored_logging l0 l, restored_period d0 d)"
| "restored_module (NodeReachedSubConfig (l0, _)) (NodeReachedSubConfig (l, c)) =
     NodeReachedSubConfig (restored_logging l0 l, c)"
| "restored_module (ModuleSubConfig l0) (ModuleSubConfig l) = ModuleSubConfig (restored_logging l0 l)"
| "restored_module m0 m = m0"

definition is_std_set :: "string list \<Rightarrow> bool" where
  "is_std_set xs \<longleftrightarrow> sorted xs \<and> distinct xs"

text \<open>Durations fit into 64 bits, and sets are sets.\<close>

fun proper_module :: "ModuleConfig \<Rightarrow> bool" where
  "proper_module (MqttSubConfig (l, c)) \<longleftrightarrow>
     (\<forall>d \<in> set_option (min_retry_interval c) \<union> set_option (max_retry_interval c) \<union>
       set_option (keep_alive_interval c) \<union> set_option (connect_timeout c). duration_ok d)"
| "proper_module (QueryEventHandlerSubConfig (l, c)) \<longleftrightarrow>
     (\<forall>zs \<in> set_option (default_accept_zone_sets c). is_std_set zs)"
| "proper_module (StateUpdateTimerSubConfig (l, d)) \<longleftrightarrow> duration_ok d"
| "proper_module (VisualizationTimerSubConfig (l, d)) \<longleftrightarrow> duration_ok d"
| "proper_module m \<longleftrightarrow> True"

lemma stored_simps:
  assumes "reads_own tv"
  shows "Option.bind (map_option TString v) (value_string tv) = v"
    "Option.bind (map_option TBoolean b) (value_bool tv) = b"
    "Option.bind (map_option TFloating d) (value_double tv) = d"
    "\<forall>x \<in> set_option i. duration_ok x \<Longrightarrow>
       applyMS (Option.bind (map_option (TInteger \<circ> count_ms) i) (value_int64 tv)) = Inr (map_option whole_ms i)"
proof -
  show "Option.bind (map_option TString v) (value_string tv) = v"
    by (cases v) (simp_all add: reads_own_simps [OF assms])
  show "Option.bind (map_option TBoolean b) (value_bool tv) = b"
    by (cases b) (simp_all add: reads_own_simps [OF assms])
  show "Option.bind (map_option TFloating d) (value_double tv) = d"
    by (cases d) (simp_all add: reads_own_simps [OF assms])
  show "applyMS (Option.bind (map_option (TInteger \<circ> count_ms) i) (value_int64 tv)) = Inr (map_option whole_ms i)"
    if "\<forall>x \<in> set_option i. duration_ok x"
    using that by (cases i) (simp_all add: reads_own_simps [OF assms] applyMS_count, simp add: applyMS_def)
qed

lemma mqtt_restored:
  assumes "reads_own tv" and "proper_module (MqttSubConfig (l, c))"
  shows "MqttSubConfig_getFrom tv (Some (TTable (MqttSubConfig_putTo (l, c) []))) (l0, c0) =
    (Inr (), (restored_logging l0 l, c\<lparr>
       min_retry_interval := map_option whole_ms (min_retry_interval c),
       max_retry_interval := map_option whole_ms (max_retry_interval c),
       keep_alive_interval := map_option whole_ms (keep_alive_interval c),
       connect_timeout := map_option whole_ms (connect_timeout c)\<rparr>))"
proof -
  let ?t = "MqttSubConfig_putTo (l, c) []"
  have "LoggingSubConfig_getFrom tv (Some (TTable ?t)) l0 = (Inr (), restored_logging l0 l)"
    using assms(1)
    by (intro logging_restored) (auto simp: logging_keys_def MqttSubConfig_putTo_def put_ms_def ModuleSubConfig_putTo_def)
  moreover have own: "\<And>k. k \<notin> set logging_keys \<Longrightarrow> map_of (ModuleSubConfig_putTo l []) k = None"
    by (simp add: ModuleSubConfig_putTo_def)
  ultimately show ?thesis
    using assms(2)
    by (simp add: MqttSubConfig_getFrom_def ModuleSubConfig_getFrom_def run_simps read_simps
        MqttSubConfig_putTo_def put_ms_def logging_keys_def stored_simps [OF assms(1)] reads_own_simps [OF assms(1)])
qed

lemma read_zone_sets_strings:
  assumes "reads_own tv"
  shows "read_zone_sets tv (map TString zs) acc (l, c) =
    (Inr (), (l, c\<lparr>default_accept_zone_sets := Some (fold insort_insert zs acc)\<rparr>))"
  by (induction zs arbitrary: acc) (simp_all add: reads_own_simps [OF assms] run_simps)

lemma insort_all_set:
  assumes "is_std_set zs"
  shows "fold insort_insert zs [] = zs"
proof -
  have "sorted (fold insort_insert zs acc) \<and> distinct (fold insort_insert zs acc) \<and>
      set (fold insort_insert zs acc) = set acc \<union> set zs" if "sorted acc" "distinct acc" for acc
    using that
    by (induction zs arbitrary: acc)
      (simp_all add: sorted_insort_insert distinct_insort_insert set_insort_insert)
  from this [of "[]"] show ?thesis
    using assms by (auto simp: is_std_set_def intro: sorted_distinct_set_unique)
qed

lemma query_restored:
  assumes "reads_own tv" and "proper_module (QueryEventHandlerSubConfig (l, c))"
  shows "QueryEventHandlerSubConfig_getFrom tv (Some (TTable (QueryEventHandlerSubConfig_putTo (l, c) []))) (l0, c0) =
    (Inr (), (restored_logging l0 l, c\<lparr>default_accept_zone_set_success := None\<rparr>))"
proof -
  let ?t = "QueryEventHandlerSubConfig_putTo (l, c) []"
  have log: "LoggingSubConfig_getFrom tv (Some (TTable ?t)) l0 = (Inr (), restored_logging l0 l)"
    using assms(1)
    by (intro logging_restored) (auto simp: logging_keys_def QueryEventHandlerSubConfig_putTo_def ModuleSubConfig_putTo_def)
  have own: "\<And>k. k \<notin> set logging_keys \<Longrightarrow> map_of (ModuleSubConfig_putTo l []) k = None"
    by (simp add: ModuleSubConfig_putTo_def)
  show ?thesis
    using log own assms(2)
    by (cases "default_accept_zone_sets c")
      (simp_all add: QueryEventHandlerSubConfig_getFrom_def ModuleSubConfig_getFrom_def run_simps read_simps
        QueryEventHandlerSubConfig_putTo_def logging_keys_def stored_simps [OF assms(1)]
        read_zone_sets_strings [OF assms(1)] insort_all_set)
qed

lemma state_restored:
  assumes "reads_own tv"
  shows "StateSubConfig_getFrom tv (Some (TTable (StateSubConfig_putTo (l, c) []))) (l0, c0) =
    (Inr (), (restored_logging l0 l, c\<lparr>default_agv_position_map := None\<rparr>))"
proof -
  let ?t = "StateSubConfig_putTo (l, c) []"
  have log: "LoggingSubConfig_getFrom tv (Some (TTable ?t)) l0 = (Inr (), restored_logging l0 l)"
    using assms(1)
    by (intro logging_restored) (auto simp: logging_keys_def StateSubConfig_putTo_def ModuleSubConfig_putTo_def)
  have own: "\<And>k. k \<notin> set logging_keys \<Longrightarrow> map_of (ModuleSubConfig_putTo l []) k = None"
    by (simp add: ModuleSubConfig_putTo_def)
  show ?thesis
    using log own
    by (simp add: StateSubConfig_getFrom_def ModuleSubConfig_getFrom_def run_simps read_simps
        StateSubConfig_putTo_def logging_keys_def stored_simps [OF assms(1)] reads_own_simps [OF assms(1)])
qed

lemma period_restored:
  assumes "reads_own tv" and "duration_ok d" and "key \<notin> set logging_keys"
  shows "period_getFrom key tv (Some (TTable (period_putTo key (l, d) []))) (l0, d0) =
    (Inr (), (restored_logging l0 l, restored_period d0 d))"
proof -
  let ?t = "period_putTo key (l, d) []"
  have log: "LoggingSubConfig_getFrom tv (Some (TTable ?t)) l0 = (Inr (), restored_logging l0 l)"
    using assms(1,3)
    by (intro logging_restored) (auto simp: logging_keys_def period_putTo_def ModuleSubConfig_putTo_def)
  have "map_of (ModuleSubConfig_putTo l []) key = None"
    using assms(3) by (simp add: ModuleSubConfig_putTo_def)
  then show ?thesis
    using log
    by (simp add: period_getFrom_def ModuleSubConfig_getFrom_def run_simps read_simps period_putTo_def
        reads_own_simps [OF assms(1)] restored_period_def sint_narrow sint_count_ms [OF assms(2)] whole_ms_def)
qed

lemma node_reached_restored:
  assumes "reads_own tv"
  shows "NodeReachedSubConfig_getFrom tv (Some (TTable (NodeReachedSubConfig_putTo (l, c) []))) (l0, c0) =
    (Inr (), (restored_logging l0 l, c))"
proof -
  let ?t = "NodeReachedSubConfig_putTo (l, c) []"
  have log: "LoggingSubConfig_getFrom tv (Some (TTable ?t)) l0 = (Inr (), restored_logging l0 l)"
    using assms(1)
    by (intro logging_restored) (auto simp: logging_keys_def NodeReachedSubConfig_putTo_def ModuleSubConfig_putTo_def)
  have own: "\<And>k. k \<notin> set logging_keys \<Longrightarrow> map_of (ModuleSubConfig_putTo l []) k = None"
    by (simp add: ModuleSubConfig_putTo_def)
  show ?thesis
    using log own
    by (simp add: NodeReachedSubConfig_getFrom_def ModuleSubConfig_getFrom_def run_simps read_simps
        NodeReachedSubConfig_putTo_def logging_keys_def stored_simps [OF assms(1)] reads_own_simps [OF assms(1)])
qed

lemma module_restored:
  assumes "reads_own tv" and "proper_module m" and "same_class m0 m"
  shows "ModuleConfig_getFrom tv (Some (TTable (ModuleConfig_putTo m []))) m0 = (Inr (), restored_module m0 m)"
  using assms(2,3)
  by (cases m0; cases m)
    (auto simp: within_def mqtt_restored [OF assms(1)] query_restored [OF assms(1)] state_restored [OF assms(1)]
      node_reached_restored [OF assms(1)] period_restored [OF assms(1)]
      StateUpdateTimerSubConfig_getFrom_def StateUpdateTimerSubConfig_putTo_def
      VisualizationTimerSubConfig_getFrom_def VisualizationTimerSubConfig_putTo_def
      ModuleSubConfig_getFrom_def ModuleSubConfig_putTo_def logging_restored [OF assms(1)] logging_keys_def
      simp del: proper_module.simps(5))

section \<open>The global configuration\<close>

definition restored_global :: "GlobalConfig \<Rightarrow> GlobalConfig \<Rightarrow> GlobalConfig" where
  "restored_global g0 g = g\<lparr>
     global_logging := restored_logging (global_logging g0) (global_logging g),
     sync_event_dispatch := False,
     is_black_list := (if module_bw_list g = [] then is_black_list g0 else True)\<rparr>"

lemma insert_strings_strings: "insert_strings (map TString zs) acc = fold insort_insert zs acc"
  by (induction zs arbitrary: acc) simp_all

lemma global_restored:
  assumes "reads_own tv" and "is_std_set (module_bw_list g)" and "module_bw_list g0 = []"
  shows "GlobalConfig_getFrom tv (Some (TTable (GlobalConfig_putTo g []))) g0 = (Inr (), restored_global g0 g)"
proof -
  let ?t = "GlobalConfig_putTo g []"
  have log: "LoggingSubConfig_getFrom tv (Some (TTable ?t)) (global_logging g0) =
      (Inr (), restored_logging (global_logging g0) (global_logging g))"
    using assms(1)
    by (intro logging_restored) (auto simp: logging_keys_def GlobalConfig_putTo_def Let_def)
  have keys: "map_of ?t ''event_manager_options.synchronous_event_dispatch'' = None"
    "map_of ?t ''module_black_list'' = (if module_bw_list g \<noteq> [] \<and> is_black_list g
       then Some (TArray (map TString (module_bw_list g))) else None)"
    "map_of ?t ''module_white_list'' = (if module_bw_list g \<noteq> [] \<and> \<not> is_black_list g
       then Some (TArray (map TString (module_bw_list g))) else None)"
    by (simp_all add: GlobalConfig_putTo_def Let_def logging_keys_def)
  show ?thesis
    using assms(3)
    by (cases "module_bw_list g = []"; cases "is_black_list g")
      (simp_all add: GlobalConfig_getFrom_def log keys Let_def read_simps
        insert_strings_strings insort_all_set [OF assms(2)] restored_global_def)
qed

section \<open>The description of the vehicle\<close>

definition json_reads_own :: "'j Json \<Rightarrow> bool" where
  "json_reads_own js \<longleftrightarrow> (\<forall>name j. json_parse js name (json_dump js j) = Some j)"

definition inline_json :: "'j AGVDescriptionSubConfig \<Rightarrow> bool" where
  "inline_json a \<longleftrightarrow> type_specification_mode a = None \<and> physical_parameters_mode a = None \<and>
     agv_geometry_mode a = None \<and> load_specifications_mode a = None \<and> localization_parameters_mode a = None"

definition restored_description :: "'j AGVDescriptionSubConfig \<Rightarrow> 'j AGVDescriptionSubConfig" where
  "restored_description =
     on_description (\<lambda>d. d\<lparr>simple_protocol_limits := (simple_protocol_limits d)\<lparr>max_loads := None\<rparr>\<rparr>)"

lemma battery_restored:
  assumes "reads_own tv"
  shows "fromBatteryTable tv (Some (TTable (toBatteryTable b))) = Inr b"
proof -
  have "Option.bind (value_double tv (TInteger (ucast n))) (double_to_uint32 tv) = Some n" for n
    using assms by (simp add: reads_own_def)
  then obtain f where f: "\<And>n. value_double tv (TInteger (ucast n)) = Some (f n)"
      "\<And>n. double_to_uint32 tv (f n) = Some n"
    by (auto simp: bind_eq_Some_conv) metis
  show ?thesis
    by (cases "max_reach b")
      (simp_all add: fromBatteryTable_def toBatteryTable_def read_simps reads_own_simps [OF assms] f)
qed

lemma put_opt_twice:
  "k \<noteq> j \<Longrightarrow> k \<noteq> i \<Longrightarrow>
    map_of (put_opt k f v (put_opt j g w (put_opt i h x (put_opt k f v [])))) k = map_option f v"
  by (cases v) (simp_all add: put_opt_def map_of_put split: option.splits)

lemma limits_restored:
  assumes "reads_own tv"
  shows "fromSimpleProtocolLimitsTable tv (Some (TTable (toSimpleProtocolLimitsTable l))) = l\<lparr>max_loads := None\<rparr>"
proof -
  have n: "Option.bind (map_option (\<lambda>n. TInteger (ucast n)) v) (value_uint32 tv) = v" for v
    by (cases v) (simp_all add: reads_own_simps [OF assms])
  show ?thesis
    by (simp add: fromSimpleProtocolLimitsTable_def toSimpleProtocolLimitsTable_def read_simps put_opt_twice n
        stored_simps [OF assms])
qed

lemma json_restored:
  assumes "reads_own tv" and "json_reads_own js"
  shows "fromJSONTable js fs tv (Some (TTable (put ''json'' (TString (json_dump js j)) []))) name mode = (Inr j, None)"
  using assms(2)
  by (simp add: fromJSONTable_def read_simps reads_own_simps [OF assms(1)] json_reads_own_def run_simps)

lemma description_restored:
  assumes "reads_own tv" and "json_reads_own js" and "inline_json a"
  shows "\<exists>t. AGVDescriptionSubConfig_putTo js writable a [] fs = (Inr t, fs) \<and>
    AGVDescriptionSubConfig_getFrom js fs tv (Some (TTable t)) a0 = (Inr (), restored_description a)"
proof -
  have inline: "toJSONTable js writable j None fs = (Inr (put ''json'' (TString (json_dump js j)) []), fs)" for j
    by (simp add: toJSONTable_def run_simps)
  show ?thesis
    using assms(3)
    by (auto simp: AGVDescriptionSubConfig_putTo_def AGVDescriptionSubConfig_getFrom_def Let_def run_simps inline
        inline_json_def get_json_def json_restored [OF assms(1,2)] battery_restored [OF assms(1)]
        limits_restored [OF assms(1)] read_simps stored_simps [OF assms(1)] reads_own_simps [OF assms(1)]
        on_description_def restored_description_def)
qed

section \<open>Key-value configurations\<close>

text \<open>
  Two configurations of the same shape: the same entries with the same types, and the tags agree with
  the variants. A set of entries has distinct keys.
\<close>

definition plain_shape :: "KVType \<Rightarrow> KVValue \<Rightarrow> KVDefault \<Rightarrow> KVValidator \<Rightarrow> bool" where
  "plain_shape ty v d f \<longleftrightarrow>
     (ty = is_int64 \<and> (\<exists>x y z. v = VInteger x \<and> d = DInteger y \<and> f = OfInteger z)) \<or>
     (ty = is_double \<and> (\<exists>x y z. v = VFloat x \<and> d = DFloat y \<and> f = OfFloat z)) \<or>
     (ty = is_bool \<and> (\<exists>x y z. v = VBoolean x \<and> d = DBoolean y \<and> f = OfBoolean z)) \<or>
     (ty = is_string \<and> (\<exists>x y z. v = VString x \<and> d = DString y \<and> f = OfString z))"

fun same_shape :: "SubConfig \<Rightarrow> SubConfig \<Rightarrow> bool"
  and same_entries :: "(string \<times> Container) list \<Rightarrow> (string \<times> Container) list \<Rightarrow> bool"
  and same_type :: "Container \<Rightarrow> Container \<Rightarrow> bool" where
  "same_shape (KeyValueConfig es0) s \<longleftrightarrow>
     (case s of KeyValueConfig es \<Rightarrow> same_entries es0 es | OfModule _ \<Rightarrow> False)"
| "same_shape (OfModule m0) s \<longleftrightarrow>
     (case s of KeyValueConfig _ \<Rightarrow> False | OfModule m \<Rightarrow> same_class m0 m \<and> proper_module m)"
| "same_entries [] es \<longleftrightarrow> es = []"
| "same_entries ((k0, c0) # es0) es \<longleftrightarrow>
     (case es of [] \<Rightarrow> False
      | (k, c) # es' \<Rightarrow> k0 = k \<and> k \<notin> fst ` set es' \<and> same_type c0 c \<and> same_entries es0 es')"
| "same_type (Container ty req v0 d f) c \<longleftrightarrow> c_type c = ty \<and>
     (case v0 of
        VSubConfig s0 \<Rightarrow> ty = is_SubConfig \<and>
          (case c_value c of VSubConfig s \<Rightarrow> same_shape s0 s | _ \<Rightarrow> False)
      | _ \<Rightarrow> plain_shape ty (c_value c) d f)"

text \<open>A saved value is taken when the validator accepts it; for a missing one the default is taken.\<close>

definition settle :: "'v option \<Rightarrow> 'v option \<Rightarrow> bool \<Rightarrow> ('v \<Rightarrow> bool) option \<Rightarrow> exn + 'v option" where
  "settle saved default_value required validator =
     (case saved of
        Some v \<Rightarrow> (if \<forall>f \<in> set_option validator. f v then Inr (Some v) else Inl VDA5050PPTOMLError)
      | None \<Rightarrow>
          (if default_value = None \<and> required then Inl VDA5050PPTOMLError else Inr default_value))"

fun settled :: "bool \<Rightarrow> KVValue \<Rightarrow> KVDefault \<Rightarrow> KVValidator \<Rightarrow> exn + KVValue" where
  "settled req (VInteger v) (DInteger d) (OfInteger f) = map_sum id VInteger (settle v d req f)"
| "settled req (VFloat v) (DFloat d) (OfFloat f) = map_sum id VFloat (settle v d req f)"
| "settled req (VBoolean v) (DBoolean d) (OfBoolean f) = map_sum id VBoolean (settle v d req f)"
| "settled req (VString v) (DString d) (OfString f) = map_sum id VString (settle v d req f)"
| "settled req _ _ _ = Inl StdBadVariantAccess"

fun restored_sub :: "SubConfig \<Rightarrow> SubConfig \<Rightarrow> (exn + unit) \<times> SubConfig"
  and restored_entries ::
    "(string \<times> Container) list \<Rightarrow> (string \<times> Container) list \<Rightarrow> (exn + unit) \<times> (string \<times> Container) list"
  and restored_container :: "Container \<Rightarrow> Container \<Rightarrow> (exn + unit) \<times> Container" where
  "restored_sub (KeyValueConfig es0) s =
     (case s of
        KeyValueConfig es \<Rightarrow> (case restored_entries es0 es of (r, es') \<Rightarrow> (r, KeyValueConfig es'))
      | OfModule _ \<Rightarrow> (Inr (), KeyValueConfig es0))"
| "restored_sub (OfModule m0) s =
     (case s of KeyValueConfig _ \<Rightarrow> (Inr (), OfModule m0) | OfModule m \<Rightarrow> (Inr (), OfModule (restored_module m0 m)))"
| "restored_entries [] es = (Inr (), [])"
| "restored_entries ((k0, c0) # es0) es =
     (case es of
        [] \<Rightarrow> (Inr (), (k0, c0) # es0)
      | (k, c) # es' \<Rightarrow>
          (case restored_container c0 c of
             (Inl e, c') \<Rightarrow> (Inl e, (k0, c') # es0)
           | (Inr _, c') \<Rightarrow> (case restored_entries es0 es' of (r, es'') \<Rightarrow> (r, (k0, c') # es''))))"
| "restored_container (Container ty req v0 d f) c =
     (case v0 of
        VSubConfig s0 \<Rightarrow>
          (case c_value c of
             VSubConfig s \<Rightarrow> (case restored_sub s0 s of (r, s') \<Rightarrow> (r, Container ty req (VSubConfig s') d f))
           | _ \<Rightarrow> (Inr (), Container ty req v0 d f))
      | _ \<Rightarrow>
          (case settled req (c_value c) d f of
             Inl e \<Rightarrow> (Inl e, Container ty req v0 d f)
           | Inr v' \<Rightarrow> (Inr (), Container ty req v' d f)))"

lemma doGetFromTable_saved:
  assumes "map_of t k = map_option w v" and "\<And>x. val (w x) = Some x"
  shows "doGetFromTable val (Some (TTable t)) k d req f = settle v d req f"
  using assms by (cases v) (auto simp: doGetFromTable_def read_simps settle_def split: option.splits)

lemma plain_restored:
  assumes "reads_own tv" and "map_of t k = None"
  shows "\<exists>t'. put_plain k is_int64 (VInteger vi) t = Inr t' \<and> (\<forall>j. j \<noteq> k \<longrightarrow> map_of t' j = map_of t j) \<and>
      map_of t' k = map_option TInteger vi"
    "\<exists>t'. put_plain k is_double (VFloat vd) t = Inr t' \<and> (\<forall>j. j \<noteq> k \<longrightarrow> map_of t' j = map_of t j) \<and>
      map_of t' k = map_option TFloating vd"
    "\<exists>t'. put_plain k is_bool (VBoolean vb) t = Inr t' \<and> (\<forall>j. j \<noteq> k \<longrightarrow> map_of t' j = map_of t j) \<and>
      map_of t' k = map_option TBoolean vb"
    "\<exists>t'. put_plain k is_string (VString vs) t = Inr t' \<and> (\<forall>j. j \<noteq> k \<longrightarrow> map_of t' j = map_of t j) \<and>
      map_of t' k = map_option TString vs"
  using assms(2) by auto

text \<open>Writing succeeds, touches only the written keys, and any table with these entries is read back.\<close>

definition written_back ::
  "string set \<Rightarrow> (toml_table \<Rightarrow> exn + toml_table) \<Rightarrow> toml_table \<Rightarrow> (toml_table \<Rightarrow> bool) \<Rightarrow> bool" where
  "written_back ks wr t back \<longleftrightarrow>
     (\<exists>t'. wr t = Inr t' \<and> (\<forall>j. j \<notin> ks \<longrightarrow> map_of t' j = map_of t j) \<and>
        (\<forall>u. (\<forall>j \<in> ks. map_of u j = map_of t' j) \<longrightarrow> back u))"

lemma plain_container_restored:
  assumes "reads_own tv" and "plain_shape ty v d f" and "map_of t k = None"
  shows "written_back {k} (put_plain k ty v) t
    (\<lambda>u. get_plain tv (Some (TTable u)) k ty req d f = settled req v d f)"
  using assms(2)
  by (auto simp: plain_shape_def written_back_def assms(3)
      doGetFromTable_saved [where w = TInteger] doGetFromTable_saved [where w = TFloating]
      doGetFromTable_saved [where w = TBoolean] doGetFromTable_saved [where w = TString]
      reads_own_simps [OF assms(1)])

lemma written_back_mono:
  "written_back ks wr t back \<Longrightarrow> (\<And>u. back u \<Longrightarrow> back' u) \<Longrightarrow> written_back ks wr t back'"
  unfolding written_back_def by blast

lemma written_back_more:
  assumes "written_back {k} wr t back" and "k \<notin> ks"
    and "\<And>t1. (\<And>j. j \<noteq> k \<Longrightarrow> map_of t1 j = map_of t j) \<Longrightarrow> written_back ks wr' t1 back'"
  shows "written_back (insert k ks) (\<lambda>t. case wr t of Inl e \<Rightarrow> Inl e | Inr t1 \<Rightarrow> wr' t1) t (\<lambda>u. back u \<and> back' u)"
proof -
  obtain t1 where t1: "wr t = Inr t1" "\<And>j. j \<noteq> k \<Longrightarrow> map_of t1 j = map_of t j"
    "\<And>u. map_of u k = map_of t1 k \<Longrightarrow> back u"
    using assms(1) by (auto simp: written_back_def)
  obtain t2 where t2: "wr' t1 = Inr t2" "\<And>j. j \<notin> ks \<Longrightarrow> map_of t2 j = map_of t1 j"
    "\<And>u. \<forall>j \<in> ks. map_of u j = map_of t2 j \<Longrightarrow> back' u"
    using assms(3) [OF t1(2)] by (auto simp: written_back_def)
  show ?thesis
    unfolding written_back_def using t1 t2 assms(2) by (intro exI [of _ t2]) auto
qed

lemma written_cong: "wr t = wr' t \<Longrightarrow> written_back ks wr t back = written_back ks wr' t back"
  by (simp add: written_back_def)

lemma sub_restored:
  assumes "reads_own tv"
  shows
    "same_shape s0 s \<Longrightarrow> \<exists>t. SubConfig_putTo s [] = Inr t \<and>
       SubConfig_getFrom tv (Some (TTable t)) s0 = restored_sub s0 s"
    "same_entries es0 es \<Longrightarrow> (\<And>k. k \<in> fst ` set es \<Longrightarrow> map_of t k = None) \<Longrightarrow>
       written_back (fst ` set es) (entries_putTo es) t
         (\<lambda>u. entries_getFrom tv (Some (TTable u)) es0 = restored_entries es0 es)"
    "same_type c0 c \<Longrightarrow> map_of t' k = None \<Longrightarrow>
       written_back {k} (Container_putTo k c) t'
         (\<lambda>u. Container_getFrom tv (Some (TTable u)) k c0 = restored_container c0 c)"
proof (induction s0 s and es0 es and c0 c arbitrary: and t and t' k
    rule: same_shape_same_entries_same_type.induct)
  case (1 es0 s)
  then obtain es where s: "s = KeyValueConfig es" "same_entries es0 es" by (auto split: SubConfig.splits)
  then have "written_back (fst ` set es) (entries_putTo es) []
      (\<lambda>u. entries_getFrom tv (Some (TTable u)) es0 = restored_entries es0 es)"
    by (intro "1.IH") auto
  then show ?case by (auto simp: written_back_def s(1))
next
  case (2 m0 s)
  then show ?case by (auto simp: module_restored [OF assms] split: SubConfig.splits)
next
  case (3 es)
  then show ?case by (simp add: written_back_def)
next
  case (4 k0 c0 es0 es)
  then obtain c es' where es: "es = (k0, c) # es'" "k0 \<notin> fst ` set es'" "same_type c0 c" "same_entries es0 es'"
    by (auto split: list.splits)
  have head: "written_back {k0} (Container_putTo k0 c) t
      (\<lambda>u. Container_getFrom tv (Some (TTable u)) k0 c0 = restored_container c0 c)"
    using 4 es by (intro "4.IH"(1)) auto
  have "written_back (fst ` set es') (entries_putTo es') t1
      (\<lambda>u. entries_getFrom tv (Some (TTable u)) es0 = restored_entries es0 es')"
    if "\<And>j. j \<noteq> k0 \<Longrightarrow> map_of t1 j = map_of t j" for t1
    using 4 es that by (intro "4.IH"(2)) (auto, metis fst_conv image_eqI)
  note both = written_back_more [OF head es(2) this]
  have "entries_putTo es = (\<lambda>t. case Container_putTo k0 c t of Inl e \<Rightarrow> Inl e | Inr t1 \<Rightarrow> entries_putTo es' t1)"
    by (simp add: es(1) fun_eq_iff)
  moreover have "fst ` set es = insert k0 (fst ` set es')" by (simp add: es(1))
  moreover have "entries_getFrom tv (Some (TTable u)) ((k0, c0) # es0) = restored_entries ((k0, c0) # es0) es"
    if "Container_getFrom tv (Some (TTable u)) k0 c0 = restored_container c0 c \<and>
      entries_getFrom tv (Some (TTable u)) es0 = restored_entries es0 es'" for u
    using that by (simp add: es(1) split: prod.split sum.split)
  ultimately show ?case using written_back_mono [OF both] by simp
next
  case (5 ty req v0 d f c)
  have plain: "written_back {k} (Container_putTo k c) t'
      (\<lambda>u. Container_getFrom tv (Some (TTable u)) k (Container ty req v0 d f) =
        restored_container (Container ty req v0 d f) c)"
    if no_sub: "\<forall>s. v0 \<noteq> VSubConfig s"
  proof -
    have ty: "c_type c = ty" and shape: "plain_shape ty (c_value c) d f"
      using "5.prems"(1) no_sub by (auto split: KVValue.splits)
    obtain req' v d' f' where c: "c = Container ty req' v d' f'" using ty by (cases c) auto
    have not_sub: "ty \<noteq> is_SubConfig" using shape by (auto simp: plain_shape_def)
    have put: "Container_putTo k c = put_plain k ty v"
      using not_sub by (cases ty) (auto simp: c fun_eq_iff)
    have get: "Container_getFrom tv n k (Container ty req v0 d f) =
        (case get_plain tv n k ty req d f of
          Inl e \<Rightarrow> (Inl e, Container ty req v0 d f) | Inr v' \<Rightarrow> (Inr (), Container ty req v' d f))" for n
      using not_sub by (cases ty; cases v0) auto
    have res: "restored_container (Container ty req v0 d f) c =
        (case settled req v d f of
          Inl e \<Rightarrow> (Inl e, Container ty req v0 d f) | Inr v' \<Rightarrow> (Inr (), Container ty req v' d f))"
      using no_sub by (cases v0) (auto simp: c)
    have "plain_shape ty v d f" using shape by (simp add: c)
    from plain_container_restored [OF assms this "5.prems"(2), of req] show ?thesis
      unfolding put by (rule written_back_mono) (simp only: get res)
  qed
  show ?case
  proof (cases v0)
    case (VSubConfig s0)
    then obtain s req' d' f' where c: "ty = is_SubConfig" "c = Container is_SubConfig req' (VSubConfig s) d' f'"
      "same_shape s0 s"
      using "5.prems"(1) by (cases c) (auto split: KVValue.splits)
    then obtain st where "SubConfig_putTo s [] = Inr st"
      "SubConfig_getFrom tv (Some (TTable st)) s0 = restored_sub s0 s"
      using "5.IH" VSubConfig by auto
    then show ?thesis using "5.prems"(2)
      by (auto simp: written_back_def c VSubConfig split: prod.splits)
  qed (use plain in auto)
qed

section \<open>Registries\<close>

lemma put_opt_not_Nil [simp]: "t \<noteq> [] \<Longrightarrow> put_opt k f v t \<noteq> []"
  by (cases v) (simp_all add: put_opt_def)

lemma module_table_not_Nil [simp]: "ModuleConfig_putTo m [] \<noteq> []"
proof -
  have l [simp]: "LoggingSubConfig_putTo l t \<noteq> []" "ModuleSubConfig_putTo l t \<noteq> []" for l t
    by (simp_all add: LoggingSubConfig_putTo_def ModuleSubConfig_putTo_def)
  show ?thesis
    by (cases m) (auto simp: MqttSubConfig_putTo_def put_ms_def QueryEventHandlerSubConfig_putTo_def
        StateSubConfig_putTo_def StateUpdateTimerSubConfig_putTo_def VisualizationTimerSubConfig_putTo_def
        period_putTo_def NodeReachedSubConfig_putTo_def)
qed

lemma insert_table_lookups [simp]:
  "j \<noteq> k \<Longrightarrow> map_of (insert_table k sub t) j = map_of t j"
  "map_of t k = None \<Longrightarrow> map_of (insert_table k sub t) k = (if sub = [] then None else Some (TTable sub))"
  by (auto simp: insert_table_def)

lemma node_at_table [simp]: "node_at (if sub = [] then None else Some (TTable sub)) k = map_of sub k"
  by simp

lemma saved_modules:
  assumes "distinct (map fst ms)" and "\<And>k. k \<in> fst ` set ms \<Longrightarrow> map_of t k = None"
  shows "map_of (save_modules ms t) k =
    (case map_of ms k of None \<Rightarrow> map_of t k | Some m \<Rightarrow> Some (TTable (ModuleConfig_putTo m [])))"
  using assms
proof (induction ms t rule: save_modules.induct)
  case (2 j m ms t)
  have "map_of (save_modules ms (insert_table j (ModuleConfig_putTo m []) t)) k =
      (case map_of ms k of None \<Rightarrow> map_of (insert_table j (ModuleConfig_putTo m []) t) k
       | Some m \<Rightarrow> Some (TTable (ModuleConfig_putTo m [])))"
    using 2 by (intro "2.IH") (auto, metis fst_conv image_eqI insert_table_lookups(1))
  moreover have "map_of ms j = None" "map_of t j = None" using "2.prems" by (auto simp: map_of_eq_None_iff)
  ultimately show ?case by (auto split: option.splits)
qed simp

lemma saved_customs:
  assumes "distinct (map fst cs)" and "\<And>k. k \<in> fst ` set cs \<Longrightarrow> map_of t k = None"
    and "\<And>k s. (k, s) \<in> set cs \<Longrightarrow> \<exists>st. SubConfig_putTo s [] = Inr st"
  shows "\<exists>ct. save_customs cs t = Inr ct \<and> (\<forall>k. map_of ct k =
    (case map_of cs k of None \<Rightarrow> map_of t k
     | Some s \<Rightarrow> (case SubConfig_putTo s [] of Inr st \<Rightarrow> if st = [] then None else Some (TTable st) | Inl _ \<Rightarrow> None)))"
  using assms
proof (induction cs t rule: save_customs.induct)
  case (2 j s ss t)
  from "2.prems"(3) [of j s] obtain st where st: "SubConfig_putTo s [] = Inr st" by auto
  have fresh: "map_of (insert_table j st t) k = None" if "k \<in> fst ` set ss" for k
  proof -
    have "k \<noteq> j" using that "2.prems"(1) by auto
    then show ?thesis using "2.prems"(2) [of k] that by simp
  qed
  have sub: "\<exists>st. SubConfig_putTo s' [] = Inr st" if "(k, s') \<in> set ss" for k s'
    using "2.prems"(3) [of k s'] that by simp
  have "distinct (map fst ss)" using "2.prems"(1) by simp
  then obtain ct where ct: "save_customs ss (insert_table j st t) = Inr ct"
    "\<And>k. map_of ct k = (case map_of ss k of None \<Rightarrow> map_of (insert_table j st t) k
     | Some s \<Rightarrow> (case SubConfig_putTo s [] of Inr st \<Rightarrow> if st = [] then None else Some (TTable st) | Inl _ \<Rightarrow> None))"
    using "2.IH" [OF st _ fresh] sub by blast
  moreover have "map_of ss j = None" "map_of t j = None" using "2.prems" by (auto simp: map_of_eq_None_iff)
  ultimately show ?case by (auto simp: st split: option.splits)
qed simp

lemma entries_getFrom_empty:
  "entries_getFrom tv None es = entries_getFrom tv (Some (TTable [])) es"
proof (induction es)
  case (Cons p es)
  obtain k c where p: "p = (k, c)" by force
  have "Container_getFrom tv None k c = Container_getFrom tv (Some (TTable [])) k c"
  proof (cases c)
    case (Container ty req v d f)
    have "get_plain tv None k ty req d f = get_plain tv (Some (TTable [])) k ty req d f"
      by (cases ty; cases d; cases f) (simp_all add: doGetFromTable_def read_def)
    then show ?thesis by (cases ty; cases v) (simp_all add: Container)
  qed
  then show ?case by (simp add: p Cons.IH split: prod.split sum.split)
qed simp

lemma sub_restored_node:
  assumes "reads_own tv" and "same_shape s0 s"
  shows "\<exists>st. SubConfig_putTo s [] = Inr st \<and>
    SubConfig_getFrom tv (if st = [] then None else Some (TTable st)) s0 = restored_sub s0 s"
proof -
  obtain st where st: "SubConfig_putTo s [] = Inr st"
    "SubConfig_getFrom tv (Some (TTable st)) s0 = restored_sub s0 s"
    using sub_restored(1) [OF assms] by blast
  have "SubConfig_getFrom tv None s0 = SubConfig_getFrom tv (Some (TTable [])) s0" if "st = []"
    using that assms(2) st(1) by (cases s0; cases s) (auto simp: entries_getFrom_empty)
  then show ?thesis using st by auto
qed

lemma load_all_cong:
  "(\<And>k c. (k, c) \<in> set m \<Longrightarrow> f k c = g k c) \<Longrightarrow> load_all f m = load_all g m"
  by (induction m) (auto split: prod.splits sum.splits)

lemma load_all_ok: "load_all (\<lambda>k c. (Inr (), f k c)) m = (Inr (), map (\<lambda>(k, c). (k, f k c)) m)"
  by (induction m) auto

definition same_registry :: "('c \<Rightarrow> 'c \<Rightarrow> bool) \<Rightarrow> (string \<times> 'c) list \<Rightarrow> (string \<times> 'c) list \<Rightarrow> bool" where
  "same_registry P m0 m \<longleftrightarrow> distinct (map fst m) \<and> (\<forall>(k, c0) \<in> set m0. \<exists>c. map_of m k = Some c \<and> P c0 c)"

lemma modules_restored:
  assumes "reads_own tv" and "same_registry (\<lambda>m0 m. same_class m0 m \<and> proper_module m) ms0 ms"
  shows "load_all (\<lambda>k. ModuleConfig_getFrom tv (map_of (save_modules ms []) k)) ms0 =
    (Inr (), map (\<lambda>(k, m0). (k, restored_module m0 (the (map_of ms k)))) ms0)"
proof -
  have "load_all (\<lambda>k. ModuleConfig_getFrom tv (map_of (save_modules ms []) k)) ms0 =
      load_all (\<lambda>k m0. (Inr (), restored_module m0 (the (map_of ms k)))) ms0"
  proof (rule load_all_cong)
    fix k m0 assume "(k, m0) \<in> set ms0"
    then obtain m where "map_of ms k = Some m" "same_class m0 m" "proper_module m"
      using assms(2) by (auto simp: same_registry_def)
    then show "ModuleConfig_getFrom tv (map_of (save_modules ms []) k) m0 =
        (Inr (), restored_module m0 (the (map_of ms k)))"
      using assms(2) by (simp add: saved_modules same_registry_def module_restored [OF assms(1)])
  qed
  then show ?thesis by (simp add: load_all_ok)
qed

lemma customs_restored:
  assumes "reads_own tv" and "same_registry same_shape cs0 cs" and "fst ` set cs \<subseteq> fst ` set cs0"
  shows "\<exists>ct. save_customs cs [] = Inr ct \<and>
    load_all (\<lambda>k. SubConfig_getFrom tv (map_of ct k)) cs0 =
      load_all (\<lambda>k s0. restored_sub s0 (the (map_of cs k))) cs0"
proof -
  have "\<exists>st. SubConfig_putTo s [] = Inr st" if "(k, s) \<in> set cs" for k s
  proof -
    from that obtain s0 where "(k, s0) \<in> set cs0" using assms(3) by force
    then obtain s' where "map_of cs k = Some s'" "same_shape s0 s'" using assms(2) by (auto simp: same_registry_def)
    moreover have "map_of cs k = Some s" using that assms(2) by (simp add: same_registry_def)
    ultimately show ?thesis using sub_restored_node [OF assms(1)] by auto
  qed
  then obtain ct where ct: "save_customs cs [] = Inr ct"
    "\<And>k. map_of ct k = (case map_of cs k of None \<Rightarrow> None
     | Some s \<Rightarrow> (case SubConfig_putTo s [] of Inr st \<Rightarrow> if st = [] then None else Some (TTable st) | Inl _ \<Rightarrow> None))"
    using saved_customs [of cs "[]"] assms(2) by (auto simp: same_registry_def cong: option.case_cong)
  have "load_all (\<lambda>k. SubConfig_getFrom tv (map_of ct k)) cs0 =
      load_all (\<lambda>k s0. restored_sub s0 (the (map_of cs k))) cs0"
  proof (rule load_all_cong)
    fix k s0 assume "(k, s0) \<in> set cs0"
    then obtain s where s: "map_of cs k = Some s" "same_shape s0 s" using assms(2) by (auto simp: same_registry_def)
    from sub_restored_node [OF assms(1) s(2)]
    show "SubConfig_getFrom tv (map_of ct k) s0 = restored_sub s0 (the (map_of cs k))"
      by (auto simp: ct(2) s(1))
  qed
  then show ?thesis using ct(1) by blast
qed

section \<open>The round trip\<close>

lemma global_table_not_Nil [simp]: "GlobalConfig_putTo g t \<noteq> []"
  by (simp add: GlobalConfig_putTo_def LoggingSubConfig_putTo_def Let_def)

text \<open>C29: What comes back when a configuration is saved and loaded into another one with the same
  registered modules and custom entries. Saving succeeds. Loading restores all settings, except: a log
  level that is not set does not replace the one that is there; durations are cut to milliseconds, and
  a period of a timer that does not fit into 32 bits of milliseconds is ignored; the answer for zone
  sets, the default map and the maximal number of loads are lost, since they are read under other
  keys than they are written, or not written; synchronous dispatch is always switched off; and a white
  list is read as a black list. The values of custom entries come back when their validator accepts
  them, and the first that it does not accept ends the loading with an exception.\<close>

theorem saved_config_is_restored:
  assumes "reads_own (toml_reads x)" and "json_reads_own (json_lib x)"
    and "\<And>t. fst (Config_toml x c fs) = Inr t \<Longrightarrow> toml_parse x (toml_format x t) = Some t"
    and "inline_json (agv_description_sub_config c)"
    and "is_std_set (module_bw_list (global_config c))" and "module_bw_list (global_config c0) = []"
    and "same_registry (\<lambda>m0 m. same_class m0 m \<and> proper_module m) (module_config_registry c0) (module_config_registry c)"
    and "same_registry same_shape (custom_config_registry c0) (custom_config_registry c)"
    and "fst ` set (custom_config_registry c) \<subseteq> fst ` set (custom_config_registry c0)"
  shows "\<exists>text. Config_save x c fs = (Inr text, fs) \<and>
    Config_load x fs text c0 =
      (case load_all (\<lambda>k s0. restored_sub s0 (the (map_of (custom_config_registry c) k))) (custom_config_registry c0) of
        (r, customs) \<Rightarrow> (r, c0\<lparr>
          global_config := restored_global (global_config c0) (global_config c),
          agv_description_sub_config := restored_description (agv_description_sub_config c),
          module_config_registry := map (\<lambda>(k, m0). (k, restored_module m0 (the (map_of (module_config_registry c) k))))
            (module_config_registry c0),
          custom_config_registry := customs\<rparr>))"
proof -
  let ?g = "GlobalConfig_putTo (global_config c) []" and ?m = "save_modules (module_config_registry c) []"
  obtain a where a: "AGVDescriptionSubConfig_putTo (json_lib x) (can_write x) (agv_description_sub_config c) [] fs = (Inr a, fs)"
    "AGVDescriptionSubConfig_getFrom (json_lib x) fs (toml_reads x) (Some (TTable a)) (agv_description_sub_config c0) =
      (Inr (), restored_description (agv_description_sub_config c))"
    using description_restored [OF assms(1,2,4)] by blast
  obtain ct where ct: "save_customs (custom_config_registry c) [] = Inr ct"
    "load_all (\<lambda>k. SubConfig_getFrom (toml_reads x) (map_of ct k)) (custom_config_registry c0) =
      load_all (\<lambda>k s0. restored_sub s0 (the (map_of (custom_config_registry c) k))) (custom_config_registry c0)"
    using customs_restored [OF assms(1,8,9)] by blast
  define t where "t = insert_table ''custom'' ct (insert_table ''module'' ?m
    (put ''agv_description'' (TTable a) (insert_table ''global'' ?g [])))"
  have toml: "Config_toml x c fs = (Inr t, fs)"
    by (simp add: Config_toml_def run_simps a(1) ct(1) t_def Let_def)
  have parse: "toml_parse x (toml_format x t) = Some t" using assms(3) toml by simp
  have keys: "map_of t ''global'' = Some (TTable ?g)" "map_of t ''agv_description'' = Some (TTable a)"
    "\<And>k. node_at (map_of t ''module'') k = map_of ?m k" "\<And>k. node_at (map_of t ''custom'') k = map_of ct k"
    by (simp_all add: t_def)
  have "Config_save x c fs = (Inr (toml_format x t), fs)"
    by (simp add: Config_save_def run_simps toml)
  moreover have "Config_load x fs (toml_format x t) c0 =
      (case load_all (\<lambda>k s0. restored_sub s0 (the (map_of (custom_config_registry c) k))) (custom_config_registry c0) of
        (r, customs) \<Rightarrow> (r, c0\<lparr>
          global_config := restored_global (global_config c0) (global_config c),
          agv_description_sub_config := restored_description (agv_description_sub_config c),
          module_config_registry := map (\<lambda>(k, m0). (k, restored_module m0 (the (map_of (module_config_registry c) k))))
            (module_config_registry c0),
          custom_config_registry := customs\<rparr>))"
    by (simp add: Config_load_def parse keys a(2) ct(2) global_restored [OF assms(1,5,6)]
        modules_restored [OF assms(1,7)])
  ultimately show ?thesis by blast
qed

text \<open>A concrete configuration: one white-listed module, one custom entry.\<close>

definition plain_reads :: TomlReads where
  "plain_reads = \<lparr>
     value_string = (\<lambda>n. case n of TString s \<Rightarrow> Some s | _ \<Rightarrow> None),
     value_int64 = (\<lambda>n. case n of TInteger i \<Rightarrow> Some i | _ \<Rightarrow> None),
     value_int = (\<lambda>n. case n of TInteger i \<Rightarrow> if in_int i then Some (ucast i) else None | _ \<Rightarrow> None),
     value_uint32 = (\<lambda>n. case n of TInteger i \<Rightarrow> Some (ucast i) | _ \<Rightarrow> None),
     value_double = (\<lambda>n. case n of TFloating d \<Rightarrow> Some d | TInteger i \<Rightarrow> Some i | _ \<Rightarrow> None),
     value_bool = (\<lambda>n. case n of TBoolean b \<Rightarrow> Some b | _ \<Rightarrow> None),
     double_to_uint32 = (\<lambda>d. Some (ucast d))\<rparr>"

definition text_json :: "string Json" where
  "text_json = \<lparr>json_parse = (\<lambda>_ s. Some s), json_dump = id, json_default = (\<lambda>_. [])\<rparr>"

definition sample_description :: "string AGVDescriptionSubConfig" where
  "sample_description = \<lparr>agv_description = \<lparr>agv_id = ''agv'', manufacturer = ''m'', serial_number = ''1'',
       description = None, battery = \<lparr>max_reach = Some 7, max_charge = 1, max_voltage = 2, charge_type = []\<rparr>,
       type_specification = [], physical_parameters = [], agv_geometry = [], load_specification = [],
       localization_parameters = [],
       simple_protocol_limits = \<lparr>max_id_len = None, id_numerical_only = None, max_load_id_len = None,
         max_loads = Some 3\<rparr>\<rparr>,
     type_specification_mode = None, physical_parameters_mode = None, agv_geometry_mode = None,
     load_specifications_mode = None, localization_parameters_mode = None\<rparr>"

definition sample_config :: "string list \<Rightarrow> int64 option \<Rightarrow> string Config" where
  "sample_config listed port = \<lparr>agv_description_sub_config = sample_description,
     global_config = GlobalConfig_new\<lparr>is_black_list := listed = [], module_bw_list := listed\<rparr>,
     module_config_registry = [(''Mqtt'', ModuleSubConfig LoggingSubConfig_new)],
     custom_config_registry =
       [(''my'', KeyValueConfig [(''port'', Container is_int64 True (VInteger port) (DInteger None) (OfInteger None))])]\<rparr>"

definition sample_ext :: "string ConfigExt" where
  "sample_ext = \<lparr>toml_reads = plain_reads,
     toml_parse = (\<lambda>_. case fst (Config_toml \<lparr>toml_reads = plain_reads, toml_parse = (\<lambda>_. None),
         toml_format = (\<lambda>_. []), json_lib = text_json, can_write = (\<lambda>_. True)\<rparr>
         (sample_config [''Mqtt''] (Some 80)) Map.empty) of Inr t \<Rightarrow> Some t | Inl _ \<Rightarrow> None),
     toml_format = (\<lambda>_. []), json_lib = text_json, can_write = (\<lambda>_. True)\<rparr>"

lemma plain_reads_own: "reads_own plain_reads"
proof -
  have "ucast (ucast n :: int64) = n" for n :: uint32
    by (rule bit_word_eqI) (simp add: bit_ucast_iff)
  then show ?thesis by (simp add: reads_own_def plain_reads_def)
qed

theorem saved_config_is_restored_witness:
  "\<exists>text c'. Config_save sample_ext (sample_config [''Mqtt''] (Some 80)) Map.empty = (Inr text, Map.empty) \<and>
    Config_load sample_ext Map.empty text (sample_config [] None) = (Inr (), c') \<and>
    isListedModule (global_config (sample_config [''Mqtt''] (Some 80))) ''Mqtt'' \<and>
    \<not> isListedModule (global_config c') ''Mqtt''"
proof -
  let ?c = "sample_config [''Mqtt''] (Some 80)" and ?fresh = "sample_config [] None"
  have ext: "toml_reads sample_ext = plain_reads" "json_lib sample_ext = text_json"
    by (simp_all add: sample_ext_def)
  have "\<exists>text. Config_save sample_ext ?c Map.empty = (Inr text, Map.empty) \<and>
    Config_load sample_ext Map.empty text ?fresh =
      (case load_all (\<lambda>k s0. restored_sub s0 (the (map_of (custom_config_registry ?c) k))) (custom_config_registry ?fresh) of
        (r, customs) \<Rightarrow> (r, ?fresh\<lparr>
          global_config := restored_global (global_config ?fresh) (global_config ?c),
          agv_description_sub_config := restored_description (agv_description_sub_config ?c),
          module_config_registry := map (\<lambda>(k, m0). (k, restored_module m0 (the (map_of (module_config_registry ?c) k))))
            (module_config_registry ?fresh),
          custom_config_registry := customs\<rparr>))"
  proof (rule saved_config_is_restored)
    show "reads_own (toml_reads sample_ext)" by (simp add: ext plain_reads_own)
    show "json_reads_own (json_lib sample_ext)" by (simp add: ext json_reads_own_def text_json_def)
    show "toml_parse sample_ext (toml_format sample_ext t) = Some t"
      if "fst (Config_toml sample_ext ?c Map.empty) = Inr t" for t
      using that by (simp add: sample_ext_def Config_toml_def)
    show "same_registry same_shape (custom_config_registry ?fresh) (custom_config_registry ?c)"
      by (simp add: same_registry_def sample_config_def plain_shape_def)
  qed (simp_all add: inline_json_def sample_config_def sample_description_def is_std_set_def GlobalConfig_new_def
      same_registry_def)
  then show ?thesis
    by (auto simp: sample_config_def settle_def restored_global_def GlobalConfig_new_def isListedModule_def)
qed

section \<open>Type safety of the key-value configurations\<close>

fun kv_typed :: "SubConfig \<Rightarrow> bool"
  and entries_typed :: "(string \<times> Container) list \<Rightarrow> bool"
  and container_typed :: "Container \<Rightarrow> bool" where
  "kv_typed (KeyValueConfig es) \<longleftrightarrow> entries_typed es"
| "kv_typed (OfModule m) \<longleftrightarrow> True"
| "entries_typed [] \<longleftrightarrow> True"
| "entries_typed ((k, c) # es) \<longleftrightarrow> container_typed c \<and> entries_typed es"
| "container_typed (Container ty req v d f) \<longleftrightarrow>
     (case v of VSubConfig s \<Rightarrow> ty = is_SubConfig \<and> kv_typed s | _ \<Rightarrow> plain_shape ty v d f)"

lemma entries_typed_iff: "entries_typed es \<longleftrightarrow> (\<forall>(k, c) \<in> set es. container_typed c)"
  by (induction es) auto

lemma entries_typed_assign:
  "entries_typed es \<Longrightarrow> container_typed c \<Longrightarrow> entries_typed (insert_or_assign k c es)"
  using set_insert_or_assign_subset [of k c es] by (fastforce simp: entries_typed_iff)

lemma get_plain_typed:
  assumes "plain_shape ty v d f"
  shows "case get_plain tv n k ty req d f of Inl e \<Rightarrow> e = VDA5050PPTOMLError | Inr v' \<Rightarrow> plain_shape ty v' d f"
  using assms
  by (auto simp: plain_shape_def doGetFromTable_def split: option.splits)

definition loads_typed :: "(exn + unit) \<times> 's \<Rightarrow> ('s \<Rightarrow> bool) \<Rightarrow> bool" where
  "loads_typed p ok \<longleftrightarrow> ok (snd p) \<and> fst p \<noteq> Inl StdBadVariantAccess"

definition no_bad_variant :: "('s, 'a) comp \<Rightarrow> bool" where
  "no_bad_variant m \<longleftrightarrow> (\<forall>s. fst (m s) \<noteq> Inl StdBadVariantAccess)"

lemma no_bad_variant_bind:
  "no_bad_variant m \<Longrightarrow> (\<And>x. no_bad_variant (f x)) \<Longrightarrow> no_bad_variant (bindM m f)"
  unfolding no_bad_variant_def by (auto simp: run_simps split: prod.splits sum.splits) (metis fst_conv)+

lemma no_bad_variant_seq: "no_bad_variant m \<Longrightarrow> no_bad_variant n \<Longrightarrow> no_bad_variant (seqM m n)"
  by (simp add: seqM_def no_bad_variant_bind)

lemma no_bad_variant_steps:
  "no_bad_variant (set_own f)" "no_bad_variant (ret x)" "no_bad_variant (modify g)"
  "no_bad_variant (liftE (applyMS v))" "no_bad_variant (liftE (logLevelFromString str))"
  "no_bad_variant (throw VDA5050PPTOMLError)"
  by (auto simp: no_bad_variant_def set_own_def run_simps applyMS_def logLevelFromString_def Let_def split: option.splits)

lemma no_bad_variant_on_fst: "no_bad_variant m \<Longrightarrow> no_bad_variant (on_fst m)"
  by (auto simp: no_bad_variant_def on_fst_def split: prod.splits) (metis fst_conv)

lemmas no_bad_variant_intros = no_bad_variant_bind no_bad_variant_seq no_bad_variant_steps no_bad_variant_on_fst

lemma no_bad_variantD: "no_bad_variant m \<Longrightarrow> fst (m s) \<noteq> Inl StdBadVariantAccess"
  by (simp add: no_bad_variant_def)

lemma logging_no_bad_variant: "no_bad_variant (LoggingSubConfig_getFrom tv n)"
  unfolding LoggingSubConfig_getFrom_def
  by (cases "read (value_string tv) n ''log_level''") (auto intro!: no_bad_variant_intros)

lemma zone_sets_no_bad_variant: "no_bad_variant (read_zone_sets tv vs zs)"
  by (induction tv vs zs rule: read_zone_sets.induct) (auto intro!: no_bad_variant_intros split: option.split)

lemma module_no_bad_variant: "fst (ModuleConfig_getFrom tv n m) \<noteq> Inl StdBadVariantAccess"
proof -
  note l = logging_no_bad_variant [of tv n]
  have "no_bad_variant (MqttSubConfig_getFrom tv n)"
    unfolding MqttSubConfig_getFrom_def ModuleSubConfig_getFrom_def by (intro no_bad_variant_intros l)
  moreover have "no_bad_variant (QueryEventHandlerSubConfig_getFrom tv n)"
    unfolding QueryEventHandlerSubConfig_getFrom_def ModuleSubConfig_getFrom_def
    by (auto intro!: no_bad_variant_intros l zone_sets_no_bad_variant split: option.split Toml.split)
  moreover have "no_bad_variant (StateSubConfig_getFrom tv n)"
    unfolding StateSubConfig_getFrom_def ModuleSubConfig_getFrom_def by (intro no_bad_variant_intros l)
  moreover have "no_bad_variant (period_getFrom k tv n)" for k
    unfolding period_getFrom_def ModuleSubConfig_getFrom_def
    by (auto intro!: no_bad_variant_intros l split: option.split)
  moreover have "no_bad_variant (NodeReachedSubConfig_getFrom tv n)"
    unfolding NodeReachedSubConfig_getFrom_def ModuleSubConfig_getFrom_def by (intro no_bad_variant_intros l)
  ultimately show ?thesis
    using l
    by (cases m) (simp_all add: no_bad_variantD within_def ModuleSubConfig_getFrom_def
        StateUpdateTimerSubConfig_getFrom_def VisualizationTimerSubConfig_getFrom_def)
qed

lemma kv_load_typed:
  shows "kv_typed s \<Longrightarrow> loads_typed (SubConfig_getFrom tv n s) kv_typed"
    and "entries_typed es \<Longrightarrow> loads_typed (entries_getFrom tv n es) entries_typed"
    and "container_typed c \<Longrightarrow> loads_typed (Container_getFrom tv n k c) container_typed"
proof (induction s and es and c arbitrary: n and n and n k rule: kv_typed_entries_typed_container_typed.induct)
  case (5 ty req v d f)
  show ?case
  proof (cases "\<exists>s. v = VSubConfig s")
    case True
    then obtain s where s: "v = VSubConfig s" "ty = is_SubConfig" "kv_typed s" using 5 by auto
    then have "loads_typed (SubConfig_getFrom tv (node_at n k) s) kv_typed" using 5 by auto
    then show ?thesis using s by (auto simp: loads_typed_def split: prod.splits)
  next
    case False
    then have shape: "plain_shape ty v d f" using 5 by (auto split: KVValue.splits)
    then have "Container_getFrom tv n k (Container ty req v d f) =
        (case get_plain tv n k ty req d f of
          Inl e \<Rightarrow> (Inl e, Container ty req v d f) | Inr v' \<Rightarrow> (Inr (), Container ty req v' d f))"
      using False by (cases ty; cases v) (auto simp: plain_shape_def)
    then show ?thesis
      using get_plain_typed [OF shape, of tv n k req] shape
      by (auto simp: loads_typed_def plain_shape_def split: sum.splits KVValue.splits)
  qed
next
  case (1 es)
  obtain r es' where run: "entries_getFrom tv n es = (r, es')" by force
  have "loads_typed (entries_getFrom tv n es) entries_typed" using 1 by simp
  then show ?case by (simp add: run loads_typed_def)
next
  case (2 m)
  obtain r m' where run: "ModuleConfig_getFrom tv n m = (r, m')" by force
  show ?case using module_no_bad_variant [of tv n m] by (simp add: run loads_typed_def)
next
  case (4 k c es)
  obtain r c' where run: "Container_getFrom tv n k c = (r, c')" by force
  obtain r' es' where run': "entries_getFrom tv n es = (r', es')" by force
  have "loads_typed (Container_getFrom tv n k c) container_typed" "loads_typed (entries_getFrom tv n es) entries_typed"
    using 4 by simp_all
  then show ?case using 4 by (cases r) (simp_all add: run run' loads_typed_def)
qed (simp add: loads_typed_def)

lemma kv_save_typed:
  shows "kv_typed s \<Longrightarrow> \<exists>t'. SubConfig_putTo s t = Inr t'"
    and "entries_typed es \<Longrightarrow> \<exists>t'. entries_putTo es t = Inr t'"
    and "container_typed c \<Longrightarrow> \<exists>t'. Container_putTo k c t = Inr t'"
proof (induction s and es and c arbitrary: t and t and t k rule: kv_typed_entries_typed_container_typed.induct)
  case (4 k c es)
  then have "container_typed c" "entries_typed es" by simp_all
  from "4.IH"(1) [OF this(1), of k t] obtain t1 where "Container_putTo k c t = Inr t1" by blast
  moreover from "4.IH"(2) [OF \<open>entries_typed es\<close>, of t1] obtain t2 where "entries_putTo es t1 = Inr t2" by blast
  ultimately show ?case by simp
next
  case (5 ty req v d f)
  show ?case
  proof (cases "\<exists>s. v = VSubConfig s")
    case True
    then obtain s where s: "v = VSubConfig s" "ty = is_SubConfig" "kv_typed s" using 5 by auto
    then obtain st where "SubConfig_putTo s [] = Inr st" using 5 by blast
    then show ?thesis using s by simp
  next
    case False
    then show ?thesis using 5 by (auto simp: plain_shape_def split: KVValue.splits)
  qed
qed auto

lemma set_entry_typed:
  assumes "entries_typed es" and "ty \<noteq> is_SubConfig"
    and "\<And>d f x. plain_shape ty x d f \<Longrightarrow> plain_shape ty v d f" and "\<forall>s. v \<noteq> VSubConfig s"
  shows "entries_typed (snd (set_entry ty v k es))"
proof (cases "map_of es k")
  case (Some c)
  then have c: "container_typed c" using assms(1) by (auto simp: entries_typed_iff dest: map_of_SomeD)
  obtain ty' req x d f where c': "c = Container ty' req x d f" by (cases c)
  have "container_typed (Container ty req v d f)" if "ty' = ty"
    using c that assms(2-4) by (cases v) (auto simp: c' split: KVValue.splits)
  then show ?thesis
    using assms(1) by (simp add: set_entry_def entry_def Some c' entries_typed_assign)
qed (simp add: set_entry_def entry_def assms(1))

text \<open>The variants in a key-value configuration always agree with their type tags. Adding entries,
  setting values and loading keep this, whatever is in the file and also when the loading fails, so
  that no operation ever throws \<^verbatim>\<open>std::bad_variant_access\<close>, and saving never fails.\<close>

theorem key_value_types_agree:
  assumes "entries_typed es"
  shows "entries_typed (addIntegerEntry k req di fi es) \<and> entries_typed (addFloatEntry k req df ff es) \<and>
    entries_typed (addStringEntry k req ds fs es) \<and> entries_typed (addBooleanEntry k req db fb es) \<and>
    (kv_typed sub \<longrightarrow> entries_typed (snd (addSubConfigEntry k (Some sub) es))) \<and>
    entries_typed (snd (setInteger k i es)) \<and> entries_typed (snd (setFloat k x es)) \<and>
    entries_typed (snd (setString k s es)) \<and> entries_typed (snd (setBoolean k b es)) \<and>
    (case entries_getFrom tv n es of (r, es') \<Rightarrow> entries_typed es' \<and> r \<noteq> Inl StdBadVariantAccess) \<and>
    (\<exists>t'. entries_putTo es t = Inr t')"
proof -
  have plain: "container_typed (Container is_int64 req (VInteger None) (DInteger di) (OfInteger fi))"
    "container_typed (Container is_double req (VFloat None) (DFloat df) (OfFloat ff))"
    "container_typed (Container is_string req (VString None) (DString ds) (OfString fs))"
    "container_typed (Container is_bool req (VBoolean None) (DBoolean db) (OfBoolean fb))"
    by (simp_all add: plain_shape_def)
  have sets: "entries_typed (snd (setInteger k i es))" "entries_typed (snd (setFloat k x es))"
    "entries_typed (snd (setString k s es))" "entries_typed (snd (setBoolean k b es))"
    unfolding setInteger_def setFloat_def setString_def setBoolean_def
    by (auto intro!: set_entry_typed assms simp: plain_shape_def)
  have load: "case entries_getFrom tv n es of (r, es') \<Rightarrow> entries_typed es' \<and> r \<noteq> Inl StdBadVariantAccess"
    using kv_load_typed(2) [OF assms, of tv n] by (cases "entries_getFrom tv n es") (simp add: loads_typed_def)
  show ?thesis
    using assms sets load kv_save_typed(2) [OF assms]
    by (simp add: addIntegerEntry_def addFloatEntry_def addStringEntry_def addBooleanEntry_def
        addSubConfigEntry_def run_simps entries_typed_assign plain del: container_typed.simps)
       (simp add: entries_typed_assign)
qed

theorem key_value_types_agree_witness:
  "entries_typed (addIntegerEntry ''port'' True (Some 8080) None [])"
  using key_value_types_agree [of "[]"] by simp

section \<open>Files\<close>

lemma description_needs_file:
  assumes "type_specification_mode a = Some \<lparr>overwrite = True, json_file = p\<rparr>" and "\<not> writable p"
  shows "AGVDescriptionSubConfig_putTo js writable a t fs = (Inl StdIosFailure, fs)"
  using assms by (simp add: AGVDescriptionSubConfig_putTo_def Let_def run_simps toJSONTable_def)

lemma no_node [simp]: "read val None k = None" "read_or val None k d = d"
  by (simp_all add: read_def read_or_def)

lemma module_from_nothing: "fst (ModuleConfig_getFrom tv None m) = Inr ()"
  by (cases m)
    (auto simp: within_def ModuleSubConfig_getFrom_def LoggingSubConfig_getFrom_def MqttSubConfig_getFrom_def
      QueryEventHandlerSubConfig_getFrom_def StateSubConfig_getFrom_def StateUpdateTimerSubConfig_getFrom_def
      VisualizationTimerSubConfig_getFrom_def period_getFrom_def NodeReachedSubConfig_getFrom_def run_simps
      applyMS_def)

lemma modules_from_nothing: "fst (load_all (\<lambda>k. ModuleConfig_getFrom tv None) ms) = Inr ()"
proof (induction ms)
  case (Cons p ms)
  obtain k m where p: "p = (k, m)" by force
  obtain m' where "ModuleConfig_getFrom tv None m = (Inr (), m')"
    using module_from_nothing [of tv m] by (cases "ModuleConfig_getFrom tv None m") simp
  then show ?case using Cons.IH by (auto simp: p split: prod.splits)
qed simp

lemma description_from_nothing:
  "AGVDescriptionSubConfig_getFrom js fs tv None a =
    (Inr (), on_description (\<lambda>d. d\<lparr>agv_id := [], manufacturer := [], serial_number := [], description := None\<rparr>) a)"
  by (simp add: AGVDescriptionSubConfig_getFrom_def get_json_def run_simps)

lemma global_from_nothing:
  "fst (GlobalConfig_getFrom tv None g) = Inr ()"
  by (simp add: GlobalConfig_getFrom_def LoggingSubConfig_getFrom_def run_simps Let_def)

text \<open>Errors with files. Loading from a file that does not exist raises no exception: like an empty
  file it erases the identity of the vehicle and resets the settings. When saving fails, since a JSON
  part may not be written to its file, the exception is none of the library, and the configuration
  file has already been emptied.\<close>

theorem configuration_file_errors:
  assumes "toml_parse x [] = Some []" and "fs path = None" and "custom_config_registry c0 = []"
    and "type_specification_mode (agv_description_sub_config c) = Some \<lparr>overwrite = True, json_file = p\<rparr>"
    and "can_write x out" and "\<not> can_write x p"
  shows "(case Config_load_file x fs path c0 of (r, c') \<Rightarrow>
      r = Inr () \<and> agv_id (agv_description (agv_description_sub_config c')) = [] \<and>
      manufacturer (agv_description (agv_description_sub_config c')) = []) \<and>
    Config_save_file x c out fs = (Inl StdIosFailure, fs(out \<mapsto> [])) \<and> \<not> is_VDA5050PPError StdIosFailure"
proof -
  obtain g where g: "GlobalConfig_getFrom (toml_reads x) None (global_config c0) = (Inr (), g)"
    using global_from_nothing [of "toml_reads x" "global_config c0"]
    by (cases "GlobalConfig_getFrom (toml_reads x) None (global_config c0)") simp
  obtain ms where ms: "load_all (\<lambda>k. ModuleConfig_getFrom (toml_reads x) None) (module_config_registry c0) = (Inr (), ms)"
    using modules_from_nothing [of "toml_reads x" "module_config_registry c0"]
    by (cases "load_all (\<lambda>k. ModuleConfig_getFrom (toml_reads x) None) (module_config_registry c0)") simp
  have "case Config_load_file x fs path c0 of (r, c') \<Rightarrow>
      r = Inr () \<and> agv_id (agv_description (agv_description_sub_config c')) = [] \<and>
      manufacturer (agv_description (agv_description_sub_config c')) = []"
    by (simp add: Config_load_file_def Config_load_def assms(1-3) g ms description_from_nothing on_description_def)
  moreover have "Config_save_file x c out fs = (Inl StdIosFailure, fs(out \<mapsto> []))"
    using assms(5,6) description_needs_file [OF assms(4), of "can_write x"]
    by (simp add: Config_save_file_def Config_save_def Config_toml_def run_simps Let_def)
  ultimately show ?thesis by (simp add: is_VDA5050PPError_def)
qed

theorem configuration_file_errors_witness:
  "Config_save_file (sample_ext\<lparr>toml_parse := (\<lambda>_. Some []), can_write := (\<lambda>p. p = ''config.toml'')\<rparr>)
     ((sample_config [] None)\<lparr>agv_description_sub_config :=
        sample_description\<lparr>type_specification_mode := Some \<lparr>overwrite = True, json_file = ''type.json''\<rparr>\<rparr>\<rparr>)
     ''config.toml'' [''config.toml'' \<mapsto> ''old''] = (Inl StdIosFailure, [''config.toml'' \<mapsto> []])"
proof -
  let ?x = "sample_ext\<lparr>toml_parse := (\<lambda>_. Some []), can_write := (\<lambda>p. p = ''config.toml'')\<rparr>"
  let ?c = "(sample_config [] None)\<lparr>agv_description_sub_config :=
        sample_description\<lparr>type_specification_mode := Some \<lparr>overwrite = True, json_file = ''type.json''\<rparr>\<rparr>\<rparr>"
  let ?d = "(sample_config [] None)\<lparr>custom_config_registry := []\<rparr>"
  show ?thesis
    using configuration_file_errors [of ?x "[''config.toml'' \<mapsto> ''old'']" "''missing.toml''" ?d ?c "''type.json''" "''config.toml''"]
    by simp
qed

end
