(* ===== verification/InstanceProps.thy ===== *)
theory InstanceProps
  imports Instance ConfigProps
begin

text \<open>
  Properties of the instance: which modules are started and stopped and in which order, which settings
  the loggers end up with, and what becomes of a module that the configuration does not know.
\<close>

section \<open>Loops\<close>

lemma forM_calls:
  assumes "\<forall>(k, m) \<in> set ms. initialize_outcome m = Inr ()"
  shows "forM ms (\<lambda>(name, m). whenM (P name) (call_module (Initialize name) (initialize_outcome m))) l =
    (Inr (), l\<lparr>module_calls := module_calls l @ map Initialize (filter P (map fst ms))\<rparr>)"
  using assms
proof (induction ms arbitrary: l)
  case (Cons p ms)
  then show ?case by (cases p) (auto simp: run_simps call_module_def)
qed (simp add: run_simps)

lemma forM_deinit:
  assumes "\<forall>(k, m) \<in> set ms. deinitialize_outcome m = Inr ()"
  shows "forM ms (\<lambda>(name, m). call_module (Deinitialize name) (deinitialize_outcome m)) l =
    (Inr (), l\<lparr>module_calls := module_calls l @ map Deinitialize (map fst ms)\<rparr>)"
  using assms
proof (induction ms arbitrary: l)
  case (Cons p ms)
  then show ?case by (cases p) (auto simp: run_simps call_module_def)
qed (simp add: run_simps)

section \<open>Loggers\<close>

text \<open>The logger that the settings of a module make.\<close>

definition logger_for :: "int \<Rightarrow> LogLevel \<Rightarrow> Sink list \<Rightarrow> LoggingSubConfig \<Rightarrow> Logger" where
  "logger_for ts global_level global_sinks lc =
     \<lparr>logger_level = convertLogLevel (case log_level lc of None \<Rightarrow> global_level | Some v \<Rightarrow> v),
      logger_sinks = (case log_file_name lc of
          None \<Rightarrow> global_sinks
        | Some f \<Rightarrow> [Stdout, BasicFile (if log_file_timestamp_suffix lc
            then replace_filename f (stem f @ ''_'' @ to_string ts @ extension f) else f)])\<rparr>"

lemma setup_logger_run:
  assumes "lookupModuleConfig cfg key = Inr m"
  shows "setup_logger ts cfg gl gs key l = (Inr (), l\<lparr>logger_registry :=
    (logger_registry l)(remapModule key \<mapsto> logger_for ts gl gs (logging_of m))\<rparr>)"
  using assms
  by (cases "log_file_name (logging_of m)")
    (auto simp: setup_logger_def run_simps Let_def recreateLogger_def recreateLogger_sinks_def set_level_def
      logger_for_def)

lemma setup_loggers_run:
  assumes "\<forall>k \<in> set keys. lookupModuleConfig cfg k = Inr (conf k)"
  shows "forM keys (setup_logger ts cfg gl gs) l = (Inr (), l\<lparr>logger_registry :=
    fold (\<lambda>k r. r(remapModule k \<mapsto> logger_for ts gl gs (logging_of (conf k)))) keys (logger_registry l)\<rparr>)"
  using assms
  by (induction keys arbitrary: l) (simp_all add: run_simps setup_logger_run)

lemma setup_loggers_fail:
  assumes "k \<in> set keys" and "lookupModuleConfig cfg k = Inl e"
  shows "\<exists>e' l'. forM keys (setup_logger ts cfg gl gs) l = (Inl e', l')"
  using assms(1)
proof (induction keys arbitrary: l)
  case (Cons j keys)
  show ?case
  proof (cases "lookupModuleConfig cfg j")
    case (Inl a)
    then show ?thesis by (simp add: run_simps setup_logger_def)
  next
    case (Inr m)
    then have "k \<in> set keys" using Cons.prems assms(2) by auto
    then show ?thesis using Cons.IH by (simp add: run_simps setup_logger_run [OF Inr])
  qed
qed simp

lemma last_setting:
  assumes "k \<in> set keys"
  shows "fold (\<lambda>k r. r(f k \<mapsto> g k)) keys r (f k) = Some (g (last (filter (\<lambda>j. f j = f k) keys)))"
  using assms
proof (induction keys arbitrary: r rule: rev_induct)
  case (snoc j keys)
  show ?case
  proof (cases "f j = f k")
    case True
    then show ?thesis by simp
  next
    case False
    then have "k \<in> set keys" using snoc.prems by auto
    then show ?thesis using snoc.IH False by simp
  qed
qed simp

section \<open>Initialization\<close>

definition global_sinks :: "int \<Rightarrow> 'j Config \<Rightarrow> Sink list" where
  "global_sinks ts cfg = logger_sinks (logger_for ts k_info [Stdout] (global_logging (global_config cfg)))"

definition global_level :: "'j Config \<Rightarrow> LogLevel" where
  "global_level cfg = (case log_level (global_logging (global_config cfg)) of None \<Rightarrow> k_info | Some v \<Rightarrow> v)"

lemma global_logger:
  "recreateLogger ts ''instance'' (log_file_name gl) (log_file_timestamp_suffix gl) l =
    (Inr (logger_sinks (logger_for ts k_info [Stdout] gl)), l\<lparr>logger_registry :=
      (logger_registry l)(''instance'' \<mapsto> \<lparr>logger_level = lvl_info, logger_sinks = logger_sinks (logger_for ts k_info [Stdout] gl)\<rparr>)\<rparr>)"
  by (cases "log_file_name gl") (auto simp: recreateLogger_def recreateLogger_sinks_def run_simps logger_for_def Let_def)

definition all_configured :: "'j Config \<Rightarrow> 'j Library \<Rightarrow> bool" where
  "all_configured cfg l \<longleftrightarrow> (\<forall>k \<in> set (registeredModules l). \<exists>m. lookupModuleConfig cfg k = Inr m)"

definition base_loggers :: "int \<Rightarrow> 'j Config \<Rightarrow> 'j Library \<Rightarrow> string \<rightharpoonup> Logger" where
  "base_loggers ts cfg l =
     (logger_registry l)
       (''instance'' \<mapsto> \<lparr>logger_level = convertLogLevel (global_level cfg), logger_sinks = global_sinks ts cfg\<rparr>,
        ''events'' \<mapsto> \<lparr>logger_level = convertLogLevel (global_level cfg), logger_sinks = global_sinks ts cfg\<rparr>)"

definition module_settings :: "'j Config \<Rightarrow> string \<Rightarrow> LoggingSubConfig" where
  "module_settings cfg k = logging_of (projr (lookupModuleConfig cfg k))"

lemma initializeComponents_run:
  assumes "all_configured cfg l" and "\<forall>(k, m) \<in> set (modules l). initialize_outcome m = Inr ()"
  shows "initializeComponents ts cfg l = (Inr (), l\<lparr>
    logger_registry := fold (\<lambda>k r. r(remapModule k \<mapsto>
        logger_for ts (global_level cfg) (global_sinks ts cfg) (module_settings cfg k)))
      (registeredModules l) (base_loggers ts cfg l),
    module_calls := module_calls l @ map Initialize (filter (isListedModule (global_config cfg)) (registeredModules l))\<rparr>)"
proof -
  have conf: "\<forall>k \<in> set (map fst (modules l)). lookupModuleConfig cfg k = Inr (projr (lookupModuleConfig cfg k))"
    using assms(1) by (auto simp: all_configured_def registeredModules_def)
  show ?thesis
    by (simp add: initializeComponents_def Let_def run_simps global_logger recreateLogger_sinks_def set_level_def
        registeredModules_def setup_loggers_run [OF conf] forM_calls [OF assms(2)]
        base_loggers_def global_sinks_def global_level_def [symmetric] module_settings_def)
qed

lemma failing_step:
  assumes "\<exists>e t. r = (Inl e, t)"
  shows "\<exists>e t. (case r of (Inl e, t) \<Rightarrow> (Inl e, t) | (Inr x, t) \<Rightarrow> f x t) = (Inl e, t)"
  using assms by auto

lemma initializeComponents_fail:
  assumes "k \<in> set (registeredModules l)" and "lookupModuleConfig cfg k = Inl e"
  shows "\<exists>e' l'. initializeComponents ts cfg l = (Inl e', l')"
  apply (simp add: initializeComponents_def Let_def run_simps global_logger recreateLogger_sinks_def set_level_def
      registeredModules_def)
  apply (rule failing_step, rule setup_loggers_fail [OF _ assms(2)])
  using assms(1) by (simp add: registeredModules_def)

section \<open>Registration\<close>

definition register_all :: "(string \<times> ModuleObj) list \<Rightarrow> ('j, unit) lib" where
  "register_all ms = forM ms (\<lambda>(k, m). registerModule k (Some m))"

text \<open>Without an instance, registering only fills the map.\<close>

lemma registerModule_idle:
  assumes "instance_ptr l = None" and "map_of (modules l) k = None"
  shows "registerModule k (Some m) l = (Inr (), l\<lparr>modules := insert_or_assign k m (modules l)\<rparr>)"
  using assms by (simp add: registerModule_def run_simps try_emplace_def)

lemma register_all_run:
  assumes "instance_ptr l = None" and "wf_map (modules l)" and "distinct (map fst ms)"
    and "\<And>k. k \<in> fst ` set ms \<Longrightarrow> map_of (modules l) k = None"
  shows "\<exists>mods. register_all ms l = (Inr (), l\<lparr>modules := mods\<rparr>) \<and> wf_map mods \<and>
    set mods = set (modules l) \<union> set ms"
  using assms
proof (induction ms arbitrary: l)
  case (Cons p ms)
  obtain k m where p: "p = (k, m)" by force
  let ?l = "l\<lparr>modules := insert_or_assign k m (modules l)\<rparr>"
  have fresh: "map_of (modules l) k = None" using Cons.prems(4) by (simp add: p)
  have entries: "set (insert_or_assign k m (modules l)) = insert (k, m) (set (modules l))"
  proof (rule set_eqI)
    fix q :: "string \<times> ModuleObj"
    have wf: "wf_map (insert_or_assign k m (modules l))" by (rule wf_insert_or_assign [OF Cons.prems(2)])
    have "q \<in> set (insert_or_assign k m (modules l)) \<longleftrightarrow> map_of (insert_or_assign k m (modules l)) (fst q) = Some (snd q)"
      using map_of_eq_Some_iff_wf [OF wf, of "fst q" "snd q"] by simp
    also have "\<dots> \<longleftrightarrow> q = (k, m) \<or> map_of (modules l) (fst q) = Some (snd q)"
      using fresh by (cases q) (auto simp: map_of_assign)
    also have "\<dots> \<longleftrightarrow> q \<in> insert (k, m) (set (modules l))"
      using map_of_eq_Some_iff_wf [OF Cons.prems(2), of "fst q" "snd q"] by simp
    finally show "q \<in> set (insert_or_assign k m (modules l)) \<longleftrightarrow> q \<in> insert (k, m) (set (modules l))" .
  qed
  have "map_of (modules ?l) j = None" if "j \<in> fst ` set ms" for j
  proof -
    have "j \<noteq> k" using that Cons.prems(3) by (auto simp: p)
    then show ?thesis using Cons.prems(4) [of j] that by (simp add: map_of_assign p)
  qed
  then obtain mods where "register_all ms ?l = (Inr (), ?l\<lparr>modules := mods\<rparr>)" "wf_map mods"
    "set mods = set (modules ?l) \<union> set ms"
    using Cons.IH [of ?l] Cons.prems wf_insert_or_assign [OF Cons.prems(2), of k m] by auto
  then show ?case
    using Cons.prems(1) fresh
    by (auto simp: register_all_def p run_simps registerModule_idle entries)
next
  case Nil
  then show ?case by (intro exI [of _ "modules l"]) (simp add: register_all_def run_simps)
qed

lemma registered_sorted:
  assumes "wf_map mods" and "set mods = set ms"
    and "distinct (map fst ms)"
  shows "map fst mods = sort (map fst ms)"
proof (rule sorted_distinct_set_unique)
  show "sorted (map fst mods)" "distinct (map fst mods)"
    using assms(1) wf_map_distinct [OF assms(1)] by (auto simp: wf_map_def strict_sorted_iff)
  show "set (map fst mods) = set (sort (map fst ms))" using assms(2) by simp
qed (use assms(3) in simp_all)

lemma generate_all_run:
  assumes "\<forall>k \<in> set keys. map_of (modules l) k \<noteq> None" and "distinct keys"
    and "\<forall>k \<in> set keys. map_of (module_config_registry c) k = None"
  shows "\<exists>reg. generate_all keys c l = (Inr (c\<lparr>module_config_registry := reg\<rparr>), l) \<and>
    (\<forall>k. map_of reg k = (if k \<in> set keys then map_option generateSubConfig (map_of (modules l) k)
       else map_of (module_config_registry c) k))"
  using assms
proof (induction keys arbitrary: c)
  case (Cons k keys)
  from Cons.prems obtain m where m: "map_of (modules l) k = Some m" by auto
  let ?c = "c\<lparr>module_config_registry := try_emplace k (generateSubConfig m) (module_config_registry c)\<rparr>"
  have lookup: "map_of (try_emplace k (generateSubConfig m) (module_config_registry c)) j =
      (if j = k then Some (generateSubConfig m) else map_of (module_config_registry c) j)" for j
    using Cons.prems(3) by (simp add: try_emplace_def map_of_assign)
  have "\<forall>j \<in> set keys. map_of (module_config_registry ?c) j = None"
    using Cons.prems by (simp add: lookup) blast
  then obtain reg where reg: "generate_all keys ?c l = (Inr (?c\<lparr>module_config_registry := reg\<rparr>), l)"
    "\<forall>j. map_of reg j = (if j \<in> set keys then map_option generateSubConfig (map_of (modules l) j)
       else map_of (module_config_registry ?c) j)"
    using Cons.IH [of ?c] Cons.prems by auto
  have "generate_all (k # keys) c l = generate_all keys ?c l"
    using Cons.prems(3) by (simp add: run_simps generateConfig_def lookupModule_def m registerModuleConfig_def)
  then show ?case using reg Cons.prems(2) m by (intro exI [of _ reg]) (auto simp: lookup simp del: generate_all.simps)
next
  case Nil
  then show ?case by (intro exI [of _ "module_config_registry c"]) (simp add: run_simps)
qed

lemma Config_new_run:
  assumes "wf_map (modules l)"
  shows "\<exists>cfg. Config_new agv l = (Inr cfg, l) \<and> (\<forall>k. map_of (module_config_registry cfg) k =
    map_option generateSubConfig (map_of (modules l) k))"
proof -
  let ?c = "\<lparr>agv_description_sub_config = agv, global_config = GlobalConfig_new,
        module_config_registry = [], custom_config_registry = []\<rparr>"
  have "\<forall>k \<in> set (registeredModules l). map_of (modules l) k \<noteq> None"
    by (auto simp: registeredModules_def map_of_eq_None_iff)
  then obtain reg where "generate_all (registeredModules l) ?c l = (Inr (?c\<lparr>module_config_registry := reg\<rparr>), l)"
    "\<forall>k. map_of reg k = (if k \<in> set (registeredModules l) then map_option generateSubConfig (map_of (modules l) k)
       else None)"
    using generate_all_run [of "registeredModules l" l ?c] wf_map_distinct [OF assms]
    by (auto simp: registeredModules_def)
  then show ?thesis
    by (intro exI [of _ "?c\<lparr>module_config_registry := reg\<rparr>"])
      (auto simp: Config_new_def run_simps registeredModules_def map_of_eq_None_iff)
qed

section \<open>Running a handle\<close>

lemma Handle_initialize_run:
  assumes "all_configured cfg l" and "\<forall>(k, m) \<in> set (modules l). initialize_outcome m = Inr ()"
  shows "\<exists>l'. Handle_initialize ts cfg l = (Inr (), l') \<and> modules l' = modules l \<and> instance_ptr l' \<noteq> None \<and>
    logger_registry l' = fold (\<lambda>k r. r(remapModule k \<mapsto>
        logger_for ts (global_level cfg) (global_sinks ts cfg) (module_settings cfg k)))
      (registeredModules l) (base_loggers ts cfg l) \<and>
    module_calls l' = module_calls l @ map Initialize (filter (isListedModule (global_config cfg)) (registeredModules l)) \<and>
    dispatched l' = dispatched l @ [Connect, StateRequest urgency_immediate]"
proof -
  let ?l = "l\<lparr>instance_ptr := Some (Instance_new cfg)\<rparr>"
  have "all_configured cfg ?l" "\<forall>(k, m) \<in> set (modules ?l). initialize_outcome m = Inr ()"
    using assms by (simp_all add: all_configured_def registeredModules_def)
  from initializeComponents_run [OF this, of ts] show ?thesis
    by (simp add: Handle_initialize_def Instance_init_def Instance_start_def dispatch_to_def run_simps
        registeredModules_def base_loggers_def)
qed

lemma Handle_shutdown_run:
  assumes "instance_ptr l \<noteq> None" and "\<forall>(k, m) \<in> set (modules l). deinitialize_outcome m = Inr ()"
  shows "Handle_shutdown l = (Inr (), l\<lparr>dispatched := dispatched l @ [Disconnect],
    module_calls := module_calls l @ map Deinitialize (registeredModules l), instance_ptr := None\<rparr>)"
  using assms
  by (simp add: Handle_shutdown_def Instance_stop_def Instance_reset_def deInitializeComponents_def dispatch_to_def
      run_simps forM_deinit registeredModules_def)

lemma registered_configured:
  assumes "\<forall>k. map_of (module_config_registry cfg) k = map_option generateSubConfig (map_of (modules l) k)"
  shows "all_configured (cfg\<lparr>global_config := g\<rparr>) l"
  unfolding all_configured_def
proof
  fix k
  assume "k \<in> set (registeredModules l)"
  then have "map_of (modules l) k \<noteq> None" by (auto simp: registeredModules_def map_of_eq_None_iff)
  then show "\<exists>m. lookupModuleConfig (cfg\<lparr>global_config := g\<rparr>) k = Inr m"
    using assms by (auto simp: lookupModuleConfig_def)
qed

text \<open>C30: The modules follow the configuration. Whatever modules with different keys are registered, if their own functions
  succeed then a configuration can be made for them and, with any black and white list, a handle that is
  initialized with it initializes exactly the listed modules, in the order of their keys, then asks for the
  connection and for an immediate state; shutting down deinitializes every registered module, the ones that
  have never been initialized included, and leaves no instance.\<close>

lemma modules_follow_configuration:
  assumes "distinct (map fst ms)"
    and "\<forall>(k, m) \<in> set ms. initialize_outcome m = Inr () \<and> deinitialize_outcome m = Inr ()"
  shows "\<exists>l cfg. register_all ms Library_new = (Inr (), l) \<and> Config_new agv l = (Inr cfg, l) \<and>
    (\<forall>g ts. \<exists>l'. Handle_initialize ts (cfg\<lparr>global_config := g\<rparr>) l = (Inr (), l') \<and>
       module_calls l' = map Initialize (filter (isListedModule g) (sort (map fst ms))) \<and>
       dispatched l' = [Connect, StateRequest urgency_immediate] \<and>
       (\<exists>l''. Handle_shutdown l' = (Inr (), l'') \<and> instance_ptr l'' = None \<and>
          module_calls l'' = module_calls l' @ map Deinitialize (sort (map fst ms)) \<and>
          dispatched l'' = dispatched l' @ [Disconnect]))"
proof -
  obtain mods where mods: "register_all ms (Library_new :: 'a Library) = (Inr (), Library_new\<lparr>modules := mods\<rparr>)"
      "wf_map mods" "set mods = set ms"
    using register_all_run [of "Library_new :: 'a Library" ms] assms(1) by (auto simp: Library_new_def wf_map_def)
  let ?l = "Library_new\<lparr>modules := mods\<rparr> :: 'a Library"
  have keys: "registeredModules ?l = sort (map fst ms)"
    using registered_sorted [OF mods(2,3) assms(1)] by (simp add: registeredModules_def)
  obtain cfg where cfg: "Config_new agv ?l = (Inr cfg, ?l)"
      "\<forall>k. map_of (module_config_registry cfg) k = map_option generateSubConfig (map_of (modules ?l) k)"
    using Config_new_run [of ?l agv] mods(2) by auto
  have "\<exists>l'. Handle_initialize ts (cfg\<lparr>global_config := g\<rparr>) ?l = (Inr (), l') \<and>
       module_calls l' = map Initialize (filter (isListedModule g) (sort (map fst ms))) \<and>
       dispatched l' = [Connect, StateRequest urgency_immediate] \<and>
       (\<exists>l''. Handle_shutdown l' = (Inr (), l'') \<and> instance_ptr l'' = None \<and>
          module_calls l'' = module_calls l' @ map Deinitialize (sort (map fst ms)) \<and>
          dispatched l'' = dispatched l' @ [Disconnect])" for g ts
  proof -
    have ok: "\<forall>(k, m) \<in> set (modules ?l). initialize_outcome m = Inr ()"
        "\<forall>(k, m) \<in> set mods. deinitialize_outcome m = Inr ()"
      using assms(2) mods(3) by auto
    obtain l' where l': "Handle_initialize ts (cfg\<lparr>global_config := g\<rparr>) ?l = (Inr (), l')" "modules l' = mods"
        "instance_ptr l' \<noteq> None" "module_calls l' = map Initialize (filter (isListedModule g) (registeredModules ?l))"
        "dispatched l' = [Connect, StateRequest urgency_immediate]"
      using Handle_initialize_run [OF registered_configured [OF cfg(2), of g] ok(1), of ts]
      by (auto simp: Library_new_def)
    have "registeredModules l' = sort (map fst ms)" using l'(2) keys by (simp add: registeredModules_def)
    then show ?thesis
      using l' keys Handle_shutdown_run [OF l'(3)] ok(2) by auto
  qed
  then show ?thesis using mods(1) cfg(1) by blast
qed

definition sample_module :: ModuleObj where
  "sample_module = \<lparr>generateSubConfig = ModuleSubConfig LoggingSubConfig_new, initialize_outcome = Inr (),
     deinitialize_outcome = Inr ()\<rparr>"

theorem modules_follow_configuration_witness:
  "\<exists>l cfg. register_all [(''Mqtt'', sample_module), (''Factsheet'', sample_module)] Library_new = (Inr (), l) \<and>
    Config_new sample_description l = (Inr cfg, l) \<and>
    (\<forall>g ts. \<exists>l'. Handle_initialize ts (cfg\<lparr>global_config := g\<rparr>) l = (Inr (), l') \<and>
       module_calls l' = map Initialize (filter (isListedModule g) [''Factsheet'', ''Mqtt'']))"
proof -
  have "sort [''Mqtt'', ''Factsheet''] = [''Factsheet'', ''Mqtt'']" by code_simp
  then show ?thesis
    using modules_follow_configuration
      [of "[(''Mqtt'', sample_module), (''Factsheet'', sample_module)]" sample_description]
    by (fastforce simp: sample_module_def)
qed

text \<open>A module that is registered between the construction of the configuration and the initialization is
  not in the configuration, and the program ends: setting up its logger looks the module up, which throws inside
  of a function that is declared noexcept.\<close>

lemma late_module_terminates:
  assumes "wf_map (modules l)" and "instance_ptr l = None" and "map_of (modules l) k = None"
  shows "\<exists>cfg l'. Config_new agv l = (Inr cfg, l) \<and> registerModule k (Some m) l = (Inr (), l') \<and>
    (\<forall>g ts. fst (Handle_initialize ts (cfg\<lparr>global_config := g\<rparr>) l') = Inl UndefinedBehaviour)"
proof -
  obtain cfg where cfg: "Config_new agv l = (Inr cfg, l)"
      "\<forall>k. map_of (module_config_registry cfg) k = map_option generateSubConfig (map_of (modules l) k)"
    using Config_new_run [OF assms(1), of agv] by auto
  let ?l = "l\<lparr>modules := insert_or_assign k m (modules l)\<rparr>"
  have "fst (Handle_initialize ts (cfg\<lparr>global_config := g\<rparr>) ?l) = Inl UndefinedBehaviour" for g ts
  proof -
    have "map_of (module_config_registry cfg) k = None" using cfg(2) assms(3) by simp
    then have lookup: "lookupModuleConfig (cfg\<lparr>global_config := g\<rparr>) k = Inl VDA5050PPInvalidArgument"
      by (simp add: lookupModuleConfig_def)
    have "map_of (insert_or_assign k m (modules l)) k = Some m" by (simp add: map_of_assign)
    then have key: "k \<in> set (map fst (insert_or_assign k m (modules l)))"
      by (metis map_of_eq_None_iff list.set_map option.discI)
    let ?i = "?l\<lparr>instance_ptr := Some (Instance_new (cfg\<lparr>global_config := g\<rparr>))\<rparr>"
    have "k \<in> set (registeredModules ?i)" using key by (simp add: registeredModules_def)
    then have "\<exists>e l'. initializeComponents ts (cfg\<lparr>global_config := g\<rparr>) ?i = (Inl e, l')"
      using lookup by (rule initializeComponents_fail)
    then show ?thesis by (auto simp: Handle_initialize_def Instance_init_def run_simps)
  qed
  then show ?thesis using cfg(1) registerModule_idle [OF assms(2,3), of m] by blast
qed

theorem late_module_terminates_witness:
  "\<exists>cfg l'. Config_new sample_description Library_new = (Inr cfg, Library_new) \<and>
    registerModule ''Late'' (Some sample_module) Library_new = (Inr (), l') \<and>
    (\<forall>g ts. fst (Handle_initialize ts (cfg\<lparr>global_config := g\<rparr>) l') = Inl UndefinedBehaviour)"
  by (rule late_module_terminates) (simp_all add: Library_new_def wf_map_def)

text \<open>Modules share loggers, and the last one wins. After the initialization the logger that the module of a key
  logs to has the level and the sinks that the settings of the last module with the same logger
  make, in the order of the keys; the settings of the others are lost.\<close>

lemma shared_logger_last_wins:
  assumes "all_configured cfg l" and "\<forall>(k, m) \<in> set (modules l). initialize_outcome m = Inr ()"
    and "k \<in> set (registeredModules l)"
  shows "\<exists>l'. Handle_initialize ts cfg l = (Inr (), l') \<and>
    logger_registry l' (remapModule k) = Some (logger_for ts (global_level cfg) (global_sinks ts cfg)
      (module_settings cfg (last (filter (\<lambda>j. remapModule j = remapModule k) (registeredModules l)))))"
  using Handle_initialize_run [OF assms(1,2), of ts] last_setting [OF assms(3), of remapModule] by auto

definition sample_leveled :: "LogLevel \<Rightarrow> ModuleObj" where
  "sample_leveled lv = sample_module\<lparr>generateSubConfig := ModuleSubConfig (LoggingSubConfig_new\<lparr>log_level := Some lv\<rparr>)\<rparr>"

definition sample_two :: "(string \<times> ModuleObj) list" where
  "sample_two = [(''ActionEventHandler'', sample_leveled k_debug), (''NavigationEventHandler'', sample_leveled k_error)]"

definition sample_two_config :: "'j AGVDescriptionSubConfig \<Rightarrow> 'j Config" where
  "sample_two_config agv = \<lparr>agv_description_sub_config = agv, global_config = GlobalConfig_new,
     module_config_registry = map (\<lambda>(k, m). (k, generateSubConfig m)) sample_two, custom_config_registry = []\<rparr>"

theorem shared_logger_last_wins_witness:
  "\<exists>l'. Handle_initialize 0 (sample_two_config sample_description) (Library_new\<lparr>modules := sample_two\<rparr>) = (Inr (), l') \<and>
    map_option logger_level (logger_registry l' ''agv_handler'') = Some lvl_err"
proof -
  have ok: "all_configured (sample_two_config sample_description) (Library_new\<lparr>modules := sample_two\<rparr>)"
    "\<forall>(k, m) \<in> set (modules (Library_new\<lparr>modules := sample_two\<rparr> :: string Library)). initialize_outcome m = Inr ()"
    "''ActionEventHandler'' \<in> set (registeredModules (Library_new\<lparr>modules := sample_two\<rparr> :: string Library))"
    by (simp_all add: all_configured_def lookupModuleConfig_def sample_two_config_def sample_two_def registeredModules_def
        sample_leveled_def sample_module_def Library_new_def)
  have name: "remapModule ''ActionEventHandler'' = ''agv_handler''" "remapModule ''NavigationEventHandler'' = ''agv_handler''"
    by (simp_all add: remapModule_def k_logger_by_module_def)
  show ?thesis
    using shared_logger_last_wins [OF ok, of 0]
    by (auto simp: name registeredModules_def sample_two_def Library_new_def module_settings_def lookupModuleConfig_def
        sample_two_config_def sample_leveled_def sample_module_def logger_for_def)
qed

end
