(* ===== verification/EventRouting.thy ===== *)
theory EventRouting
  imports EventManager
begin

text \<open>
  How the hand-written managers of \<^verbatim>\<open>core/*_manager.cpp\<close> route the events: the id under which every overload
  of \<^verbatim>\<open>dispatch\<close> sends its event and under which every overload of \<^verbatim>\<open>subscribe\<close> registers its callback, and
  the handle through which a user dispatches and subscribes (\<^verbatim>\<open>events/event_handle.cpp\<close>).

  The classes of events are structures without virtual functions. A subscriber gets the event
  through \<^verbatim>\<open>eventpp::argumentAdapter\<close>, which casts it to the class of the callback without a test: it must only be
  called with an event of that class.
\<close>

section \<open>Ids and classes\<close>

text \<open>An event is its class and its members.\<close>

type_synonym ('c, 'p) event = "'c \<times> 'p"

type_synonym ('e, 'w) callback = "'e \<Rightarrow> ('w, unit) comp"

definition argumentAdapter :: "'c \<Rightarrow> (('c, 'p) event, 'w) callback \<Rightarrow> (('c, 'p) event, 'w) callback" where
  "argumentAdapter c callback e = (if fst e = c then callback e else throw UndefinedBehaviour)"

datatype ActionEventType =
    k_action_list | k_action_validate | k_action_prepare | k_action_start | k_action_pause
  | k_action_resume | k_action_cancel | k_action_forget

datatype ActionEventClass =
    ActionList_event | ActionValidate_event | ActionPrepare_event | ActionStart_event
  | ActionPause_event | ActionResume_event | ActionCancel_event | ActionForget_event

datatype ActionStatusType =
    k_action_status_waiting | k_action_status_initializing | k_action_status_running
  | k_action_status_paused | k_action_status_finished | k_action_status_failed

datatype ActionStatusClass =
    ActionStatusWaiting_event | ActionStatusInitializing_event | ActionStatusRunning_event
  | ActionStatusPaused_event | ActionStatusFinished_event | ActionStatusFailed_event

datatype NavigationEventType =
    k_horizon_update | k_base_increased | k_next_node | k_upcoming_segment | k_control

datatype NavigationEventClass =
    NavigationHorizonUpdate_event | NavigationBaseIncreased_event | NavigationNextNode_event
  | NavigationUpcomingSegment_event | NavigationControl_event

datatype NavigationStatusType =
    k_position | k_velocity | k_node_reached | k_distance_since_last_node | k_driving
  | k_navigation_control_status

datatype NavigationStatusClass =
    NavigationStatusPosition_event | NavigationStatusVelocity_event | NavigationStatusDriving_event
  | NavigationStatusNodeReached_event | NavigationStatusDistanceSinceLastNode_event
  | NavigationStatusControl_event

datatype QueryEventType = k_pauseable | k_resumable | k_accept_zone_set

datatype QueryEventClass = QueryPauseable_event | QueryResumable_event | QueryAcceptZoneSet_event

datatype StatusEventType =
    k_none | k_load_add | k_load_remove | k_loads_get | k_loads_alter | k_operating_mode_set
  | k_operating_mode_get | k_operating_mode_alter | k_battery_state_set | k_battery_state_get
  | k_battery_state_alter | k_request_new_base | k_error_add | k_errors_alter | k_info_add | k_infos_alter

datatype StatusEventClass =
    LoadAdd_event | LoadRemove_event | LoadsGet_event | LoadsAlter_event | OperatingModeSet_event
  | OperatingModeGet_event | OperatingModeAlter_event | BatteryStateSet_event | BatteryStateGet_event
  | BatteryStateAlter_event | RequestNewBase_event | ErrorAdd_event | ErrorsAlter_event | InfoAdd_event
  | InfosAlter_event

section \<open>The id of a dispatched event\<close>

fun ActionEvent_dispatch_id :: "ActionEventClass \<Rightarrow> ActionEventType" where
  "ActionEvent_dispatch_id ActionList_event = k_action_list"
| "ActionEvent_dispatch_id ActionValidate_event = k_action_validate"
| "ActionEvent_dispatch_id ActionPrepare_event = k_action_prepare"
| "ActionEvent_dispatch_id ActionStart_event = k_action_start"
| "ActionEvent_dispatch_id ActionPause_event = k_action_pause"
| "ActionEvent_dispatch_id ActionResume_event = k_action_resume"
| "ActionEvent_dispatch_id ActionCancel_event = k_action_cancel"
| "ActionEvent_dispatch_id ActionForget_event = k_action_forget"

fun ActionStatus_dispatch_id :: "ActionStatusClass \<Rightarrow> ActionStatusType" where
  "ActionStatus_dispatch_id ActionStatusWaiting_event = k_action_status_waiting"
| "ActionStatus_dispatch_id ActionStatusInitializing_event = k_action_status_initializing"
| "ActionStatus_dispatch_id ActionStatusRunning_event = k_action_status_running"
| "ActionStatus_dispatch_id ActionStatusPaused_event = k_action_status_paused"
| "ActionStatus_dispatch_id ActionStatusFinished_event = k_action_status_finished"
| "ActionStatus_dispatch_id ActionStatusFailed_event = k_action_status_failed"

fun NavigationEvent_dispatch_id :: "NavigationEventClass \<Rightarrow> NavigationEventType" where
  "NavigationEvent_dispatch_id NavigationHorizonUpdate_event = k_horizon_update"
| "NavigationEvent_dispatch_id NavigationBaseIncreased_event = k_base_increased"
| "NavigationEvent_dispatch_id NavigationNextNode_event = k_next_node"
| "NavigationEvent_dispatch_id NavigationUpcomingSegment_event = k_upcoming_segment"
| "NavigationEvent_dispatch_id NavigationControl_event = k_control"

fun NavigationStatus_dispatch_id :: "NavigationStatusClass \<Rightarrow> NavigationStatusType" where
  "NavigationStatus_dispatch_id NavigationStatusPosition_event = k_position"
| "NavigationStatus_dispatch_id NavigationStatusVelocity_event = k_velocity"
| "NavigationStatus_dispatch_id NavigationStatusNodeReached_event = k_node_reached"
| "NavigationStatus_dispatch_id NavigationStatusDistanceSinceLastNode_event = k_distance_since_last_node"
| "NavigationStatus_dispatch_id NavigationStatusDriving_event = k_driving"
| "NavigationStatus_dispatch_id NavigationStatusControl_event = k_navigation_control_status"

fun QueryEvent_dispatch_id :: "QueryEventClass \<Rightarrow> QueryEventType" where
  "QueryEvent_dispatch_id QueryPauseable_event = k_pauseable"
| "QueryEvent_dispatch_id QueryResumable_event = k_resumable"
| "QueryEvent_dispatch_id QueryAcceptZoneSet_event = k_accept_zone_set"

text \<open>A status event carries its id, which its constructor sets.\<close>

fun StatusEvent_type :: "StatusEventClass \<Rightarrow> StatusEventType" where
  "StatusEvent_type LoadAdd_event = k_load_add"
| "StatusEvent_type LoadRemove_event = k_load_remove"
| "StatusEvent_type LoadsGet_event = k_loads_get"
| "StatusEvent_type LoadsAlter_event = k_loads_alter"
| "StatusEvent_type OperatingModeSet_event = k_operating_mode_set"
| "StatusEvent_type OperatingModeGet_event = k_operating_mode_get"
| "StatusEvent_type OperatingModeAlter_event = k_operating_mode_alter"
| "StatusEvent_type BatteryStateSet_event = k_battery_state_set"
| "StatusEvent_type BatteryStateGet_event = k_battery_state_get"
| "StatusEvent_type BatteryStateAlter_event = k_battery_state_alter"
| "StatusEvent_type RequestNewBase_event = k_request_new_base"
| "StatusEvent_type ErrorAdd_event = k_error_add"
| "StatusEvent_type ErrorsAlter_event = k_errors_alter"
| "StatusEvent_type InfoAdd_event = k_info_add"
| "StatusEvent_type InfosAlter_event = k_infos_alter"

section \<open>The id of a subscription\<close>

fun ActionEvent_subscribe_id :: "ActionEventClass \<Rightarrow> ActionEventType" where
  "ActionEvent_subscribe_id ActionList_event = k_action_list"
| "ActionEvent_subscribe_id ActionValidate_event = k_action_validate"
| "ActionEvent_subscribe_id ActionPrepare_event = k_action_prepare"
| "ActionEvent_subscribe_id ActionStart_event = k_action_start"
| "ActionEvent_subscribe_id ActionPause_event = k_action_pause"
| "ActionEvent_subscribe_id ActionResume_event = k_action_resume"
| "ActionEvent_subscribe_id ActionCancel_event = k_action_cancel"
| "ActionEvent_subscribe_id ActionForget_event = k_action_forget"

fun ActionStatus_subscribe_id :: "ActionStatusClass \<Rightarrow> ActionStatusType" where
  "ActionStatus_subscribe_id ActionStatusWaiting_event = k_action_status_waiting"
| "ActionStatus_subscribe_id ActionStatusInitializing_event = k_action_status_initializing"
| "ActionStatus_subscribe_id ActionStatusRunning_event = k_action_status_running"
| "ActionStatus_subscribe_id ActionStatusPaused_event = k_action_status_paused"
| "ActionStatus_subscribe_id ActionStatusFinished_event = k_action_status_finished"
| "ActionStatus_subscribe_id ActionStatusFailed_event = k_action_status_failed"

fun NavigationEvent_subscribe_id :: "NavigationEventClass \<Rightarrow> NavigationEventType" where
  "NavigationEvent_subscribe_id NavigationHorizonUpdate_event = k_horizon_update"
| "NavigationEvent_subscribe_id NavigationBaseIncreased_event = k_base_increased"
| "NavigationEvent_subscribe_id NavigationNextNode_event = k_next_node"
| "NavigationEvent_subscribe_id NavigationUpcomingSegment_event = k_upcoming_segment"
| "NavigationEvent_subscribe_id NavigationControl_event = k_control"

fun NavigationStatus_subscribe_id :: "NavigationStatusClass \<Rightarrow> NavigationStatusType" where
  "NavigationStatus_subscribe_id NavigationStatusPosition_event = k_position"
| "NavigationStatus_subscribe_id NavigationStatusVelocity_event = k_velocity"
| "NavigationStatus_subscribe_id NavigationStatusNodeReached_event = k_node_reached"
| "NavigationStatus_subscribe_id NavigationStatusDistanceSinceLastNode_event = k_distance_since_last_node"
| "NavigationStatus_subscribe_id NavigationStatusDriving_event = k_driving"
| "NavigationStatus_subscribe_id NavigationStatusControl_event = k_navigation_control_status"

fun QueryEvent_subscribe_id :: "QueryEventClass \<Rightarrow> QueryEventType" where
  "QueryEvent_subscribe_id QueryPauseable_event = k_pauseable"
| "QueryEvent_subscribe_id QueryResumable_event = k_resumable"
| "QueryEvent_subscribe_id QueryAcceptZoneSet_event = k_accept_zone_set"

fun StatusEvent_subscribe_id :: "StatusEventClass \<Rightarrow> StatusEventType" where
  "StatusEvent_subscribe_id LoadAdd_event = k_load_add"
| "StatusEvent_subscribe_id LoadRemove_event = k_load_remove"
| "StatusEvent_subscribe_id LoadsGet_event = k_loads_get"
| "StatusEvent_subscribe_id LoadsAlter_event = k_loads_alter"
| "StatusEvent_subscribe_id OperatingModeSet_event = k_operating_mode_set"
| "StatusEvent_subscribe_id OperatingModeGet_event = k_operating_mode_get"
| "StatusEvent_subscribe_id OperatingModeAlter_event = k_operating_mode_alter"
| "StatusEvent_subscribe_id BatteryStateSet_event = k_battery_state_set"
| "StatusEvent_subscribe_id BatteryStateGet_event = k_battery_state_get"
| "StatusEvent_subscribe_id BatteryStateAlter_event = k_battery_state_alter"
| "StatusEvent_subscribe_id RequestNewBase_event = k_request_new_base"
| "StatusEvent_subscribe_id ErrorAdd_event = k_error_add"
| "StatusEvent_subscribe_id ErrorsAlter_event = k_errors_alter"
| "StatusEvent_subscribe_id InfoAdd_event = k_info_add"
| "StatusEvent_subscribe_id InfosAlter_event = k_infos_alter"

section \<open>Dispatching\<close>

definition ActionEvent_dispatch ::
  "(ActionEventClass, 'p) event \<Rightarrow> bool \<Rightarrow> ((ActionEventType, (ActionEventClass, 'p) event, 'w) managed, unit) comp" where
  "ActionEvent_dispatch e synchronous = dispatch synchronous (ActionEvent_dispatch_id (fst e)) e"

definition ActionStatus_dispatch ::
  "(ActionStatusClass, 'p) event \<Rightarrow> ((ActionStatusType, (ActionStatusClass, 'p) event, 'w) managed, unit) comp" where
  "ActionStatus_dispatch e = dispatch False (ActionStatus_dispatch_id (fst e)) e"

definition NavigationEvent_dispatch ::
  "(NavigationEventClass, 'p) event \<Rightarrow> ((NavigationEventType, (NavigationEventClass, 'p) event, 'w) managed, unit) comp" where
  "NavigationEvent_dispatch e = dispatch False (NavigationEvent_dispatch_id (fst e)) e"

definition NavigationStatus_dispatch ::
  "(NavigationStatusClass, 'p) event \<Rightarrow>
   ((NavigationStatusType, (NavigationStatusClass, 'p) event, 'w) managed, unit) comp" where
  "NavigationStatus_dispatch e = dispatch False (NavigationStatus_dispatch_id (fst e)) e"

definition QueryEvent_dispatch ::
  "(QueryEventClass, 'p) event \<Rightarrow> bool \<Rightarrow> ((QueryEventType, (QueryEventClass, 'p) event, 'w) managed, unit) comp" where
  "QueryEvent_dispatch e synchronous = dispatch synchronous (QueryEvent_dispatch_id (fst e)) e"

text \<open>An event of a type of the library, whose constructor has set the type.\<close>

definition StatusEvent_dispatch ::
  "(StatusEventClass, 'p) event \<Rightarrow> bool \<Rightarrow> ((StatusEventType, (StatusEventClass, 'p) event, 'w) managed, unit) comp" where
  "StatusEvent_dispatch e synchronous =
     StatusEventManager_dispatch
       (let t = StatusEvent_type (fst e) in Some (if t = k_none then None else Some t, e)) synchronous"

section \<open>Subscribing\<close>

text \<open>A scoped subscriber, with the number that identifies it, and its destruction.\<close>

datatype ('c, 'p, 'w) Subscription =
    Subscribe nat 'c "(('c, 'p) event, 'w) callback"
  | Destroy nat

fun subscription_step ::
  "('c \<Rightarrow> 't) \<Rightarrow> ('c, 'p, 'w) Subscription \<Rightarrow>
   ('t, ('c, 'p) event, 'w) EventManager \<Rightarrow> ('t, ('c, 'p) event, 'w) EventManager" where
  "subscription_step ids (Subscribe owner c callback) m = subscribe owner (ids c) (argumentAdapter c callback) m"
| "subscription_step ids (Destroy owner) m = unsubscribe owner m"

text \<open>The callbacks that a class has after a sequence of subscriptions.\<close>

fun subscription_table ::
  "('c, 'p, 'w) Subscription list \<Rightarrow> (nat \<times> 'c \<times> (('c, 'p) event, 'w) callback) list \<Rightarrow>
   (nat \<times> 'c \<times> (('c, 'p) event, 'w) callback) list" where
  "subscription_table [] t = t"
| "subscription_table (Subscribe owner c callback # ss) t = subscription_table ss (t @ [(owner, c, callback)])"
| "subscription_table (Destroy owner # ss) t = subscription_table ss (filter (\<lambda>l. fst l \<noteq> owner) t)"

definition subscribers_of :: "('c, 'p, 'w) Subscription list \<Rightarrow> 'c \<Rightarrow> (('c, 'p) event, 'w) callback list" where
  "subscribers_of ss c = map (\<lambda>(_, _, cb). cb) (filter (\<lambda>(_, c', _). c' = c) (subscription_table ss []))"

definition after_subscriptions ::
  "('c \<Rightarrow> 't) \<Rightarrow> ('c, 'p, 'w) Subscription list \<Rightarrow>
   ('t, ('c, 'p) event, 'w) EventManager \<Rightarrow> ('t, ('c, 'p) event, 'w) EventManager" where
  "after_subscriptions ids ss m = fold (subscription_step ids) ss m"

section \<open>The contract of the ids\<close>

locale event_ids =
  fixes dispatch_id :: "'c \<Rightarrow> 't"
    and subscribe_id :: "'c \<Rightarrow> 't"
  assumes same_id: "dispatch_id c = subscribe_id c"
    and own_id: "subscribe_id c = subscribe_id d \<Longrightarrow> c = d"
begin

lemma listeners_of_table:
  assumes "listeners m = map (\<lambda>(o1, c, cb). (o1, subscribe_id c, argumentAdapter c cb)) t"
  shows "listeners (after_subscriptions subscribe_id ss m) =
    map (\<lambda>(o1, c, cb). (o1, subscribe_id c, argumentAdapter c cb)) (subscription_table ss t)"
  using assms
proof (induction ss arbitrary: m t)
  case (Cons s ss)
  show ?case
  proof (cases s)
    case (Subscribe o1 c cb)
    then show ?thesis
      using Cons.IH [of "subscription_step subscribe_id s m" "t @ [(o1, c, cb)]"] Cons.prems
      by (simp add: after_subscriptions_def subscribe_def)
  next
    case (Destroy o1)
    have "filter (\<lambda>l. fst l \<noteq> o1) (map (\<lambda>(o1, c, cb). (o1, subscribe_id c, argumentAdapter c cb)) t) =
        map (\<lambda>(o1, c, cb). (o1, subscribe_id c, argumentAdapter c cb)) (filter (\<lambda>l. fst l \<noteq> o1) t)"
      by (induction t) auto
    then show ?thesis
      using Cons.IH [of "subscription_step subscribe_id s m" "filter (\<lambda>l. fst l \<noteq> o1) t"] Cons.prems Destroy
      by (simp add: after_subscriptions_def unsubscribe_def)
  qed
qed (simp add: after_subscriptions_def)

lemma kept_fields:
  "synchronous_event_dispatch (after_subscriptions subscribe_id ss m) = synchronous_event_dispatch m"
  "event_queue (after_subscriptions subscribe_id ss m) = event_queue m"
  "thread (after_subscriptions subscribe_id ss m) = thread m"
  "noexcept_dispatch (after_subscriptions subscribe_id ss m) = noexcept_dispatch m"
proof (induction ss arbitrary: m)
  case (Cons s ss)
  {
    case 1
    then show ?case using Cons by (cases s) (simp_all add: after_subscriptions_def subscribe_def unsubscribe_def)
  next
    case 2
    then show ?case using Cons by (cases s) (simp_all add: after_subscriptions_def subscribe_def unsubscribe_def)
  next
    case 3
    then show ?case using Cons by (cases s) (simp_all add: after_subscriptions_def subscribe_def unsubscribe_def)
  next
    case 4
    then show ?case using Cons by (cases s) (simp_all add: after_subscriptions_def subscribe_def unsubscribe_def)
  }
qed (simp_all add: after_subscriptions_def)

lemma called_callbacks:
  assumes "listeners m = []"
  shows "call_listeners (after_subscriptions subscribe_id ss m) (dispatch_id (fst e)) e =
    forM (subscribers_of ss (fst e)) (\<lambda>cb. cb e)"
proof -
  have "listeners (after_subscriptions subscribe_id ss m) =
      map (\<lambda>(o1, c, cb). (o1, subscribe_id c, argumentAdapter c cb)) (subscription_table ss [])"
    using listeners_of_table [of m "[]" ss] assms by simp
  then have "callbacks (after_subscriptions subscribe_id ss m) (dispatch_id (fst e)) =
      map (argumentAdapter (fst e)) (subscribers_of ss (fst e))"
    unfolding callbacks_def subscribers_of_def
    by (simp add: same_id filter_map o_def case_prod_beta own_id cong: filter_cong)
      (auto intro!: map_cong filter_cong dest: own_id)
  moreover have "forM (map (argumentAdapter (fst e)) cbs) (\<lambda>cb. cb e) = forM cbs (\<lambda>cb. cb e)" for cbs
    by (induction cbs) (simp_all add: argumentAdapter_def)
  ultimately show ?thesis by (simp add: call_listeners_def)
qed

text \<open>A new manager, whether it queues its events or not.\<close>

lemma delivered_once:
  assumes "listeners m = []" and "event_queue m = []"
    and "thread m = (if synchronous_event_dispatch m then Returned else Processing)"
  shows "snd (threadTask (snd (dispatch False (dispatch_id (fst e)) e (after_subscriptions subscribe_id ss m, w)))) =
    snd (forM (subscribers_of ss (fst e)) (\<lambda>cb. cb e) w)"
  using assms called_callbacks [OF assms(1), of ss e]
  by (auto simp: dispatch_def synchronousDispatch_def threadTask_def kept_fields call_listeners_def callbacks_def
      split: prod.split sum.split)

end

lemma ActionEvent_id_injective: "ActionEvent_subscribe_id c = ActionEvent_subscribe_id d \<Longrightarrow> c = d"
  by (cases c; cases d) simp_all

interpretation action_events: event_ids ActionEvent_dispatch_id ActionEvent_subscribe_id
proof unfold_locales
  fix c
  show "ActionEvent_dispatch_id c = ActionEvent_subscribe_id c" by (cases c) simp_all
qed (rule ActionEvent_id_injective)

lemma ActionStatus_id_injective: "ActionStatus_subscribe_id c = ActionStatus_subscribe_id d \<Longrightarrow> c = d"
  by (cases c; cases d) simp_all

interpretation action_status: event_ids ActionStatus_dispatch_id ActionStatus_subscribe_id
proof unfold_locales
  fix c
  show "ActionStatus_dispatch_id c = ActionStatus_subscribe_id c" by (cases c) simp_all
qed (rule ActionStatus_id_injective)

lemma NavigationEvent_id_injective: "NavigationEvent_subscribe_id c = NavigationEvent_subscribe_id d \<Longrightarrow> c = d"
  by (cases c; cases d) simp_all

interpretation navigation_events: event_ids NavigationEvent_dispatch_id NavigationEvent_subscribe_id
proof unfold_locales
  fix c
  show "NavigationEvent_dispatch_id c = NavigationEvent_subscribe_id c" by (cases c) simp_all
qed (rule NavigationEvent_id_injective)

lemma NavigationStatus_id_injective: "NavigationStatus_subscribe_id c = NavigationStatus_subscribe_id d \<Longrightarrow> c = d"
  by (cases c; cases d) simp_all

interpretation navigation_status: event_ids NavigationStatus_dispatch_id NavigationStatus_subscribe_id
proof unfold_locales
  fix c
  show "NavigationStatus_dispatch_id c = NavigationStatus_subscribe_id c" by (cases c) simp_all
qed (rule NavigationStatus_id_injective)

lemma QueryEvent_id_injective: "QueryEvent_subscribe_id c = QueryEvent_subscribe_id d \<Longrightarrow> c = d"
  by (cases c; cases d) simp_all

interpretation query_events: event_ids QueryEvent_dispatch_id QueryEvent_subscribe_id
proof unfold_locales
  fix c
  show "QueryEvent_dispatch_id c = QueryEvent_subscribe_id c" by (cases c) simp_all
qed (rule QueryEvent_id_injective)

lemma StatusEvent_id_injective: "StatusEvent_subscribe_id c = StatusEvent_subscribe_id d \<Longrightarrow> c = d"
  by (cases c; cases d) simp_all

interpretation status_events: event_ids StatusEvent_type StatusEvent_subscribe_id
proof unfold_locales
  fix c
  show "StatusEvent_type c = StatusEvent_subscribe_id c" by (cases c) simp_all
qed (rule StatusEvent_id_injective)

lemma new_manager [simp]:
  "listeners (EventManager_new sync a b) = []" "event_queue (EventManager_new sync a b) = []"
  "synchronous_event_dispatch (EventManager_new sync a b) = sync"
  "thread (EventManager_new sync a b) = (if sync then Returned else Processing)"
  by (simp_all add: EventManager_new_def)

lemma StatusEvent_type_set [simp]: "StatusEvent_type c \<noteq> k_none"
  by (cases c) simp_all

text \<open>C31: Events reach exactly the subscribers of their class. After any sequence of subscriptions and
  destructions of scoped subscribers, an event that is dispatched to one of the six managers runs the callbacks
  subscribed to its class that are still alive, in the order of their subscription, and no other, up to the first that throws;
  no callback ever gets an event of another class, for which the cast would be undefined. It does not
  matter whether the manager dispatches synchronously or its thread takes the event out of the queue.\<close>

theorem events_reach_their_subscribers:
  "snd (threadTask (snd (ActionEvent_dispatch e1 False (after_subscriptions ActionEvent_subscribe_id s1 (ActionEventManager sync), w)))) =
     snd (forM (subscribers_of s1 (fst e1)) (\<lambda>cb. cb e1) w)
   \<and> snd (threadTask (snd (ActionStatus_dispatch e2 (after_subscriptions ActionStatus_subscribe_id s2 (ActionStatusManager sync), w)))) =
     snd (forM (subscribers_of s2 (fst e2)) (\<lambda>cb. cb e2) w)
   \<and> snd (threadTask (snd (NavigationEvent_dispatch e3 (after_subscriptions NavigationEvent_subscribe_id s3 (NavigationEventManager sync), w)))) =
     snd (forM (subscribers_of s3 (fst e3)) (\<lambda>cb. cb e3) w)
   \<and> snd (threadTask (snd (NavigationStatus_dispatch e4 (after_subscriptions NavigationStatus_subscribe_id s4 (NavigationStatusManager sync), w)))) =
     snd (forM (subscribers_of s4 (fst e4)) (\<lambda>cb. cb e4) w)
   \<and> snd (threadTask (snd (QueryEvent_dispatch e5 False (after_subscriptions QueryEvent_subscribe_id s5 (QueryEventManager sync), w)))) =
     snd (forM (subscribers_of s5 (fst e5)) (\<lambda>cb. cb e5) w)
   \<and> snd (threadTask (snd (StatusEvent_dispatch e6 False (after_subscriptions StatusEvent_subscribe_id s6 (StatusEventManager sync), w)))) =
     snd (forM (subscribers_of s6 (fst e6)) (\<lambda>cb. cb e6) w)"
proof (intro conjI)
  show "snd (threadTask (snd (StatusEvent_dispatch e6 False (after_subscriptions StatusEvent_subscribe_id s6 (StatusEventManager sync), w)))) =
     snd (forM (subscribers_of s6 (fst e6)) (\<lambda>cb. cb e6) w)"
    unfolding StatusEvent_dispatch_def StatusEventManager_dispatch_def StatusEventManager_def
    by (simp add: status_events.delivered_once)
qed (simp_all add: ActionEvent_dispatch_def ActionStatus_dispatch_def NavigationEvent_dispatch_def
    NavigationStatus_dispatch_def QueryEvent_dispatch_def ActionEventManager_def ActionStatusManager_def
    NavigationEventManager_def NavigationStatusManager_def QueryEventManager_def action_events.delivered_once
    action_status.delivered_once navigation_events.delivered_once navigation_status.delivered_once
    query_events.delivered_once)

section \<open>The handle\<close>

text \<open>\<open>None\<close> is a destroyed or never initialized instance; the subscribers work on the second component.\<close>

record ('p, 'w) Managers =
  getActionEventManager :: "(ActionEventType, (ActionEventClass, 'p) event, 'w) EventManager"
  getActionStatusManager :: "(ActionStatusType, (ActionStatusClass, 'p) event, 'w) EventManager"
  getNavigationEventManager :: "(NavigationEventType, (NavigationEventClass, 'p) event, 'w) EventManager"
  getNavigationStatusManager :: "(NavigationStatusType, (NavigationStatusClass, 'p) event, 'w) EventManager"
  getQueryEventManager :: "(QueryEventType, (QueryEventClass, 'p) event, 'w) EventManager"
  getStatusEventManager :: "(StatusEventType, (StatusEventClass, 'p) event, 'w) EventManager"

type_synonym ('p, 'w, 'a) handled = "(('p, 'w) Managers option \<times> 'w, 'a) comp"

definition isValid :: "('p, 'w, bool) handled" where
  "isValid = gets (\<lambda>(i, _). i \<noteq> None)"

text \<open>Run an operation of one of the managers.\<close>

definition on_manager ::
  "(('p, 'w) Managers \<Rightarrow> 'm) \<Rightarrow> ('m \<Rightarrow> ('p, 'w) Managers \<Rightarrow> ('p, 'w) Managers) \<Rightarrow>
   ('m \<times> 'w, unit) comp \<Rightarrow> ('p, 'w, unit) handled" where
  "on_manager get put op = (\<lambda>(i, w).
     case i of
       None \<Rightarrow> (Inl VDA5050PPNotInitialized, (i, w))
     | Some ms \<Rightarrow> (case op (get ms, w) of (r, (m, w')) \<Rightarrow> (r, (Some (put m ms), w'))))"

datatype 'p UserEvent =
    UserActionStatus "(ActionStatusClass, 'p) event"
  | UserNavigationStatus "(NavigationStatusClass, 'p) event"
  | UserStatus "(StatusEventClass, 'p) event"

fun EventHandle_dispatch :: "'p UserEvent \<Rightarrow> ('p, 'w, unit) handled" where
  "EventHandle_dispatch (UserActionStatus e) =
     on_manager getActionStatusManager (\<lambda>m ms. ms\<lparr>getActionStatusManager := m\<rparr>) (ActionStatus_dispatch e)"
| "EventHandle_dispatch (UserNavigationStatus e) =
     on_manager getNavigationStatusManager (\<lambda>m ms. ms\<lparr>getNavigationStatusManager := m\<rparr>) (NavigationStatus_dispatch e)"
| "EventHandle_dispatch (UserStatus e) =
     on_manager getStatusEventManager (\<lambda>m ms. ms\<lparr>getStatusEventManager := m\<rparr>) (StatusEvent_dispatch e False)"

text \<open>A user gets subscribers for the events that the library sends, and uses them.\<close>

definition ScopedActionEventSubscriber_subscribe ::
  "nat \<Rightarrow> ActionEventClass \<Rightarrow> ((ActionEventClass, 'p) event, 'w) callback \<Rightarrow> ('p, 'w, unit) handled" where
  "ScopedActionEventSubscriber_subscribe owner c cb =
     on_manager getActionEventManager (\<lambda>m ms. ms\<lparr>getActionEventManager := m\<rparr>)
       (modify (\<lambda>(m, w). (subscription_step ActionEvent_subscribe_id (Subscribe owner c cb) m, w)))"

definition ScopedNavigationEventSubscriber_subscribe ::
  "nat \<Rightarrow> NavigationEventClass \<Rightarrow> ((NavigationEventClass, 'p) event, 'w) callback \<Rightarrow> ('p, 'w, unit) handled" where
  "ScopedNavigationEventSubscriber_subscribe owner c cb =
     on_manager getNavigationEventManager (\<lambda>m ms. ms\<lparr>getNavigationEventManager := m\<rparr>)
       (modify (\<lambda>(m, w). (subscription_step NavigationEvent_subscribe_id (Subscribe owner c cb) m, w)))"

definition ScopedQueryEventSubscriber_subscribe ::
  "nat \<Rightarrow> QueryEventClass \<Rightarrow> ((QueryEventClass, 'p) event, 'w) callback \<Rightarrow> ('p, 'w, unit) handled" where
  "ScopedQueryEventSubscriber_subscribe owner c cb =
     on_manager getQueryEventManager (\<lambda>m ms. ms\<lparr>getQueryEventManager := m\<rparr>)
       (modify (\<lambda>(m, w). (subscription_step QueryEvent_subscribe_id (Subscribe owner c cb) m, w)))"

lemma handle_needs_instance:
  "EventHandle_dispatch e (None, w) = (Inl VDA5050PPNotInitialized, (None, w))"
  by (cases e) (simp_all add: on_manager_def)

end
