(* ===== verification/Geometry.thy ===== *)
theory Geometry
  imports StatusManager Complex_Main
begin

text \<open>
  \<^verbatim>\<open>core/common/math/geometry.h\<close>, \<^verbatim>\<open>linear_path_length_calculator.h\<close> and \<^verbatim>\<open>agv_handler/functional.cpp\<close>: circles, angles
  and the test whether the vehicle stands on a node. The arithmetic is an argument: the templates are used with
  \<^verbatim>\<open>double\<close>, whose operations round; the properties evaluate them with the exact operations of the
  real numbers, and with any operations that have a NaN.
\<close>

section \<open>Numbers\<close>

text \<open>The operations of the number type, and the number that a \<^verbatim>\<open>double\<close> of a message stands for.\<close>

record 'n NumOps =
  of_double :: "double \<Rightarrow> 'n"
  n_zero :: 'n
  n_add :: "'n \<Rightarrow> 'n \<Rightarrow> 'n"
  n_sub :: "'n \<Rightarrow> 'n \<Rightarrow> 'n"
  n_mul :: "'n \<Rightarrow> 'n \<Rightarrow> 'n"
  n_sqrt :: "'n \<Rightarrow> 'n"
  n_abs :: "'n \<Rightarrow> 'n"
  n_sin :: "'n \<Rightarrow> 'n"
  n_cos :: "'n \<Rightarrow> 'n"
  n_atan2 :: "'n \<Rightarrow> 'n \<Rightarrow> 'n"
  n_less :: "'n \<Rightarrow> 'n \<Rightarrow> bool"
  n_le :: "'n \<Rightarrow> 'n \<Rightarrow> bool"

section \<open>Geometry\<close>

record 'n Vector2 =
  vec_x :: 'n
  vec_y :: 'n

record 'n Circle =
  origin :: "'n Vector2"
  radius :: 'n

definition vector_norm :: "'n NumOps \<Rightarrow> 'n Vector2 \<Rightarrow> 'n" where
  "vector_norm ops vec =
     (let x2 = n_mul ops (vec_x vec) (vec_x vec); y2 = n_mul ops (vec_y vec) (vec_y vec)
      in n_sqrt ops (n_add ops x2 y2))"

definition euclidDistance :: "'n NumOps \<Rightarrow> 'n Vector2 \<Rightarrow> 'n Vector2 \<Rightarrow> 'n" where
  "euclidDistance ops v1 v2 =
     vector_norm ops \<lparr>vec_x = n_sub ops (vec_x v1) (vec_x v2), vec_y = n_sub ops (vec_y v1) (vec_y v2)\<rparr>"

definition circleIntersection :: "'n NumOps \<Rightarrow> 'n Circle \<Rightarrow> 'n Circle \<Rightarrow> bool" where
  "circleIntersection ops c1 c2 =
     (let threshold = n_add ops (radius c1) (radius c2); d = euclidDistance ops (origin c1) (origin c2)
      in n_le ops d threshold)"

definition circleEnclosureOf :: "'n NumOps \<Rightarrow> 'n Circle \<Rightarrow> 'n Circle \<Rightarrow> bool" where
  "circleEnclosureOf ops enclosure enclosed =
     (if n_less ops (radius enclosure) (radius enclosed) then False
      else let farthest_point = n_add ops (euclidDistance ops (origin enclosure) (origin enclosed)) (radius enclosed)
           in n_le ops farthest_point (radius enclosure))"

definition angleDifference :: "'n NumOps \<Rightarrow> 'n \<Rightarrow> 'n \<Rightarrow> 'n" where
  "angleDifference ops a1 a2 =
     (let d = n_sub ops a1 a2 in n_abs ops (n_atan2 ops (n_sin ops d) (n_cos ops d)))"

section \<open>The length of a path\<close>

record 'n LinearPathLengthCalculator =
  accum :: 'n
  last_vertex :: "'n Vector2 option"

definition LinearPathLengthCalculator_new :: "'n NumOps \<Rightarrow> 'n LinearPathLengthCalculator" where
  "LinearPathLengthCalculator_new ops = \<lparr>accum = n_zero ops, last_vertex = None\<rparr>"

definition getLength :: "'n LinearPathLengthCalculator \<Rightarrow> 'n" where
  "getLength c = accum c"

definition addVertex :: "'n NumOps \<Rightarrow> 'n Vector2 \<Rightarrow> 'n LinearPathLengthCalculator \<Rightarrow> 'n LinearPathLengthCalculator" where
  "addVertex ops v c =
     \<lparr>accum = (case last_vertex c of None \<Rightarrow> accum c | Some l \<Rightarrow> n_add ops (accum c) (euclidDistance ops v l)),
      last_vertex = Some v\<rparr>"

definition addVertices ::
  "'n NumOps \<Rightarrow> 'n Vector2 list \<Rightarrow> 'n LinearPathLengthCalculator \<Rightarrow> 'n LinearPathLengthCalculator" where
  "addVertices ops vs c = fold (addVertex ops) vs c"

definition LinearPathLengthCalculator_reset :: "'n \<Rightarrow> 'n LinearPathLengthCalculator" where
  "LinearPathLengthCalculator_reset zero = \<lparr>accum = zero, last_vertex = None\<rparr>"

section \<open>On a node\<close>

definition isOnNode ::
  "'n NumOps \<Rightarrow> AGVPosition \<Rightarrow> NodePosition \<Rightarrow> double \<Rightarrow> double \<Rightarrow> double option \<Rightarrow> double option \<Rightarrow> bool" where
  "isOnNode ops agv node default_deviation_xy default_deviation_theta override_deviation_xy override_deviation_theta =
     (if mapId agv \<noteq> np_mapId node then False
      else
        let a_pos = \<lparr>vec_x = of_double ops (ap_x agv), vec_y = of_double ops (ap_y agv)\<rparr>;
            a_range = \<lparr>origin = a_pos,
              radius = (case ap_deviationRange agv of None \<Rightarrow> n_zero ops | Some d \<Rightarrow> of_double ops d)\<rparr>;
            n_pos = \<lparr>vec_x = of_double ops (np_x node), vec_y = of_double ops (np_y node)\<rparr>;
            n_range = \<lparr>origin = n_pos, radius = of_double ops
              (case override_deviation_xy of Some d \<Rightarrow> d
               | None \<Rightarrow> (case np_allowedDeviationXY node of Some d \<Rightarrow> d | None \<Rightarrow> default_deviation_xy))\<rparr>
        in if \<not> circleEnclosureOf ops n_range a_range then False
           else case np_theta node of
             None \<Rightarrow> True
           | Some th \<Rightarrow>
               let theta_diff = angleDifference ops (of_double ops (ap_theta agv)) (of_double ops th)
               in \<not> n_less ops (of_double ops
                   (case override_deviation_theta of Some d \<Rightarrow> d
                    | None \<Rightarrow> (case np_allowedDeviationTheta node of Some d \<Rightarrow> d | None \<Rightarrow> default_deviation_theta)))
                   (n_abs ops theta_diff))"

section \<open>Exact arithmetic\<close>

definition real_atan2 :: "real \<Rightarrow> real \<Rightarrow> real" where
  "real_atan2 y x =
     (if 0 < x then arctan (y / x)
      else if x < 0 then (if 0 \<le> y then arctan (y / x) + pi else arctan (y / x) - pi)
      else if 0 < y then pi / 2 else if y < 0 then - (pi / 2) else 0)"

definition exact_ops :: "(double \<Rightarrow> real) \<Rightarrow> real NumOps" where
  "exact_ops v = \<lparr>of_double = v, n_zero = 0, n_add = (+), n_sub = (-), n_mul = (*), n_sqrt = sqrt, n_abs = abs,
     n_sin = sin, n_cos = cos, n_atan2 = real_atan2, n_less = (<), n_le = (\<le>)\<rparr>"

lemma exact_ops_simps [simp]:
  "of_double (exact_ops v) = v" "n_zero (exact_ops v) = 0" "n_add (exact_ops v) = (+)" "n_sub (exact_ops v) = (-)"
  "n_mul (exact_ops v) = (*)" "n_sqrt (exact_ops v) = sqrt" "n_abs (exact_ops v) = abs" "n_sin (exact_ops v) = sin"
  "n_cos (exact_ops v) = cos" "n_atan2 (exact_ops v) = real_atan2" "n_less (exact_ops v) = (<)"
  "n_le (exact_ops v) = (\<le>)"
  by (simp_all add: exact_ops_def)

lemma distance_exact:
  "euclidDistance (exact_ops v) p q = cmod (Complex (vec_x p) (vec_y p) - Complex (vec_x q) (vec_y q))"
  by (simp add: euclidDistance_def vector_norm_def cmod_def power2_eq_square)

lemma disc_in_disc:
  fixes a b :: complex
  assumes "0 \<le> r"
  shows "(\<forall>p. cmod (p - a) \<le> r \<longrightarrow> cmod (p - b) \<le> R) \<longleftrightarrow> cmod (b - a) + r \<le> R"
proof
  assume enclosed: "\<forall>p. cmod (p - a) \<le> r \<longrightarrow> cmod (p - b) \<le> R"
  show "cmod (b - a) + r \<le> R"
  proof (cases "a = b")
    case True
    have "cmod (a + of_real r - a) \<le> r" using assms by simp
    with enclosed have "cmod (a + of_real r - b) \<le> R" by blast
    then show ?thesis using True assms by simp
  next
    case False
    define u where "u = (a - b) / of_real (cmod (a - b))"
    have u: "cmod u = 1" "a - b = of_real (cmod (a - b)) * u"
      using False by (simp_all add: u_def norm_divide)
    have "cmod (a + of_real r * u - a) \<le> r" using u(1) assms by (simp add: norm_mult)
    with enclosed have "cmod (a + of_real r * u - b) \<le> R" by blast
    moreover have "a + of_real r * u - b = of_real (cmod (a - b) + r) * u"
      using u(2) by (simp add: algebra_simps)
    moreover have "cmod (of_real (cmod (a - b) + r) * u) = cmod (a - b) + r"
      using u(1) assms by (simp add: norm_mult flip: of_real_add)
    ultimately show ?thesis by (simp add: norm_minus_commute)
  qed
next
  assume R: "cmod (b - a) + r \<le> R"
  show "\<forall>p. cmod (p - a) \<le> r \<longrightarrow> cmod (p - b) \<le> R"
  proof (intro allI impI)
    fix p
    assume "cmod (p - a) \<le> r"
    moreover have "cmod (p - b) \<le> cmod (p - a) + cmod (a - b)"
      using norm_triangle_ineq [of "p - a" "a - b"] by simp
    ultimately show "cmod (p - b) \<le> R" using R by (simp add: norm_minus_commute)
  qed
qed

lemma enclosure_exact:
  assumes "0 \<le> radius c"
  shows "circleEnclosureOf (exact_ops v) e c \<longleftrightarrow>
    (\<forall>p. cmod (p - Complex (vec_x (origin c)) (vec_y (origin c))) \<le> radius c \<longrightarrow>
         cmod (p - Complex (vec_x (origin e)) (vec_y (origin e))) \<le> radius e)"
proof -
  have "0 \<le> cmod (Complex (vec_x (origin e)) (vec_y (origin e)) - Complex (vec_x (origin c)) (vec_y (origin c)))"
    by (rule norm_ge_zero)
  then show ?thesis
    unfolding disc_in_disc [OF assms] by (simp add: circleEnclosureOf_def distance_exact Let_def del: norm_ge_zero)
qed

lemma arctan_of_tan:
  assumes "- (pi / 2) < t" and "t < pi / 2"
  shows "arctan (sin t / cos t) = t"
  using arctan_tan [OF assms] by (simp add: tan_def)

lemma atan2_of_angle:
  assumes "- pi < t" and "t \<le> pi"
  shows "real_atan2 (sin t) (cos t) = t"
proof -
  consider "\<bar>t\<bar> < pi / 2" | "t = pi / 2" | "t = - (pi / 2)" | "pi / 2 < t" | "t < - (pi / 2)" by linarith
  then show ?thesis
  proof cases
    case 1
    then have "0 < cos t" using cos_gt_zero_pi by auto
    then show ?thesis using 1 arctan_of_tan [of t] by (simp add: real_atan2_def)
  next
    case 4
    have "0 < cos (t - pi)" using 4 assms by (intro cos_gt_zero_pi) auto
    moreover have "0 \<le> sin t" using 4 assms by (intro sin_ge_zero) auto
    ultimately show ?thesis
      using 4 assms arctan_of_tan [of "t - pi"] by (simp add: real_atan2_def sin_diff cos_diff)
  next
    case 5
    have "0 < cos (t + pi)" using 5 assms by (intro cos_gt_zero_pi) auto
    moreover have "sin t < 0"
      using sin_gt_zero [of "- t"] 5 assms pi_gt_zero by (simp add: sin_minus)
    ultimately show ?thesis
      using 5 assms arctan_of_tan [of "t + pi"] by (simp add: real_atan2_def sin_add cos_add)
  next
    case 2
    then show ?thesis by (simp only: sin_pi_half cos_pi_half real_atan2_def) simp
  next
    case 3
    then show ?thesis by (simp only: sin_minus cos_minus sin_pi_half cos_pi_half real_atan2_def) simp
  qed
qed

lemma turn_angle: "\<exists>k :: int. - pi < d - 2 * pi * of_int k \<and> d - 2 * pi * of_int k \<le> pi"
proof -
  define k where "k = \<lceil>(d - pi) / (2 * pi)\<rceil>"
  have "(d - pi) / (2 * pi) \<le> of_int k" "of_int k < (d - pi) / (2 * pi) + 1"
    unfolding k_def by linarith+
  then have "d - pi \<le> of_int k * (2 * pi)" "of_int k * (2 * pi) < (d - pi) + 2 * pi"
    using pi_gt_zero by (simp_all add: field_simps)
  then show ?thesis by (intro exI [of _ k]) (simp add: algebra_simps)
qed

lemma sin_cos_turn: "sin (d - 2 * pi * of_int k) = sin d" "cos (d - 2 * pi * of_int k) = cos d" for k :: int
  using sin_int_2pin [of k] cos_int_2pin [of k] by (simp_all add: sin_diff cos_diff mult.commute)

lemma angle_exact:
  "angleDifference (exact_ops v) a b \<le> T \<longleftrightarrow> (\<exists>k :: int. \<bar>a - b - 2 * pi * of_int k\<bar> \<le> T)"
proof -
  obtain k :: int where k: "- pi < a - b - 2 * pi * of_int k" "a - b - 2 * pi * of_int k \<le> pi"
    using turn_angle [of "a - b"] by auto
  define t where "t = a - b - 2 * pi * of_int k"
  have "angleDifference (exact_ops v) a b = \<bar>t\<bar>"
    using atan2_of_angle [OF k] by (simp add: angleDifference_def sin_cos_turn t_def)
  moreover have "\<bar>t\<bar> \<le> \<bar>a - b - 2 * pi * of_int j\<bar>" for j :: int
  proof (cases "j = k")
    case False
    define m where "m = real_of_int (k - j)"
    have "1 \<le> \<bar>m\<bar>" using False unfolding m_def by linarith
    then have "2 * pi \<le> 2 * pi * \<bar>m\<bar>" using pi_gt_zero by simp
    moreover have "a - b - 2 * pi * of_int j = t + 2 * pi * m" by (simp add: t_def m_def algebra_simps)
    moreover have "\<bar>2 * pi * m\<bar> = 2 * pi * \<bar>m\<bar>" using pi_gt_zero by (simp add: abs_mult)
    ultimately show ?thesis using k unfolding t_def [symmetric] by linarith
  qed (simp add: t_def)
  ultimately show ?thesis using t_def by (metis order_trans)
qed

text \<open>C32: When the vehicle is on a node. With exact arithmetic the test accepts exactly the positions on the map of
  the node for which every point of the disc that the vehicle may be in lies in the disc around
  the node, and, when the node has an orientation, some representation of the two angles differs by the
  allowed deviation at most. The deviation that counts is the configured overriding one, else that of the
  node, else the configured default.\<close>

theorem on_node_criterion:
  assumes "0 \<le> (case ap_deviationRange agv of None \<Rightarrow> 0 | Some d \<Rightarrow> v d)"
  shows "isOnNode (exact_ops v) agv node dxy dth oxy oth \<longleftrightarrow>
    mapId agv = np_mapId node \<and>
    (\<forall>p. cmod (p - Complex (v (ap_x agv)) (v (ap_y agv))) \<le> (case ap_deviationRange agv of None \<Rightarrow> 0 | Some d \<Rightarrow> v d) \<longrightarrow>
         cmod (p - Complex (v (np_x node)) (v (np_y node))) \<le>
           v (case oxy of Some d \<Rightarrow> d | None \<Rightarrow> (case np_allowedDeviationXY node of Some d \<Rightarrow> d | None \<Rightarrow> dxy))) \<and>
    (case np_theta node of
       None \<Rightarrow> True
     | Some th \<Rightarrow> \<exists>k :: int. \<bar>v (ap_theta agv) - v th - 2 * pi * of_int k\<bar> \<le>
         v (case oth of Some d \<Rightarrow> d | None \<Rightarrow> (case np_allowedDeviationTheta node of Some d \<Rightarrow> d | None \<Rightarrow> dth)))"
proof -
  have angle: "\<not> T < \<bar>angleDifference (exact_ops v) a b\<bar> \<longleftrightarrow> (\<exists>k :: int. \<bar>a - b - 2 * pi * of_int k\<bar> \<le> T)"
    for a b T
  proof -
    have "\<bar>angleDifference (exact_ops v) a b\<bar> = angleDifference (exact_ops v) a b"
      by (simp add: angleDifference_def Let_def)
    then show ?thesis using angle_exact [of v a b T] by (simp add: not_less)
  qed
  let ?r = "case ap_deviationRange agv of None \<Rightarrow> 0 | Some d \<Rightarrow> v d"
  have place: "circleEnclosureOf (exact_ops v) e \<lparr>origin = a, radius = ?r\<rparr> \<longleftrightarrow>
      (\<forall>p. cmod (p - Complex (vec_x a) (vec_y a)) \<le> ?r \<longrightarrow>
           cmod (p - Complex (vec_x (origin e)) (vec_y (origin e))) \<le> radius e)" for e a
    using enclosure_exact [of "\<lparr>origin = a, radius = ?r\<rparr>" v e] assms by simp
  have both: "(if m then False else if \<not> P then False else Q) \<longleftrightarrow> \<not> m \<and> P \<and> Q" for m P Q by simp
  show ?thesis
    by (cases "np_theta node")
      (simp_all only: isOnNode_def Let_def exact_ops_simps place angle both option.case Circle.simps Vector2.simps not_not)
qed

definition sample_position :: AGVPosition where
  "sample_position = \<lparr>ap_x = 1, ap_y = 0, ap_theta = 0, mapId = ''m'', ap_positionInitialized = True,
     ap_deviationRange = None, position_payload = []\<rparr>"

definition sample_node_position :: NodePosition where
  "sample_node_position = \<lparr>np_x = 0, np_y = 0, np_theta = Some 0, np_allowedDeviationXY = Some 2,
     np_allowedDeviationTheta = None, np_mapId = ''m''\<rparr>"

theorem on_node_criterion_witness:
  "isOnNode (exact_ops (\<lambda>d. real (unat d))) sample_position sample_node_position 0 0 None None"
proof -
  let ?v = "\<lambda>d. real (unat d) :: real"
  have "cmod p \<le> 2" if "cmod (p - Complex 1 0) \<le> 0" for p using that by (auto simp: cmod_def sum_power2_le_zero_iff)
  moreover have "unat (2 :: double) = 2" "Complex 0 0 = 0" by (simp_all add: complex_eq_iff)
  ultimately show ?thesis
    using on_node_criterion [where v = ?v and agv = sample_position and node = sample_node_position and dxy = 0 and dth = 0
        and oxy = None and oth = None]
    by (auto simp: sample_position_def sample_node_position_def intro!: exI [of _ "0 :: int"])
qed

section \<open>NaN\<close>

text \<open>The operations of IEEE 754 numbers hand a NaN on, and every comparison with it is false.\<close>

definition has_nan :: "'n NumOps \<Rightarrow> 'n \<Rightarrow> bool" where
  "has_nan ops nan \<longleftrightarrow>
     (\<forall>x. n_sub ops nan x = nan \<and> n_sub ops x nan = nan \<and> n_add ops nan x = nan \<and> n_add ops x nan = nan \<and>
          n_mul ops nan x = nan \<and> n_mul ops x nan = nan \<and> n_atan2 ops nan x = nan \<and> n_atan2 ops x nan = nan \<and>
          \<not> n_less ops nan x \<and> \<not> n_less ops x nan \<and> \<not> n_le ops nan x \<and> \<not> n_le ops x nan) \<and>
     n_sqrt ops nan = nan \<and> n_abs ops nan = nan \<and> n_sin ops nan = nan \<and> n_cos ops nan = nan"

lemma nan_distance:
  assumes "has_nan ops nan" and "vec_x p = nan \<or> vec_y p = nan \<or> vec_x q = nan \<or> vec_y q = nan"
  shows "euclidDistance ops p q = nan"
  using assms by (auto simp: has_nan_def euclidDistance_def vector_norm_def Let_def)

text \<open>Unknown positions and orientations. A vehicle that reports NaN as one of its coordinates or as its deviation
  is on no node; one that reports NaN as its orientation is on every node whose place it stands at, whatever
  orientation the node asks for, because the code rejects by a comparison that a NaN makes false.\<close>

theorem nan_position_and_orientation:
  assumes "has_nan ops nan"
  shows "(nan \<in> {of_double ops (ap_x agv), of_double ops (ap_y agv)} \<union> of_double ops ` set_option (ap_deviationRange agv) \<longrightarrow>
      \<not> isOnNode ops agv node dxy dth oxy oth) \<and>
    (of_double ops (ap_theta agv) = nan \<longrightarrow>
      isOnNode ops agv node dxy dth oxy oth = isOnNode ops agv (node\<lparr>np_theta := None\<rparr>) dxy dth oxy oth)"
proof (intro conjI impI)
  let ?a = "\<lparr>vec_x = of_double ops (ap_x agv), vec_y = of_double ops (ap_y agv)\<rparr>"
  let ?r = "case ap_deviationRange agv of None \<Rightarrow> n_zero ops | Some d \<Rightarrow> of_double ops d"
  assume unknown: "nan \<in> {of_double ops (ap_x agv), of_double ops (ap_y agv)} \<union> of_double ops ` set_option (ap_deviationRange agv)"
  have "n_add ops (euclidDistance ops n ?a) ?r = nan" for n
  proof (cases "nan \<in> {of_double ops (ap_x agv), of_double ops (ap_y agv)}")
    case True
    then have "euclidDistance ops n ?a = nan" by (intro nan_distance [OF assms]) auto
    then show ?thesis using assms by (simp add: has_nan_def)
  next
    case False
    then have "?r = nan" using unknown by (auto split: option.split)
    then show ?thesis using assms by (simp add: has_nan_def)
  qed
  then show "\<not> isOnNode ops agv node dxy dth oxy oth"
    using assms by (auto simp: isOnNode_def circleEnclosureOf_def has_nan_def Let_def)
next
  assume "of_double ops (ap_theta agv) = nan"
  then have "\<not> n_less ops t (n_abs ops (angleDifference ops (of_double ops (ap_theta agv)) b))" for t b
    using assms by (simp add: has_nan_def angleDifference_def Let_def)
  then show "isOnNode ops agv node dxy dth oxy oth = isOnNode ops agv (node\<lparr>np_theta := None\<rparr>) dxy dth oxy oth"
    by (simp add: isOnNode_def Let_def split: option.split)
qed

text \<open>Real numbers with a NaN, which is the number of the pattern \<open>signaling\<close>.\<close>

definition lift2 :: "('a \<Rightarrow> 'a \<Rightarrow> 'a) \<Rightarrow> 'a option \<Rightarrow> 'a option \<Rightarrow> 'a option" where
  "lift2 f a b = (case (a, b) of (Some x, Some y) \<Rightarrow> Some (f x y) | _ \<Rightarrow> None)"

definition compare2 :: "('a \<Rightarrow> 'a \<Rightarrow> bool) \<Rightarrow> 'a option \<Rightarrow> 'a option \<Rightarrow> bool" where
  "compare2 f a b = (case (a, b) of (Some x, Some y) \<Rightarrow> f x y | _ \<Rightarrow> False)"

definition sample_nan_ops :: "real option NumOps" where
  "sample_nan_ops = \<lparr>of_double = (\<lambda>d. if d = 0x7FF8000000000000 then None else Some (real (unat d))), n_zero = Some 0,
     n_add = lift2 (+), n_sub = lift2 (-), n_mul = lift2 (*), n_sqrt = map_option sqrt, n_abs = map_option abs,
     n_sin = map_option sin, n_cos = map_option cos, n_atan2 = lift2 real_atan2,
     n_less = compare2 (<), n_le = compare2 (\<le>)\<rparr>"

lemma sample_has_nan: "has_nan sample_nan_ops None"
  by (simp add: has_nan_def sample_nan_ops_def lift2_def compare2_def split: option.split)

theorem nan_position_and_orientation_witness:
  "\<not> isOnNode sample_nan_ops (sample_position\<lparr>ap_x := 0x7FF8000000000000\<rparr>) sample_node_position 0 0 None None \<and>
   isOnNode sample_nan_ops (sample_position\<lparr>ap_theta := 0x7FF8000000000000\<rparr>) sample_node_position 0 0 None None"
proof -
  have "isOnNode sample_nan_ops (sample_position\<lparr>ap_theta := 0x7FF8000000000000\<rparr>)
      (sample_node_position\<lparr>np_theta := None\<rparr>) 0 0 None None"
    by (simp add: isOnNode_def Let_def sample_position_def sample_node_position_def sample_nan_ops_def circleEnclosureOf_def
        euclidDistance_def vector_norm_def lift2_def compare2_def)
  then show ?thesis
    using nan_position_and_orientation [OF sample_has_nan, where agv = "sample_position\<lparr>ap_x := 0x7FF8000000000000\<rparr>"
        and node = sample_node_position and dxy = 0 and dth = 0 and oxy = None and oth = None]
      nan_position_and_orientation [OF sample_has_nan, where agv = "sample_position\<lparr>ap_theta := 0x7FF8000000000000\<rparr>"
        and node = sample_node_position and dxy = 0 and dth = 0 and oxy = None and oth = None]
    by (simp add: sample_nan_ops_def)
qed

end
