(* ===== verification/NavigationHandlers.thy ===== *)
theory NavigationHandlers
  imports Geometry StateEventHandler OrderHandler SubConfigs
begin

text \<open>
  The way from the library to a user's navigation handler and back:
  \<^verbatim>\<open>agv_handler/navigation_event_handler.cpp\<close>, \<^verbatim>\<open>agv_handler/node_reached_handler.cpp\<close>,
  \<^verbatim>\<open>handler/base_navigation_handler.cpp\<close> and the two sinks of \<^verbatim>\<open>sinks/\<close>. A user's function is known by the
  way it ends.
\<close>

section \<open>Events to the user\<close>

datatype NavigationCall =
    horizonUpdated "Node list" "Edge list"
  | baseIncreased "Node list" "Edge list"
  | navigateToNextNode Node "Edge option"
  | upcomingSegment seq_id seq_id
  | nav_cancel
  | nav_pause
  | nav_resume

text \<open>The calls that a user's handler has got.\<close>

type_synonym 'a neh = "(NavigationCall list, 'a) comp"

type_synonym NavigationHandler = "NavigationCall \<Rightarrow> exn + unit"

definition call_handler :: "NavigationHandler option \<Rightarrow> 'e option \<Rightarrow> ('e \<Rightarrow> NavigationCall) \<Rightarrow> unit neh" where
  "call_handler handler data f =
     (case data of
        None \<Rightarrow> throw VDA5050PPInvalidEventData
      | Some e \<Rightarrow>
          (case handler of
             None \<Rightarrow> ret ()
           | Some h \<Rightarrow> seqM (modify (\<lambda>calls. calls @ [f e])) (liftE (h (f e)))))"

definition handleHorizonUpdate :: "NavigationHandler option \<Rightarrow> (Node list \<times> Edge list) option \<Rightarrow> unit neh" where
  "handleHorizonUpdate handler data = call_handler handler data (\<lambda>(nodes, edges). horizonUpdated nodes edges)"

definition handleBaseIncreased :: "NavigationHandler option \<Rightarrow> (Node list \<times> Edge list) option \<Rightarrow> unit neh" where
  "handleBaseIncreased handler data = call_handler handler data (\<lambda>(nodes, edges). baseIncreased nodes edges)"

definition handleNextNode :: "NavigationHandler option \<Rightarrow> (Node \<times> Edge option) option \<Rightarrow> unit neh" where
  "handleNextNode handler data = call_handler handler data (\<lambda>(next_node, via_edge). navigateToNextNode next_node via_edge)"

definition handleUpcomingSegment :: "NavigationHandler option \<Rightarrow> (seq_id \<times> seq_id) option \<Rightarrow> unit neh" where
  "handleUpcomingSegment handler data = call_handler handler data (\<lambda>(begin_seq, end_seq). upcomingSegment begin_seq end_seq)"

text \<open>A type outside of the enumeration is \<open>None\<close>.\<close>

definition handleControl :: "NavigationHandler option \<Rightarrow> NavigationControlType option option \<Rightarrow> unit neh" where
  "handleControl handler data =
     (case data of
        None \<Rightarrow> throw VDA5050PPInvalidEventData
      | Some t \<Rightarrow>
          (case handler of
             None \<Rightarrow> ret ()
           | Some h \<Rightarrow>
               (case t of
                  Some nk_cancel \<Rightarrow> call_handler handler (Some ()) (\<lambda>_. nav_cancel)
                | Some nk_pause \<Rightarrow> call_handler handler (Some ()) (\<lambda>_. nav_pause)
                | Some nk_resume \<Rightarrow> call_handler handler (Some ()) (\<lambda>_. nav_resume)
                | None \<Rightarrow> throw VDA5050PPInvalidEventData)))"

text \<open>What \<^verbatim>\<open>initialize\<close> subscribes to.\<close>

fun on_navigation_event :: "NavigationHandler option \<Rightarrow> NavigationEvent \<Rightarrow> unit neh" where
  "on_navigation_event h (NavigationHorizonUpdate nodes edges) = handleHorizonUpdate h (Some (nodes, edges))"
| "on_navigation_event h (NavigationBaseIncreased nodes edges) = handleBaseIncreased h (Some (nodes, edges))"
| "on_navigation_event h (NavigationNextNode node edge) = handleNextNode h (Some (node, edge))"
| "on_navigation_event h (NavigationUpcomingSegment b e) = handleUpcomingSegment h (Some (b, e))"
| "on_navigation_event h (NavigationControl t) = handleControl h (Some (Some t))"

section \<open>Status from the user\<close>

datatype NavigationStatus =
    NavigationStatusPosition AGVPosition bool
  | NavigationStatusVelocity Velocity
  | NavigationStatusDriving bool
  | NavigationStatusNodeReached "seq_id option" "string option"
  | NavigationStatusDistanceSinceLastNode double
  | NavigationStatusControl "NavigationStatusControlType option"

text \<open>The state that the subscribers of a position work on, with the result of the event and the events dispatched.\<close>

record PositionWorld =
  pw_state :: StateWorld
  pw_result :: "bool Result"
  pw_out :: "NavigationStatus list"

type_synonym 'a nrh = "(PositionWorld, 'a) comp"

definition on_position_state :: "'a seh \<Rightarrow> 'a nrh" where
  "on_position_state m w = (case m (pw_state w) of (r, s) \<Rightarrow> (r, w\<lparr>pw_state := s\<rparr>))"

definition dispatch_navigation :: "NavigationStatus \<Rightarrow> unit nrh" where
  "dispatch_navigation e = modify (\<lambda>w. w\<lparr>pw_out := pw_out w @ [e]\<rparr>)"

definition set_result_value :: "bool \<Rightarrow> unit nrh" where
  "set_result_value v =
     bindM (gets (\<lambda>w. setValue v (pw_result w))) (\<lambda>r. bindM (liftE r) (\<lambda>x. modify (\<lambda>w. w\<lparr>pw_result := x\<rparr>)))"

lemma run_on_position_state [run_simps]: "on_position_state m w = (case m (pw_state w) of (r, s) \<Rightarrow> (r, w\<lparr>pw_state := s\<rparr>))"
  by (simp add: on_position_state_def)

section \<open>Reaching nodes\<close>

text \<open>
  \<^verbatim>\<open>NodeReachedHandler\<close>. The token is given up unset when a function throws. The goal is an element of the graph
  that \<^verbatim>\<open>currentGoal\<close> returns only when it is a node.
\<close>

definition NodeReachedHandler_position ::
  "'n NumOps \<Rightarrow> NodeReachedOptions \<Rightarrow> (AGVPosition \<times> bool) option \<Rightarrow> unit nrh" where
  "NodeReachedHandler_position ops cfg evt =
     (case evt of
        None \<Rightarrow> throw VDA5050PPInvalidEventData
      | Some (position, auto_check_node_reached) \<Rightarrow>
          if \<not> auto_check_node_reached then ret ()
          else
            bindM (gets (\<lambda>w. acquireResultToken (pw_result w))) (\<lambda>acquired.
            if \<not> acquired then ret ()
            else
              bindM (on_position_state (on_om hasGraph)) (\<lambda>has.
              if \<not> has then set_result_value False
              else
                bindM (on_position_state (on_om getCurrentGraph)) (\<lambda>g.
                bindM (liftE (currentGoal g)) (\<lambda>goal.
                case goal of
                  Some (NodeElement n) \<Rightarrow>
                    (if \<not> n_released n then set_result_value False
                     else case n_nodePosition n of
                       None \<Rightarrow> set_result_value False
                     | Some np \<Rightarrow>
                         let reached = isOnNode ops position np (default_node_deviation_xy cfg)
                               (default_node_deviation_theta cfg) (overwrite_node_deviation_xy cfg)
                               (overwrite_node_deviation_theta cfg)
                         in seqM (whenM reached (dispatch_navigation
                               (NavigationStatusNodeReached (Some (n_sequenceId n)) None)))
                             (set_result_value reached))
                | _ \<Rightarrow> set_result_value False)))))"

text \<open>
  The subscribers of a position, in the order in which the modules subscribe (that of their keys): first
  the node reached handler, then the state event handler. The first exception ends it.
\<close>

definition on_position :: "'n NumOps \<Rightarrow> NodeReachedOptions \<Rightarrow> StateConfig \<Rightarrow> AGVPosition \<Rightarrow> bool \<Rightarrow> unit nrh" where
  "on_position ops cfg scfg position auto =
     seqM (NodeReachedHandler_position ops cfg (Some (position, auto)))
       (on_position_state (handleNavigationStatusPosition scfg (Some position)))"

section \<open>The base class of a user's handler\<close>

type_synonym 'a navigation_sink = "(NavigationStatus list, 'a) comp"

definition send_navigation :: "NavigationStatus \<Rightarrow> unit navigation_sink" where
  "send_navigation e = modify (\<lambda>es. es @ [e])"

definition BaseNavigationHandler_setPaused :: "unit navigation_sink" where
  "BaseNavigationHandler_setPaused = send_navigation (NavigationStatusControl (Some ns_paused))"

definition BaseNavigationHandler_setResumed :: "unit navigation_sink" where
  "BaseNavigationHandler_setResumed = send_navigation (NavigationStatusControl (Some ns_resumed))"

definition BaseNavigationHandler_setFailed :: "unit navigation_sink" where
  "BaseNavigationHandler_setFailed = send_navigation (NavigationStatusControl (Some ns_failed))"

definition BaseNavigationHandler_setNodeReached_id :: "seq_id \<Rightarrow> unit navigation_sink" where
  "BaseNavigationHandler_setNodeReached_id node_seq = send_navigation (NavigationStatusNodeReached (Some node_seq) None)"

definition BaseNavigationHandler_setNodeReached :: "Node \<Rightarrow> unit navigation_sink" where
  "BaseNavigationHandler_setNodeReached node = BaseNavigationHandler_setNodeReached_id (n_sequenceId node)"

definition BaseNavigationHandler_setPosition :: "AGVPosition \<Rightarrow> unit navigation_sink" where
  "BaseNavigationHandler_setPosition position = send_navigation (NavigationStatusPosition position False)"

text \<open>The members of a message that the functions do not set are those of a new one.\<close>

definition position_of :: "AGVPosition \<Rightarrow> double \<Rightarrow> double \<Rightarrow> double \<Rightarrow> string \<Rightarrow> AGVPosition" where
  "position_of new x y theta map_id =
     new\<lparr>ap_x := x, ap_y := y, ap_theta := theta, mapId := map_id, ap_positionInitialized := True\<rparr>"

definition BaseNavigationHandler_setPosition_xy ::
  "AGVPosition \<Rightarrow> double \<Rightarrow> double \<Rightarrow> double \<Rightarrow> string \<Rightarrow> unit navigation_sink" where
  "BaseNavigationHandler_setPosition_xy new x y theta map_id =
     BaseNavigationHandler_setPosition (position_of new x y theta map_id)"

definition BaseNavigationHandler_setPosition_deviation ::
  "AGVPosition \<Rightarrow> double \<Rightarrow> double \<Rightarrow> double \<Rightarrow> string \<Rightarrow> double \<Rightarrow> unit navigation_sink" where
  "BaseNavigationHandler_setPosition_deviation new x y theta map_id deviation =
     BaseNavigationHandler_setPosition ((position_of new x y theta map_id)\<lparr>ap_deviationRange := Some deviation\<rparr>)"

text \<open>
  \<open>subs\<close> is what the subscribers of the event have done within the second that the caller waits for the result; a
  result that is not there by then counts as not reached. An exception of a subscriber reaches the thread of the
  manager, not the caller; with synchronous dispatching it terminates the program instead.
\<close>

definition evalPosition :: "(AGVPosition \<Rightarrow> bool \<Rightarrow> unit nrh) \<Rightarrow> AGVPosition \<Rightarrow> bool nrh" where
  "evalPosition subs position w =
     (case snd (subs position True (w\<lparr>pw_result := Live\<rparr>)) of w' \<Rightarrow>
        (case future_get (pw_result w') of
           None \<Rightarrow> (Inr False, w')
         | Some r \<Rightarrow> (r, w')))"

definition evalPosition_xy ::
  "(AGVPosition \<Rightarrow> bool \<Rightarrow> unit nrh) \<Rightarrow> AGVPosition \<Rightarrow> double \<Rightarrow> double \<Rightarrow> double \<Rightarrow> string \<Rightarrow> bool nrh" where
  "evalPosition_xy subs new x y theta map_id = evalPosition subs (position_of new x y theta map_id)"

definition evalPosition_deviation ::
  "(AGVPosition \<Rightarrow> bool \<Rightarrow> unit nrh) \<Rightarrow> AGVPosition \<Rightarrow> double \<Rightarrow> double \<Rightarrow> double \<Rightarrow> string \<Rightarrow> double \<Rightarrow> bool nrh" where
  "evalPosition_deviation subs new x y theta map_id deviation =
     evalPosition subs ((position_of new x y theta map_id)\<lparr>ap_deviationRange := Some deviation\<rparr>)"

section \<open>Navigation sink\<close>

definition NavigationSink_setPosition :: "AGVPosition \<Rightarrow> unit navigation_sink" where
  "NavigationSink_setPosition p = send_navigation (NavigationStatusPosition p False)"

definition NavigationSink_setVelocity :: "Velocity \<Rightarrow> unit navigation_sink" where
  "NavigationSink_setVelocity v = send_navigation (NavigationStatusVelocity v)"

definition NavigationSink_setDriving :: "bool \<Rightarrow> unit navigation_sink" where
  "NavigationSink_setDriving d = send_navigation (NavigationStatusDriving d)"

definition NavigationSink_setNodeReached_id :: "seq_id \<Rightarrow> unit navigation_sink" where
  "NavigationSink_setNodeReached_id i = send_navigation (NavigationStatusNodeReached (Some i) None)"

definition NavigationSink_setNodeReached :: "Node option \<Rightarrow> unit navigation_sink" where
  "NavigationSink_setNodeReached node =
     (case node of None \<Rightarrow> throw VDA5050PPNullPointer | Some n \<Rightarrow> NavigationSink_setNodeReached_id (n_sequenceId n))"

definition NavigationSink_setLastNodeId :: "string \<Rightarrow> unit navigation_sink" where
  "NavigationSink_setLastNodeId i = send_navigation (NavigationStatusNodeReached None (Some i))"

definition NavigationSink_setDistanceSinceLastNode :: "double \<Rightarrow> unit navigation_sink" where
  "NavigationSink_setDistanceSinceLastNode d = send_navigation (NavigationStatusDistanceSinceLastNode d)"

definition NavigationSink_setNavigationStatus :: "NavigationStatusControlType option \<Rightarrow> unit navigation_sink" where
  "NavigationSink_setNavigationStatus s = send_navigation (NavigationStatusControl s)"

text \<open>What the state event handler subscribes to.\<close>

fun state_on_navigation :: "StateConfig \<Rightarrow> NavigationStatus \<Rightarrow> unit seh" where
  "state_on_navigation cfg (NavigationStatusPosition p _) = handleNavigationStatusPosition cfg (Some p)"
| "state_on_navigation cfg (NavigationStatusVelocity v) = handleNavigationStatusVelocity (Some v)"
| "state_on_navigation cfg (NavigationStatusDriving d) = handleNavigationStatusDriving (Some d)"
| "state_on_navigation cfg (NavigationStatusNodeReached _ i) = handleNavigationStatusNodeReached (Some i)"
| "state_on_navigation cfg (NavigationStatusDistanceSinceLastNode d) = handleNavigationStatusDistanceSinceLastNode (Some d)"
| "state_on_navigation cfg (NavigationStatusControl _) = ret ()"

text \<open>What the order event handler subscribes to.\<close>

fun order_on_navigation :: "order_subscribers \<Rightarrow> NavigationStatus \<Rightarrow> unit oeh" where
  "order_on_navigation subs (NavigationStatusControl t) = handleNavigationControl subs (Some t)"
| "order_on_navigation subs (NavigationStatusNodeReached i _) = handleNavigationNode subs (Some i)"
| "order_on_navigation subs _ = ret ()"

section \<open>Status sink\<close>

datatype StatusEvent =
    LoadAdd Load
  | LoadRemove string
  | LoadsGet
  | LoadsAlter "Load list alter option"
  | OperatingModeSet OperatingMode
  | OperatingModeGet
  | OperatingModeAlter "(OperatingMode \<Rightarrow> exn + OperatingMode) option"
  | BatteryStateSet BatteryState
  | BatteryStateGet
  | BatteryStateAlter "BatteryState alter option"
  | RequestNewBase
  | ErrorAdd Error
  | ErrorsAlter "Error list alter option"
  | InfoAdd Info
  | InfosAlter "Info list alter option"

text \<open>The value that an event asks for, by its type.\<close>

datatype StatusValue = LoadsValue "Load list" | ModeValue OperatingMode | BatteryValue BatteryState | NoValue

definition valued :: "('a \<Rightarrow> StatusValue) \<Rightarrow> 'a seh \<Rightarrow> StatusValue seh" where
  "valued f m = bindM m (\<lambda>x. ret (f x))"

text \<open>What the state event handler subscribes to; nobody else acquires the token of a query.\<close>

fun state_on_status :: "StatusEvent \<Rightarrow> StatusValue seh" where
  "state_on_status (LoadAdd l) = valued (\<lambda>_. NoValue) (handleLoadAdd (Some l))"
| "state_on_status (LoadRemove i) = valued (\<lambda>_. NoValue) (handleLoadRemove (Some i))"
| "state_on_status LoadsGet = valued LoadsValue (handleLoadsGet (Some True))"
| "state_on_status (LoadsAlter f) = valued (\<lambda>_. NoValue) (handleLoadsAlter (Some f))"
| "state_on_status (OperatingModeSet d) = valued (\<lambda>_. NoValue) (handleOperatingModeSet (Some d))"
| "state_on_status OperatingModeGet = valued ModeValue (handleOperatingModeGet (Some True))"
| "state_on_status (OperatingModeAlter f) = valued (\<lambda>_. NoValue) (handleOperatingModeAlter (Some f))"
| "state_on_status (BatteryStateSet b) = valued (\<lambda>_. NoValue) (handleBatteryStateSet (Some b))"
| "state_on_status BatteryStateGet = valued BatteryValue (handleBatteryStateGet (Some True))"
| "state_on_status (BatteryStateAlter f) = valued (\<lambda>_. NoValue) (handleBatteryStateAlter (Some f))"
| "state_on_status RequestNewBase = valued (\<lambda>_. NoValue) (handleRequestNewBase (Some ()))"
| "state_on_status (ErrorAdd e) = valued (\<lambda>_. NoValue) (handleErrorAdd (Some e))"
| "state_on_status (ErrorsAlter f) = valued (\<lambda>_. NoValue) (handleErrorsAlter (Some f))"
| "state_on_status (InfoAdd i) = valued (\<lambda>_. NoValue) (handleInfoAdd (Some i))"
| "state_on_status (InfosAlter f) = valued (\<lambda>_. NoValue) (handleInfosAlter (Some f))"

text \<open>
  The functions of the sink, by the event they dispatch. The subscriber \<open>sub\<close> runs before the call returns or within the
  second that a query waits: its exception is not seen by the caller of a queued event, which the
  manager's thread handles. A query without a value by then throws.
\<close>

definition send_status :: "(StatusEvent \<Rightarrow> StatusValue seh) \<Rightarrow> StatusEvent \<Rightarrow> unit seh" where
  "send_status sub e = (\<lambda>w. (Inr (), snd (sub e w)))"

definition query_status :: "(StatusEvent \<Rightarrow> StatusValue seh) \<Rightarrow> StatusEvent \<Rightarrow> (StatusValue \<Rightarrow> 'a option) \<Rightarrow> 'a seh" where
  "query_status sub e f = (\<lambda>w.
     case sub e w of
       (Inr v, w') \<Rightarrow> (case f v of Some x \<Rightarrow> (Inr x, w') | None \<Rightarrow> (Inl VDA5050PPSynchronizedEventTimedOut, w'))
     | (Inl _, w') \<Rightarrow> (Inl VDA5050PPSynchronizedEventTimedOut, w'))"

definition StatusSink_addLoad :: "(StatusEvent \<Rightarrow> StatusValue seh) \<Rightarrow> Load \<Rightarrow> unit seh" where
  "StatusSink_addLoad sub l = send_status sub (LoadAdd l)"

definition StatusSink_removeLoad :: "(StatusEvent \<Rightarrow> StatusValue seh) \<Rightarrow> string \<Rightarrow> unit seh" where
  "StatusSink_removeLoad sub i = send_status sub (LoadRemove i)"

definition StatusSink_getLoads :: "(StatusEvent \<Rightarrow> StatusValue seh) \<Rightarrow> Load list seh" where
  "StatusSink_getLoads sub = query_status sub LoadsGet (\<lambda>v. case v of LoadsValue ls \<Rightarrow> Some ls | _ \<Rightarrow> None)"

definition StatusSink_alterLoads :: "(StatusEvent \<Rightarrow> StatusValue seh) \<Rightarrow> Load list alter option \<Rightarrow> unit seh" where
  "StatusSink_alterLoads sub f = send_status sub (LoadsAlter f)"

definition StatusSink_setOperatingMode :: "(StatusEvent \<Rightarrow> StatusValue seh) \<Rightarrow> OperatingMode \<Rightarrow> unit seh" where
  "StatusSink_setOperatingMode sub d = send_status sub (OperatingModeSet d)"

definition StatusSink_getOperatingMode :: "(StatusEvent \<Rightarrow> StatusValue seh) \<Rightarrow> OperatingMode seh" where
  "StatusSink_getOperatingMode sub = query_status sub OperatingModeGet (\<lambda>v. case v of ModeValue d \<Rightarrow> Some d | _ \<Rightarrow> None)"

definition StatusSink_alterOperatingMode ::
  "(StatusEvent \<Rightarrow> StatusValue seh) \<Rightarrow> (OperatingMode \<Rightarrow> exn + OperatingMode) option \<Rightarrow> unit seh" where
  "StatusSink_alterOperatingMode sub f = send_status sub (OperatingModeAlter f)"

definition StatusSink_setBatteryState :: "(StatusEvent \<Rightarrow> StatusValue seh) \<Rightarrow> BatteryState \<Rightarrow> unit seh" where
  "StatusSink_setBatteryState sub b = send_status sub (BatteryStateSet b)"

definition StatusSink_getBatteryState :: "(StatusEvent \<Rightarrow> StatusValue seh) \<Rightarrow> BatteryState seh" where
  "StatusSink_getBatteryState sub = query_status sub BatteryStateGet (\<lambda>v. case v of BatteryValue b \<Rightarrow> Some b | _ \<Rightarrow> None)"

definition StatusSink_alterBatteryState :: "(StatusEvent \<Rightarrow> StatusValue seh) \<Rightarrow> BatteryState alter option \<Rightarrow> unit seh" where
  "StatusSink_alterBatteryState sub f = send_status sub (BatteryStateAlter f)"

definition StatusSink_requestNewBase :: "(StatusEvent \<Rightarrow> StatusValue seh) \<Rightarrow> unit seh" where
  "StatusSink_requestNewBase sub = send_status sub RequestNewBase"

definition StatusSink_addError :: "(StatusEvent \<Rightarrow> StatusValue seh) \<Rightarrow> Error \<Rightarrow> unit seh" where
  "StatusSink_addError sub e = send_status sub (ErrorAdd e)"

definition StatusSink_alterErrors :: "(StatusEvent \<Rightarrow> StatusValue seh) \<Rightarrow> Error list alter option \<Rightarrow> unit seh" where
  "StatusSink_alterErrors sub f = send_status sub (ErrorsAlter f)"

definition StatusSink_addInfo :: "(StatusEvent \<Rightarrow> StatusValue seh) \<Rightarrow> Info \<Rightarrow> unit seh" where
  "StatusSink_addInfo sub i = send_status sub (InfoAdd i)"

definition StatusSink_alterInfos :: "(StatusEvent \<Rightarrow> StatusValue seh) \<Rightarrow> Info list alter option \<Rightarrow> unit seh" where
  "StatusSink_alterInfos sub f = send_status sub (InfosAlter f)"

end
