(* ===== verification/NavigationProps.thy ===== *)
theory NavigationProps
  imports NavigationHandlers StateProps Samples
begin

text \<open>
  Properties of the navigation handlers and of the sinks: when a reported position reaches a node and what
  is dispatched then, which map the state message reports, and what the queries of the status sink return.
\<close>

section \<open>Positions\<close>

lemma currentGoal_released:
  assumes "currentGoal g = Inr (Some el)"
  obtains n where "el = NodeElement n" and "n_released n"
  using assms by (auto simp: currentGoal_def split: sum.splits option.splits GraphElement.splits if_splits)

lemma position_keeps_result:
  "pw_result (snd (on_position_state m w)) = pw_result w" "pw_out (snd (on_position_state m w)) = pw_out w"
  by (simp_all add: run_simps split: prod.split)

text \<open>What the node reached handler finds out.\<close>

definition reaches_goal :: "'n NumOps \<Rightarrow> NodeReachedOptions \<Rightarrow> AGVPosition \<Rightarrow> GraphElement option \<Rightarrow> bool" where
  "reaches_goal ops cfg position goal =
     (case goal of
        Some (NodeElement n) \<Rightarrow>
          (case n_nodePosition n of
             None \<Rightarrow> False
           | Some np \<Rightarrow> isOnNode ops position np (default_node_deviation_xy cfg) (default_node_deviation_theta cfg)
               (overwrite_node_deviation_xy cfg) (overwrite_node_deviation_theta cfg))
      | _ \<Rightarrow> False)"

text \<open>The goal of the current order, if the graph can tell.\<close>

definition order_goal :: "OrderManager \<Rightarrow> exn + GraphElement option" where
  "order_goal om = (case om_graph om of None \<Rightarrow> Inr None | Some g \<Rightarrow> currentGoal g)"

definition goal_events :: "GraphElement option \<Rightarrow> NavigationStatus list" where
  "goal_events goal = (case goal of
      Some (NodeElement n) \<Rightarrow> [NavigationStatusNodeReached (Some (n_sequenceId n)) None] | _ \<Rightarrow> [])"

lemma node_reached_run:
  assumes "case om_graph (w_om (pw_state w)) of None \<Rightarrow> goal = None | Some g \<Rightarrow> currentGoal g = Inr goal"
    and "pw_result w = Live"
  shows "NodeReachedHandler_position ops cfg (Some (position, True)) w =
    (Inr (), w\<lparr>pw_out := pw_out w @ (if reaches_goal ops cfg position goal then goal_events goal else []),
               pw_result := ResultValue (reaches_goal ops cfg position goal)\<rparr>)"
proof (cases "om_graph (w_om (pw_state w))")
  case None
  then show ?thesis
    using assms by (simp add: NodeReachedHandler_position_def run_simps acquireResultToken_def hasGraph_def
        set_result_value_def setValue_def reaches_goal_def)
next
  case (Some g)
  show ?thesis
  proof (cases goal)
    case None
    then show ?thesis
      using assms Some by (simp add: NodeReachedHandler_position_def run_simps acquireResultToken_def hasGraph_def
          set_result_value_def setValue_def reaches_goal_def getCurrentGraph_def)
  next
    case (Some el)
    then obtain n where n: "el = NodeElement n" "n_released n"
      using assms(1) \<open>om_graph (w_om (pw_state w)) = Some g\<close> currentGoal_released [of g el] by auto
    then show ?thesis
      using assms Some \<open>om_graph (w_om (pw_state w)) = Some g\<close>
      by (simp add: NodeReachedHandler_position_def run_simps acquireResultToken_def hasGraph_def
          set_result_value_def setValue_def reaches_goal_def getCurrentGraph_def goal_events_def Let_def
          dispatch_navigation_def split: option.split)
  qed
qed

text \<open>C33: The verdict on a position. A position that is evaluated is a reached node exactly when the order has a next
  released node with a position and the vehicle is on it by the configured deviations; then exactly
  one event is dispatched, which reports the sequence id of that node, and otherwise none. The order's graph is not changed.
  When the goal cannot be computed, because the vehicle is at no element of the graph, the
  verdict is negative after a second, nothing is dispatched and the position never gets into the state.\<close>

theorem eval_position_verdict:
  "\<exists>w'. evalPosition (on_position ops cfg scfg) position w =
      (Inr (case order_goal (w_om (pw_state w)) of Inl _ \<Rightarrow> False | Inr goal \<Rightarrow> reaches_goal ops cfg position goal), w') \<and>
    pw_out w' = pw_out w @ (case order_goal (w_om (pw_state w)) of Inl _ \<Rightarrow> []
      | Inr goal \<Rightarrow> (if reaches_goal ops cfg position goal then goal_events goal else [])) \<and>
    w_om (pw_state w') = w_om (pw_state w) \<and>
    (case order_goal (w_om (pw_state w)) of Inl _ \<Rightarrow> pw_state w' = pw_state w
     | Inr _ \<Rightarrow> pw_state w' = snd (handleNavigationStatusPosition scfg (Some position) (pw_state w)))"
proof (cases "order_goal (w_om (pw_state w))")
  case (Inl e)
  then obtain g where g: "om_graph (w_om (pw_state w)) = Some g" "currentGoal g = Inl e"
    by (auto simp: order_goal_def split: option.splits)
  let ?w = "w\<lparr>pw_result := Live\<rparr>"
  have "on_position ops cfg scfg position True ?w = (Inl e, ?w)"
    using g by (simp add: on_position_def NodeReachedHandler_position_def run_simps acquireResultToken_def hasGraph_def
        getCurrentGraph_def)
  then show ?thesis using Inl by (simp add: evalPosition_def)
next
  case (Inr gl)
  let ?w = "w\<lparr>pw_result := Live\<rparr>"
  have "case om_graph (w_om (pw_state ?w)) of None \<Rightarrow> gl = None | Some g \<Rightarrow> currentGoal g = Inr gl"
    using Inr by (auto simp: order_goal_def split: option.splits)
  note run = node_reached_run [OF this, of ops cfg position]
  obtain r s where rs: "handleNavigationStatusPosition scfg (Some position) (pw_state w) = (r, s)" by force
  have "w_om s = w_om (pw_state w)"
    using rs by (auto simp: handleNavigationStatusPosition_def run_simps hasGraph_def getCurrentGraph_def
        setAGVPosition_def split: option.splits sum.splits if_splits)
  then show ?thesis
    using Inr run rs by (simp add: evalPosition_def on_position_def run_simps)
qed

section \<open>The map of a position\<close>

text \<open>The reported map is lost. Whatever map a vehicle reports with its position, the state that results is the
  same, although the documentation has the configured map as the one to use when none was set: the map of the order
  replaces it when that is configured and there is one, and otherwise the configured default, which is empty when it
  is not set. The node reached handler has compared the reported map with that of the node.\<close>

theorem reported_map_is_lost:
  "state_on_navigation cfg (NavigationStatusPosition (p\<lparr>mapId := m1\<rparr>) a1) w =
     state_on_navigation cfg (NavigationStatusPosition (p\<lparr>mapId := m2\<rparr>) a2) w \<and>
   (let unset = \<lparr>use_agv_position_from_order = False, default_agv_position_map = None\<rparr>
    in snd (state_on_navigation unset (NavigationStatusPosition p a1) w) =
       w\<lparr>w_sm := (w_sm w)\<lparr>agv_position := p\<lparr>mapId := []\<rparr>\<rparr>\<rparr>)"
  by (simp add: handleNavigationStatusPosition_def run_simps setAGVPosition_def hasGraph_def
      split: option.split sum.split)

section \<open>The status sink\<close>

lemmas sink_defs =
  send_status_def query_status_def valued_def handle_get_def update_if_def run_simps
  StatusSink_addLoad_def StatusSink_removeLoad_def StatusSink_getLoads_def StatusSink_alterLoads_def
  StatusSink_setOperatingMode_def StatusSink_getOperatingMode_def StatusSink_alterOperatingMode_def
  StatusSink_setBatteryState_def StatusSink_getBatteryState_def StatusSink_alterBatteryState_def
  handleLoadAdd_def handleLoadRemove_def handleLoadsGet_def handleLoadsAlter_def handleOperatingModeSet_def
  handleOperatingModeGet_def handleOperatingModeAlter_def handleBatteryStateSet_def handleBatteryStateGet_def
  handleBatteryStateAlter_def addLoad_def removeLoad_def getLoads_def loadsAlter_def setOperatingMode_def
  getOperatingMode_def operatingModeAlter_def setBatteryState_def getBatteryState_def alterBatteryState_def
  alter_member_def

text \<open>Loads, operating mode and battery state that a query of the sink returns.\<close>

definition sink_loads :: "StateWorld \<Rightarrow> Load list" where
  "sink_loads w = (case sm_loads (w_sm w) of None \<Rightarrow> [] | Some ls \<Rightarrow> ls)"

text \<open>What is put into the status sink comes back. With the state event handler serving the
  events, the queries of the sink do not time out and return the current values without changing anything; after an update they return the updated value: a load that is added
  stands at the end, a removed id is gone, a function given to an alter call has been applied. One call has no effect: altering the
  loads of a vehicle that has never had a load does not even run the function, although the same vehicle
  reports the empty list.\<close>

theorem status_sink_roundtrip:
  "StatusSink_getLoads state_on_status w = (Inr (sink_loads w), w)
   \<and> StatusSink_getOperatingMode state_on_status w = (Inr (operating_mode (w_sm w)), w)
   \<and> StatusSink_getBatteryState state_on_status w = (Inr (battery_state (w_sm w)), w)
   \<and> sink_loads (snd (StatusSink_addLoad state_on_status l w)) = sink_loads w @ [l]
   \<and> sink_loads (snd (StatusSink_removeLoad state_on_status i w)) = filter (\<lambda>x. loadId x \<noteq> Some i) (sink_loads w)
   \<and> sink_loads (snd (StatusSink_alterLoads state_on_status (Some f) w)) =
       (if sm_loads (w_sm w) = None then [] else snd (f (sink_loads w)))
   \<and> operating_mode (w_sm (snd (StatusSink_setOperatingMode state_on_status d w))) = d
   \<and> operating_mode (w_sm (snd (StatusSink_alterOperatingMode state_on_status (Some h) w))) =
       (case h (operating_mode (w_sm w)) of Inl _ \<Rightarrow> operating_mode (w_sm w) | Inr d \<Rightarrow> d)
   \<and> battery_state (w_sm (snd (StatusSink_setBatteryState state_on_status b w))) = b
   \<and> battery_state (w_sm (snd (StatusSink_alterBatteryState state_on_status (Some k) w))) =
       snd (k (battery_state (w_sm w)))"
  by (intro conjI)
    (simp_all add: sink_defs sink_loads_def Let_def split: option.split prod.split sum.split)

end
