(* ===== verification/Mqtt.thy ===== *)
theory Mqtt
  imports SubConfigs OrderChecks
begin

text \<open>
  \<^verbatim>\<open>core/messages/mqtt_module\<close>: the module between the message events and the MQTT client. The client and
  the conversion to and from JSON are third-party: the calls of the client are recorded, with what each of them does as
  an argument (\<open>net\<close>), and the reading of JSON is an argument. The functions that the client calls back are operations here.
\<close>

section \<open>Messages\<close>

text \<open>The header of a sent message, with its time.\<close>

record StampedHeader = HeaderVDA5050 +
  header_timestamp :: int

datatype ConnectionState = ONLINE | OFFLINE | CONNECTIONBROKEN

text \<open>What is sent, before it is serialized; the bodies of the large messages are opaque.\<close>

datatype 'p Payload =
    Connection_message StampedHeader ConnectionState
  | Factsheet_message StampedHeader 'p
  | State_message StampedHeader 'p
  | Visualization_message StampedHeader 'p

datatype ConnectionStatus = status_online | status_offline | status_timeout

datatype MessageErrorType = k_delivery | k_json_deserialization

datatype 'p MessageEvent =
    ReceiveOrderMessageEvent Order
  | ValidOrderMessageEvent Order
  | ReceiveInstantActionMessageEvent "Action list"
  | ValidInstantActionMessageEvent "Action list"
  | SendFactsheetMessageEvent 'p
  | SendStateMessageEvent 'p
  | SendVisualizationMessageEvent 'p
  | ConnectionChangedEvent ConnectionStatus
  | MessageErrorEvent MessageErrorType string

section \<open>State\<close>

datatype MqttState = mqtt_constructed | mqtt_initialized | mqtt_offline | mqtt_online | mqtt_error

record SslOptions =
  ssl_verify :: bool
  enable_server_cert_auth :: bool

record 'p ConnectOptions =
  mqtt_version :: nat
  clean_session :: bool
  user_name :: string
  user_password :: string
  automatic_reconnect :: "int \<times> int"
  keep_alive_interval_opt :: "int option"
  connect_timeout_opt :: "int option"
  ssl :: "SslOptions option"
  will :: "(string \<times> bool \<times> nat \<times> 'p Payload) option"

datatype 'p ClientCall =
    client_connect "'p ConnectOptions"
  | client_subscribe string nat
  | client_publish string nat bool "'p Payload"
  | client_disconnect

text \<open>\<open>client\<close> tells whether the client exists.\<close>

record 'p Mqtt =
  mqtt_state :: MqttState
  connection_seq_id :: uint32
  factsheet_seq_id :: uint32
  state_seq_id :: uint32
  visualization_seq_id :: uint32
  client :: bool
  server_address :: string
  connect_opts :: "'p ConnectOptions"
  connection_topic :: string
  factsheet_topic :: string
  instant_actions_topic :: string
  order_topic :: string
  state_topic :: string
  visualization_topic :: string
  mqtt_manufacturer :: string
  mqtt_serial_number :: string
  client_calls :: "'p ClientCall list"
  message_events :: "'p MessageEvent list"

type_synonym ('p, 'a) mq = "('p Mqtt, 'a) comp"

type_synonym 'p net = "'p ClientCall \<Rightarrow> exn + unit"

definition ConnectOptions_new :: "'p ConnectOptions" where
  "ConnectOptions_new = \<lparr>mqtt_version = 0, clean_session = True, user_name = [], user_password = [],
     automatic_reconnect = (0, 0), keep_alive_interval_opt = None, connect_timeout_opt = None, ssl = None, will = None\<rparr>"

definition MqttModule_new :: "'p Mqtt" where
  "MqttModule_new = \<lparr>mqtt_state = mqtt_constructed, connection_seq_id = 0, factsheet_seq_id = 0, state_seq_id = 0,
     visualization_seq_id = 0, client = False, server_address = [], connect_opts = ConnectOptions_new,
     connection_topic = [], factsheet_topic = [], instant_actions_topic = [], order_topic = [], state_topic = [],
     visualization_topic = [], mqtt_manufacturer = [], mqtt_serial_number = [], client_calls = [], message_events = []\<rparr>"

definition k_qos :: nat where
  "k_qos = 0"

text \<open>A call of the client, which is a null pointer before the initialization.\<close>

definition call_client :: "'p net \<Rightarrow> 'p ClientCall \<Rightarrow> ('p, unit) mq" where
  "call_client net c =
     bindM (gets client) (\<lambda>exists.
     if \<not> exists then throw UndefinedBehaviour
     else seqM (modify (\<lambda>m. m\<lparr>client_calls := client_calls m @ [c]\<rparr>)) (liftE (net c)))"

definition dispatch_message :: "'p MessageEvent \<Rightarrow> ('p, unit) mq" where
  "dispatch_message e = modify (\<lambda>m. m\<lparr>message_events := message_events m @ [e]\<rparr>)"

definition set_mqtt_state :: "MqttState \<Rightarrow> ('p, unit) mq" where
  "set_mqtt_state s = modify (\<lambda>m. m\<lparr>mqtt_state := s\<rparr>)"

section \<open>Headers\<close>

definition new_header :: "int \<Rightarrow> uint32 \<Rightarrow> 'p Mqtt \<Rightarrow> StampedHeader" where
  "new_header now i m = \<lparr>headerId = i, version = current_version,
     manufacturer = mqtt_manufacturer m, serialNumber = mqtt_serial_number m, header_timestamp = now\<rparr>"

definition fillHeaderConnection :: "int \<Rightarrow> ('p, StampedHeader) mq" where
  "fillHeaderConnection now =
     bindM (gets (\<lambda>m. new_header now (connection_seq_id m) m)) (\<lambda>h.
     seqM (modify (\<lambda>m. m\<lparr>connection_seq_id := connection_seq_id m + 1\<rparr>)) (ret h))"

definition fillHeaderFactsheet :: "int \<Rightarrow> ('p, StampedHeader) mq" where
  "fillHeaderFactsheet now =
     bindM (gets (\<lambda>m. new_header now (factsheet_seq_id m) m)) (\<lambda>h.
     seqM (modify (\<lambda>m. m\<lparr>factsheet_seq_id := factsheet_seq_id m + 1\<rparr>)) (ret h))"

definition fillHeaderState :: "int \<Rightarrow> ('p, StampedHeader) mq" where
  "fillHeaderState now =
     bindM (gets (\<lambda>m. new_header now (state_seq_id m) m)) (\<lambda>h.
     seqM (modify (\<lambda>m. m\<lparr>state_seq_id := state_seq_id m + 1\<rparr>)) (ret h))"

definition fillHeaderVisualization :: "int \<Rightarrow> ('p, StampedHeader) mq" where
  "fillHeaderVisualization now =
     bindM (gets (\<lambda>m. new_header now (visualization_seq_id m) m)) (\<lambda>h.
     seqM (modify (\<lambda>m. m\<lparr>visualization_seq_id := visualization_seq_id m + 1\<rparr>)) (ret h))"

section \<open>Options\<close>

definition getWill :: "int \<Rightarrow> ('p, string \<times> bool \<times> nat \<times> 'p Payload) mq" where
  "getWill now =
     bindM (fillHeaderConnection now) (\<lambda>h.
     bindM (gets connection_topic) (\<lambda>topic. ret (topic, True, k_qos, Connection_message h CONNECTIONBROKEN)))"

text \<open>The intervals are in milliseconds. The topics start as their common prefix.\<close>

definition useMqttOptions :: "MqttOptions \<Rightarrow> ('p, unit) mq" where
  "useMqttOptions opts = modify (\<lambda>m.
     let prefix = mqtt_interface opts @ ''/'' @ (case version_overwrite opts of None \<Rightarrow> ''v2'' | Some v \<Rightarrow> v)
     in m\<lparr>server_address := mqtt_server opts,
          connect_opts := \<lparr>mqtt_version = 4, clean_session = False,
            user_name = (case username opts of None \<Rightarrow> [] | Some u \<Rightarrow> u),
            user_password = (case password opts of None \<Rightarrow> [] | Some u \<Rightarrow> u),
            automatic_reconnect = (case min_retry_interval opts of None \<Rightarrow> 2000 | Some i \<Rightarrow> i,
              case max_retry_interval opts of None \<Rightarrow> 16000 | Some i \<Rightarrow> i),
            keep_alive_interval_opt = keep_alive_interval opts, connect_timeout_opt = connect_timeout opts,
            ssl = (if use_ssl opts then Some \<lparr>ssl_verify = enable_cert_check opts,
              enable_server_cert_auth = enable_cert_check opts\<rparr> else None),
            will = None\<rparr>,
          order_topic := prefix, connection_topic := prefix, factsheet_topic := prefix,
          visualization_topic := prefix, instant_actions_topic := prefix, state_topic := prefix\<rparr>)"

text \<open>The error handler of the SSL options.\<close>

definition ssl_error :: "('p, unit) mq" where
  "ssl_error = set_mqtt_state mqtt_error"

section \<open>Sending\<close>

definition send_message :: "'p net \<Rightarrow> ('p Mqtt \<Rightarrow> string) \<Rightarrow> bool \<Rightarrow> 'p Payload \<Rightarrow> ('p, unit) mq" where
  "send_message net topic retained p =
     bindM (gets mqtt_state) (\<lambda>s.
     if s \<noteq> mqtt_online then throw VDA5050PPMqttError
     else bindM (gets topic) (\<lambda>t. call_client net (client_publish t k_qos retained p)))"

definition MqttModule_sendState :: "'p net \<Rightarrow> StampedHeader \<Rightarrow> 'p \<Rightarrow> ('p, unit) mq" where
  "MqttModule_sendState net h x = send_message net state_topic False (State_message h x)"

definition MqttModule_sendVisualization :: "'p net \<Rightarrow> StampedHeader \<Rightarrow> 'p \<Rightarrow> ('p, unit) mq" where
  "MqttModule_sendVisualization net h x = send_message net visualization_topic False (Visualization_message h x)"

definition MqttModule_sendConnection :: "'p net \<Rightarrow> StampedHeader \<Rightarrow> ConnectionState \<Rightarrow> ('p, unit) mq" where
  "MqttModule_sendConnection net h c = send_message net connection_topic True (Connection_message h c)"

definition MqttModule_sendFactsheet :: "'p net \<Rightarrow> StampedHeader \<Rightarrow> 'p \<Rightarrow> ('p, unit) mq" where
  "MqttModule_sendFactsheet net h x = send_message net factsheet_topic True (Factsheet_message h x)"

section \<open>Callbacks of the client\<close>

definition on_failure :: "int \<Rightarrow> ('p, unit) mq" where
  "on_failure message_id =
     dispatch_message (MessageErrorEvent k_delivery (''Could not deliver message (id='' @ to_string message_id @ '')''))"

definition connected :: "'p net \<Rightarrow> int \<Rightarrow> ('p, unit) mq" where
  "connected net now =
     bindM (gets order_topic) (\<lambda>t.
     seqM (call_client net (client_subscribe t k_qos))
    (bindM (gets instant_actions_topic) (\<lambda>t.
     seqM (call_client net (client_subscribe t k_qos))
    (seqM (set_mqtt_state mqtt_online)
    (seqM (dispatch_message (ConnectionChangedEvent status_online))
    (bindM (fillHeaderConnection now) (\<lambda>h. MqttModule_sendConnection net h ONLINE)))))))"

definition connection_lost :: "('p, unit) mq" where
  "connection_lost =
     bindM (gets mqtt_state) (\<lambda>s.
     seqM (whenM (s = mqtt_online) (dispatch_message (ConnectionChangedEvent status_offline)))
       (set_mqtt_state mqtt_offline))"

text \<open>
  Reading of JSON: the text, then the message; what an exception says otherwise. A message on another topic
  leaves the event a null pointer, which the event manager dereferences.
\<close>

record 'j JsonReading =
  parse_text :: "string \<Rightarrow> string + 'j"
  parse_order :: "'j \<Rightarrow> string + Order"
  parse_instant_actions :: "'j \<Rightarrow> string + Action list"

definition parse_error :: "string \<Rightarrow> string \<Rightarrow> 'p MessageEvent" where
  "parse_error topic what = MessageErrorEvent k_json_deserialization
     (''MqttModule could not parse message on topic \"'' @ topic @ ''\" ('' @ what @ '')'')"

definition message_arrived :: "'j JsonReading \<Rightarrow> string \<Rightarrow> string \<Rightarrow> ('p, unit) mq" where
  "message_arrived js topic payload =
     bindM (gets (\<lambda>m. (order_topic m, instant_actions_topic m))) (\<lambda>(ot, it).
     let event = (case parse_text js payload of
         Inl what \<Rightarrow> Some (parse_error topic what)
       | Inr j \<Rightarrow>
           if topic = ot then
             Some (case parse_order js j of Inl what \<Rightarrow> parse_error topic what | Inr order \<Rightarrow> ReceiveOrderMessageEvent order)
           else if topic = it then
             Some (case parse_instant_actions js j of Inl what \<Rightarrow> parse_error topic what
                   | Inr ia \<Rightarrow> ReceiveInstantActionMessageEvent ia)
           else None)
     in case event of None \<Rightarrow> throw UndefinedBehaviour | Some e \<Rightarrow> dispatch_message e)"

section \<open>Connecting\<close>

definition connect :: "'p net \<Rightarrow> ('p, unit) mq" where
  "connect net =
     bindM (gets mqtt_state) (\<lambda>s.
     if s = mqtt_initialized \<or> s = mqtt_offline
     then bindM (gets connect_opts) (\<lambda>o1. call_client net (client_connect o1))
     else throw VDA5050PPMqttError)"

definition disconnect :: "'p net \<Rightarrow> int \<Rightarrow> ('p, unit) mq" where
  "disconnect net now =
     bindM (gets mqtt_state) (\<lambda>s.
     if s \<noteq> mqtt_online then throw VDA5050PPMqttError
     else
       bindM (fillHeaderConnection now) (\<lambda>h.
       seqM (MqttModule_sendConnection net h OFFLINE)
      (seqM (call_client net client_disconnect)
      (seqM (set_mqtt_state mqtt_offline)
       (dispatch_message (ConnectionChangedEvent status_offline))))))"

section \<open>Events\<close>

text \<open>The subscribers that \<^verbatim>\<open>initialize\<close> registers; the errors of the library are logged.\<close>

definition handleSendFactsheet :: "'p net \<Rightarrow> int \<Rightarrow> 'p option option \<Rightarrow> ('p, unit) mq" where
  "handleSendFactsheet net now data =
     (case data of
        Some (Some x) \<Rightarrow> bindM (fillHeaderFactsheet now) (\<lambda>h. try_log (MqttModule_sendFactsheet net h x))
      | _ \<Rightarrow> throw VDA5050PPInvalidEventData)"

definition handleSendState :: "'p net \<Rightarrow> int \<Rightarrow> 'p option option \<Rightarrow> ('p, unit) mq" where
  "handleSendState net now data =
     (case data of
        Some (Some x) \<Rightarrow> bindM (fillHeaderState now) (\<lambda>h. try_log (MqttModule_sendState net h x))
      | _ \<Rightarrow> throw VDA5050PPInvalidEventData)"

definition handleSendVisualization :: "'p net \<Rightarrow> int \<Rightarrow> 'p option option \<Rightarrow> ('p, unit) mq" where
  "handleSendVisualization net now data =
     (case data of
        Some (Some x) \<Rightarrow> bindM (fillHeaderVisualization now) (\<lambda>h. try_log (MqttModule_sendVisualization net h x))
      | _ \<Rightarrow> throw VDA5050PPInvalidEventData)"

datatype ControlMessages = type_connect | type_disconnect

text \<open>The value tells that the result of the event has been set.\<close>

definition handleControlMessages :: "'p net \<Rightarrow> int \<Rightarrow> ControlMessages option \<Rightarrow> ('p, unit) mq" where
  "handleControlMessages net now data =
     (case data of
        None \<Rightarrow> throw VDA5050PPInvalidEventData
      | Some t \<Rightarrow> if t = type_connect then connect net else disconnect net now)"

section \<open>Module\<close>

definition fill_topic :: "string \<Rightarrow> string \<Rightarrow> string \<Rightarrow> string \<Rightarrow> string" where
  "fill_topic maker serial_number str topic =
     str @ ''/'' @ maker @ ''/'' @ serial_number @ ''/'' @ topic"

definition MqttModule_initialize :: "MqttOptions \<Rightarrow> string \<Rightarrow> string \<Rightarrow> int \<Rightarrow> ('p, unit) mq" where
  "MqttModule_initialize opts maker serial_number now =
     seqM (modify (\<lambda>m. m\<lparr>connection_seq_id := 0, factsheet_seq_id := 0, state_seq_id := 0, visualization_seq_id := 0\<rparr>))
    (seqM (useMqttOptions opts)
    (seqM (modify (\<lambda>m. let fill = fill_topic maker serial_number in
       m\<lparr>mqtt_manufacturer := maker, mqtt_serial_number := serial_number,
         connection_topic := fill (connection_topic m) ''connection'',
         factsheet_topic := fill (factsheet_topic m) ''factsheet'',
         instant_actions_topic := fill (instant_actions_topic m) ''instantActions'',
         order_topic := fill (order_topic m) ''order'',
         state_topic := fill (state_topic m) ''state'',
         visualization_topic := fill (visualization_topic m) ''visualization''\<rparr>))
    (bindM (getWill now) (\<lambda>w.
     modify (\<lambda>m. m\<lparr>connect_opts := (connect_opts m)\<lparr>will := Some w\<rparr>, client := True,
       mqtt_state := mqtt_initialized\<rparr>)))))"

definition MqttModule_deinitialize :: "('p, unit) mq" where
  "MqttModule_deinitialize = modify (\<lambda>m. m\<lparr>client := False, mqtt_state := mqtt_constructed\<rparr>)"

section \<open>Runs\<close>

text \<open>
  What can happen to the module while it is initialized: the subscribed events and the callbacks of its client,
  each with what the client does on the calls and with the time.
\<close>

datatype ('j, 'p) MqttStep =
    Step_control ControlMessages
  | Step_factsheet 'p
  | Step_state 'p
  | Step_visualization 'p
  | Step_connected
  | Step_connection_lost
  | Step_failure int
  | Step_ssl_error
  | Step_arrived "'j JsonReading" string string

fun mqtt_step :: "'p net \<Rightarrow> int \<Rightarrow> ('j, 'p) MqttStep \<Rightarrow> ('p, unit) mq" where
  "mqtt_step net now (Step_control t) = handleControlMessages net now (Some t)"
| "mqtt_step net now (Step_factsheet x) = handleSendFactsheet net now (Some (Some x))"
| "mqtt_step net now (Step_state x) = handleSendState net now (Some (Some x))"
| "mqtt_step net now (Step_visualization x) = handleSendVisualization net now (Some (Some x))"
| "mqtt_step net now Step_connected = connected net now"
| "mqtt_step net now Step_connection_lost = connection_lost"
| "mqtt_step net now (Step_failure i) = on_failure i"
| "mqtt_step net now Step_ssl_error = ssl_error"
| "mqtt_step net now (Step_arrived js topic payload) = message_arrived js topic payload"

text \<open>An exception leaves the handler; the module goes on with the state it has by then.\<close>

fun mqtt_run :: "('p net \<times> int \<times> ('j, 'p) MqttStep) list \<Rightarrow> 'p Mqtt \<Rightarrow> 'p Mqtt" where
  "mqtt_run [] m = m"
| "mqtt_run ((net, now, s) # ss) m = mqtt_run ss (snd (mqtt_step net now s m))"

end
