(* ===== verification/MqttProps.thy ===== *)
theory MqttProps
  imports Mqtt
begin

text \<open>
  Properties of the MQTT module: it never uses a missing client, the ids of what it publishes increase, what it tells
  about its connection is true, and what becomes of it when the broker cannot be reached.
\<close>

section \<open>Steps\<close>

lemma run_call_client [run_simps]:
  "call_client net c m = (if client m then (net c, m\<lparr>client_calls := client_calls m @ [c]\<rparr>) else (Inl UndefinedBehaviour, m))"
  by (simp add: call_client_def run_simps)

lemma run_dispatch_message [run_simps]: "dispatch_message e m = (Inr (), m\<lparr>message_events := message_events m @ [e]\<rparr>)"
  by (simp add: dispatch_message_def run_simps)

lemma run_set_mqtt_state [run_simps]: "set_mqtt_state s m = (Inr (), m\<lparr>mqtt_state := s\<rparr>)"
  by (simp add: set_mqtt_state_def run_simps)

lemmas fill_defs = fillHeaderConnection_def fillHeaderFactsheet_def fillHeaderState_def fillHeaderVisualization_def

lemmas send_defs = MqttModule_sendState_def MqttModule_sendVisualization_def MqttModule_sendConnection_def MqttModule_sendFactsheet_def send_message_def

lemmas step_defs =
  handleControlMessages_def handleSendFactsheet_def handleSendState_def handleSendVisualization_def connected_def
  connection_lost_def on_failure_def ssl_error_def message_arrived_def connect_def disconnect_def try_log_def

definition initialized :: "MqttOptions \<Rightarrow> string \<Rightarrow> string \<Rightarrow> int \<Rightarrow> 'p Mqtt \<Rightarrow> 'p Mqtt" where
  "initialized opts maker serial now m = snd (MqttModule_initialize opts maker serial now m)"

lemmas initialize_defs =
  initialized_def MqttModule_initialize_def useMqttOptions_def getWill_def fill_defs run_simps Let_def

text \<open>The client and the topics stay.\<close>

definition ready :: "'p Mqtt \<Rightarrow> bool" where
  "ready m \<longleftrightarrow> client m \<and> mqtt_state m \<noteq> mqtt_constructed"

lemma ready_initialized: "ready (initialized opts maker serial now m)"
  by (simp add: ready_def initialize_defs)

lemma step_frame:
  assumes "ready m"
  shows "ready (snd (mqtt_step net now s m))" and "order_topic (snd (mqtt_step net now s m)) = order_topic m"
    and "instant_actions_topic (snd (mqtt_step net now s m)) = instant_actions_topic m"
  using assms
  by (cases s; auto simp: ready_def step_defs send_defs fill_defs run_simps Let_def split: sum.split option.split)+

lemma run_frame:
  assumes "ready m"
  shows "ready (mqtt_run ss m) \<and> order_topic (mqtt_run ss m) = order_topic m \<and>
    instant_actions_topic (mqtt_run ss m) = instant_actions_topic m"
  using assms
proof (induction ss arbitrary: m)
  case (Cons x ss)
  obtain net now s where "x = (net, now, s)" by (cases x) auto
  then show ?case using Cons.IH [OF step_frame(1) [OF Cons.prems, of net now s]] step_frame [OF Cons.prems, of net now s]
    by simp
qed simp

text \<open>C34: The module never uses a missing client. However the client and the library call it after its initialization, the only
  undefined behaviour of its own is the one that a message on a foreign topic causes: when the text of the message
  can be parsed and its topic is neither the order nor the instant actions topic, the module hands a null
  pointer to the event manager, which dereferences it.\<close>

theorem mqtt_undefined_only_on_foreign_topic:
  assumes "m = mqtt_run ss (initialized opts maker serial t0 m0)" and "\<forall>c. net c \<noteq> Inl UndefinedBehaviour"
  shows "fst (mqtt_step net now s m) = Inl UndefinedBehaviour \<longleftrightarrow>
    (\<exists>js topic payload j. s = Step_arrived js topic payload \<and> parse_text js payload = Inr j \<and>
       topic \<noteq> order_topic (initialized opts maker serial t0 m0) \<and>
       topic \<noteq> instant_actions_topic (initialized opts maker serial t0 m0))"
proof -
  have "ready m" and topics: "order_topic m = order_topic (initialized opts maker serial t0 m0)"
    "instant_actions_topic m = instant_actions_topic (initialized opts maker serial t0 m0)"
    using run_frame [OF ready_initialized, of ss opts maker serial t0 m0] assms(1) by auto
  then have client: "client m" by (simp add: ready_def)
  have no_ub: "net c = Inl UndefinedBehaviour \<longleftrightarrow> False" for c using assms(2) by simp
  show ?thesis
    using client topics
    by (cases s) (auto simp: step_defs send_defs fill_defs run_simps Let_def no_ub is_VDA5050PPError_def
        split: sum.splits option.splits if_splits)
qed

text \<open>A module without a client is ready for nothing; the witness receives a message that another topic has kept.\<close>

definition sample_mqtt_options :: MqttOptions where
  "sample_mqtt_options = \<lparr>username = None, password = None, version_overwrite = None, mqtt_server = ''tcp://localhost:1883'',
     mqtt_interface = ''uagv'', enable_cert_check = False, use_ssl = False, min_retry_interval = None,
     max_retry_interval = None, keep_alive_interval = None, connect_timeout = None\<rparr>"

definition sample_mqtt :: "string Mqtt" where
  "sample_mqtt = initialized sample_mqtt_options ''m'' ''s'' 0 MqttModule_new"

definition sample_json :: "string JsonReading" where
  "sample_json = \<lparr>parse_text = Inr, parse_order = Inl, parse_instant_actions = Inl\<rparr>"

theorem mqtt_undefined_only_on_foreign_topic_witness:
  "fst (mqtt_step (\<lambda>_. Inr ()) 0 (Step_arrived sample_json ''uagv/v1/m/s/order'' ''{}'') sample_mqtt) =
    Inl UndefinedBehaviour"
  using mqtt_undefined_only_on_foreign_topic [where ss = "[]" and m = sample_mqtt and net = "\<lambda>_. Inr ()" and now = 0
      and s = "Step_arrived sample_json ''uagv/v1/m/s/order'' ''{}''" and opts = sample_mqtt_options and maker = "''m''"
      and serial = "''s''" and ?t0.0 = 0 and ?m0.0 = MqttModule_new]
  by (simp add: sample_mqtt_def sample_json_def) (simp add: initialize_defs sample_mqtt_options_def fill_topic_def)

section \<open>Header ids\<close>

datatype MessageKind = connection_kind | factsheet_kind | state_kind | visualization_kind

fun kind_of :: "'p Payload \<Rightarrow> MessageKind" where
  "kind_of (Connection_message _ _) = connection_kind"
| "kind_of (Factsheet_message _ _) = factsheet_kind"
| "kind_of (State_message _ _) = state_kind"
| "kind_of (Visualization_message _ _) = visualization_kind"

fun header_of :: "'p Payload \<Rightarrow> StampedHeader" where
  "header_of (Connection_message h _) = h"
| "header_of (Factsheet_message h _) = h"
| "header_of (State_message h _) = h"
| "header_of (Visualization_message h _) = h"

fun seq_of :: "MessageKind \<Rightarrow> 'p Mqtt \<Rightarrow> uint32" where
  "seq_of connection_kind m = connection_seq_id m"
| "seq_of factsheet_kind m = factsheet_seq_id m"
| "seq_of state_kind m = state_seq_id m"
| "seq_of visualization_kind m = visualization_seq_id m"

fun ids_in :: "MessageKind \<Rightarrow> 'p ClientCall list \<Rightarrow> uint32 list" where
  "ids_in k [] = []"
| "ids_in k (client_publish _ _ _ p # cs) = (if kind_of p = k then headerId (header_of p) # ids_in k cs else ids_in k cs)"
| "ids_in k (_ # cs) = ids_in k cs"

lemma ids_in_append [simp]: "ids_in k (cs @ ds) = ids_in k cs @ ids_in k ds"
  by (induction k cs rule: ids_in.induct) simp_all

text \<open>The ids of the messages of a kind that have been given to the client.\<close>

definition published :: "MessageKind \<Rightarrow> 'p Mqtt \<Rightarrow> uint32 list" where
  "published k m = ids_in k (client_calls m)"

lemma step_ids:
  shows "(seq_of k (snd (mqtt_step net now s m)) = seq_of k m \<and> published k (snd (mqtt_step net now s m)) = published k m) \<or>
    (seq_of k (snd (mqtt_step net now s m)) = seq_of k m + 1 \<and>
     published k (snd (mqtt_step net now s m)) \<in> {published k m, published k m @ [seq_of k m]})"
  by (cases s; cases k)
    (auto simp: published_def step_defs send_defs fill_defs run_simps Let_def new_header_def
      split: sum.split option.split)

definition ids_inv :: "nat \<Rightarrow> 'p Mqtt \<Rightarrow> bool" where
  "ids_inv n m \<longleftrightarrow> (\<forall>k. unat (seq_of k m) \<le> n \<and> sorted_wrt (<) (published k m) \<and>
     (\<forall>i \<in> set (published k m). i < seq_of k m))"

lemma ids_inv_step:
  assumes "ids_inv n m" and "Suc n < 2 ^ 32"
  shows "ids_inv (Suc n) (snd (mqtt_step net now s m))"
  unfolding ids_inv_def
proof
  fix k
  let ?m = "snd (mqtt_step net now s m)"
  have old: "unat (seq_of k m) \<le> n" "sorted_wrt (<) (published k m)" "\<forall>i \<in> set (published k m). i < seq_of k m"
    using assms(1) by (simp_all add: ids_inv_def)
  have succ: "unat (seq_of k m + 1) = Suc (unat (seq_of k m))"
    using old(1) assms(2) by (simp add: unat_word_ariths)
  then have "seq_of k m < seq_of k m + 1" by (simp add: word_less_nat_alt)
  moreover from this have "i < seq_of k m + 1" if "i < seq_of k m" for i using that by (rule less_trans [rotated])
  ultimately show "unat (seq_of k ?m) \<le> Suc n \<and> sorted_wrt (<) (published k ?m) \<and> (\<forall>i \<in> set (published k ?m). i < seq_of k ?m)"
    using step_ids [of k net now s m] old succ by (auto simp: sorted_wrt_append)
qed

lemma ids_inv_run: "ids_inv n m \<Longrightarrow> n + length ss < 2 ^ 32 \<Longrightarrow> ids_inv (n + length ss) (mqtt_run ss m)"
proof (induction ss arbitrary: n m)
  case (Cons x ss)
  obtain net now s where "x = (net, now, s)" by (cases x) auto
  then show ?case using Cons.IH [OF ids_inv_step [OF Cons.prems(1), of net now s]] Cons.prems(2) by simp
qed simp

text \<open>C35: Header ids increase. As long as fewer than about four billion events have passed since the initialization, the ids
  of the messages that the module gives to its client strictly increase for every kind of message, whatever happens to the
  connection in between; the will, which the broker sends when the connection breaks, has the id 0, which no
  message of the connection topic has.\<close>

theorem header_ids_increase:
  assumes "length ss < 2 ^ 32 - 1" and "client_calls m0 = []"
  shows "sorted_wrt (<) (published k (mqtt_run ss (initialized opts maker serial now m0))) \<and>
    0 \<notin> set (published connection_kind (mqtt_run ss (initialized opts maker serial now m0))) \<and>
    map_option (\<lambda>(_, _, _, p). headerId (header_of p)) (will (connect_opts (initialized opts maker serial now m0))) = Some 0"
proof -
  let ?m = "initialized opts maker serial now m0"
  have none: "published j ?m = []" for j using assms(2) by (simp add: published_def initialize_defs)
  have seq: "seq_of j ?m = (if j = connection_kind then 1 else 0)" for j by (cases j) (simp_all add: initialize_defs)
  have "ids_inv 1 ?m" by (simp add: ids_inv_def none seq)
  then have "ids_inv (1 + length ss) (mqtt_run ss ?m)" using assms(1) by (intro ids_inv_run) simp_all
  then have "sorted_wrt (<) (published k (mqtt_run ss ?m))" by (simp add: ids_inv_def)
  moreover have "0 \<notin> set (published connection_kind (mqtt_run ss m)) \<and> 0 < unat (seq_of connection_kind (mqtt_run ss m))"
    if "0 \<notin> set (published connection_kind m)" "0 < unat (seq_of connection_kind m)"
      "unat (seq_of connection_kind m) + length ss < 2 ^ 32" for m :: "'a Mqtt"
    using that
  proof (induction ss arbitrary: m)
    case (Cons x ss)
    obtain net now s where x: "x = (net, now, s)" by (cases x) auto
    have "unat (seq_of connection_kind m + 1) = Suc (unat (seq_of connection_kind m))"
      using Cons.prems(3) by (simp add: unat_word_ariths)
    moreover have "seq_of connection_kind m \<noteq> 0" using Cons.prems(2) by auto
    ultimately show ?case
      using Cons.IH [of "snd (mqtt_step net now s m)"] step_ids [of connection_kind net now s m] Cons.prems x by auto
  qed simp
  then have "0 \<notin> set (published connection_kind (mqtt_run ss ?m))"
    using assms(1) none [of connection_kind] seq [of connection_kind] by simp
  moreover have "map_option (\<lambda>(_, _, _, p). headerId (header_of p)) (will (connect_opts ?m)) = Some 0"
    by (simp add: initialize_defs new_header_def)
  ultimately show ?thesis by blast
qed

theorem header_ids_increase_witness:
  "sorted_wrt (<) (published state_kind (mqtt_run [(\<lambda>_. Inr (), 0, Step_state ''a''), (\<lambda>_. Inr (), 1, Step_connected),
     (\<lambda>_. Inr (), 2, Step_state ''b''), (\<lambda>_. Inr (), 3, Step_state ''c'')] sample_mqtt)) \<and>
   published state_kind (mqtt_run [(\<lambda>_. Inr (), 0, Step_state ''a''), (\<lambda>_. Inr (), 1, Step_connected),
     (\<lambda>_. Inr (), 2, Step_state ''b''), (\<lambda>_. Inr (), 3, Step_state ''c'')] sample_mqtt) = [1, 2]"
proof -
  let ?ss = "[(\<lambda>_. Inr (), 0, Step_state ''a''), (\<lambda>_. Inr (), 1, Step_connected),
     (\<lambda>_. Inr (), 2, Step_state ''b''), (\<lambda>_. Inr (), 3, Step_state ''c'')] :: (string net \<times> int \<times> (unit, string) MqttStep) list"
  have "published state_kind (mqtt_run ?ss sample_mqtt) = [1, 2]"
    by (simp add: sample_mqtt_def published_def initialize_defs MqttModule_new_def step_defs send_defs new_header_def
        is_VDA5050PPError_def)
  moreover have "sorted_wrt (<) (published state_kind (mqtt_run ?ss sample_mqtt))"
    using header_ids_increase [where ss = ?ss and k = state_kind and opts = sample_mqtt_options and maker = "''m''"
        and serial = "''s''" and now = 0 and ?m0.0 = MqttModule_new]
    by (simp add: sample_mqtt_def MqttModule_new_def)
  ultimately show ?thesis by simp
qed

section \<open>Announcing the connection\<close>

text \<open>What an observer of the events knows; nothing counts as offline.\<close>

definition announced :: "'p MessageEvent list \<Rightarrow> bool" where
  "announced es = fold (\<lambda>e b. case e of ConnectionChangedEvent s \<Rightarrow> s = status_online | _ \<Rightarrow> b) es False"

lemma announced_append [simp]:
  "announced (es @ [e]) = (case e of ConnectionChangedEvent s \<Rightarrow> s = status_online | _ \<Rightarrow> announced es)"
  by (cases e) (simp_all add: announced_def)

lemma announced_step:
  assumes "s \<noteq> Step_ssl_error" and "announced (message_events m) \<longleftrightarrow> mqtt_state m = mqtt_online"
  shows "announced (message_events (snd (mqtt_step net now s m))) \<longleftrightarrow> mqtt_state (snd (mqtt_step net now s m)) = mqtt_online"
  using assms
  by (cases s) (auto simp: step_defs send_defs fill_defs run_simps Let_def parse_error_def split: sum.split option.split)

lemma announced_run:
  assumes "\<forall>(net, now, s) \<in> set ss. s \<noteq> Step_ssl_error" and "announced (message_events m) \<longleftrightarrow> mqtt_state m = mqtt_online"
  shows "announced (message_events (mqtt_run ss m)) \<longleftrightarrow> mqtt_state (mqtt_run ss m) = mqtt_online"
  using assms
proof (induction ss arbitrary: m)
  case (Cons x ss)
  obtain net now s where "x = (net, now, s)" by (cases x) auto
  then show ?case using Cons.IH [OF _ announced_step [of s m net now]] Cons.prems by auto
qed simp

text \<open>C36: The announced connection is the true one, unless SSL fails. As long as the client reports no SSL error, the last
  announcement of a connection change says online exactly when the module is online and hence sends, whichever calls of
  the client fail. After an SSL error while online nobody is told: the module sends no more, and not even the loss of the
  connection is announced any more.\<close>

theorem announced_connection_is_true:
  assumes "\<forall>(net, now, s) \<in> set ss. s \<noteq> Step_ssl_error" and "message_events m0 = []"
  shows "(announced (message_events (mqtt_run ss (initialized opts maker serial t0 m0))) \<longleftrightarrow>
      mqtt_state (mqtt_run ss (initialized opts maker serial t0 m0)) = mqtt_online) \<and>
    (let m = mqtt_run ss (initialized opts maker serial t0 m0);
         m' = mqtt_run [(net, now, Step_ssl_error), (net, now', Step_connection_lost)] m
     in mqtt_state m' = mqtt_offline \<and> message_events m' = message_events m)"
proof -
  have "message_events (initialized opts maker serial t0 m0) = message_events m0"
    "mqtt_state (initialized opts maker serial t0 m0) = mqtt_initialized"
    by (simp_all add: initialize_defs)
  then have "announced (message_events (initialized opts maker serial t0 m0)) \<longleftrightarrow>
      mqtt_state (initialized opts maker serial t0 m0) = mqtt_online"
    using assms(2) by (simp add: announced_def)
  from announced_run [OF assms(1) this] show ?thesis by (simp add: step_defs run_simps Let_def)
qed

theorem announced_connection_is_true_witness:
  "announced (message_events (mqtt_run [(\<lambda>_. Inr (), 0, Step_control type_connect), (\<lambda>_. Inr (), 1, Step_connected)] sample_mqtt))"
proof -
  let ?ss = "[(\<lambda>_. Inr (), 0, Step_control type_connect), (\<lambda>_. Inr (), 1, Step_connected)]
    :: (string net \<times> int \<times> (unit, string) MqttStep) list"
  have "mqtt_state (mqtt_run ?ss sample_mqtt) = mqtt_online"
    by (simp add: sample_mqtt_def initialize_defs MqttModule_new_def step_defs send_defs new_header_def)
  then show ?thesis
    using announced_connection_is_true [where ss = ?ss and opts = sample_mqtt_options and maker = "''m''"
        and serial = "''s''" and ?t0.0 = 0 and ?m0.0 = MqttModule_new and net = "\<lambda>_. Inr ()"]
    by (simp add: sample_mqtt_def MqttModule_new_def)
qed

section \<open>Without a connection\<close>

text \<open>A module that is not online makes no call of its client until it is connected or asked to connect; every state
  message it is given is dropped, although it takes a header id.\<close>

fun state_messages :: "('p net \<times> int \<times> ('j, 'p) MqttStep) list \<Rightarrow> nat" where
  "state_messages [] = 0"
| "state_messages ((_, _, s) # ss) = (case s of Step_state _ \<Rightarrow> 1 | _ \<Rightarrow> 0) + state_messages ss"

lemma offline_step:
  assumes "mqtt_state m \<noteq> mqtt_online" and "s \<noteq> Step_connected" and "s \<noteq> Step_control type_connect"
  shows "mqtt_state (snd (mqtt_step net now s m)) \<noteq> mqtt_online"
    and "client_calls (snd (mqtt_step net now s m)) = client_calls m"
    and "state_seq_id (snd (mqtt_step net now s m)) = state_seq_id m + (case s of Step_state _ \<Rightarrow> 1 | _ \<Rightarrow> 0)"
  using assms
  by (cases s; auto simp: step_defs send_defs fill_defs run_simps Let_def intro: ControlMessages.exhaust
      split: sum.split option.split)+

lemma offline_run:
  assumes "mqtt_state m \<noteq> mqtt_online" and "\<forall>(net, now, s) \<in> set ss. s \<noteq> Step_connected \<and> s \<noteq> Step_control type_connect"
  shows "mqtt_state (mqtt_run ss m) \<noteq> mqtt_online \<and> client_calls (mqtt_run ss m) = client_calls m \<and>
    state_seq_id (mqtt_run ss m) = state_seq_id m + of_nat (state_messages ss)"
  using assms
proof (induction ss arbitrary: m)
  case (Cons x ss)
  obtain net now s where x: "x = (net, now, s)" by (cases x) auto
  then have s: "s \<noteq> Step_connected" "s \<noteq> Step_control type_connect" using Cons.prems(2) by auto
  note step = offline_step [OF Cons.prems(1) s, of net now]
  show ?case using Cons.IH [OF step(1)] Cons.prems(2) step x by (auto split: MqttStep.split)
qed simp

end
