(* ===== verification/Observers.thy ===== *)
theory Observers
  imports MqttProps StateProps
begin

text \<open>
  \<^verbatim>\<open>observer/message_observer\<close> and \<^verbatim>\<open>observer/order_observer\<close>: what a user can ask about the messages and the order, and
  the callbacks a user registers. A callback is known by a number, and its calls are recorded. The callbacks that keep
  the members up to date are registered by the constructor, hence called before those of the user.
\<close>

section \<open>Messages\<close>

datatype MessageCallback =
    onValidOrderMessage_cb nat
  | onValidInstantActionsMessage_cb nat
  | onSentFactsheetMessage_cb nat
  | onSentStateMessage_cb nat
  | onSentVisualizationMessage_cb nat
  | onConnectionChanged_cb nat
  | onMessageError_cb nat

record 'p MessageObserver =
  received_order_messages :: uint32
  received_instant_actions_messages :: uint32
  sent_factsheet_messages :: uint32
  sent_state_messages :: uint32
  sent_visualization_messages :: uint32
  observed_errors :: uint32
  last_error_message :: "(MessageErrorType \<times> string) option"
  observed_connection :: "ConnectionStatus option"
  message_callbacks :: "MessageCallback list"
  message_calls :: "(nat \<times> 'p MessageEvent) list"

definition MessageObserver_new :: "'p MessageObserver" where
  "MessageObserver_new = \<lparr>received_order_messages = 0, received_instant_actions_messages = 0, sent_factsheet_messages = 0,
     sent_state_messages = 0, sent_visualization_messages = 0, observed_errors = 0, last_error_message = None,
     observed_connection = None, message_callbacks = [], message_calls = []\<rparr>"

text \<open>The callbacks of the constructor.\<close>

fun count_message :: "'p MessageEvent \<Rightarrow> 'p MessageObserver \<Rightarrow> 'p MessageObserver" where
  "count_message (ValidOrderMessageEvent _) ob = ob\<lparr>received_order_messages := received_order_messages ob + 1\<rparr>"
| "count_message (ValidInstantActionMessageEvent _) ob =
     ob\<lparr>received_instant_actions_messages := received_instant_actions_messages ob + 1\<rparr>"
| "count_message (SendFactsheetMessageEvent _) ob = ob\<lparr>sent_factsheet_messages := sent_factsheet_messages ob + 1\<rparr>"
| "count_message (SendStateMessageEvent _) ob = ob\<lparr>sent_state_messages := sent_state_messages ob + 1\<rparr>"
| "count_message (SendVisualizationMessageEvent _) ob =
     ob\<lparr>sent_visualization_messages := sent_visualization_messages ob + 1\<rparr>"
| "count_message (ConnectionChangedEvent s) ob = ob\<lparr>observed_connection := Some s\<rparr>"
| "count_message (MessageErrorEvent t d) ob =
     ob\<lparr>observed_errors := observed_errors ob + 1, last_error_message := Some (t, d)\<rparr>"
| "count_message _ ob = ob"

text \<open>A user's callback that is called for an event.\<close>

fun called_for :: "'p MessageEvent \<Rightarrow> MessageCallback \<Rightarrow> nat list" where
  "called_for (ValidOrderMessageEvent _) (onValidOrderMessage_cb i) = [i]"
| "called_for (ValidInstantActionMessageEvent _) (onValidInstantActionsMessage_cb i) = [i]"
| "called_for (SendFactsheetMessageEvent _) (onSentFactsheetMessage_cb i) = [i]"
| "called_for (SendStateMessageEvent _) (onSentStateMessage_cb i) = [i]"
| "called_for (SendVisualizationMessageEvent _) (onSentVisualizationMessage_cb i) = [i]"
| "called_for (ConnectionChangedEvent _) (onConnectionChanged_cb i) = [i]"
| "called_for (MessageErrorEvent _ _) (onMessageError_cb i) = [i]"
| "called_for _ _ = []"

definition observe_message :: "'p MessageEvent \<Rightarrow> 'p MessageObserver \<Rightarrow> 'p MessageObserver" where
  "observe_message e ob =
     (let ob' = count_message e ob
      in ob'\<lparr>message_calls := message_calls ob' @ map (\<lambda>i. (i, e)) (concat (map (called_for e) (message_callbacks ob')))\<rparr>)"

definition register_message_callback :: "MessageCallback \<Rightarrow> 'p MessageObserver \<Rightarrow> 'p MessageObserver" where
  "register_message_callback cb ob = ob\<lparr>message_callbacks := message_callbacks ob @ [cb]\<rparr>"

definition getReceivedOrderMessages :: "'p MessageObserver \<Rightarrow> uint32" where
  "getReceivedOrderMessages = received_order_messages"

definition getReceivedInstantActionsMessages :: "'p MessageObserver \<Rightarrow> uint32" where
  "getReceivedInstantActionsMessages = received_instant_actions_messages"

definition getSentFactsheetMessages :: "'p MessageObserver \<Rightarrow> uint32" where
  "getSentFactsheetMessages = sent_factsheet_messages"

definition getSentStateMessages :: "'p MessageObserver \<Rightarrow> uint32" where
  "getSentStateMessages = sent_state_messages"

definition getSentVisualizationMessages :: "'p MessageObserver \<Rightarrow> uint32" where
  "getSentVisualizationMessages = sent_visualization_messages"

definition getErrors :: "'p MessageObserver \<Rightarrow> uint32" where
  "getErrors = observed_errors"

definition getLastError :: "'p MessageObserver \<Rightarrow> (MessageErrorType \<times> string) option" where
  "getLastError = last_error_message"

definition getConnectionStatus :: "'p MessageObserver \<Rightarrow> ConnectionStatus option" where
  "getConnectionStatus = observed_connection"

lemmas observer_getters = getReceivedOrderMessages_def getReceivedInstantActionsMessages_def getSentFactsheetMessages_def
  getSentStateMessages_def getSentVisualizationMessages_def getErrors_def getLastError_def getConnectionStatus_def

section \<open>Orders\<close>

datatype OrderCallback =
    onOrderStatusChanged_cb nat
  | onActionStatusChanged_cb string nat
  | onLastNodeIdChanged_cb nat

record OrderObserver =
  oo_last_node_id :: "string option"
  oo_last_seq_id :: "seq_id option"
  oo_action_status :: "(string, ActionStatus) std_map"
  oo_order_status :: "OrderStatus option"
  order_callbacks :: "OrderCallback list"
  order_calls :: "(nat \<times> OrderEvent) list"

definition OrderObserver_new :: OrderObserver where
  "OrderObserver_new = \<lparr>oo_last_node_id = None, oo_last_seq_id = None, oo_action_status = [], oo_order_status = None,
     order_callbacks = [], order_calls = []\<rparr>"

fun note_order :: "OrderEvent \<Rightarrow> OrderObserver \<Rightarrow> OrderObserver" where
  "note_order (OrderNewLastNodeId i seq) ob = ob\<lparr>oo_last_node_id := Some i, oo_last_seq_id := Some seq\<rparr>"
| "note_order (OrderActionStatusChanged i s _) ob = ob\<lparr>oo_action_status := insert_or_assign i s (oo_action_status ob)\<rparr>"
| "note_order (OrderStatusEvent s) ob = ob\<lparr>oo_order_status := Some s\<rparr>"
| "note_order (OrderClearAfterCancel _) ob = ob"

fun order_called_for :: "OrderEvent \<Rightarrow> OrderCallback \<Rightarrow> nat list" where
  "order_called_for (OrderStatusEvent _) (onOrderStatusChanged_cb n) = [n]"
| "order_called_for (OrderActionStatusChanged i _ _) (onActionStatusChanged_cb j n) = (if j = i then [n] else [])"
| "order_called_for (OrderNewLastNodeId _ _) (onLastNodeIdChanged_cb n) = [n]"
| "order_called_for _ _ = []"

definition observe_order :: "OrderEvent \<Rightarrow> OrderObserver \<Rightarrow> OrderObserver" where
  "observe_order e ob =
     (let ob' = note_order e ob
      in ob'\<lparr>order_calls := order_calls ob' @ map (\<lambda>i. (i, e)) (concat (map (order_called_for e) (order_callbacks ob')))\<rparr>)"

definition register_order_callback :: "OrderCallback \<Rightarrow> OrderObserver \<Rightarrow> OrderObserver" where
  "register_order_callback cb ob = ob\<lparr>order_callbacks := order_callbacks ob @ [cb]\<rparr>"

definition OrderObserver_getLastNode :: "OrderObserver \<Rightarrow> (string \<times> seq_id) option" where
  "OrderObserver_getLastNode ob =
     (case (oo_last_node_id ob, oo_last_seq_id ob) of (Some i, Some s) \<Rightarrow> Some (i, s) | _ \<Rightarrow> None)"

definition OrderObserver_getActionStatus :: "string \<Rightarrow> OrderObserver \<Rightarrow> ActionStatus option" where
  "OrderObserver_getActionStatus i ob = map_of (oo_action_status ob) i"

definition OrderObserver_getOrderStatus :: "OrderObserver \<Rightarrow> OrderStatus option" where
  "OrderObserver_getOrderStatus ob = oo_order_status ob"

section \<open>The order observer and the state\<close>

text \<open>
  Both subscribe to the events of the order. What the observer answers agrees with the state message where both know
  something.
\<close>

definition observer_agrees :: "OrderObserver \<Rightarrow> OrderManager \<Rightarrow> bool" where
  "observer_agrees ob om \<longleftrightarrow>
     (\<forall>i s. OrderObserver_getActionStatus i ob = Some s \<longrightarrow>
        s \<noteq> WAITING \<and> (case map_of (action_state_by_id om) i of None \<Rightarrow> True | Some st \<Rightarrow> as_actionStatus st = s)) \<and>
     (case OrderObserver_getOrderStatus ob of None \<Rightarrow> True | Some s \<Rightarrow> order_status om = s)"

text \<open>An event of the order goes to the observer and to the state; the other events that change the state,
  among them those with which the interpreter clears the actions and adds new ones, only to the state.\<close>

fun both_observe :: "StateInput \<Rightarrow> OrderObserver \<times> StateWorld \<Rightarrow> OrderObserver \<times> StateWorld" where
  "both_observe (OrderInput e) (ob, w) = (observe_order e ob, state_exec (OrderInput e) w)"
| "both_observe p (ob, w) = (ob, state_exec p w)"

text \<open>No event reports an action as waiting, and the observer has no status of an action that is new.\<close>

fun new_to_observer :: "StateInput \<Rightarrow> OrderObserver \<times> StateWorld \<Rightarrow> bool" where
  "new_to_observer (OrderInput (OrderActionStatusChanged i s r)) (ob, w) \<longleftrightarrow> s \<noteq> WAITING"
| "new_to_observer (InterpreterInput (YieldNewAction a)) (ob, w) \<longleftrightarrow>
     OrderObserver_getActionStatus (actionId a) ob = None"
| "new_to_observer _ _ \<longleftrightarrow> True"

lemma map_of_states_map:
  "map_of (map (\<lambda>(k, st). (k, f k st)) xs) i = map_option (f i) (map_of xs i)"
  by (induction xs) auto

lemma map_of_observed: "map_of (insert_or_assign k v m) i = (if i = k then Some v else map_of m i)"
  by (induction m) auto

lemma observe_order_fields [simp]:
  "oo_action_status (observe_order e ob) = oo_action_status (note_order e ob)"
  "oo_order_status (observe_order e ob) = oo_order_status (note_order e ob)"
  by (simp_all add: observe_order_def Let_def)

lemma setAGVLastNode_states:
  "action_state_by_id (snd (setAGVLastNode seq om)) = action_state_by_id om"
  "order_status (snd (setAGVLastNode seq om)) = order_status om"
  by (auto simp: setAGVLastNode_def run_simps split: option.split sum.split)

lemma last_node_states:
  "action_state_by_id (w_om (snd (handleOrderNewLastNodeId (Some (i, seq)) w))) = action_state_by_id (w_om w)"
  "order_status (w_om (snd (handleOrderNewLastNodeId (Some (i, seq)) w))) = order_status (w_om w)"
  using setAGVLastNode_states [of seq "w_om w"]
  by (auto simp: handleOrderNewLastNodeId_def run_simps resetDistanceSinceLastNode_def split: prod.split sum.split)

lemma observer_agreesI:
  assumes "\<And>i s. map_of (oo_action_status ob) i = Some s \<Longrightarrow> s \<noteq> WAITING"
    and "\<And>i s st. map_of (oo_action_status ob) i = Some s \<Longrightarrow> map_of (action_state_by_id om) i = Some st \<Longrightarrow> as_actionStatus st = s"
    and "\<And>s. oo_order_status ob = Some s \<Longrightarrow> order_status om = s"
  shows "observer_agrees ob om"
  using assms
  by (auto simp: observer_agrees_def OrderObserver_getActionStatus_def OrderObserver_getOrderStatus_def split: option.split)

lemma observer_agreesD:
  assumes "observer_agrees ob om"
  shows "map_of (oo_action_status ob) i = Some s \<Longrightarrow> s \<noteq> WAITING"
    and "map_of (oo_action_status ob) i = Some s \<Longrightarrow> map_of (action_state_by_id om) i = Some st \<Longrightarrow> as_actionStatus st = s"
    and "oo_order_status ob = Some s' \<Longrightarrow> order_status om = s'"
  using assms
  by (force simp: observer_agrees_def OrderObserver_getActionStatus_def OrderObserver_getOrderStatus_def)+

lemma observed_order_event:
  assumes "observer_agrees ob (w_om w)" and "\<forall>i r. e \<noteq> OrderActionStatusChanged i WAITING r"
  shows "observer_agrees (observe_order e ob) (w_om (snd (state_on_order e w)))"
proof (cases e)
  case (OrderActionStatusChanged i s r)
  define w' where "w' = snd (state_on_order e w)"
  have seen: "map_of (action_state_by_id (w_om w')) j =
      map_option (\<lambda>st. if j = i then st\<lparr>as_actionStatus := s, as_resultDescription := r\<rparr> else st)
        (map_of (action_state_by_id (w_om w)) j)"
    "order_status (w_om w') = order_status (w_om w)" for j
    using OrderActionStatusChanged unfolding w'_def
    by (cases "map_of (action_state_by_id (w_om w)) i"; cases "map_of (action_state_by_id (w_om w)) j";
        simp add: handleOrderActionStatusChanged_def run_simps getActionState_def write_action_state_def map_of_states_map;
        fastforce)+
  show ?thesis
    using observer_agreesD [OF assms(1)] assms(2) OrderActionStatusChanged
    unfolding w'_def [symmetric]
    by (intro observer_agreesI) (auto simp: map_of_observed seen split: if_splits)
next
  case (OrderNewLastNodeId i seq)
  then show ?thesis
    using observer_agreesD [OF assms(1)]
    by (intro observer_agreesI) (simp_all add: last_node_states)
next
  case (OrderStatusEvent s)
  have "w_om (snd (handleOrderStatus (Some s) w)) = (w_om w)\<lparr>order_status := s\<rparr>"
    by (simp add: handleOrderStatus_def run_simps getOrderStatus_def setOrderStatus_def)
  then show ?thesis
    using observer_agreesD [OF assms(1)] OrderStatusEvent by (intro observer_agreesI) simp_all
next
  case (OrderClearAfterCancel a)
  define w' where "w' = snd (state_on_order e w)"
  have cleared: "map_of (action_state_by_id (w_om w')) i = map_option fail_if_waiting (map_of (action_state_by_id (w_om w)) i)"
    "order_status (w_om w') = order_status (w_om w)" for i
    using OrderClearAfterCancel
    by (simp_all add: w'_def handleOrderClearAfterCancel_def run_simps clearGraph_def cancelWaitingActions_def map_of_states_map)
  show ?thesis
    using observer_agreesD [OF assms(1)] OrderClearAfterCancel unfolding w'_def [symmetric]
    by (intro observer_agreesI) (auto simp: cleared fail_if_waiting_def)
qed

lemma observer_agrees_same:
  "observer_agrees ob om \<Longrightarrow> action_state_by_id om' = action_state_by_id om \<Longrightarrow> order_status om' = order_status om \<Longrightarrow>
   observer_agrees ob om'"
  by (simp add: observer_agrees_def split: option.splits)

lemma graph_events_same:
  "action_state_by_id (snd (replaceGraph g i om)) = action_state_by_id om"
  "order_status (snd (replaceGraph g i om)) = order_status om"
  "action_state_by_id (snd (extendGraph_update g u om)) = action_state_by_id om"
  "order_status (snd (extendGraph_update g u om)) = order_status om"
  by (auto simp: replaceGraph_def replaceGraph_locked_def extendGraph_update_def extendGraph_update_locked_def
      extendGraph_locked_def run_simps split: sum.split option.split)

lemma state_exec_same:
  assumes "p \<noteq> InterpreterInput YieldClearActions" and "\<forall>a. p \<noteq> InterpreterInput (YieldNewAction a)"
    and "\<forall>e. p \<noteq> OrderInput e"
  shows "action_state_by_id (w_om (state_exec p w)) = action_state_by_id (w_om w)"
    and "order_status (w_om (state_exec p w)) = order_status (w_om w)"
proof -
  have "action_state_by_id (w_om (state_exec p w)) = action_state_by_id (w_om w) \<and>
    order_status (w_om (state_exec p w)) = order_status (w_om w)"
  proof (cases p)
    case (InterpreterInput e)
    show ?thesis
    proof (cases e)
      case (YieldGraphExtension u g)
      then show ?thesis
        using graph_events_same(3,4) [of g u "w_om w"] InterpreterInput
        by (auto simp: state_exec_def handleGraphExtensionEvent_def run_simps split: sum.split prod.split)
    next
      case (YieldGraphReplacement i g)
      then show ?thesis
        using graph_events_same(1,2) [of g i "w_om w"] InterpreterInput
        by (auto simp: state_exec_def handleGraphReplacementEvent_def run_simps split: sum.split prod.split)
    qed (use assms InterpreterInput in \<open>simp_all add: state_exec_def run_simps\<close>)
  next
    case (NodeReachedInput i)
    then show ?thesis
      by (cases i) (simp_all add: state_exec_def handleNavigationStatusNodeReached_def update_if_def
          setAGVLastNodeId_def run_simps)
  qed (use assms in simp)
  then show "action_state_by_id (w_om (state_exec p w)) = action_state_by_id (w_om w)"
    and "order_status (w_om (state_exec p w)) = order_status (w_om w)" by blast+
qed

lemma cleared_actions:
  "w_om (state_exec (InterpreterInput YieldClearActions) w) = (w_om w)\<lparr>action_state_by_id := [], action_by_id := []\<rparr>"
  by (simp add: state_exec_def handleClearActions_def clearActions_def run_simps)

lemma map_of_emplaced: "map_of (try_emplace k v m) i = (if i = k \<and> map_of m k = None then Some v else map_of m i)"
  by (auto simp: try_emplace_def map_of_observed split: option.split)

lemma added_action:
  "map_of (action_state_by_id (w_om (state_exec (InterpreterInput (YieldNewAction a)) w))) i = Some st \<Longrightarrow>
     map_of (action_state_by_id (w_om w)) i = Some st \<or> i = actionId a \<and> st = new_action_state a"
  "order_status (w_om (state_exec (InterpreterInput (YieldNewAction a)) w)) = order_status (w_om w)"
  by (auto simp: state_exec_def handleNewActionEvent_def addNewAction_def addNewAction_locked_def run_simps map_of_emplaced
      split: if_splits option.splits)

lemma observed_step:
  assumes "case s of (ob, w) \<Rightarrow> observer_agrees ob (w_om w)" and "new_to_observer p s"
  shows "case both_observe p s of (ob, w) \<Rightarrow> observer_agrees ob (w_om w)"
proof -
  obtain ob w where s: "s = (ob, w)" by force
  then have agrees: "observer_agrees ob (w_om w)" using assms(1) by simp
  consider (order) e where "p = OrderInput e" | (clear) "p = InterpreterInput YieldClearActions"
    | (add) a where "p = InterpreterInput (YieldNewAction a)"
    | (other) "p \<noteq> InterpreterInput YieldClearActions" "\<forall>a. p \<noteq> InterpreterInput (YieldNewAction a)" "\<forall>e. p \<noteq> OrderInput e"
    by blast
  then show ?thesis
  proof cases
    case order
    then have "\<forall>i r. e \<noteq> OrderActionStatusChanged i WAITING r" using assms(2) s by auto
    then show ?thesis using observed_order_event [OF agrees] order s by (simp add: state_exec_def)
  next
    case clear
    then show ?thesis
      using observer_agreesD [OF agrees] s by (auto intro!: observer_agreesI simp: cleared_actions)
  next
    case (add a)
    then have "map_of (oo_action_status ob) (actionId a) = None"
      using assms(2) s by (simp add: OrderObserver_getActionStatus_def)
    then show ?thesis
      using observer_agreesD [OF agrees] s add added_action(2)
      by (auto intro!: observer_agreesI dest!: added_action(1))
  next
    case other
    have "both_observe p s = (ob, state_exec p w)"
      using other(3) s by (cases p) simp_all
    then show ?thesis using observer_agrees_same [OF agrees state_exec_same [OF other]] by simp
  qed
qed

interpretation observed: guarded_system both_observe new_to_observer "\<lambda>(ob, w). observer_agrees ob (w_om w)"
  by unfold_locales (rule observed_step)

text \<open>C37: The order observer tells what the state message tells, for actions that are new to it. Take any
  sequence of the events that change the state, those of the order and those with which
  the interpreter sets the graph, clears the actions and adds new ones. As long as no event reports an action as
  waiting and the observer has no status yet of an action when it is added, every action status that the observer answers is the
  one in the state, for the actions that the state knows, and the order status it answers is that of the
  state. There are two gaps. When a cancelled order is cleared, the state has every waiting action as failed, while the
  observer's answers stay as they were and no callback runs. And the observer never forgets a status: when the actions are
  cleared and an action comes back under its id, the state has it as waiting and the observer answers the old status.\<close>

theorem order_observer_agrees:
  assumes "observer_agrees ob (w_om w)" and "ops_ok new_to_observer both_observe ps (ob, w)"
    and "run_ops both_observe ps (ob, w) = (ob1, w1)"
  shows "observer_agrees ob1 (w_om w1) \<and>
    (let (ob2, w2) = both_observe (OrderInput (OrderClearAfterCancel a)) (ob1, w1)
     in ob2 = ob1 \<and>
        (\<forall>i. map_of (action_state_by_id (w_om w2)) i = map_option fail_if_waiting (map_of (action_state_by_id (w_om w1)) i))) \<and>
    (let (ob3, w3) = run_ops both_observe [InterpreterInput YieldClearActions, InterpreterInput (YieldNewAction b)] (ob1, w1)
     in ob3 = ob1 \<and> OrderObserver_getActionStatus (actionId b) ob1 \<noteq> Some WAITING \<and>
        map_option as_actionStatus (map_of (action_state_by_id (w_om w3)) (actionId b)) = Some WAITING)"
proof -
  have agrees: "observer_agrees ob1 (w_om w1)"
    using observed.run_inv [of "(ob, w)" ps] assms by simp
  have "concat (map (order_called_for (OrderClearAfterCancel a)) cbs) = []" for cbs
    by (induction cbs) simp_all
  then have "let (ob2, w2) = both_observe (OrderInput (OrderClearAfterCancel a)) (ob1, w1)
     in ob2 = ob1 \<and>
        (\<forall>i. map_of (action_state_by_id (w_om w2)) i = map_option fail_if_waiting (map_of (action_state_by_id (w_om w1)) i))"
    by (simp add: state_exec_def observe_order_def handleOrderClearAfterCancel_def run_simps clearGraph_def
        cancelWaitingActions_def map_of_states_map)
  moreover have "let (ob3, w3) = run_ops both_observe [InterpreterInput YieldClearActions, InterpreterInput (YieldNewAction b)] (ob1, w1)
     in ob3 = ob1 \<and>
        map_option as_actionStatus (map_of (action_state_by_id (w_om w3)) (actionId b)) = Some WAITING"
    by (simp add: state_exec_def handleNewActionEvent_def addNewAction_def addNewAction_locked_def run_simps
        handleClearActions_def clearActions_def map_of_emplaced new_action_state_def)
  moreover have "OrderObserver_getActionStatus (actionId b) ob1 \<noteq> Some WAITING"
    using agrees by (auto simp: observer_agrees_def)
  ultimately show ?thesis using agrees by (simp add: Let_def split_beta)
qed

definition observed_inputs :: "StateInput list" where
  "observed_inputs = [InterpreterInput YieldClearActions, InterpreterInput (YieldNewAction sample_action),
     OrderInput (OrderActionStatusChanged ''a'' RUNNING None), OrderInput (OrderStatusEvent k_order_active)]"

theorem order_observer_agrees_witness:
  "let (ob, w) = run_ops both_observe observed_inputs (OrderObserver_new, empty_state_world)
   in observer_agrees ob (w_om w) \<and> OrderObserver_getActionStatus (actionId sample_action) ob \<noteq> Some WAITING"
proof -
  have "observer_agrees OrderObserver_new (w_om empty_state_world)"
    by (simp add: observer_agrees_def OrderObserver_new_def OrderObserver_getActionStatus_def OrderObserver_getOrderStatus_def)
  moreover have "ops_ok new_to_observer both_observe observed_inputs (OrderObserver_new, empty_state_world)"
    by (simp add: observed_inputs_def OrderObserver_getActionStatus_def OrderObserver_new_def)
  ultimately show ?thesis
    using order_observer_agrees [where ob = OrderObserver_new and w = empty_state_world and ps = observed_inputs
        and b = sample_action]
    by (cases "run_ops both_observe observed_inputs (OrderObserver_new, empty_state_world)") (simp add: Let_def split_beta)
qed

section \<open>The message observer and the module\<close>

lemma observe_message_fields [simp]:
  "sent_state_messages (observe_message e ob) = sent_state_messages (count_message e ob)"
  "observed_errors (observe_message e ob) = observed_errors (count_message e ob)"
  "observed_connection (observe_message e ob) = observed_connection (count_message e ob)"
  "last_error_message (observe_message e ob) = last_error_message (count_message e ob)"
  by (simp_all add: observe_message_def Let_def)

lemma observed_states:
  "sent_state_messages (fold observe_message (map SendStateMessageEvent xs) ob) = sent_state_messages ob + of_nat (length xs)"
  by (induction xs arbitrary: ob) simp_all

lemma observed_connection_announced:
  "observed_connection (fold observe_message es ob) = Some status_online \<longleftrightarrow>
    fold (\<lambda>e b. case e of ConnectionChangedEvent s \<Rightarrow> s = status_online | _ \<Rightarrow> b) es (observed_connection ob = Some status_online)"
proof (induction es arbitrary: ob)
  case (Cons e es)
  then show ?case by (cases e) simp_all
qed simp


lemma offline_states:
  assumes "mqtt_state m \<noteq> mqtt_online"
  shows "client_calls (mqtt_run (map (\<lambda>x. (net, now, Step_state x)) xs) m) = client_calls m"
  using offline_run [OF assms, of "map (\<lambda>x. (net, now, Step_state x)) xs"] by auto

text \<open>A message observer knows the connection, and not what is sent. As long as the client reports no SSL error, an observer that hears the
  events of the module answers that it is online exactly when the module is online. Its count of sent messages is the
  count of requests: while the module is not online, none of the states that the library asks it to send reaches the client, and
  each of them is counted as sent.\<close>

theorem observer_counts_requests:
  assumes "\<forall>(net, now, s) \<in> set ss. s \<noteq> Step_ssl_error" and "message_events m0 = []"
  shows "let m = mqtt_run ss (initialized opts maker serial t0 m0);
       ob = fold observe_message (message_events m) MessageObserver_new
    in (getConnectionStatus ob = Some status_online \<longleftrightarrow> mqtt_state m = mqtt_online) \<and>
       (mqtt_state m \<noteq> mqtt_online \<longrightarrow>
          client_calls (mqtt_run (map (\<lambda>x. (net, now, Step_state x)) xs) m) = client_calls m \<and>
          getSentStateMessages (fold observe_message (map SendStateMessageEvent xs) ob) =
            getSentStateMessages ob + of_nat (length xs))"
proof -
  let ?m0 = "initialized opts maker serial t0 m0"
  have "announced (message_events ?m0) \<longleftrightarrow> mqtt_state ?m0 = mqtt_online"
    using assms(2) by (simp add: initialize_defs announced_def)
  note told = announced_run [OF assms(1) this]
  have "getConnectionStatus (fold observe_message es MessageObserver_new) = Some status_online \<longleftrightarrow> announced es"
    for es :: "'a MessageEvent list"
    by (simp add: observer_getters observed_connection_announced announced_def MessageObserver_new_def)
  then show ?thesis using told by (simp add: Let_def observer_getters observed_states offline_states)
qed

theorem observer_counts_requests_witness:
  "getConnectionStatus (fold observe_message (message_events (mqtt_run [(\<lambda>_. Inr (), 1, Step_connected)] sample_mqtt))
     MessageObserver_new) = Some status_online"
proof -
  let ?ss = "[(\<lambda>_. Inr (), 1, Step_connected)] :: (string net \<times> int \<times> (unit, string) MqttStep) list"
  have "mqtt_state (mqtt_run ?ss sample_mqtt) = mqtt_online"
    by (simp add: sample_mqtt_def initialize_defs MqttModule_new_def step_defs send_defs new_header_def)
  then show ?thesis
    using observer_counts_requests [where ss = ?ss and opts = sample_mqtt_options and maker = "''m''"
        and serial = "''s''" and ?t0.0 = 0 and ?m0.0 = MqttModule_new and net = "\<lambda>_. Inr ()" and now = 0 and xs = "[]"]
    by (simp add: sample_mqtt_def MqttModule_new_def Let_def)
qed

end
