(* ===== verification/Factsheet.thy ===== *)
theory Factsheet
  imports ControlActions ActionChecksProps Config
begin

text \<open>
  \<^verbatim>\<open>core/common/conversion\<close>, \<^verbatim>\<open>core/factsheet\<close> and what answers its events: the factsheet, which tells the master
  control what the vehicle is and can do. The parts that come from the description are opaque.
\<close>

section \<open>Data\<close>

datatype ValueDataType = dt_BOOLEAN | dt_FLOAT | dt_INTEGER | dt_OBJECT | dt_STRING

datatype ActionScope = scope_EDGE | scope_NODE | scope_INSTANT

record ActionParameterFactsheet =
  apf_key :: string
  apf_description :: "string option"
  apf_isOptional :: bool
  apf_valueDataType :: ValueDataType

record AgvAction =
  aa_actionType :: string
  aa_actionDescription :: "string option"
  aa_resultDescription :: "string option"
  aa_actionParameters :: "ActionParameterFactsheet list"
  aa_actionScopes :: "ActionScope list"

text \<open>The limits that the library sets; all others stay as they are by default.\<close>

record ProtocolLimits =
  pl_stateLoads :: "uint32 option"
  pl_idLen :: "uint32 option"
  pl_idNumericalOnly :: "bool option"
  pl_loadIdLen :: "uint32 option"
  pl_minStateInterval :: double
  pl_minOrderInterval :: double
  pl_defaultStateInterval :: double
  pl_visualizationInterval :: double

record 'j AgvFactsheet =
  fs_agvGeometry :: 'j
  fs_loadSpecification :: 'j
  fs_localizationParameters :: 'j
  fs_physicalParameters :: 'j
  fs_agvActions :: "AgvAction list"
  fs_protocolLimits :: ProtocolLimits
  fs_typeSpecification :: 'j

section \<open>Declarations\<close>

text \<open>The switch has a case for every enumerator.\<close>

fun convertDatatype :: "ParameterValueType \<Rightarrow> ValueDataType" where
  "convertDatatype k_boolean = dt_BOOLEAN"
| "convertDatatype k_custom = dt_OBJECT"
| "convertDatatype k_float = dt_FLOAT"
| "convertDatatype k_integer = dt_INTEGER"
| "convertDatatype k_string = dt_STRING"

text \<open>How a set of strings is printed is an argument.\<close>

definition describeParameterRange :: "(string list \<Rightarrow> string) \<Rightarrow> ParameterRange \<Rightarrow> string" where
  "describeParameterRange fmt_set pr =
     (let head = ''Parameter '' @ pr_key pr @ '':'' @ [CHR 0x0A] @
            (case pr_description pr of None \<Rightarrow> ''<no functional description>'' | Some d \<Rightarrow> d);
          bounds = (case (pr_ordinal_min pr, pr_ordinal_max pr) of
              (Some lo, Some hi) \<Rightarrow> head @ [CHR 0x0A] @ '' Must be in ['' @ lo @ '', '' @ hi @ '']''
            | (Some lo, None) \<Rightarrow> head @ [CHR 0x0A] @ '' Must be at least '' @ lo
            | (None, Some hi) \<Rightarrow> head @ [CHR 0x0A] @ '' Must be at most '' @ hi
            | (None, None) \<Rightarrow> head)
      in case pr_value_set pr of
           None \<Rightarrow> bounds
         | Some vs \<Rightarrow> bounds @ [CHR 0x0A] @ '' Can only be one of '' @ fmt_set vs)"

definition fromParameterRange :: "(string list \<Rightarrow> string) \<Rightarrow> bool \<Rightarrow> ParameterRange \<Rightarrow> ActionParameterFactsheet" where
  "fromParameterRange fmt_set is_optional r =
     \<lparr>apf_key = pr_key r, apf_description = Some (describeParameterRange fmt_set r), apf_isOptional = is_optional,
      apf_valueDataType = convertDatatype (pr_type r)\<rparr>"

definition fromActionDeclaration :: "(string list \<Rightarrow> string) \<Rightarrow> ActionDeclaration \<Rightarrow> AgvAction" where
  "fromActionDeclaration fmt_set decl =
     \<lparr>aa_actionType = ad_action_type decl, aa_actionDescription = ad_description decl,
      aa_resultDescription = ad_result_description decl,
      aa_actionParameters = map (fromParameterRange fmt_set False) (ad_parameter decl) @
        map (fromParameterRange fmt_set True) (ad_optional_parameter decl),
      aa_actionScopes = (if ad_edge decl then [scope_EDGE] else []) @ (if ad_node decl then [scope_NODE] else []) @
        (if ad_instant decl then [scope_INSTANT] else [])\<rparr>"

text \<open>The descriptions of the two simple handlers.\<close>

definition Simple_getActionDescription :: "(string list \<Rightarrow> string) \<Rightarrow> ActionDeclaration \<Rightarrow> AgvAction list" where
  "Simple_getActionDescription fmt_set decl = [fromActionDeclaration fmt_set decl]"

definition SimpleMulti_getActionDescription :: "(string list \<Rightarrow> string) \<Rightarrow> ActionDeclaration list \<Rightarrow> AgvAction list" where
  "SimpleMulti_getActionDescription fmt_set decls = map (fromActionDeclaration fmt_set) decls"

definition listControlActions :: "(string list \<Rightarrow> string) \<Rightarrow> AgvAction list" where
  "listControlActions fmt_set = map (fromActionDeclaration fmt_set) control_declarations"

text \<open>\<^verbatim>\<open>InterpreterEventHandler::handleFactsheetControlActionListEvent\<close>; the list is behind a pointer.\<close>

definition handleFactsheetControlActionListEvent ::
  "(string list \<Rightarrow> string) \<Rightarrow> unit option \<Rightarrow> (AgvAction list option Result, unit) comp" where
  "handleFactsheetControlActionListEvent fmt_set data =
     (case data of
        None \<Rightarrow> throw VDA5050PPInvalidEventData
      | Some _ \<Rightarrow>
          bindM (gets acquireResultToken) (\<lambda>acquired.
          if \<not> acquired then throw VDA5050PPSynchronizedEventNotAcquired
          else bindM (gets (setValue (Some (listControlActions fmt_set)))) (\<lambda>r.
               bindM (liftE r) (\<lambda>v. modify (\<lambda>_. v)))))"

section \<open>Gathering\<close>

text \<open>\<open>controls\<close> and \<open>users\<close> are what has become of the two events when their futures have been waited for.\<close>

definition gatherProtocolFeatures ::
  "AgvAction list option Result \<Rightarrow> AgvAction list option Result \<Rightarrow> exn + AgvAction list" where
  "gatherProtocolFeatures controls users =
     (case future_get controls of
        None \<Rightarrow> Inl VDA5050PPSynchronizedEventTimedOut
      | Some (Inl e) \<Rightarrow> Inl e
      | Some (Inr actions) \<Rightarrow>
          (case future_get users of
             None \<Rightarrow> Inl VDA5050PPSynchronizedEventTimedOut
           | Some (Inl e) \<Rightarrow> Inl e
           | Some (Inr ptr) \<Rightarrow>
               (case (actions, ptr) of
                  (Some xs, Some ys) \<Rightarrow> Inr (xs @ ys)
                | _ \<Rightarrow> Inl VDA5050PPNullPointer)))"

text \<open>\<open>to_seconds\<close> is \<^verbatim>\<open>float(n) / 1000.0\<close> of a number of milliseconds.\<close>

definition gatherProtocolLimits :: "(int64 \<Rightarrow> double) \<Rightarrow> 'j Config \<Rightarrow> exn + ProtocolLimits" where
  "gatherProtocolLimits to_seconds c =
     (let l = simple_protocol_limits (agv_description (agv_description_sub_config c))
      in case lookupModuleConfig c ''StateUpdateTimer'' of
           Inl e \<Rightarrow> Inl e
         | Inr (StateUpdateTimerSubConfig (_, state_period)) \<Rightarrow>
             (case lookupModuleConfig c ''VisualizationTimer'' of
                Inl e \<Rightarrow> Inl e
              | Inr (VisualizationTimerSubConfig (_, vis_period)) \<Rightarrow>
                  Inr \<lparr>pl_stateLoads = max_load_id_len l, pl_idLen = max_id_len l, pl_idNumericalOnly = id_numerical_only l,
                       pl_loadIdLen = max_load_id_len l, pl_minStateInterval = 0, pl_minOrderInterval = 0,
                       pl_defaultStateInterval = to_seconds (count_ms state_period),
                       pl_visualizationInterval = to_seconds (count_ms vis_period)\<rparr>
              | Inr _ \<Rightarrow> Inl VDA5050PPBadCast)
         | Inr _ \<Rightarrow> Inl VDA5050PPBadCast)"

definition gatherFactsheet ::
  "(int64 \<Rightarrow> double) \<Rightarrow> 'j Config \<Rightarrow> AgvAction list option Result \<Rightarrow> AgvAction list option Result \<Rightarrow>
   exn + 'j AgvFactsheet" where
  "gatherFactsheet to_seconds c controls users =
     (let d = agv_description (agv_description_sub_config c)
      in case gatherProtocolFeatures controls users of
           Inl e \<Rightarrow> Inl e
         | Inr actions \<Rightarrow>
             (case gatherProtocolLimits to_seconds c of
                Inl e \<Rightarrow> Inl e
              | Inr limits \<Rightarrow>
                  Inr \<lparr>fs_agvGeometry = agv_geometry d, fs_loadSpecification = load_specification d,
                       fs_localizationParameters = localization_parameters d,
                       fs_physicalParameters = physical_parameters d, fs_agvActions = actions,
                       fs_protocolLimits = limits, fs_typeSpecification = type_specification d\<rparr>))"

text \<open>The exceptions of the library go to the one who asked; all others leave the handler.\<close>

definition handleFactsheetGatherEvent ::
  "(int64 \<Rightarrow> double) \<Rightarrow> 'j Config \<Rightarrow> AgvAction list option Result \<Rightarrow> AgvAction list option Result \<Rightarrow> unit option \<Rightarrow>
   ('j AgvFactsheet Result, unit) comp" where
  "handleFactsheetGatherEvent to_seconds c controls users data =
     (case data of
        None \<Rightarrow> throw VDA5050PPInvalidEventData
      | Some _ \<Rightarrow>
          bindM (gets acquireResultToken) (\<lambda>acquired.
          if \<not> acquired then throw VDA5050PPSynchronizedEventNotAcquired
          else
            (case gatherFactsheet to_seconds c controls users of
               Inr f \<Rightarrow> bindM (gets (setValue f)) (\<lambda>r. bindM (liftE r) (\<lambda>v. modify (\<lambda>_. v)))
             | Inl e \<Rightarrow>
                 if is_VDA5050PPError e
                 then bindM (gets (setException e)) (\<lambda>r. bindM (liftE r) (\<lambda>v. modify (\<lambda>_. v)))
                 else throw e)))"

end
