(* ===== verification/FactsheetProps.thy ===== *)
theory FactsheetProps
  imports Factsheet MessagesProps ConfigProps
begin

text \<open>
  Properties of the factsheet: what it contains, how far it tells which actions the checks accept, and what a failure to
  gather it does to the other instant actions of the message.
\<close>

section \<open>The declared actions and the check\<close>

text \<open>What a reader of the factsheet can conclude from the entry of an action.\<close>

definition announced_scope :: "ActionContext \<Rightarrow> AgvAction \<Rightarrow> bool" where
  "announced_scope context f =
     (case context of
        ctx_edge \<Rightarrow> scope_EDGE \<in> set (aa_actionScopes f)
      | ctx_instant \<Rightarrow> scope_INSTANT \<in> set (aa_actionScopes f)
      | ctx_node \<Rightarrow> scope_NODE \<in> set (aa_actionScopes f)
      | ctx_unspecified \<Rightarrow> True)"

definition announced_action :: "AgvAction \<Rightarrow> ActionContext \<Rightarrow> Action \<Rightarrow> bool" where
  "announced_action f context a \<longleftrightarrow>
     actionType a = aa_actionType f \<and> announced_scope context f \<and>
     distinct (map fst (actionParameters a)) \<and>
     fst ` set (actionParameters a) \<subseteq> apf_key ` set (aa_actionParameters f) \<and>
     apf_key ` {p \<in> set (aa_actionParameters f). \<not> apf_isOptional p} \<subseteq> fst ` set (actionParameters a)"

lemma announced_keys:
  "apf_key ` set (aa_actionParameters (fromActionDeclaration fmt decl)) =
    pr_key ` set (ad_parameter decl @ ad_optional_parameter decl)"
  "apf_key ` {p \<in> set (aa_actionParameters (fromActionDeclaration fmt decl)). \<not> apf_isOptional p} =
    pr_key ` set (ad_parameter decl)"
  by (force simp: fromActionDeclaration_def fromParameterRange_def)+

lemma announced_context: "announced_scope context (fromActionDeclaration fmt decl) \<longleftrightarrow> context_allowed context decl"
  by (cases "context") (auto simp: announced_scope_def context_allowed_def fromActionDeclaration_def)

lemma parameters_announced:
  "parameters_accepted ext a decl \<longleftrightarrow>
    distinct (map fst (actionParameters a)) \<and>
    fst ` set (actionParameters a) \<subseteq> pr_key ` set (ad_parameter decl @ ad_optional_parameter decl) \<and>
    pr_key ` set (ad_parameter decl) \<subseteq> fst ` set (actionParameters a) \<and>
    (\<forall>p \<in> set (actionParameters a). \<exists>r \<in> set (ad_parameter decl @ ad_optional_parameter decl).
      pr_key r = fst p \<and> param_ok ext r (snd p))"
  unfolding parameters_accepted_def by (intro iffI; elim conjE; intro conjI; force)

lemma action_accepted_announced:
  assumes "distinct (map pr_key (ad_parameter decl @ ad_optional_parameter decl))"
  shows "fst (validateActionWithDeclaration ext a context decl pm) = Inr [] \<longleftrightarrow>
    announced_action (fromActionDeclaration fmt decl) context a \<and> blockingType a \<in> set (ad_blocking_types decl) \<and>
    (\<forall>p \<in> set (actionParameters a). \<exists>r \<in> set (ad_parameter decl @ ad_optional_parameter decl).
      pr_key r = fst p \<and> param_ok ext r (snd p))"
  unfolding validation_accepts_iff [OF assms] announced_action_def announced_keys announced_context parameters_announced
  by (auto simp: fromActionDeclaration_def)

text \<open>C38: The factsheet tells the checks, except for blocking types and values. Let a declaration list no key twice. An action passes the
  validation against it exactly when the entry of the factsheet announces it, that is with
  its type, its scope, all mandatory and no unknown parameters, and moreover its blocking type is allowed and the
  text of every parameter satisfies the declaration. Blocking types do not show up in the factsheet at all; and a
  parameter that is announced as an OBJECT is never accepted: any action that gives one is refused.\<close>

theorem factsheet_tells_the_check:
  assumes "distinct (map pr_key (ad_parameter decl @ ad_optional_parameter decl))"
  shows "(fst (validateActionWithDeclaration ext a context decl pm) = Inr [] \<longleftrightarrow>
      announced_action (fromActionDeclaration fmt decl) context a \<and> blockingType a \<in> set (ad_blocking_types decl) \<and>
      (\<forall>p \<in> set (actionParameters a). \<exists>r \<in> set (ad_parameter decl @ ad_optional_parameter decl).
        pr_key r = fst p \<and> param_ok ext r (snd p))) \<and>
    fromActionDeclaration fmt (decl\<lparr>ad_blocking_types := bs\<rparr>) = fromActionDeclaration fmt decl \<and>
    ((\<exists>q \<in> set (aa_actionParameters (fromActionDeclaration fmt decl)).
        apf_valueDataType q = dt_OBJECT \<and> apf_key q \<in> fst ` set (actionParameters a)) \<longrightarrow>
      fst (validateActionWithDeclaration ext a context decl pm) \<noteq> Inr [])"
proof (intro conjI impI)
  show *: "fst (validateActionWithDeclaration ext a context decl pm) = Inr [] \<longleftrightarrow>
      announced_action (fromActionDeclaration fmt decl) context a \<and> blockingType a \<in> set (ad_blocking_types decl) \<and>
      (\<forall>p \<in> set (actionParameters a). \<exists>r \<in> set (ad_parameter decl @ ad_optional_parameter decl).
        pr_key r = fst p \<and> param_ok ext r (snd p))"
    by (rule action_accepted_announced [OF assms])
  show "fromActionDeclaration fmt (decl\<lparr>ad_blocking_types := bs\<rparr>) = fromActionDeclaration fmt decl"
    by (simp add: fromActionDeclaration_def)
  assume "\<exists>q \<in> set (aa_actionParameters (fromActionDeclaration fmt decl)).
        apf_valueDataType q = dt_OBJECT \<and> apf_key q \<in> fst ` set (actionParameters a)"
  then obtain q where q: "q \<in> set (aa_actionParameters (fromActionDeclaration fmt decl))" "apf_valueDataType q = dt_OBJECT"
      "apf_key q \<in> fst ` set (actionParameters a)" by blast
  obtain r optional where "r \<in> set (ad_parameter decl @ ad_optional_parameter decl)" "q = fromParameterRange fmt optional r"
    using q(1) unfolding fromActionDeclaration_def by auto
  then have r: "r \<in> set (ad_parameter decl @ ad_optional_parameter decl)" "pr_key r \<in> fst ` set (actionParameters a)"
      "convertDatatype (pr_type r) = dt_OBJECT"
    using q(2,3) by (simp_all add: fromParameterRange_def)
  have custom: "pr_type r = k_custom" using r(3) by (cases "pr_type r") simp_all
  obtain p where p: "p \<in> set (actionParameters a)" "fst p = pr_key r" using r(2) by auto
  show "fst (validateActionWithDeclaration ext a context decl pm) \<noteq> Inr []"
  proof
    assume "fst (validateActionWithDeclaration ext a context decl pm) = Inr []"
    then obtain r' where r': "r' \<in> set (ad_parameter decl @ ad_optional_parameter decl)" "pr_key r' = fst p"
        "param_ok ext r' (snd p)" using p(1) unfolding * by blast
    have "r' = r" using r' r(1) p(2) assms unfolding distinct_map inj_on_def by metis
    then show False using r'(3) custom by (simp add: param_ok_def)
  qed
qed

theorem factsheet_tells_the_check_witness:
  "\<not> announced_action (fromActionDeclaration (\<lambda>_. []) sample_declaration) ctx_edge
     (sample_action\<lparr>actionParameters := [(''height'', ''150'')]\<rparr>) \<and>
   fst (validateActionWithDeclaration sample_externals
     (sample_action\<lparr>actionParameters := [(''height'', ''150'')]\<rparr>) ctx_edge sample_declaration None) \<noteq> Inr []"
proof -
  have "distinct (map pr_key (ad_parameter sample_declaration @ ad_optional_parameter sample_declaration))"
    by (simp add: sample_declaration_def)
  moreover have "\<not> announced_action (fromActionDeclaration (\<lambda>_. []) sample_declaration) ctx_edge
     (sample_action\<lparr>actionParameters := [(''height'', ''150'')]\<rparr>)"
    by (simp add: announced_action_def announced_scope_def fromActionDeclaration_def sample_declaration_def)
  ultimately show ?thesis using factsheet_tells_the_check [where fmt = "\<lambda>_. []" and decl = sample_declaration] by blast
qed

section \<open>What the factsheet contains\<close>

text \<open>The answer of the action handlers, as the list behind a pointer that the gathering gets.\<close>

fun behind_pointer :: "'a Result \<Rightarrow> 'a option Result" where
  "behind_pointer Live = Live"
| "behind_pointer (ResultValue v) = ResultValue (Some v)"
| "behind_pointer (ResultException e) = ResultException e"

definition gathered_by :: "(int64 \<Rightarrow> double) \<Rightarrow> (string list \<Rightarrow> string) \<Rightarrow> 'j Config \<Rightarrow> AgvAction ActionHandler list \<Rightarrow> 'j AgvFactsheet Result" where
  "gathered_by secs fmt c hs =
     snd (handleFactsheetGatherEvent secs c (snd (handleFactsheetControlActionListEvent fmt (Some ()) Live))
       (behind_pointer (snd (handleActionListEvent hs (Some ()) Live))) (Some ()) Live)"

text \<open>The factsheet is complete, up to one limit. When the two timers have their configurations and the handlers answer in
  time, the one who asks gets a factsheet: its actions are the five control actions, each with the declaration that its
  validation uses, followed by what every action handler describes, in order; its other parts are those of the
  description and of the timers. One limit is wrong: the number of loads in a state is announced as the maximal length of a
  load's id, and the configured number of loads has no effect.\<close>

theorem factsheet_contents:
  assumes "lookupModuleConfig c ''StateUpdateTimer'' = Inr (StateUpdateTimerSubConfig (l1, state_period))"
    and "lookupModuleConfig c ''VisualizationTimer'' = Inr (VisualizationTimerSubConfig (l2, vis_period))"
  shows "let d = agv_description (agv_description_sub_config c); limits = simple_protocol_limits d;
       c' = c\<lparr>agv_description_sub_config := (agv_description_sub_config c)\<lparr>agv_description :=
         d\<lparr>simple_protocol_limits := limits\<lparr>max_loads := n\<rparr>\<rparr>\<rparr>\<rparr>
    in (\<exists>f. gathered_by secs fmt c hs = ResultValue f \<and>
          fs_agvActions f = map (fromActionDeclaration fmt) control_declarations @ concat (map ah_description hs) \<and>
          fs_typeSpecification f = type_specification d \<and> fs_physicalParameters f = physical_parameters d \<and>
          fs_agvGeometry f = agv_geometry d \<and> fs_loadSpecification f = load_specification d \<and>
          fs_localizationParameters f = localization_parameters d \<and>
          pl_idLen (fs_protocolLimits f) = max_id_len limits \<and> pl_loadIdLen (fs_protocolLimits f) = max_load_id_len limits \<and>
          pl_idNumericalOnly (fs_protocolLimits f) = id_numerical_only limits \<and>
          pl_defaultStateInterval (fs_protocolLimits f) = secs (count_ms state_period) \<and>
          pl_visualizationInterval (fs_protocolLimits f) = secs (count_ms vis_period) \<and>
          pl_stateLoads (fs_protocolLimits f) = max_load_id_len limits) \<and>
       gathered_by secs fmt c' hs = gathered_by secs fmt c hs"
  using assms
  by (simp add: gathered_by_def handleFactsheetGatherEvent_def handleFactsheetControlActionListEvent_def
      handleActionListEvent_def run_simps acquireResultToken_def setValue_def gatherFactsheet_def gatherProtocolFeatures_def
      gatherProtocolLimits_def listControlActions_def lookupModuleConfig_def Let_def split: option.splits)

theorem factsheet_contents_witness:
  "let c = sample_config [] None\<lparr>module_config_registry :=
       [(''StateUpdateTimer'', StateUpdateTimerSubConfig (LoggingSubConfig_new, 20000000000)),
        (''VisualizationTimer'', VisualizationTimerSubConfig (LoggingSubConfig_new, 1500000000))]\<rparr>
   in \<exists>f. gathered_by (\<lambda>n. ucast n) (\<lambda>_. []) c [] = ResultValue f \<and>
     fs_agvActions f = map (fromActionDeclaration (\<lambda>_. [])) control_declarations"
proof -
  let ?c = "sample_config [] None\<lparr>module_config_registry :=
       [(''StateUpdateTimer'', StateUpdateTimerSubConfig (LoggingSubConfig_new, 20000000000)),
        (''VisualizationTimer'', VisualizationTimerSubConfig (LoggingSubConfig_new, 1500000000))]\<rparr>"
  have "lookupModuleConfig ?c ''StateUpdateTimer'' = Inr (StateUpdateTimerSubConfig (LoggingSubConfig_new, 20000000000))"
    "lookupModuleConfig ?c ''VisualizationTimer'' = Inr (VisualizationTimerSubConfig (LoggingSubConfig_new, 1500000000))"
    by (simp_all add: lookupModuleConfig_def)
  from factsheet_contents [OF this, where secs = "\<lambda>n. ucast n" and fmt = "\<lambda>_. []" and hs = "[]" and n = None] show ?thesis
    by (auto simp: Let_def)
qed

section \<open>A request that fails\<close>

lemma instant_actions_before:
  assumes "\<forall>a \<in> set pre. \<not> isControlInstantAction a" and "forM pre new_action w = (Inr (), w')"
  shows "\<exists>acc'. instant_actions out g new_action (pre @ as) acc \<lparr>active_control_blocks = bs, controlled = w\<rparr> =
    instant_actions out g new_action as acc' \<lparr>active_control_blocks = bs, controlled = w'\<rparr>"
  using assms
proof (induction pre arbitrary: acc w)
  case (Cons a pre)
  obtain grp bound where acc: "acc = (grp, bound)" by fastforce
  obtain w1 where w1: "new_action a w = (Inr (), w1)" "forM pre new_action w1 = (Inr (), w')"
    using Cons.prems(2) by (auto simp: run_simps split: prod.splits sum.splits)
  then show ?case
    using Cons.IH [of w1 "(grp @ [a], raise_ceiling bound (blockingType a))"] Cons.prems(1)
    by (simp add: acc run_simps on_controlled_def)
qed (auto simp: run_simps)

text \<open>C39: A factsheet that cannot be gathered costs the other instant actions. Let a message have a request of the factsheet between other
  instant actions, the ones before it all for the handlers of the user, and let the user's
  actions not be listed in time. Then the exception leaves the handler of the message. The actions up to the
  request are already in the state as waiting, but the group of the others is never handed to the scheduler, so none of
  them ever starts; the ones after it are never even announced, although the message was accepted; and the request itself
  stays waiting for good, with a control block that no event completes.\<close>

theorem failed_factsheet_drops_instant_actions:
  assumes "actionType a = ''factsheetRequest''" and "\<forall>x \<in> set pre. \<not> isControlInstantAction x"
    and "forM (pre @ [a]) new_action w = (Inr (), w')"
  shows "let gathered = future_get (snd (handleFactsheetGatherEvent secs c
           (snd (handleFactsheetControlActionListEvent fmt (Some ()) Live)) Live (Some ()) Live));
       block = Chain [FunctionBlock (throw VDA5050PPSynchronizedEventTimedOut), FunctionBlock (set_status out a FINISHED)]
    in handleValidInstantActions out gathered new_action yield_group (Some (pre @ a # rest))
         \<lparr>active_control_blocks = bs, controlled = w\<rparr> =
       (Inl VDA5050PPSynchronizedEventTimedOut,
        \<lparr>active_control_blocks = insert_or_assign (actionId a) block bs, controlled = w'\<rparr>) \<and>
       (\<forall>s u. on_status s block u = (Inr False, block, u))"
proof -
  have gathered: "future_get (snd (handleFactsheetGatherEvent secs c
      (snd (handleFactsheetControlActionListEvent fmt (Some ()) Live)) Live (Some ()) Live)) =
    Some (Inl VDA5050PPSynchronizedEventTimedOut)"
    by (simp add: handleFactsheetGatherEvent_def handleFactsheetControlActionListEvent_def run_simps acquireResultToken_def
        setValue_def setException_def gatherFactsheet_def gatherProtocolFeatures_def is_VDA5050PPError_def)
  have "forM (xs @ [a]) new_action u = (Inr (), w') \<Longrightarrow>
      \<exists>v. forM xs new_action u = (Inr (), v) \<and> new_action a v = (Inr (), w')" for xs u
    by (induction xs arbitrary: u) (auto simp: run_simps split: prod.splits sum.splits)
  with assms(3) obtain v where v: "forM pre new_action w = (Inr (), v)" "new_action a v = (Inr (), w')" by blast
  have control: "isControlInstantAction a"
    using assms(1) by (simp add: isControlInstantAction_def control_declarations_def control_declaration_defs
        matchActionType_def control_declaration_def)
  obtain grp bound where "instant_actions out (Some (Inl VDA5050PPSynchronizedEventTimedOut)) new_action (pre @ a # rest)
      ([], NONE) \<lparr>active_control_blocks = bs, controlled = w\<rparr> =
    instant_actions out (Some (Inl VDA5050PPSynchronizedEventTimedOut)) new_action (a # rest) (grp, bound)
      \<lparr>active_control_blocks = bs, controlled = v\<rparr>"
    using instant_actions_before [OF assms(2) v(1)] by (metis surj_pair)
  then show ?thesis
    unfolding gathered Let_def
    using assms(1) control v(2)
    by (simp add: handleValidInstantActions_def run_simps on_controlled_def start_control_def settle_block_def
        makeControlInstantActionControlBlock_def makeFactsheetRequestControlBlock_def)
qed

theorem failed_factsheet_drops_instant_actions_witness:
  "fst (handleValidInstantActions (\<lambda>_ :: string AgvFactsheet ControlOut. ret ()) (Some (Inl VDA5050PPSynchronizedEventTimedOut))
     (\<lambda>x w. (Inr (), w @ [actionId x])) (\<lambda>_ _. ret ())
     (Some [sample_action, sample_action\<lparr>actionId := ''f'', actionType := ''factsheetRequest''\<rparr>, sample_action])
     \<lparr>active_control_blocks = [], controlled = []\<rparr>) = Inl VDA5050PPSynchronizedEventTimedOut"
proof -
  let ?f = "sample_action\<lparr>actionId := ''f'', actionType := ''factsheetRequest''\<rparr>"
  have g: "future_get (snd (handleFactsheetGatherEvent (\<lambda>n. ucast n) (sample_config [] None)
      (snd (handleFactsheetControlActionListEvent (\<lambda>_. []) (Some ()) Live)) Live (Some ()) Live)) =
    Some (Inl VDA5050PPSynchronizedEventTimedOut)"
    by (simp add: handleFactsheetGatherEvent_def handleFactsheetControlActionListEvent_def run_simps acquireResultToken_def
        setValue_def setException_def gatherFactsheet_def gatherProtocolFeatures_def is_VDA5050PPError_def)
  have "\<forall>x \<in> set [sample_action]. \<not> isControlInstantAction x"
    by (simp add: isControlInstantAction_def control_declarations_def control_declaration_defs matchActionType_def
        control_declaration_def sample_action_def)
  from failed_factsheet_drops_instant_actions [OF _ this, of ?f "\<lambda>x w. (Inr (), w @ [actionId x])" "[]" "[''a'', ''f'']"
      "\<lambda>n. ucast n" "sample_config [] None" "\<lambda>_. []" "\<lambda>_. ret ()" "\<lambda>_ _. ret ()" "[sample_action]" "[]"]
  show ?thesis unfolding g by (simp add: run_simps sample_action_def Let_def)
qed

end
