(* ===== verification/StandardActions.thy ===== *)
theory StandardActions
  imports FactsheetProps
begin

text \<open>
  \<^verbatim>\<open>misc/action_declarations.h\<close>: the declarations of the actions that the VDA5050 predefines, for a user's handlers. The
  parameters of a declaration are a set, ordered by their keys.
\<close>

section \<open>Parameters\<close>

definition plain_range :: "string \<Rightarrow> ParameterValueType \<Rightarrow> string \<Rightarrow> ParameterRange" where
  "plain_range key ty text =
     \<lparr>pr_key = key, pr_type = ty, pr_description = Some text, pr_ordinal_min = None, pr_ordinal_max = None,
      pr_value_set = None\<rparr>"

definition k_reason :: ParameterRange where
  "k_reason = plain_range ''reason'' k_string ''The reason for the logReport action''"

definition k_lhd :: ParameterRange where
  "k_lhd = plain_range ''lhd'' k_string ''The load handling device to use''"

definition k_station_type :: ParameterRange where
  "k_station_type = plain_range ''stationType'' k_string ''The type of the load's station''"

definition k_station_name :: ParameterRange where
  "k_station_name = plain_range ''stationName'' k_string ''The name of the load's station''"

definition k_load_type :: ParameterRange where
  "k_load_type = plain_range ''loadType'' k_string ''The type of the load''"

definition k_load_id :: ParameterRange where
  "k_load_id = plain_range ''loadId'' k_string ''The ID of the load''"

definition k_height :: ParameterRange where
  "k_height = plain_range ''height'' k_float ''The distance from floor to the load's bottom height''"

definition k_depth :: ParameterRange where
  "k_depth = plain_range ''depth'' k_float ''The depth of the load (useful for forklifts)''"

definition k_side :: ParameterRange where
  "k_side = plain_range ''side'' k_string ''The side on which the load is stored (e.g. conveyor)''"

definition k_object_type :: ParameterRange where
  "k_object_type = plain_range ''objectType'' k_string ''The type of the object to detect''"

definition k_trigger_type :: ParameterRange where
  "k_trigger_type = plain_range ''triggerType'' k_string ''The type of the external trigger''"

definition k_x :: ParameterRange where
  "k_x = plain_range ''x'' k_float ''The x coordinate''"

definition k_y :: ParameterRange where
  "k_y = plain_range ''y'' k_float ''The y coordinate''"

definition k_theta :: ParameterRange where
  "k_theta = plain_range ''theta'' k_float ''The angle''"

definition k_map_id :: ParameterRange where
  "k_map_id = plain_range ''mapId'' k_string ''The map ID''"

definition k_last_node_id :: ParameterRange where
  "k_last_node_id = plain_range ''lastNodeId'' k_string ''The ID of the last node''"

lemmas range_defs = k_reason_def k_lhd_def k_station_type_def k_station_name_def k_load_type_def k_load_id_def k_height_def
  k_depth_def k_side_def k_object_type_def k_trigger_type_def k_x_def k_y_def k_theta_def k_map_id_def k_last_node_id_def

section \<open>Declarations\<close>

definition k_start_charging :: ActionDeclaration where
  "k_start_charging = \<lparr>ad_action_type = ''startCharging'',
     ad_description = Some ''Start the charging process of the AGV'', ad_result_description = None, ad_parameter = [],
     ad_optional_parameter = [], ad_blocking_types = [HARD], ad_instant = True, ad_node = True, ad_edge = False\<rparr>"

definition k_stop_charging :: ActionDeclaration where
  "k_stop_charging = \<lparr>ad_action_type = ''stopCharging'',
     ad_description = Some ''Stop the charging process of the AGV'', ad_result_description = None, ad_parameter = [],
     ad_optional_parameter = [], ad_blocking_types = [HARD], ad_instant = True, ad_node = True, ad_edge = False\<rparr>"

definition k_log_report :: ActionDeclaration where
  "k_log_report = \<lparr>ad_action_type = ''logReport'',
     ad_description = Some ''Instruct the AGV to generate a log report.'', ad_result_description = None,
     ad_parameter = [k_reason], ad_optional_parameter = [], ad_blocking_types = [HARD], ad_instant = True,
     ad_node = False, ad_edge = False\<rparr>"

definition k_pick :: ActionDeclaration where
  "k_pick = \<lparr>ad_action_type = ''pick'', ad_description = Some ''Instruct the AGV to pick up a load.'',
     ad_result_description = None, ad_parameter = [k_load_type, k_station_type],
     ad_optional_parameter = [k_depth, k_height, k_lhd, k_load_id, k_side, k_station_name],
     ad_blocking_types = [HARD], ad_instant = False, ad_node = True, ad_edge = True\<rparr>"

definition k_drop :: ActionDeclaration where
  "k_drop = \<lparr>ad_action_type = ''drop'', ad_description = Some ''Instruct the AGV to drop a load.'',
     ad_result_description = None, ad_parameter = [],
     ad_optional_parameter = [k_depth, k_height, k_lhd, k_load_id, k_load_type, k_side, k_station_name, k_station_type],
     ad_blocking_types = [HARD], ad_instant = False, ad_node = True, ad_edge = True\<rparr>"

definition k_detect_object :: ActionDeclaration where
  "k_detect_object = \<lparr>ad_action_type = ''detectObject'',
     ad_description = Some ''Instruct the AGV to detect an object.'', ad_result_description = None, ad_parameter = [],
     ad_optional_parameter = [k_object_type], ad_blocking_types = [NONE, SOFT, HARD], ad_instant = False,
     ad_node = True, ad_edge = True\<rparr>"

definition k_fine_positioning :: ActionDeclaration where
  "k_fine_positioning = \<lparr>ad_action_type = ''finePositioning'', ad_description = Some ''Fine position the AGV.'',
     ad_result_description = None, ad_parameter = [], ad_optional_parameter = [k_station_name, k_station_type],
     ad_blocking_types = [HARD], ad_instant = False, ad_node = True, ad_edge = True\<rparr>"

definition k_wait_for_trigger :: ActionDeclaration where
  "k_wait_for_trigger = \<lparr>ad_action_type = ''waitForTrigger'',
     ad_description = Some ''Instruct the AGV to wait for an external trigger.'', ad_result_description = None,
     ad_parameter = [k_trigger_type], ad_optional_parameter = [], ad_blocking_types = [HARD], ad_instant = False,
     ad_node = True, ad_edge = True\<rparr>"

definition k_init_position :: ActionDeclaration where
  "k_init_position = \<lparr>ad_action_type = ''initPosition'',
     ad_description = Some ''Reset the pose of the AGV with the given parameters.'', ad_result_description = None,
     ad_parameter = [k_last_node_id, k_map_id, k_theta, k_x, k_y], ad_optional_parameter = [],
     ad_blocking_types = [HARD], ad_instant = True, ad_node = True, ad_edge = False\<rparr>"

definition standard_declarations :: "ActionDeclaration list" where
  "standard_declarations = [k_start_charging, k_stop_charging, k_log_report, k_pick, k_drop, k_detect_object,
     k_fine_positioning, k_wait_for_trigger, k_init_position]"

lemmas declaration_defs = k_start_charging_def k_stop_charging_def k_log_report_def k_pick_def k_drop_def
  k_detect_object_def k_fine_positioning_def k_wait_for_trigger_def k_init_position_def

section \<open>What the checks do with them\<close>

definition plain :: "ParameterRange \<Rightarrow> bool" where
  "plain r \<longleftrightarrow> (pr_type r = k_string \<or> pr_type r = k_float) \<and> pr_ordinal_min r = None \<and> pr_ordinal_max r = None \<and>
     pr_value_set r = None"

lemma plain_plain_range: "ty = k_string \<or> ty = k_float \<Longrightarrow> plain (plain_range key ty text)"
  by (simp add: plain_def plain_range_def)

lemma plain_ok:
  assumes "plain r"
  shows "param_ok ext r raw \<longleftrightarrow> (pr_type r = k_float \<longrightarrow> (\<exists>d. value_getFloat (ext_stod ext) raw = Inr d))"
  using assms
  by (auto simp: plain_def param_ok_def ensureParameterConstraints_def check_value_set_def split: sum.splits)

lemma plain_no_throw: "plain r \<Longrightarrow> fst (doInsert ext (pr_type r) p r s) \<noteq> Inl e"
  by (auto simp: plain_def doInsert_def run_simps ensureParameterConstraints_def check_value_set_def split: sum.splits)

lemma extract_range_mem: "extract_range k rs = Some (r, rest) \<Longrightarrow> r \<in> set rs \<and> set rest \<subseteq> set rs"
  by (auto simp: extract_range_def find_Some_iff split: option.splits)

lemma plain_parameters_no_throw:
  assumes "\<forall>r \<in> set tbf \<union> set mbf. plain r"
  shows "fst (check_parameters ext a ps tbf mbf errs s) \<noteq> Inl e"
  using assms
proof (induction ps arbitrary: tbf mbf errs s)
  case (Cons p ps)
  have step: "fst (bindM (doInsert ext (pr_type r) p r) (\<lambda>err. check_parameters ext a ps tbf' mbf'
      (case err of None \<Rightarrow> errs | Some x \<Rightarrow> errs @ [x])) s) \<noteq> Inl e"
    if "plain r" "\<forall>r \<in> set tbf' \<union> set mbf'. plain r" for r tbf' mbf'
    using plain_no_throw [OF that(1), of ext p s e] Cons.IH [OF that(2)]
    by (cases "doInsert ext (pr_type r) p r s") (auto simp: run_simps split: sum.split)
  have custom: "plain r \<Longrightarrow> pr_type r \<noteq> k_custom" for r by (auto simp: plain_def)
  show ?case
  proof (cases "extract_range (fst p) tbf")
    case None
    show ?thesis
    proof (cases "extract_range (fst p) mbf")
      case (Some q)
      then obtain r rest where "extract_range (fst p) mbf = Some (r, rest)" by (cases q) auto
      with extract_range_mem [OF this] None show ?thesis
        using Cons.prems step [of r tbf rest] custom [of r] by auto
    qed (use None Cons in simp)
  next
    case (Some q)
    then obtain r rest where "extract_range (fst p) tbf = Some (r, rest)" by (cases q) auto
    with extract_range_mem [OF this] show ?thesis
      using Cons.prems step [of r rest mbf] custom [of r] by auto
  qed
qed (simp add: run_simps)

lemma ranges_plain:
  "plain k_reason"
  "plain k_lhd"
  "plain k_station_type"
  "plain k_station_name"
  "plain k_load_type"
  "plain k_load_id"
  "plain k_height"
  "plain k_depth"
  "plain k_side"
  "plain k_object_type"
  "plain k_trigger_type"
  "plain k_x"
  "plain k_y"
  "plain k_theta"
  "plain k_map_id"
  "plain k_last_node_id"
  by (simp_all add: range_defs plain_plain_range)

lemma range_keys:
  "pr_key k_reason = ''reason''"
  "pr_key k_lhd = ''lhd''"
  "pr_key k_station_type = ''stationType''"
  "pr_key k_station_name = ''stationName''"
  "pr_key k_load_type = ''loadType''"
  "pr_key k_load_id = ''loadId''"
  "pr_key k_height = ''height''"
  "pr_key k_depth = ''depth''"
  "pr_key k_side = ''side''"
  "pr_key k_object_type = ''objectType''"
  "pr_key k_trigger_type = ''triggerType''"
  "pr_key k_x = ''x''"
  "pr_key k_y = ''y''"
  "pr_key k_theta = ''theta''"
  "pr_key k_map_id = ''mapId''"
  "pr_key k_last_node_id = ''lastNodeId''"
  by (simp_all add: range_defs plain_range_def)

lemma standard_plain:
  assumes "decl \<in> set standard_declarations"
  shows "\<forall>r \<in> set (ad_parameter decl) \<union> set (ad_optional_parameter decl). plain r"
    and "distinct (map pr_key (ad_parameter decl @ ad_optional_parameter decl))"
  using assms
  by (auto simp: standard_declarations_def declaration_defs ranges_plain range_keys)

lemma bindM_no_throw:
  assumes "fst (m s) \<noteq> Inl e" and "\<And>x t. fst (f x t) \<noteq> Inl e"
  shows "fst (bindM m f s) \<noteq> Inl e"
  using assms by (auto simp: run_simps split: prod.splits sum.splits)

lemma plain_validation:
  assumes "\<forall>r \<in> set (ad_parameter decl) \<union> set (ad_optional_parameter decl). plain r"
  shows "fst (validateActionWithDeclaration ext a context decl pm) \<noteq> Inl e"
  unfolding validateActionWithDeclaration_def Let_def
  by (intro bindM_no_throw plain_parameters_no_throw [OF assms]) (simp add: run_simps split: prod.split)

lemma announced_parameters:
  "(\<forall>q \<in> set (aa_actionParameters (fromActionDeclaration fmt decl)). P (apf_key q) (apf_valueDataType q)) \<longleftrightarrow>
   (\<forall>r \<in> set (ad_parameter decl @ ad_optional_parameter decl). P (pr_key r) (convertDatatype (pr_type r)))"
  by (simp add: fromActionDeclaration_def fromParameterRange_def ball_Un)

text \<open>C40: The predefined declarations are safe, and the factsheet says all about them but the blocking type. The validation
  against one of them never throws, which would end the program in a simple handler, whatever the action is. It accepts an
  action exactly when the entry in the factsheet announces it, its blocking type is allowed, and every parameter that is
  announced as a FLOAT can be read as one; no other text of a parameter is ever refused.\<close>

theorem standard_declarations_checked:
  assumes "decl \<in> set standard_declarations"
  shows "(\<forall>e. fst (validateActionWithDeclaration ext a context decl pm) \<noteq> Inl e) \<and>
    (fst (validateActionWithDeclaration ext a context decl pm) = Inr [] \<longleftrightarrow>
       announced_action (fromActionDeclaration fmt decl) context a \<and> blockingType a \<in> set (ad_blocking_types decl) \<and>
       (\<forall>p \<in> set (actionParameters a). \<forall>q \<in> set (aa_actionParameters (fromActionDeclaration fmt decl)).
          apf_key q = fst p \<and> apf_valueDataType q = dt_FLOAT \<longrightarrow>
            (\<exists>d. value_getFloat (ext_stod ext) (snd p) = Inr d)))"
proof -
  let ?rs = "ad_parameter decl @ ad_optional_parameter decl"
  let ?f = "\<lambda>r p. pr_type r = k_float \<longrightarrow> (\<exists>d. value_getFloat (ext_stod ext) (snd p) = Inr d)"
  note plain = standard_plain [OF assms]
  have float: "convertDatatype ty = dt_FLOAT \<longleftrightarrow> ty = k_float" for ty by (cases ty) simp_all
  have unique: "r = r'" if "r \<in> set ?rs" "r' \<in> set ?rs" "pr_key r = pr_key r'" for r r'
    using that plain(2) unfolding distinct_map inj_on_def by blast
  have ok: "param_ok ext r (snd p) \<longleftrightarrow> ?f r p" if "r \<in> set ?rs" for r p
    using plain_ok [of r ext "snd p"] plain(1) that by auto
  have announced: "(\<forall>q \<in> set (aa_actionParameters (fromActionDeclaration fmt decl)).
        apf_key q = fst p \<and> apf_valueDataType q = dt_FLOAT \<longrightarrow>
          (\<exists>d. value_getFloat (ext_stod ext) (snd p) = Inr d)) \<longleftrightarrow>
      (\<forall>r \<in> set ?rs. pr_key r = fst p \<longrightarrow> ?f r p)" for p
    using announced_parameters [where P = "\<lambda>k ty. k = fst p \<and> ty = dt_FLOAT \<longrightarrow>
        (\<exists>d. value_getFloat (ext_stod ext) (snd p) = Inr d)"]
    unfolding float by (simp; blast)
  have "(\<forall>p \<in> set (actionParameters a). \<exists>r \<in> set ?rs. pr_key r = fst p \<and> param_ok ext r (snd p)) \<longleftrightarrow>
      (\<forall>p \<in> set (actionParameters a). \<forall>r \<in> set ?rs. pr_key r = fst p \<longrightarrow> ?f r p)"
    if "announced_action (fromActionDeclaration fmt decl) context a"
  proof (rule ball_cong [OF refl])
    fix p assume "p \<in> set (actionParameters a)"
    then have "fst p \<in> pr_key ` set ?rs"
      using that unfolding announced_action_def announced_keys by blast
    then obtain r where r: "r \<in> set ?rs" "pr_key r = fst p" unfolding image_iff by metis
    show "(\<exists>r \<in> set ?rs. pr_key r = fst p \<and> param_ok ext r (snd p)) \<longleftrightarrow>
        (\<forall>r \<in> set ?rs. pr_key r = fst p \<longrightarrow> ?f r p)"
      using r unique ok by metis
  qed
  then show ?thesis
    using plain_validation [OF plain(1), of ext a "context" pm] action_accepted_announced [OF plain(2), of ext a "context" pm fmt]
    unfolding announced by blast
qed

theorem standard_declarations_checked_witness:
  "fst (validateActionWithDeclaration sample_externals
     (sample_action\<lparr>actionType := ''drop'', actionParameters := [(''side'', ''left'')]\<rparr>) ctx_node k_drop None) = Inr []"
proof -
  have "k_drop \<in> set standard_declarations" by (simp add: standard_declarations_def)
  moreover have "announced_action (fromActionDeclaration (\<lambda>_. []) k_drop) ctx_node
      (sample_action\<lparr>actionType := ''drop'', actionParameters := [(''side'', ''left'')]\<rparr>)"
    unfolding announced_action_def announced_keys announced_context
    by (simp add: context_allowed_def fromActionDeclaration_def k_drop_def range_keys)
  ultimately show ?thesis
    using standard_declarations_checked [where decl = k_drop and fmt = "\<lambda>_. []" and ext = sample_externals]
    by (simp add: fromActionDeclaration_def fromParameterRange_def k_drop_def range_defs plain_range_def sample_action_def)
qed

end
