(* ===== verification/ExceptionText.thy ===== *)
theory ExceptionText
  imports Types
begin

text \<open>
  \<^verbatim>\<open>exception.cpp\<close> and \<^verbatim>\<open>core/common/exception.h\<close>: what an exception of the library carries and how it is printed. The
  demangling of names and the recording of the call stack are arguments.
\<close>

section \<open>Contents\<close>

record StackEntry =
  st_file :: string
  st_function :: string
  st_offset :: string

record ErrorContext =
  class_context :: "string option"
  function_context :: "string option"
  ec_description :: "string option"
  stack_trace :: "StackEntry list"
  additional_context :: "(string, string) std_map"

datatype ErrorClass =
    Error_class
  | NotInitialized_class
  | InvalidEventData_class
  | InvalidArgument_class
  | CallbackNotSet_class
  | SynchronizedEventNotAcquired_class
  | BadAnyPtrCast_class
  | NullPointer_class
  | SynchronizedEventTimedOut_class
  | InvalidActionParameterType_class
  | InvalidActionParameterKey_class
  | InvalidConfiguration_class
  | MqttError_class
  | NotImplementedError_class
  | InvalidState_class
  | TOMLError_class
  | BadCast_class

text \<open>The context is behind a pointer, which a move leaves null. \<open>ex_what\<close> keeps the text that \<^verbatim>\<open>what\<close> has returned.\<close>

record LibraryError =
  ex_class :: ErrorClass
  ex_context :: "ErrorContext option"
  ex_what :: string

definition VDA5050PPError_new :: "ErrorClass \<Rightarrow> ErrorContext \<Rightarrow> LibraryError" where
  "VDA5050PPError_new c x = \<lparr>ex_class = c, ex_context = Some x, ex_what = []\<rparr>"

definition mkClassExceptionContext :: "StackEntry list \<Rightarrow> string \<Rightarrow> string option \<Rightarrow> ErrorContext" where
  "mkClassExceptionContext stack class d =
     \<lparr>class_context = Some class, function_context = None, ec_description = d, stack_trace = stack, additional_context = []\<rparr>"

definition mkFnExceptionContext :: "StackEntry list \<Rightarrow> string \<Rightarrow> string option \<Rightarrow> ErrorContext" where
  "mkFnExceptionContext stack f d =
     \<lparr>class_context = None, function_context = Some f, ec_description = d, stack_trace = stack, additional_context = []\<rparr>"

definition mkExceptionContext :: "StackEntry list \<Rightarrow> string \<Rightarrow> string \<Rightarrow> string option \<Rightarrow> ErrorContext" where
  "mkExceptionContext stack class f d =
     \<lparr>class_context = Some class, function_context = Some f, ec_description = d, stack_trace = stack,
      additional_context = []\<rparr>"

section \<open>Access\<close>

definition getClassContext :: "LibraryError \<Rightarrow> string option" where
  "getClassContext e = Option.bind (ex_context e) class_context"

definition getFunctionContext :: "LibraryError \<Rightarrow> string option" where
  "getFunctionContext e = Option.bind (ex_context e) function_context"

definition getDescription :: "LibraryError \<Rightarrow> string option" where
  "getDescription e = Option.bind (ex_context e) ec_description"

definition getStackTrace :: "LibraryError \<Rightarrow> StackEntry list" where
  "getStackTrace e = (case ex_context e of None \<Rightarrow> [] | Some c \<Rightarrow> stack_trace c)"

text \<open>The null pointer is tested here, and then used all the same.\<close>

definition getAdditionalContext :: "LibraryError \<Rightarrow> exn + (string, string) std_map" where
  "getAdditionalContext e =
     (case ex_context e of None \<Rightarrow> Inl UndefinedBehaviour | Some c \<Rightarrow> Inr (additional_context c))"

definition addAdditionalContext :: "string \<Rightarrow> string \<Rightarrow> (LibraryError, unit) comp" where
  "addAdditionalContext k v e =
     (case ex_context e of
        None \<Rightarrow> (Inl UndefinedBehaviour, e)
      | Some c \<Rightarrow>
          (Inr (), e\<lparr>ex_context := Some (c\<lparr>additional_context := insert_or_assign k v (additional_context c)\<rparr>),
             ex_what := []\<rparr>))"

definition addAdditionalContexts :: "(string \<times> string) list \<Rightarrow> (LibraryError, unit) comp" where
  "addAdditionalContexts kvs = forM kvs (\<lambda>(k, v). addAdditionalContext k v)"

section \<open>Text\<close>

fun class_name :: "ErrorClass \<Rightarrow> string" where
  "class_name Error_class = ''VDA5050PPError''"
| "class_name NotInitialized_class = ''VDA5050PPNotInitialized''"
| "class_name InvalidEventData_class = ''VDA5050PPInvalidEventData''"
| "class_name InvalidArgument_class = ''VDA5050PPInvalidArgument''"
| "class_name CallbackNotSet_class = ''VDA5050PPCallbackNotSet''"
| "class_name SynchronizedEventNotAcquired_class = ''VDA5050PPSynchronizedEventNotAcquired''"
| "class_name BadAnyPtrCast_class = ''VDA5050PPBadAnyPtrCast''"
| "class_name NullPointer_class = ''VDA5050PPNullPointer''"
| "class_name SynchronizedEventTimedOut_class = ''VDA5050PPSynchronizedEventTimedOut''"
| "class_name InvalidActionParameterType_class = ''VDA5050PPInvalidActionParameterType''"
| "class_name InvalidActionParameterKey_class = ''VDA5050PPInvalidActionParameterKey''"
| "class_name InvalidConfiguration_class = ''VDA5050PPInvalidConfiguration''"
| "class_name MqttError_class = ''VDA5050PPMqttError''"
| "class_name NotImplementedError_class = ''VDA5050PPNotImplementedError''"
| "class_name InvalidState_class = ''VDA5050PPInvalidState''"
| "class_name TOMLError_class = ''VDA5050PPTOMLError''"
| "class_name BadCast_class = ''VDA5050PPBadCast''"

definition formatDefault :: "(string \<Rightarrow> string) \<Rightarrow> string \<Rightarrow> LibraryError \<Rightarrow> string" where
  "formatDefault demangle name e =
     (case ex_context e of
        None \<Rightarrow> name
      | Some c \<Rightarrow>
          (let desc = (case getDescription e of None \<Rightarrow> ''<no description>'' | Some d \<Rightarrow> d);
               cls = (case map_option demangle (getClassContext e) of None \<Rightarrow> ''<unknown class>'' | Some n \<Rightarrow> n)
           in case function_context c of
                Some f \<Rightarrow> name @ '' @ '' @ cls @ ''::'' @ demangle f @ ''(): '' @ desc
              | None \<Rightarrow> name @ '' @ '' @ cls @ '': '' @ desc))"

definition format_error :: "(string \<Rightarrow> string) \<Rightarrow> LibraryError \<Rightarrow> string" where
  "format_error demangle e = formatDefault demangle (class_name (ex_class e)) e"

text \<open>The loop over the additional context prints a literal letter, not the key.\<close>

definition dump :: "(string \<Rightarrow> string) \<Rightarrow> LibraryError \<Rightarrow> string" where
  "dump demangle e =
     (let more = (case ex_context e of None \<Rightarrow> [] | Some c \<Rightarrow> additional_context c)
      in format_error demangle e @
         (if more = [] then [CHR 0x0A] @ ''  <no additional context>'' @ [CHR 0x0A]
          else concat (map (\<lambda>(k, v). [CHR 0x0A] @ ''  k='' @ [CHR 0x09] @ v @ [CHR 0x0A]) more)) @
         (if getStackTrace e = [] then []
          else ''StackTrace:'' @
            concat (map (\<lambda>s. [CHR 0x0A] @ ''  '' @ st_function s @ ''+'' @ st_offset s) (getStackTrace e))))"

definition what :: "(string \<Rightarrow> string) \<Rightarrow> (LibraryError, string) comp" where
  "what demangle e =
     (if ex_what e = [] then (Inr (dump demangle e), e\<lparr>ex_what := dump demangle e\<rparr>) else (Inr (ex_what e), e))"

section \<open>Call stack\<close>

text \<open>The functions of \<^verbatim>\<open>std::string_view\<close>, with their positions as they are, 64 bits wide.\<close>

definition npos :: "64 word" where
  "npos = - 1"

fun index_of :: "char \<Rightarrow> string \<Rightarrow> nat option" where
  "index_of c [] = None"
| "index_of c (x # xs) = (if x = c then Some 0 else map_option Suc (index_of c xs))"

definition find_last_of :: "string \<Rightarrow> char \<Rightarrow> 64 word" where
  "find_last_of s c = (case index_of c (rev s) of None \<Rightarrow> npos | Some i \<Rightarrow> of_nat (length s - 1 - i))"

definition find_from :: "string \<Rightarrow> char \<Rightarrow> 64 word \<Rightarrow> 64 word" where
  "find_from s c from_pos =
     (case index_of c (drop (unat from_pos) s) of None \<Rightarrow> npos | Some i \<Rightarrow> from_pos + of_nat i)"

definition substr :: "string \<Rightarrow> 64 word \<Rightarrow> 64 word \<Rightarrow> exn + string" where
  "substr s from_pos n =
     (if length s < unat from_pos then Inl StdOutOfRange else Inr (take (unat n) (drop (unat from_pos) s)))"

text \<open>A line of \<^verbatim>\<open>backtrace_symbols\<close>.\<close>

definition fromBacktrace :: "(string \<Rightarrow> string) \<Rightarrow> string \<Rightarrow> exn + StackEntry" where
  "fromBacktrace demangle entry =
     (let b_fn = find_last_of entry (CHR ''('') + 1;
          b_addr = find_from entry (CHR ''+'') b_fn + 1;
          e_addr = find_from entry (CHR '')'') b_addr
      in case substr entry 0 (b_fn - 1) of
           Inl e \<Rightarrow> Inl e
         | Inr file \<Rightarrow>
             (case substr entry b_fn (b_addr - b_fn - 1) of
                Inl e \<Rightarrow> Inl e
              | Inr fn \<Rightarrow>
                  (case substr entry b_addr (e_addr - b_addr - 1) of
                     Inl e \<Rightarrow> Inl e
                   | Inr off \<Rightarrow> Inr \<lparr>st_file = file, st_function = demangle fn, st_offset = off\<rparr>)))"

fun stacktrace :: "(string \<Rightarrow> string) \<Rightarrow> string list \<Rightarrow> exn + StackEntry list" where
  "stacktrace demangle [] = Inr []"
| "stacktrace demangle (l # ls) =
     (case fromBacktrace demangle l of
        Inl e \<Rightarrow> Inl e
      | Inr x \<Rightarrow> (case stacktrace demangle ls of Inl e \<Rightarrow> Inl e | Inr xs \<Rightarrow> Inr (x # xs)))"

section \<open>Properties\<close>

lemma unat_small: "n < 2 ^ 64 \<Longrightarrow> unat (of_nat n :: 64 word) = n"
  by (simp add: unat_of_nat)

lemma index_of_None: "index_of c xs = None \<longleftrightarrow> c \<notin> set xs"
  by (induction xs) auto

lemma index_of_append: "c \<notin> set xs \<Longrightarrow> index_of c (xs @ c # ys) = Some (length xs)"
  by (induction xs) auto

lemma index_of_less: "index_of c xs = Some i \<Longrightarrow> i < length xs"
  by (induction xs arbitrary: i) (auto split: if_splits)

lemma find_last_of_append: "c \<notin> set ys \<Longrightarrow> find_last_of (xs @ c # ys) c = of_nat (length xs)"
  using index_of_append [of c "rev ys" "rev xs"] by (simp add: find_last_of_def)

lemma find_from_append:
  assumes "c \<notin> set ys" and "length xs < 2 ^ 64"
  shows "find_from (xs @ ys @ c # zs) c (of_nat (length xs)) = of_nat (length xs + length ys)"
  using assms index_of_append [of c ys zs] by (simp add: find_from_def unat_small)

lemma substr_append:
  assumes "length xs < 2 ^ 64" and "length ys < 2 ^ 64"
  shows "substr (xs @ ys @ zs) (of_nat (length xs)) (of_nat (length ys)) = Inr ys"
  using assms by (simp add: substr_def unat_small)

text \<open>The end of the offset is taken one too early.\<close>

theorem backtrace_line_read:
  assumes "CHR ''('' \<notin> set (fn @ off @ rest)" and "CHR ''+'' \<notin> set fn" and "CHR '')'' \<notin> set off" and "off \<noteq> []"
    and "length obj + length fn + length off + 3 < 2 ^ 64"
  shows "fromBacktrace demangle (obj @ ''('' @ fn @ ''+'' @ off @ '')'' @ rest) =
    Inr \<lparr>st_file = obj, st_function = demangle fn, st_offset = butlast off\<rparr>"
proof -
  let ?e = "obj @ ''('' @ fn @ ''+'' @ off @ '')'' @ rest"
  obtain d off' where off: "off = off' @ [d]" using assms(4) by (metis rev_exhaust)
  have b_fn: "find_last_of ?e (CHR ''('') + 1 = of_nat (length (obj @ ''(''))"
    using find_last_of_append [of "CHR ''(''" "fn @ ''+'' @ off @ '')'' @ rest" obj] assms(1) by simp
  have b_addr: "find_from ?e (CHR ''+'') (of_nat (length (obj @ ''(''))) + 1 = of_nat (length (obj @ ''('' @ fn @ ''+''))"
    using find_from_append [of "CHR ''+''" fn "obj @ ''(''" "off @ '')'' @ rest"] assms(2,5) by simp
  have e_addr: "find_from ?e (CHR '')'') (of_nat (length (obj @ ''('' @ fn @ ''+''))) =
      of_nat (length (obj @ ''('' @ fn @ ''+'') + length off)"
    using find_from_append [of "CHR '')''" off "obj @ ''('' @ fn @ ''+''" rest] assms(3,5) by simp
  have "substr ?e 0 (of_nat (length obj)) = Inr obj"
    using substr_append [of "[]" obj "''('' @ fn @ ''+'' @ off @ '')'' @ rest"] assms(5) by simp
  moreover have "substr ?e (of_nat (length (obj @ ''(''))) (of_nat (length fn)) = Inr fn"
    using substr_append [of "obj @ ''(''" fn "''+'' @ off @ '')'' @ rest"] assms(5) by simp
  moreover have "substr ?e (of_nat (length (obj @ ''('' @ fn @ ''+''))) (of_nat (length off')) = Inr off'"
    using substr_append [of "obj @ ''('' @ fn @ ''+''" off' "[d] @ '')'' @ rest"] assms(5) by (simp add: off)
  ultimately show ?thesis
    unfolding fromBacktrace_def Let_def b_fn b_addr e_addr by (simp add: off algebra_simps)
qed

datatype ErrorOp = Ask_what | Add_context string string

fun error_run :: "(string \<Rightarrow> string) \<Rightarrow> ErrorOp list \<Rightarrow> LibraryError \<Rightarrow> LibraryError" where
  "error_run demangle [] e = e"
| "error_run demangle (Ask_what # ops) e = error_run demangle ops (snd (what demangle e))"
| "error_run demangle (Add_context k v # ops) e = error_run demangle ops (snd (addAdditionalContext k v e))"

lemma getters_what [simp]:
  "getDescription (e\<lparr>ex_what := t\<rparr>) = getDescription e" "getClassContext (e\<lparr>ex_what := t\<rparr>) = getClassContext e"
  "getStackTrace (e\<lparr>ex_what := t\<rparr>) = getStackTrace e"
  by (simp_all add: getDescription_def getClassContext_def getStackTrace_def)

lemma getters_more:
  assumes "ex_context e = Some c"
  shows "getDescription (e\<lparr>ex_context := Some (c\<lparr>additional_context := m\<rparr>)\<rparr>) = getDescription e"
    "getClassContext (e\<lparr>ex_context := Some (c\<lparr>additional_context := m\<rparr>)\<rparr>) = getClassContext e"
    "getStackTrace (e\<lparr>ex_context := Some (c\<lparr>additional_context := m\<rparr>)\<rparr>) = getStackTrace e"
  using assms by (simp_all add: getDescription_def getClassContext_def getStackTrace_def)

definition text_kept :: "(string \<Rightarrow> string) \<Rightarrow> LibraryError \<Rightarrow> bool" where
  "text_kept demangle e \<longleftrightarrow> ex_what e = [] \<or> ex_what e = dump demangle e"

lemma dump_what [simp]: "dump demangle (e\<lparr>ex_what := t\<rparr>) = dump demangle e"
  by (simp add: dump_def format_error_def formatDefault_def Let_def split: option.split)

lemma text_kept_run: "text_kept demangle e \<Longrightarrow> text_kept demangle (error_run demangle ops e)"
proof (induction ops arbitrary: e)
  case (Cons x ops)
  have "text_kept demangle (snd (what demangle e))" "text_kept demangle (snd (addAdditionalContext k v e))" for k v
    using Cons.prems by (auto simp: text_kept_def what_def addAdditionalContext_def split: option.split)
  then show ?case using Cons.IH by (cases x) simp_all
qed simp

text \<open>The text that \<^verbatim>\<open>what\<close> keeps is never an old one; and the keys of the additional context do not show up in it.\<close>

theorem what_is_up_to_date:
  assumes "ex_what e = []"
  shows "fst (what demangle (error_run demangle ops e)) = Inr (dump demangle (error_run demangle ops e)) \<and>
    (\<forall>c m. ex_context e = Some c \<and> map snd m = map snd (additional_context c) \<longrightarrow>
      dump demangle (e\<lparr>ex_context := Some (c\<lparr>additional_context := m\<rparr>)\<rparr>) = dump demangle e)"
proof
  have "text_kept demangle e" using assms by (simp add: text_kept_def)
  from text_kept_run [OF this]
  show "fst (what demangle (error_run demangle ops e)) = Inr (dump demangle (error_run demangle ops e))"
    by (auto simp: text_kept_def what_def)
next
  have printed: "concat (map (\<lambda>(k, v). [CHR 0x0A] @ ''  k='' @ [CHR 0x09] @ v @ [CHR 0x0A]) m) =
      concat (map (\<lambda>v. [CHR 0x0A] @ ''  k='' @ [CHR 0x09] @ v @ [CHR 0x0A]) (map snd m))" for m :: "(string \<times> string) list"
    by (induction m) auto
  show "\<forall>c m. ex_context e = Some c \<and> map snd m = map snd (additional_context c) \<longrightarrow>
      dump demangle (e\<lparr>ex_context := Some (c\<lparr>additional_context := m\<rparr>)\<rparr>) = dump demangle e"
  proof (intro allI impI)
    fix c and m :: "(string \<times> string) list" assume a: "ex_context e = Some c \<and> map snd m = map snd (additional_context c)"
    then have "m = [] \<longleftrightarrow> additional_context c = []" by (metis map_is_Nil_conv)
    then show "dump demangle (e\<lparr>ex_context := Some (c\<lparr>additional_context := m\<rparr>)\<rparr>) = dump demangle e"
      using a unfolding dump_def printed
      by (simp add: format_error_def formatDefault_def getters_more)
  qed
qed

end
