(* ===== verification/Spec2Isabelle.thy ===== *)
theory Spec2Isabelle
  imports TaskProps SchedulerRunProps OrderFlowProps ControlProps BlockingQueue StateTimersProps InstanceProps EventRouting NavigationProps Observers StandardActions ExceptionText
begin

text \<open>
  \<^bold>\<open>libvda5050++: a model of the library's core and what it guarantees\<close>

  The library drives an automated guided vehicle by the VDA5050 protocol. A received order is
  validated, interpreted as a sequence of events, and scheduled as navigation steps and actions; the
  state message reports the progress. Components talk to each other through event managers. All
  paths below are under \<^verbatim>\<open>src/vda5050++\<close>, \<^verbatim>\<open>include/private/vda5050++\<close> and \<^verbatim>\<open>include/public/vda5050++\<close>.

  \<^bold>\<open>Conventions.\<close> A member function that changes its object and may throw is a computation of type
  \<open>('s, 'a) comp\<close>, a function from a state to \<open>exn + 'a\<close> and the state that is left behind, also when it
  throws. \<open>exn\<close> lists the exception classes that the modelled code throws; \<open>UndefinedBehaviour\<close> stands for
  reads of null pointers, invalid iterators, and exceptions that leave a \<^verbatim>\<open>noexcept\<close> function. Sequence
  ids and update ids are 32-bit words. A \<^verbatim>\<open>std::map\<close> is its sorted list of entries (StdMap), so that
  iteration has the order of the code. Pointers that are never written through are values; \<open>None\<close> is
  a null pointer. A mutex that is held throughout an operation makes the operation one step.

  \<^bold>\<open>Theories.\<close>

  \<^item> Prelude, StdMap, Types, Samples: computations and their simplification rules (\<open>run_simps\<close>), runs of
    operations (\<open>run_ops\<close>, the locale \<open>guarded_system\<close>), maps, messages and events.
  \<^item> TaskMachine, ActionTask, NavigationTask, TaskProps: \<^verbatim>\<open>core/order/action_task\<close> and \<^verbatim>\<open>navigation_task\<close>, the
    state machines of a single action and of driving to a single node. The reported statuses follow
    the protocol, and a goal is reported once.
  \<^item> Graph, GraphProps: \<^verbatim>\<open>core/state/graph\<close>, the nodes and edges of an order. Which extensions and updates
    are accepted and what they do.
  \<^item> Scheduler, SchedulerOps, SchedulerInv, SchedulerIdle, SchedulerStatus, SchedulerSafety, SchedulerProps,
    SchedulerRunProps: \<^verbatim>\<open>core/order/scheduler\<close>, the nine scheduler states and all operations. The invariants
    hold after every run of operations: what is reported is the present state, idle means that nothing is
    left to do, no driving during blocking actions. A canceling scheduler gets idle once its actions and navigation end.
  \<^item> OrderManager, StatusManager, StateEventHandler, StateProps: \<^verbatim>\<open>core/state\<close>, what the state message
    is made of, and the handlers that keep it up to date.
  \<^item> InterpreterEvents, Interpreter, InterpreterRun, InterpreterPlan, InterpreterProps: \<^verbatim>\<open>core/interpreter/functional\<close>,
    the iterator that turns an order into events; it dispatches exactly the plan of the order. Its
    loop needs no fuel: a measure on the iterator decreases with every step.
  \<^item> ActionParameters, OrderChecks, OrderChecksProps, ActionChecks, ActionChecksProps: \<^verbatim>\<open>core/checks\<close> and
    \<^verbatim>\<open>misc/action_parameter_view\<close>, with the exact sets of orders and actions that are accepted.
  \<^item> EventManager: \<^verbatim>\<open>core/generic_event_manager\<close> and the six other managers. Queue and thread refine the
    synchronous delivery: they lose, double and swap nothing until the first exception.
  \<^item> AgvHandlers, ControlActions, Messages, MessagesProps, ControlProps: \<^verbatim>\<open>core/agv_handler\<close>, the handler classes of
    the user, \<^verbatim>\<open>core/interpreter/control_instant_actions\<close>, \<^verbatim>\<open>core/events/event_control_blocks\<close>,
    \<^verbatim>\<open>core/validation\<close> and \<^verbatim>\<open>core/messages/message_event_handler\<close>: what becomes of a received order or instant
    action, and how pause, resume and cancel are followed up.
  \<^item> OrderHandler, OrderFlow, OrderFlowProps: \<^verbatim>\<open>core/order/order_event_handler\<close>, and the whole way of an order
    from its validation to the state and the scheduler.

  \<^item> Threads, Semaphore, BlockingQueue, InterruptableTimer: \<^verbatim>\<open>core/common/semaphore\<close>, \<^verbatim>\<open>blocking_queue\<close> and
    \<^verbatim>\<open>interruptable_timer\<close> under every interleaving of their threads, as step relations with invariants: no
    wakeup is lost, the queue is first in first out, an interruption interrupts every sleep that has been
    counted. A blocked thread goes on only by a notification, for no reason, or when its time is over, so
    that a missing notification shows.
  \<^item> StateTimers, StateTimersProps: \<^verbatim>\<open>core/state/state_update_timer\<close> and \<^verbatim>\<open>visualization_timer\<close>: when the state is
    sent, in time for every request that comes while the thread sleeps, and how other requests can be lost.
  \<^item> SubConfigs, AgvDescription, Config, ConfigProps: \<^verbatim>\<open>config.cpp\<close>, \<^verbatim>\<open>config/\<close> and \<^verbatim>\<open>agv_description/\<close>: the configuration of
    the modules, of the vehicle and of the user, as it is loaded and saved, with everything that a saved
    configuration loses.
  \<^item> Instance, InstanceProps: \<^verbatim>\<open>core/instance\<close>, \<^verbatim>\<open>core/logger\<close>, \<^verbatim>\<open>core/module\<close> and \<^verbatim>\<open>handle\<close>: the modules that a handle
    initializes, in which order, and the loggers they get.
  \<^item> EventRouting: the six event managers with event ids. The locale \<open>event_ids\<close> states what an
    assignment of ids to the classes of events has to satisfy, and is interpreted on each of them.
  \<^item> Geometry, NavigationHandlers, NavigationProps: \<^verbatim>\<open>core/agv_handler/functional\<close>, \<^verbatim>\<open>node_reached_handler\<close>,
    \<^verbatim>\<open>navigation_event_handler\<close> and the sinks: when a vehicle is on a node, and what becomes of what it reports.
    With exact arithmetic the test is the geometric one.
  \<^item> Mqtt, MqttProps: \<^verbatim>\<open>core/messages/mqtt_module\<close>: its states, topics, headers and the calls of its client. Header
    ids increase, and what is announced of the connection is true.
  \<^item> Observers: \<^verbatim>\<open>observer/message_observer\<close> and \<^verbatim>\<open>order_observer\<close>, compared with the state and the module; the
    runs have the events of the order and those of the interpreter.
  \<^item> Factsheet, FactsheetProps, StandardActions: \<^verbatim>\<open>core/factsheet\<close>, \<^verbatim>\<open>core/common/conversion\<close> and
    \<^verbatim>\<open>misc/action_declarations.h\<close>: the factsheet, and how far it tells which actions are accepted.
  \<^item> ExceptionText: \<^verbatim>\<open>exception.cpp\<close> and \<^verbatim>\<open>core/common/exception\<close>: the text of an exception and of a call stack.

  \<^bold>\<open>Assumptions.\<close> The queue class \<^verbatim>\<open>eventpp::EventQueue\<close> delivers in the order of the calls and catches
  nothing. Third-party code is an argument: the text formatting of \<^verbatim>\<open>fmt\<close>, \<^verbatim>\<open>std::stod\<close> and the operations
  of doubles; the typed access, the parser and the printer of \<^verbatim>\<open>toml++\<close>, of which a saved configuration assumes
  only that a value is read as it was written and a table parsed as it was printed; the JSON library; the clock; the files, a map from paths to
  contents; the demangling of names; and the MQTT client, of which every call may end in any way. The user's
  callbacks, handlers and subscribers are arguments too; they do not call back into the object that
  calls them. Memory is not exhausted.

  \<^bold>\<open>Bounds.\<close> No loop of the model runs on fuel: every recursion ends by a measure or by the length of its
  input. Counters and ids keep their width; the one property that needs them not to wrap around, the order of
  header ids, says so. Threads are any number, and a run is any finite sequence of their steps.

  \<^bold>\<open>Not modelled.\<close> The example programs and the tests; what is written to the logs; the conversion of the
  messages to and from JSON and the network, which are third-party; the automatic registration of the modules by static
  objects, whose order the language leaves open (a run starts from any list of registered modules); the thread wrapper
  \<^verbatim>\<open>ScopedThread\<close> and the type-erased pointer \<^verbatim>\<open>AnyPtr\<close>, thin layers over the standard library; and the weak memory model
  of the machine: a step of a thread is atomic and seen by all, and the data races that the source has are named where a
  property depends on them. The bodies of those messages that the library only passes on are opaque.
\<close>

end
